(* ===== verification/Gravity_Prelude.thy ===== *)
theory Gravity_Prelude
  imports Main "HOL-Library.Word" "HOL-Library.While_Combinator"
begin

text \<open>
  Shared vocabulary of the development: the C integer types as fixed-width words, byte
  memories, little-endian loads and stores (both sides of the transport are x86), and the
  facts about them that every component uses.  A memory is a total function from addresses
  to bytes; which addresses a routine touches is the subject of the frame lemmas of the
  components.
\<close>

unbundle bit_operations_syntax

type_synonym u8 = "8 word"
type_synonym u16 = "16 word"
type_synonym u32 = "32 word"
type_synonym u64 = "64 word"

text \<open>A byte-addressed memory: the shared memory object, a C buffer, the bytes of a union.\<close>

type_synonym mem = "nat \<Rightarrow> u8"

named_theorems mem_simps "loads, stores and their interaction"

section \<open>Little-endian words\<close>

fun le_word :: "u8 list \<Rightarrow> 'a::len word" where
  "le_word [] = 0"
| "le_word (b # bs) = ucast b OR push_bit 8 (le_word bs)"

definition le_bytes :: "nat \<Rightarrow> 'a::len word \<Rightarrow> u8 list" where
  "le_bytes n w = map (\<lambda>k. ucast (drop_bit (8 * k) w)) [0..<n]"

lemma length_le_bytes [simp]: "length (le_bytes n w) = n"
  by (simp add: le_bytes_def)

lemma nth_le_bytes [simp]: "k < n \<Longrightarrow> le_bytes n w ! k = ucast (drop_bit (8 * k) w)"
  by (simp add: le_bytes_def)

lemma bit_le_word:
  "bit (le_word bs :: 'a::len word) i \<longleftrightarrow>
     i < LENGTH('a) \<and> i div 8 < length bs \<and> bit (bs ! (i div 8)) (i mod 8)"
proof (induction bs arbitrary: i)
  case Nil
  then show ?case by simp
next
  case (Cons b bs)
  show ?case
  proof (cases "i < 8")
    case True
    then show ?thesis
      by (auto simp: bit_simps)
  next
    case False
    then obtain j where j: "i = 8 + j" by (metis le_add_diff_inverse not_less)
    have d: "(8 + j) div 8 = Suc (j div 8)" by simp
    have "\<not> bit b i" using False bit_imp_le_length[of b i] by auto
    then show ?thesis
      using Cons.IH[of j] j by (auto simp: bit_simps d)
  qed
qed

lemma le_word_le_bytes:
  fixes w :: "'a::len word"
  assumes "LENGTH('a) \<le> 8 * n"
  shows "le_word (le_bytes n w) = w"
proof (rule bit_eqI)
  fix i
  assume "possible_bit TYPE('a word) i"
  then have i: "i < LENGTH('a)" by (simp add: possible_bit_word)
  with assms have k: "i div 8 < n" by linarith
  have "bit (ucast (drop_bit (8 * (i div 8)) w) :: u8) (i mod 8) = bit w i"
    by (simp add: bit_simps)
  with i k show "bit (le_word (le_bytes n w) :: 'a word) i = bit w i"
    by (simp add: bit_le_word)
qed

lemma le_bytes_le_word:
  assumes "8 * length bs \<le> LENGTH('a)"
  shows "le_bytes (length bs) (le_word bs :: 'a::len word) = bs"
proof (rule nth_equalityI)
  fix k
  assume "k < length (le_bytes (length bs) (le_word bs :: 'a word))"
  then have k: "k < length bs" by simp
  have "(ucast (drop_bit (8 * k) (le_word bs :: 'a word)) :: u8) = bs ! k"
  proof (rule bit_eqI)
    fix j
    assume "possible_bit TYPE(8 word) j"
    then have j: "j < 8" by (simp add: possible_bit_word)
    moreover from j k assms have "8 * k + j < LENGTH('a)" by linarith
    moreover from j have "(8 * k + j) div 8 = k" and "(8 * k + j) mod 8 = j" by simp_all
    ultimately show "bit (ucast (drop_bit (8 * k) (le_word bs :: 'a word)) :: u8) j = bit (bs ! k) j"
      using k by (simp add: bit_simps bit_le_word)
  qed
  with k show "le_bytes (length bs) (le_word bs :: 'a word) ! k = bs ! k" by simp
qed simp

section \<open>Byte memories\<close>

definition rd :: "mem \<Rightarrow> nat \<Rightarrow> nat \<Rightarrow> u8 list" where
  "rd m a n = map (\<lambda>i. m (a + i)) [0..<n]"

definition wr :: "mem \<Rightarrow> nat \<Rightarrow> u8 list \<Rightarrow> mem" where
  "wr m a bs = (\<lambda>x. if a \<le> x \<and> x < a + length bs then bs ! (x - a) else m x)"

definition ld16 :: "mem \<Rightarrow> nat \<Rightarrow> u16" where "ld16 m a = le_word (rd m a 2)"
definition ld32 :: "mem \<Rightarrow> nat \<Rightarrow> u32" where "ld32 m a = le_word (rd m a 4)"
definition ld64 :: "mem \<Rightarrow> nat \<Rightarrow> u64" where "ld64 m a = le_word (rd m a 8)"

definition st16 :: "mem \<Rightarrow> nat \<Rightarrow> u16 \<Rightarrow> mem" where "st16 m a v = wr m a (le_bytes 2 v)"
definition st32 :: "mem \<Rightarrow> nat \<Rightarrow> u32 \<Rightarrow> mem" where "st32 m a v = wr m a (le_bytes 4 v)"
definition st64 :: "mem \<Rightarrow> nat \<Rightarrow> u64 \<Rightarrow> mem" where "st64 m a v = wr m a (le_bytes 8 v)"

lemma length_rd [simp]: "length (rd m a n) = n"
  by (simp add: rd_def)

lemma nth_rd [simp]: "i < n \<Longrightarrow> rd m a n ! i = m (a + i)"
  by (simp add: rd_def)

lemma rd_cong: "(\<And>i. i < n \<Longrightarrow> m (a + i) = m' (a + i)) \<Longrightarrow> rd m a n = rd m' a n"
  by (simp add: rd_def)

lemma rd_cong2: "(\<And>i. i < n \<Longrightarrow> m (a + i) = m' (b + i)) \<Longrightarrow> rd m a n = rd m' b n"
  by (simp add: rd_def)

lemma rd_append: "rd m a (n + k) = rd m a n @ rd m (a + n) k"
  by (rule nth_equalityI) (auto simp: nth_append)

lemma wr_outside: "x < a \<or> a + length bs \<le> x \<Longrightarrow> wr m a bs x = m x"
  by (auto simp: wr_def)

lemma wr_inside: "i < length bs \<Longrightarrow> wr m a bs (a + i) = bs ! i"
  by (simp add: wr_def)

lemma rd_wr_same [mem_simps]: "n = length bs \<Longrightarrow> rd (wr m a bs) a n = bs"
  by (rule nth_equalityI) (auto simp: wr_def)

lemma rd_wr_disjoint [mem_simps]:
  "a + n \<le> b \<or> b + length bs \<le> a \<Longrightarrow> rd (wr m b bs) a n = rd m a n"
  by (rule rd_cong) (auto simp: wr_def)

lemma wr_Nil [simp]: "wr m a [] = m"
  by (rule ext) (auto simp: wr_def)

lemma wr_Cons: "wr m a (b # bs) = wr (m(a := b)) (Suc a) bs"
  by (rule ext) (auto simp: wr_def nth_Cons')

lemma ld16_st16 [mem_simps]: "ld16 (st16 m a v) a = v"
  by (simp add: ld16_def st16_def rd_wr_same le_word_le_bytes)

lemma ld32_st32 [mem_simps]: "ld32 (st32 m a v) a = v"
  by (simp add: ld32_def st32_def rd_wr_same le_word_le_bytes)

lemma ld64_st64 [mem_simps]: "ld64 (st64 m a v) a = v"
  by (simp add: ld64_def st64_def rd_wr_same le_word_le_bytes)

lemma st16_outside [mem_simps]: "x < a \<or> a + 2 \<le> x \<Longrightarrow> st16 m a v x = m x"
  by (simp add: st16_def wr_outside)

lemma st32_outside [mem_simps]: "x < a \<or> a + 4 \<le> x \<Longrightarrow> st32 m a v x = m x"
  by (simp add: st32_def wr_outside)

lemma st64_outside [mem_simps]: "x < a \<or> a + 8 \<le> x \<Longrightarrow> st64 m a v x = m x"
  by (simp add: st64_def wr_outside)

lemma ld16_cong: "(\<And>i. i < 2 \<Longrightarrow> m (a + i) = m' (a + i)) \<Longrightarrow> ld16 m a = ld16 m' a"
  unfolding ld16_def by (metis rd_cong)

lemma ld32_cong: "(\<And>i. i < 4 \<Longrightarrow> m (a + i) = m' (a + i)) \<Longrightarrow> ld32 m a = ld32 m' a"
  unfolding ld32_def by (metis rd_cong)

lemma ld64_cong: "(\<And>i. i < 8 \<Longrightarrow> m (a + i) = m' (a + i)) \<Longrightarrow> ld64 m a = ld64 m' a"
  unfolding ld64_def by (metis rd_cong)

lemma ld16_cong2: "(\<And>i. i < 2 \<Longrightarrow> m (a + i) = m' (b + i)) \<Longrightarrow> ld16 m a = ld16 m' b"
  unfolding ld16_def by (metis rd_cong2)

lemma ld32_cong2: "(\<And>i. i < 4 \<Longrightarrow> m (a + i) = m' (b + i)) \<Longrightarrow> ld32 m a = ld32 m' b"
  unfolding ld32_def by (metis rd_cong2)

lemma ld64_cong2: "(\<And>i. i < 8 \<Longrightarrow> m (a + i) = m' (b + i)) \<Longrightarrow> ld64 m a = ld64 m' b"
  unfolding ld64_def by (metis rd_cong2)

text \<open>A byte list seen as a memory, zero beyond its end.\<close>

definition list_mem :: "u8 list \<Rightarrow> mem" where
  "list_mem bs = (\<lambda>i. if i < length bs then bs ! i else 0)"

lemma list_mem_rd: "i < n \<Longrightarrow> list_mem (rd m a n) i = m (a + i)"
  by (simp add: list_mem_def)

lemma list_mem_append: "i < length bs \<Longrightarrow> list_mem (bs @ cs) i = list_mem bs i"
  by (simp add: list_mem_def nth_append)

lemma list_mem_take: "i < n \<Longrightarrow> list_mem (take n bs) i = list_mem bs i"
  by (simp add: list_mem_def)

lemma ld32_st32_disjoint [mem_simps]:
  "a + 4 \<le> b \<or> b + 4 \<le> a \<Longrightarrow> ld32 (st32 m b v) a = ld32 m a"
  by (rule ld32_cong) (auto simp: mem_simps)

lemma ld32_wr_disjoint [mem_simps]:
  "a + 4 \<le> b \<or> b + length bs \<le> a \<Longrightarrow> ld32 (wr m b bs) a = ld32 m a"
  by (rule ld32_cong) (auto simp: wr_def)

section \<open>Power-of-two masks\<close>

text \<open>Ring indices are reduced with \<open>x & (size - 1)\<close> where \<open>size\<close> is a power of two.\<close>

lemma unat_and_mask:
  fixes x :: "'a::len word"
  shows "unat (x AND mask k) = unat x mod 2 ^ k"
  by (metis take_bit_eq_mask take_bit_eq_mod unsigned_take_bit_eq)

lemma mask_less: "k < LENGTH('a) \<Longrightarrow> unat ((x :: 'a::len word) AND mask k) < 2 ^ k"
  by (simp add: unat_and_mask)

lemma pow2_unat: "k < LENGTH('a) \<Longrightarrow> unat (2 ^ k :: 'a::len word) = 2 ^ k"
  by (metis take_bit_nat_eq_self_iff of_nat_numeral of_nat_power power_strict_increasing_iff
      one_less_numeral_iff semiring_norm(76) unsigned_of_nat)

lemma pow2_minus1: "(2 ^ k :: 'a::len word) - 1 = mask k"
  by (simp add: mask_eq_exp_minus_1)

lemma uint_and_mask:
  fixes x :: "'a::len word"
  shows "uint (x AND mask k) = uint x mod 2 ^ k"
  by (metis take_bit_eq_mask take_bit_eq_mod unsigned_take_bit_eq)

lemma and_mask_id:
  fixes x :: "'a::len word"
  assumes "LENGTH('a) \<le> k"
  shows "x AND mask k = x"
proof -
  have "(2::int) ^ LENGTH('a) \<le> 2 ^ k" using assms by (simp add: power_increasing)
  with uint_lt2p [of x] have "uint x < 2 ^ k" by linarith
  then have "uint (x AND mask k) = uint x" by (simp add: uint_and_mask)
  then show ?thesis by (simp add: word_uint_eq_iff)
qed

lemma uint_mod_wrap: "k \<le> n \<Longrightarrow> (a mod 2 ^ n) mod 2 ^ k = (a :: int) mod 2 ^ k"
  by (simp add: mod_mod_cancel le_imp_power_dvd)

lemma nat_mod_wrap: "k \<le> n \<Longrightarrow> (a mod 2 ^ n) mod 2 ^ k = (a :: nat) mod 2 ^ k"
  by (simp add: mod_mod_cancel le_imp_power_dvd)

lemma mask_add_left:
  fixes x :: "'a::len word"
  shows "((x AND mask k) + y) AND mask k = (x + y) AND mask k"
proof (cases "k \<le> LENGTH('a)")
  case True
  then show ?thesis
    by (simp add: word_uint_eq_iff uint_and_mask uint_word_ariths uint_mod_wrap mod_simps)
qed (simp add: and_mask_id)

lemma mask_diff_left:
  fixes x :: "'a::len word"
  shows "((x AND mask k) - y) AND mask k = (x - y) AND mask k"
  using mask_add_left [of x k "- y"] by simp

lemma mask_diff_right:
  fixes x :: "'a::len word"
  shows "(x - (y AND mask k)) AND mask k = (x - y) AND mask k"
proof (cases "k \<le> LENGTH('a)")
  case True
  then show ?thesis
    by (simp add: word_uint_eq_iff uint_and_mask uint_word_ariths uint_mod_wrap mod_simps)
qed (simp add: and_mask_id)

text \<open>Widening a 32-bit value keeps it.\<close>

lemma unat_ucast_32_64 [simp]: "unat (ucast (w :: u32) :: u64) = unat w"
proof -
  have "unat w < 2 ^ 64" using unsigned_less [of w, where ?'a = nat] by simp
  then show ?thesis by (simp add: unsigned_ucast_eq take_bit_nat_eq_self)
qed

end
