(* ===== verification/Ring_Core.thy ===== *)
theory Ring_Core
  imports Gravity_Prelude
begin

text \<open>
  The two byte-copy loops that the command ring and the completion ring share, and the
  arithmetic of their masked indices.  A ring of \<open>2 ^ k\<close> bytes at address \<open>base\<close> with
  consumer index \<open>rp\<close> and producer index \<open>wp\<close> represents the byte list \<open>ring_bytes\<close>: the
  lemmas say how writing behind the producer index and advancing either index act on it.
\<close>

section \<open>The copy loops\<close>

text \<open>\<^verbatim>\<open>for (i = 0; i < size; i++) ring[(pos + i) & mask] = src[i];\<close> with \<open>pos\<close> advancing\<close>

fun ring_put :: "mem \<Rightarrow> nat \<Rightarrow> u32 \<Rightarrow> u32 \<Rightarrow> u8 list \<Rightarrow> mem" where
  "ring_put m base msk pos [] = m"
| "ring_put m base msk pos (b # bs) =
     ring_put (m(base + unat (pos AND msk) := b)) base msk (pos + 1) bs"

text \<open>\<^verbatim>\<open>for (; i < hi; i++) dst[i] = ring[(head + i) & mask];\<close>\<close>

function ring_fetch :: "mem \<Rightarrow> nat \<Rightarrow> u32 \<Rightarrow> u32 \<Rightarrow> mem \<Rightarrow> nat \<Rightarrow> nat \<Rightarrow> mem" where
  "ring_fetch m base msk head dst i hi =
     (if i < hi
      then ring_fetch m base msk head (dst(i := m (base + unat ((head + of_nat i) AND msk)))) (Suc i) hi
      else dst)"
  by pat_completeness auto
termination
  by (relation "measure (\<lambda>(m, base, msk, head, dst, i, hi). hi - i)") auto

declare ring_fetch.simps [simp del]

section \<open>Masked indices\<close>

abbreviation slot :: "nat \<Rightarrow> u32 \<Rightarrow> nat \<Rightarrow> nat" where
  "slot k pos i \<equiv> unat ((pos + of_nat i) AND mask k)"

definition ring_used :: "nat \<Rightarrow> u32 \<Rightarrow> u32 \<Rightarrow> nat" where
  "ring_used k rp wp = unat ((wp - rp) AND mask k)"

definition ring_bytes :: "mem \<Rightarrow> nat \<Rightarrow> nat \<Rightarrow> u32 \<Rightarrow> u32 \<Rightarrow> u8 list" where
  "ring_bytes m base k rp wp = map (\<lambda>i. m (base + slot k rp i)) [0..<ring_used k rp wp]"

lemma length_ring_bytes [simp]: "length (ring_bytes m base k rp wp) = ring_used k rp wp"
  by (simp add: ring_bytes_def)

lemma nth_ring_bytes [simp]:
  "i < ring_used k rp wp \<Longrightarrow> ring_bytes m base k rp wp ! i = m (base + slot k rp i)"
  by (simp add: ring_bytes_def)

lemma slot_mod:
  assumes "k \<le> 32"
  shows "slot k pos i = (unat pos + i) mod 2 ^ k"
proof -
  have "slot k pos i = ((unat pos + i mod 2 ^ 32) mod 2 ^ 32) mod 2 ^ k"
    by (simp add: unat_and_mask unat_word_ariths unat_of_nat)
  also have "\<dots> = (unat pos + i mod 2 ^ 32) mod 2 ^ k"
    using assms by (rule nat_mod_wrap)
  also have "\<dots> = (unat pos + i) mod 2 ^ k"
    by (metis assms mod_add_right_eq nat_mod_wrap)
  finally show ?thesis .
qed

lemma slot_less: "k \<le> 32 \<Longrightarrow> slot k pos i < 2 ^ k"
  by (simp add: slot_mod)

lemma slot_inj:
  assumes "k \<le> 32" "i < 2 ^ k" "j < 2 ^ k" "slot k pos i = slot k pos j"
  shows "i = j"
proof -
  have "i = j" if "i \<le> j" "j < 2 ^ k" "(unat pos + i) mod 2 ^ k = (unat pos + j) mod 2 ^ k" for i j
  proof -
    have "2 ^ k dvd j - i" 
      using that mod_eq_dvd_iff_nat [of "unat pos + i" "unat pos + j" "2 ^ k"] by simp
    then show "i = j" using that by (auto dest: dvd_imp_le)
  qed
  then show ?thesis using assms by (metis slot_mod nle_le)
qed

lemma slot_shift: "slot k ((pos + of_nat n) AND mask k) i = slot k pos (n + i)"
  by (simp add: mask_add_left add.assoc)

lemma used_less: "k \<le> 32 \<Longrightarrow> ring_used k rp wp < 2 ^ k"
  by (simp add: ring_used_def unat_and_mask)

lemma slot_used: "slot k rp (ring_used k rp wp) = unat (wp AND mask k)"
proof -
  have "(rp + ((wp - rp) AND mask k)) AND mask k = wp AND mask k"
    using mask_add_left [of "wp - rp" k rp] by (simp add: add.commute)
  then show ?thesis by (simp add: ring_used_def)
qed

lemma used_enq:
  assumes "k \<le> 32" "ring_used k rp wp + n < 2 ^ k"
  shows "ring_used k rp ((wp + of_nat n) AND mask k) = ring_used k rp wp + n"
proof -
  have "((wp + of_nat n) AND mask k) - rp = ((wp + of_nat n) AND mask k) + (- rp)" by simp
  then have "(((wp + of_nat n) AND mask k) - rp) AND mask k = ((wp - rp) + of_nat n) AND mask k"
    by (simp only: mask_add_left) (simp add: algebra_simps)
  also have "\<dots> = (((wp - rp) AND mask k) + of_nat n) AND mask k"
    by (simp add: mask_add_left)
  finally show ?thesis
    using assms by (simp add: ring_used_def slot_mod)
qed

lemma used_deq:
  assumes "k \<le> 32" "n \<le> ring_used k rp wp"
  shows "ring_used k ((rp + of_nat n) AND mask k) wp = ring_used k rp wp - n"
proof -
  let ?u = "(wp - rp) AND mask k"
  have n: "n < 2 ^ 32"
    using assms(2) unsigned_less [of ?u, where ?'a = nat] unfolding ring_used_def by simp
  have "(wp - ((rp + of_nat n) AND mask k)) AND mask k = ((wp - rp) - of_nat n) AND mask k"
    by (simp add: mask_diff_right algebra_simps)
  also have "\<dots> = (?u - of_nat n) AND mask k" by (simp add: mask_diff_left)
  finally have eq: "(wp - ((rp + of_nat n) AND mask k)) AND mask k = (?u - of_nat n) AND mask k" .
  have le: "(of_nat n :: u32) \<le> ?u"
    using assms(2) n by (simp add: ring_used_def word_le_nat_alt unat_of_nat)
  have "unat ((?u - of_nat n) AND mask k) = (unat ?u - n) mod 2 ^ k"
    using le n by (simp add: unat_and_mask unat_sub unat_of_nat)
  also have "\<dots> = unat ?u - n"
    using used_less [OF assms(1), of rp wp] by (simp add: ring_used_def less_imp_diff_less)
  finally show ?thesis by (simp add: eq ring_used_def)
qed

section \<open>Writing, reading and advancing\<close>

lemma slot_Suc: "slot k (pos + 1) i = slot k pos (Suc i)"
  by (simp add: algebra_simps)

lemma slot_behind: "slot k wp j = slot k rp (ring_used k rp wp + j)"
proof -
  have "slot k rp (ring_used k rp wp + j) = slot k ((rp + of_nat (ring_used k rp wp)) AND mask k) j"
    by (simp add: slot_shift)
  also have "(rp + of_nat (ring_used k rp wp)) AND mask k = wp AND mask k"
    using slot_used [of rp k wp] by (metis word_unat_eq_iff)
  also have "slot k (wp AND mask k) j = slot k wp j" by (simp add: mask_add_left)
  finally show ?thesis by simp
qed

lemma ring_put_other:
  "(\<And>i. i < length bs \<Longrightarrow> x \<noteq> base + slot k pos i) \<Longrightarrow>
     ring_put m base (mask k) pos bs x = m x"
proof (induction bs arbitrary: m pos)
  case (Cons b bs)
  have "x \<noteq> base + slot k (pos + 1) i" if "i < length bs" for i
    using Cons.prems [of "Suc i"] that by (simp add: slot_Suc)
  moreover have "x \<noteq> base + slot k pos 0" using Cons.prems [of 0] by simp
  ultimately show ?case by (simp add: Cons.IH)
qed simp

lemma ring_put_slot:
  assumes "k \<le> 32"
  shows "length bs \<le> 2 ^ k \<Longrightarrow> i < length bs \<Longrightarrow>
     ring_put m base (mask k) pos bs (base + slot k pos i) = bs ! i"
proof (induction bs arbitrary: m pos i)
  case (Cons b bs)
  show ?case
  proof (cases i)
    case 0
    have "base + slot k pos 0 \<noteq> base + slot k (pos + 1) j" if "j < length bs" for j
      using that Cons.prems(1) slot_inj [OF assms, of 0 "Suc j" pos] by (auto simp: slot_Suc)
    then have "ring_put (m(base + slot k pos 0 := b)) base (mask k) (pos + 1) bs (base + slot k pos 0) = b"
      by (subst ring_put_other) auto
    with 0 show ?thesis by simp
  next
    case (Suc j)
    have "slot k pos i = slot k (pos + 1) j" using Suc slot_Suc [where k = k and pos = pos and i = j] by simp
    with Cons.prems Suc Cons.IH [of j] show ?thesis by simp
  qed
qed simp

lemma ring_put_outside:
  assumes "k \<le> 32" "x < base \<or> base + 2 ^ k \<le> x"
  shows "ring_put m base (mask k) pos bs x = m x"
proof (rule ring_put_other)
  fix i
  show "x \<noteq> base + slot k pos i" using assms(2) slot_less [OF assms(1), of pos i] by linarith
qed

lemma ring_bytes_cong:
  assumes "k \<le> 32" "\<And>x. base \<le> x \<Longrightarrow> x < base + 2 ^ k \<Longrightarrow> m x = m' x"
  shows "ring_bytes m base k rp wp = ring_bytes m' base k rp wp"
  unfolding ring_bytes_def using assms(2) slot_less [OF assms(1), of rp]
  by (intro map_cong refl) (simp add: trans_le_add1)

lemma ring_bytes_put:
  assumes "k \<le> 32" "ring_used k rp wp + length bs < 2 ^ k"
  shows "ring_bytes (ring_put m base (mask k) wp bs) base k rp
           ((wp + of_nat (length bs)) AND mask k) = ring_bytes m base k rp wp @ bs"
    (is "?l = ?r")
proof (rule nth_equalityI)
  show "length ?l = length ?r" using assms by (simp add: used_enq)
next
  fix i
  assume "i < length ?l"
  then have i: "i < ring_used k rp wp + length bs" using assms by (simp add: used_enq)
  have l: "?l ! i = ring_put m base (mask k) wp bs (base + slot k rp i)"
    using i assms by (simp add: used_enq)
  show "?l ! i = ?r ! i"
  proof (cases "i < ring_used k rp wp")
    case True
    have "base + slot k rp i \<noteq> base + slot k wp j" if "j < length bs" for j
      using that True assms slot_inj [OF assms(1), of i "ring_used k rp wp + j" rp]
      by (auto simp: slot_behind [where k = k and wp = wp and j = j and rp = rp])
    then show ?thesis using True by (simp add: l nth_append ring_put_other)
  next
    case False
    then obtain j where j: "i = ring_used k rp wp + j" "j < length bs"
      using i by (metis add_less_cancel_left le_Suc_ex not_less)
    have "slot k rp i = slot k wp j" using j(1) slot_behind [where k = k and wp = wp and j = j and rp = rp] by simp
    have "?l ! i = bs ! j"
      unfolding l \<open>slot k rp i = slot k wp j\<close>
      by (rule ring_put_slot) (use assms j in auto)
    with j show ?thesis by (simp add: nth_append)
  qed
qed

text \<open>A byte stored behind the producer index is not seen, and bytes that are there already stay.\<close>

lemma ring_bytes_behind:
  assumes "k \<le> 32" "ring_used k rp wp + j < 2 ^ k"
  shows "ring_bytes (m(base + slot k wp j := b)) base k rp wp = ring_bytes m base k rp wp"
proof -
  have "slot k rp i \<noteq> slot k wp j" if "i < ring_used k rp wp" for i
    using that assms slot_inj [of k i "ring_used k rp wp + j" rp]
      slot_behind [where k = k and wp = wp and j = j and rp = rp] by auto
  then show ?thesis by (auto simp: ring_bytes_def)
qed

lemma ring_put_same:
  assumes "k \<le> 32" "length bs \<le> 2 ^ k" "\<And>j. j < length bs \<Longrightarrow> m (base + slot k pos j) = bs ! j"
  shows "ring_put m base (mask k) pos bs = m"
proof
  fix x
  show "ring_put m base (mask k) pos bs x = m x"
  proof (cases "\<exists>j<length bs. x = base + slot k pos j")
    case True
    then show ?thesis using ring_put_slot [OF assms(1,2)] assms(3) by auto
  qed (simp add: ring_put_other)
qed

lemma ring_bytes_advance:
  assumes "k \<le> 32" "n \<le> ring_used k rp wp"
  shows "ring_bytes m base k ((rp + of_nat n) AND mask k) wp = drop n (ring_bytes m base k rp wp)"
  by (rule nth_equalityI) (use assms in \<open>auto simp: used_deq slot_shift\<close>)

lemma ring_fetch_eq:
  "ring_fetch m base msk head dst i hi =
     (\<lambda>x. if i \<le> x \<and> x < hi then m (base + unat ((head + of_nat x) AND msk)) else dst x)"
proof (induction m base msk head dst i hi rule: ring_fetch.induct)
  case (1 m base msk head dst i hi)
  show ?case
  proof (cases "i < hi")
    case True
    then show ?thesis
      by (subst ring_fetch.simps, simp only: 1 [OF True] if_True) (auto simp: fun_eq_iff)
  next
    case False
    then show ?thesis by (subst ring_fetch.simps) (auto simp: fun_eq_iff)
  qed
qed

lemma rd_ring_fetch:
  assumes "n \<le> ring_used k rp wp"
  shows "rd (ring_fetch m base (mask k) rp dst 0 n) 0 n = take n (ring_bytes m base k rp wp)"
  by (rule nth_equalityI) (use assms in \<open>auto simp: ring_fetch_eq\<close>)

lemma ring_fetch_twice:
  "i \<le> j \<Longrightarrow> j \<le> hi \<Longrightarrow>
     ring_fetch m base msk rp (ring_fetch m base msk rp dst i j) j hi = ring_fetch m base msk rp dst i hi"
  by (auto simp: ring_fetch_eq fun_eq_iff)

end
