(* ===== verification/Gravity_Protocol.thy ===== *)
theory Gravity_Protocol
  imports Gravity_Prelude
begin

text \<open>
  The wire protocol (\<^verbatim>\<open>protocol/include/gravity_protocol.h\<close>, \<^verbatim>\<open>protocol/src/gravity_protocol.c\<close>):
  the opcodes and enumerations with their numeric values, the packed command structures as
  records with a decoder \<open>_at\<close> that reads the fields at their packed little-endian offsets,
  encoders \<open>_bytes\<close> for the structures the program itself builds, the command names, header
  initialisation and header validation.  A C \<^verbatim>\<open>enum\<close> parameter or field is any 32-bit value,
  so the records carry \<open>u32\<close> and the enumerators are compared through their \<open>_val\<close>.
  A \<^verbatim>\<open>float\<close> field is its 32-bit IEEE-754 pattern.
\<close>

section \<open>Constants\<close>

definition GRAVITY_PROTOCOL_VERSION_MAJOR :: u16 where "GRAVITY_PROTOCOL_VERSION_MAJOR = 0"
definition GRAVITY_PROTOCOL_VERSION_MINOR :: u16 where "GRAVITY_PROTOCOL_VERSION_MINOR = 1"
definition GRAVITY_PROTOCOL_MAGIC :: u32 where "GRAVITY_PROTOCOL_MAGIC = 0x47525659"
definition GRAVITY_INVALID_HANDLE :: u32 where "GRAVITY_INVALID_HANDLE = 0"

text \<open>The \<^verbatim>\<open>GRAVITY_FEAT_*\<close> bits.\<close>

definition GRAVITY_FEAT_RING_BUFFER :: u32 where "GRAVITY_FEAT_RING_BUFFER = push_bit 0 1"
definition GRAVITY_FEAT_SHADER_MSL :: u32 where "GRAVITY_FEAT_SHADER_MSL = push_bit 1 1"
definition GRAVITY_FEAT_SHADER_AIR :: u32 where "GRAVITY_FEAT_SHADER_AIR = push_bit 2 1"
definition GRAVITY_FEAT_COMPUTE :: u32 where "GRAVITY_FEAT_COMPUTE = push_bit 3 1"
definition GRAVITY_FEAT_BLIT :: u32 where "GRAVITY_FEAT_BLIT = push_bit 4 1"
definition GRAVITY_FEAT_MSIX :: u32 where "GRAVITY_FEAT_MSIX = push_bit 5 1"
definition GRAVITY_FEAT_DISPLAY :: u32 where "GRAVITY_FEAT_DISPLAY = push_bit 6 1"

lemmas feature_defs = GRAVITY_FEAT_RING_BUFFER_def GRAVITY_FEAT_SHADER_MSL_def
  GRAVITY_FEAT_SHADER_AIR_def GRAVITY_FEAT_COMPUTE_def GRAVITY_FEAT_BLIT_def
  GRAVITY_FEAT_MSIX_def GRAVITY_FEAT_DISPLAY_def

lemmas version_defs = GRAVITY_PROTOCOL_VERSION_MAJOR_def GRAVITY_PROTOCOL_VERSION_MINOR_def
  GRAVITY_PROTOCOL_MAGIC_def

text \<open>\<^verbatim>\<open>(GRAVITY_PROTOCOL_VERSION_MAJOR << 16) | GRAVITY_PROTOCOL_VERSION_MINOR\<close>\<close>

definition protocol_version :: u32 where
  "protocol_version =
     push_bit 16 (ucast GRAVITY_PROTOCOL_VERSION_MAJOR) OR ucast GRAVITY_PROTOCOL_VERSION_MINOR"

section \<open>Opcodes\<close>

datatype (plugins only: code size) gravity_cmd_op =
    GRAVITY_CMD_NOP
  | GRAVITY_CMD_HELLO
  | GRAVITY_CMD_GOODBYE
  | GRAVITY_CMD_PING
  | GRAVITY_CMD_PONG
  | GRAVITY_CMD_GET_DEVICE_INFO
  | GRAVITY_CMD_DEVICE_INFO_RESPONSE
  | GRAVITY_CMD_CREATE_BUFFER
  | GRAVITY_CMD_DESTROY_BUFFER
  | GRAVITY_CMD_CREATE_TEXTURE
  | GRAVITY_CMD_DESTROY_TEXTURE
  | GRAVITY_CMD_CREATE_SAMPLER
  | GRAVITY_CMD_DESTROY_SAMPLER
  | GRAVITY_CMD_CREATE_SHADER
  | GRAVITY_CMD_DESTROY_SHADER
  | GRAVITY_CMD_CREATE_RENDER_PIPELINE
  | GRAVITY_CMD_DESTROY_RENDER_PIPELINE
  | GRAVITY_CMD_CREATE_COMPUTE_PIPELINE
  | GRAVITY_CMD_DESTROY_COMPUTE_PIPELINE
  | GRAVITY_CMD_CREATE_DEPTH_STENCIL
  | GRAVITY_CMD_DESTROY_DEPTH_STENCIL
  | GRAVITY_CMD_CMDBUF_CREATE
  | GRAVITY_CMD_CMDBUF_COMMIT
  | GRAVITY_CMD_CMDBUF_WAIT
  | GRAVITY_CMD_CMDBUF_COMPLETED
  | GRAVITY_CMD_RENDER_BEGIN
  | GRAVITY_CMD_RENDER_END
  | GRAVITY_CMD_RENDER_SET_PIPELINE
  | GRAVITY_CMD_RENDER_SET_VERTEX_BUFFER
  | GRAVITY_CMD_RENDER_SET_FRAGMENT_BUFFER
  | GRAVITY_CMD_RENDER_SET_FRAGMENT_TEXTURE
  | GRAVITY_CMD_RENDER_SET_FRAGMENT_SAMPLER
  | GRAVITY_CMD_RENDER_SET_VERTEX_TEXTURE
  | GRAVITY_CMD_RENDER_SET_VERTEX_SAMPLER
  | GRAVITY_CMD_RENDER_SET_VIEWPORT
  | GRAVITY_CMD_RENDER_SET_SCISSOR
  | GRAVITY_CMD_RENDER_SET_CULL_MODE
  | GRAVITY_CMD_RENDER_SET_WINDING
  | GRAVITY_CMD_RENDER_SET_DEPTH_STENCIL
  | GRAVITY_CMD_RENDER_SET_DEPTH_BIAS
  | GRAVITY_CMD_RENDER_SET_STENCIL_REF
  | GRAVITY_CMD_RENDER_SET_BLEND_COLOR
  | GRAVITY_CMD_RENDER_SET_TRIANGLE_FILL
  | GRAVITY_CMD_RENDER_DRAW
  | GRAVITY_CMD_RENDER_DRAW_INDEXED
  | GRAVITY_CMD_RENDER_DRAW_INSTANCED
  | GRAVITY_CMD_RENDER_DRAW_INDEXED_INSTANCED
  | GRAVITY_CMD_RENDER_DRAW_INDIRECT
  | GRAVITY_CMD_COMPUTE_BEGIN
  | GRAVITY_CMD_COMPUTE_END
  | GRAVITY_CMD_COMPUTE_SET_PIPELINE
  | GRAVITY_CMD_COMPUTE_SET_BUFFER
  | GRAVITY_CMD_COMPUTE_SET_TEXTURE
  | GRAVITY_CMD_COMPUTE_SET_SAMPLER
  | GRAVITY_CMD_COMPUTE_DISPATCH
  | GRAVITY_CMD_COMPUTE_DISPATCH_INDIRECT
  | GRAVITY_CMD_BLIT_BEGIN
  | GRAVITY_CMD_BLIT_END
  | GRAVITY_CMD_BLIT_COPY_BUFFER
  | GRAVITY_CMD_BLIT_COPY_TEXTURE
  | GRAVITY_CMD_BLIT_COPY_BUF_TO_TEX
  | GRAVITY_CMD_BLIT_COPY_TEX_TO_BUF
  | GRAVITY_CMD_BLIT_GENERATE_MIPMAPS
  | GRAVITY_CMD_BLIT_FILL_BUFFER
  | GRAVITY_CMD_BLIT_SYNCHRONIZE
  | GRAVITY_CMD_CREATE_FENCE
  | GRAVITY_CMD_DESTROY_FENCE
  | GRAVITY_CMD_WAIT_FENCE
  | GRAVITY_CMD_SIGNAL_FENCE
  | GRAVITY_CMD_CREATE_EVENT
  | GRAVITY_CMD_DESTROY_EVENT
  | GRAVITY_CMD_UPLOAD_DATA
  | GRAVITY_CMD_READBACK_DATA
  | GRAVITY_CMD_PRESENT
  | GRAVITY_CMD_RESIZE_DISPLAY
  | GRAVITY_CMD_MAX

primrec gravity_cmd_op_val :: "gravity_cmd_op \<Rightarrow> u16" where
    "gravity_cmd_op_val GRAVITY_CMD_NOP = 0x0"
  | "gravity_cmd_op_val GRAVITY_CMD_HELLO = 0x1"
  | "gravity_cmd_op_val GRAVITY_CMD_GOODBYE = 0x2"
  | "gravity_cmd_op_val GRAVITY_CMD_PING = 0x3"
  | "gravity_cmd_op_val GRAVITY_CMD_PONG = 0x4"
  | "gravity_cmd_op_val GRAVITY_CMD_GET_DEVICE_INFO = 0x100"
  | "gravity_cmd_op_val GRAVITY_CMD_DEVICE_INFO_RESPONSE = 0x101"
  | "gravity_cmd_op_val GRAVITY_CMD_CREATE_BUFFER = 0x200"
  | "gravity_cmd_op_val GRAVITY_CMD_DESTROY_BUFFER = 0x201"
  | "gravity_cmd_op_val GRAVITY_CMD_CREATE_TEXTURE = 0x210"
  | "gravity_cmd_op_val GRAVITY_CMD_DESTROY_TEXTURE = 0x211"
  | "gravity_cmd_op_val GRAVITY_CMD_CREATE_SAMPLER = 0x220"
  | "gravity_cmd_op_val GRAVITY_CMD_DESTROY_SAMPLER = 0x221"
  | "gravity_cmd_op_val GRAVITY_CMD_CREATE_SHADER = 0x300"
  | "gravity_cmd_op_val GRAVITY_CMD_DESTROY_SHADER = 0x301"
  | "gravity_cmd_op_val GRAVITY_CMD_CREATE_RENDER_PIPELINE = 0x400"
  | "gravity_cmd_op_val GRAVITY_CMD_DESTROY_RENDER_PIPELINE = 0x401"
  | "gravity_cmd_op_val GRAVITY_CMD_CREATE_COMPUTE_PIPELINE = 0x410"
  | "gravity_cmd_op_val GRAVITY_CMD_DESTROY_COMPUTE_PIPELINE = 0x411"
  | "gravity_cmd_op_val GRAVITY_CMD_CREATE_DEPTH_STENCIL = 0x420"
  | "gravity_cmd_op_val GRAVITY_CMD_DESTROY_DEPTH_STENCIL = 0x421"
  | "gravity_cmd_op_val GRAVITY_CMD_CMDBUF_CREATE = 0x500"
  | "gravity_cmd_op_val GRAVITY_CMD_CMDBUF_COMMIT = 0x501"
  | "gravity_cmd_op_val GRAVITY_CMD_CMDBUF_WAIT = 0x502"
  | "gravity_cmd_op_val GRAVITY_CMD_CMDBUF_COMPLETED = 0x503"
  | "gravity_cmd_op_val GRAVITY_CMD_RENDER_BEGIN = 0x600"
  | "gravity_cmd_op_val GRAVITY_CMD_RENDER_END = 0x601"
  | "gravity_cmd_op_val GRAVITY_CMD_RENDER_SET_PIPELINE = 0x610"
  | "gravity_cmd_op_val GRAVITY_CMD_RENDER_SET_VERTEX_BUFFER = 0x611"
  | "gravity_cmd_op_val GRAVITY_CMD_RENDER_SET_FRAGMENT_BUFFER = 0x612"
  | "gravity_cmd_op_val GRAVITY_CMD_RENDER_SET_FRAGMENT_TEXTURE = 0x613"
  | "gravity_cmd_op_val GRAVITY_CMD_RENDER_SET_FRAGMENT_SAMPLER = 0x614"
  | "gravity_cmd_op_val GRAVITY_CMD_RENDER_SET_VERTEX_TEXTURE = 0x615"
  | "gravity_cmd_op_val GRAVITY_CMD_RENDER_SET_VERTEX_SAMPLER = 0x616"
  | "gravity_cmd_op_val GRAVITY_CMD_RENDER_SET_VIEWPORT = 0x620"
  | "gravity_cmd_op_val GRAVITY_CMD_RENDER_SET_SCISSOR = 0x621"
  | "gravity_cmd_op_val GRAVITY_CMD_RENDER_SET_CULL_MODE = 0x622"
  | "gravity_cmd_op_val GRAVITY_CMD_RENDER_SET_WINDING = 0x623"
  | "gravity_cmd_op_val GRAVITY_CMD_RENDER_SET_DEPTH_STENCIL = 0x624"
  | "gravity_cmd_op_val GRAVITY_CMD_RENDER_SET_DEPTH_BIAS = 0x625"
  | "gravity_cmd_op_val GRAVITY_CMD_RENDER_SET_STENCIL_REF = 0x626"
  | "gravity_cmd_op_val GRAVITY_CMD_RENDER_SET_BLEND_COLOR = 0x627"
  | "gravity_cmd_op_val GRAVITY_CMD_RENDER_SET_TRIANGLE_FILL = 0x628"
  | "gravity_cmd_op_val GRAVITY_CMD_RENDER_DRAW = 0x640"
  | "gravity_cmd_op_val GRAVITY_CMD_RENDER_DRAW_INDEXED = 0x641"
  | "gravity_cmd_op_val GRAVITY_CMD_RENDER_DRAW_INSTANCED = 0x642"
  | "gravity_cmd_op_val GRAVITY_CMD_RENDER_DRAW_INDEXED_INSTANCED = 0x643"
  | "gravity_cmd_op_val GRAVITY_CMD_RENDER_DRAW_INDIRECT = 0x644"
  | "gravity_cmd_op_val GRAVITY_CMD_COMPUTE_BEGIN = 0x700"
  | "gravity_cmd_op_val GRAVITY_CMD_COMPUTE_END = 0x701"
  | "gravity_cmd_op_val GRAVITY_CMD_COMPUTE_SET_PIPELINE = 0x710"
  | "gravity_cmd_op_val GRAVITY_CMD_COMPUTE_SET_BUFFER = 0x711"
  | "gravity_cmd_op_val GRAVITY_CMD_COMPUTE_SET_TEXTURE = 0x712"
  | "gravity_cmd_op_val GRAVITY_CMD_COMPUTE_SET_SAMPLER = 0x713"
  | "gravity_cmd_op_val GRAVITY_CMD_COMPUTE_DISPATCH = 0x740"
  | "gravity_cmd_op_val GRAVITY_CMD_COMPUTE_DISPATCH_INDIRECT = 0x741"
  | "gravity_cmd_op_val GRAVITY_CMD_BLIT_BEGIN = 0x800"
  | "gravity_cmd_op_val GRAVITY_CMD_BLIT_END = 0x801"
  | "gravity_cmd_op_val GRAVITY_CMD_BLIT_COPY_BUFFER = 0x810"
  | "gravity_cmd_op_val GRAVITY_CMD_BLIT_COPY_TEXTURE = 0x811"
  | "gravity_cmd_op_val GRAVITY_CMD_BLIT_COPY_BUF_TO_TEX = 0x812"
  | "gravity_cmd_op_val GRAVITY_CMD_BLIT_COPY_TEX_TO_BUF = 0x813"
  | "gravity_cmd_op_val GRAVITY_CMD_BLIT_GENERATE_MIPMAPS = 0x820"
  | "gravity_cmd_op_val GRAVITY_CMD_BLIT_FILL_BUFFER = 0x830"
  | "gravity_cmd_op_val GRAVITY_CMD_BLIT_SYNCHRONIZE = 0x840"
  | "gravity_cmd_op_val GRAVITY_CMD_CREATE_FENCE = 0x900"
  | "gravity_cmd_op_val GRAVITY_CMD_DESTROY_FENCE = 0x901"
  | "gravity_cmd_op_val GRAVITY_CMD_WAIT_FENCE = 0x902"
  | "gravity_cmd_op_val GRAVITY_CMD_SIGNAL_FENCE = 0x903"
  | "gravity_cmd_op_val GRAVITY_CMD_CREATE_EVENT = 0x910"
  | "gravity_cmd_op_val GRAVITY_CMD_DESTROY_EVENT = 0x911"
  | "gravity_cmd_op_val GRAVITY_CMD_UPLOAD_DATA = 0xa00"
  | "gravity_cmd_op_val GRAVITY_CMD_READBACK_DATA = 0xa01"
  | "gravity_cmd_op_val GRAVITY_CMD_PRESENT = 0xb00"
  | "gravity_cmd_op_val GRAVITY_CMD_RESIZE_DISPLAY = 0xb01"
  | "gravity_cmd_op_val GRAVITY_CMD_MAX = 0xb02"

section \<open>Metal enumerations\<close>

datatype gravity_pixel_format =
    GRAVITY_PIXEL_FORMAT_INVALID
  | GRAVITY_PIXEL_FORMAT_A8_UNORM
  | GRAVITY_PIXEL_FORMAT_R8_UNORM
  | GRAVITY_PIXEL_FORMAT_R8_SNORM
  | GRAVITY_PIXEL_FORMAT_R8_UINT
  | GRAVITY_PIXEL_FORMAT_R16_UINT
  | GRAVITY_PIXEL_FORMAT_R16_FLOAT
  | GRAVITY_PIXEL_FORMAT_RG8_UNORM
  | GRAVITY_PIXEL_FORMAT_RG8_SNORM
  | GRAVITY_PIXEL_FORMAT_R32_UINT
  | GRAVITY_PIXEL_FORMAT_R32_FLOAT
  | GRAVITY_PIXEL_FORMAT_RG16_UINT
  | GRAVITY_PIXEL_FORMAT_RG16_FLOAT
  | GRAVITY_PIXEL_FORMAT_RGBA8_UNORM
  | GRAVITY_PIXEL_FORMAT_RGBA8_UNORM_SRGB
  | GRAVITY_PIXEL_FORMAT_RGBA8_SNORM
  | GRAVITY_PIXEL_FORMAT_RGBA8_UINT
  | GRAVITY_PIXEL_FORMAT_BGRA8_UNORM
  | GRAVITY_PIXEL_FORMAT_BGRA8_UNORM_SRGB
  | GRAVITY_PIXEL_FORMAT_RGB10A2_UNORM
  | GRAVITY_PIXEL_FORMAT_RG32_UINT
  | GRAVITY_PIXEL_FORMAT_RG32_FLOAT
  | GRAVITY_PIXEL_FORMAT_RGBA16_UINT
  | GRAVITY_PIXEL_FORMAT_RGBA16_FLOAT
  | GRAVITY_PIXEL_FORMAT_RGBA32_UINT
  | GRAVITY_PIXEL_FORMAT_RGBA32_FLOAT
  | GRAVITY_PIXEL_FORMAT_DEPTH16_UNORM
  | GRAVITY_PIXEL_FORMAT_DEPTH32_FLOAT
  | GRAVITY_PIXEL_FORMAT_STENCIL8
  | GRAVITY_PIXEL_FORMAT_DEPTH24_STENCIL8
  | GRAVITY_PIXEL_FORMAT_DEPTH32_FLOAT_STENCIL8

primrec gravity_pixel_format_val :: "gravity_pixel_format \<Rightarrow> u32" where
    "gravity_pixel_format_val GRAVITY_PIXEL_FORMAT_INVALID = 0"
  | "gravity_pixel_format_val GRAVITY_PIXEL_FORMAT_A8_UNORM = 1"
  | "gravity_pixel_format_val GRAVITY_PIXEL_FORMAT_R8_UNORM = 10"
  | "gravity_pixel_format_val GRAVITY_PIXEL_FORMAT_R8_SNORM = 12"
  | "gravity_pixel_format_val GRAVITY_PIXEL_FORMAT_R8_UINT = 13"
  | "gravity_pixel_format_val GRAVITY_PIXEL_FORMAT_R16_UINT = 23"
  | "gravity_pixel_format_val GRAVITY_PIXEL_FORMAT_R16_FLOAT = 25"
  | "gravity_pixel_format_val GRAVITY_PIXEL_FORMAT_RG8_UNORM = 30"
  | "gravity_pixel_format_val GRAVITY_PIXEL_FORMAT_RG8_SNORM = 32"
  | "gravity_pixel_format_val GRAVITY_PIXEL_FORMAT_R32_UINT = 53"
  | "gravity_pixel_format_val GRAVITY_PIXEL_FORMAT_R32_FLOAT = 55"
  | "gravity_pixel_format_val GRAVITY_PIXEL_FORMAT_RG16_UINT = 63"
  | "gravity_pixel_format_val GRAVITY_PIXEL_FORMAT_RG16_FLOAT = 65"
  | "gravity_pixel_format_val GRAVITY_PIXEL_FORMAT_RGBA8_UNORM = 70"
  | "gravity_pixel_format_val GRAVITY_PIXEL_FORMAT_RGBA8_UNORM_SRGB = 71"
  | "gravity_pixel_format_val GRAVITY_PIXEL_FORMAT_RGBA8_SNORM = 72"
  | "gravity_pixel_format_val GRAVITY_PIXEL_FORMAT_RGBA8_UINT = 73"
  | "gravity_pixel_format_val GRAVITY_PIXEL_FORMAT_BGRA8_UNORM = 80"
  | "gravity_pixel_format_val GRAVITY_PIXEL_FORMAT_BGRA8_UNORM_SRGB = 81"
  | "gravity_pixel_format_val GRAVITY_PIXEL_FORMAT_RGB10A2_UNORM = 90"
  | "gravity_pixel_format_val GRAVITY_PIXEL_FORMAT_RG32_UINT = 105"
  | "gravity_pixel_format_val GRAVITY_PIXEL_FORMAT_RG32_FLOAT = 107"
  | "gravity_pixel_format_val GRAVITY_PIXEL_FORMAT_RGBA16_UINT = 113"
  | "gravity_pixel_format_val GRAVITY_PIXEL_FORMAT_RGBA16_FLOAT = 115"
  | "gravity_pixel_format_val GRAVITY_PIXEL_FORMAT_RGBA32_UINT = 123"
  | "gravity_pixel_format_val GRAVITY_PIXEL_FORMAT_RGBA32_FLOAT = 125"
  | "gravity_pixel_format_val GRAVITY_PIXEL_FORMAT_DEPTH16_UNORM = 250"
  | "gravity_pixel_format_val GRAVITY_PIXEL_FORMAT_DEPTH32_FLOAT = 252"
  | "gravity_pixel_format_val GRAVITY_PIXEL_FORMAT_STENCIL8 = 253"
  | "gravity_pixel_format_val GRAVITY_PIXEL_FORMAT_DEPTH24_STENCIL8 = 255"
  | "gravity_pixel_format_val GRAVITY_PIXEL_FORMAT_DEPTH32_FLOAT_STENCIL8 = 260"

datatype gravity_texture_type =
    GRAVITY_TEXTURE_TYPE_1D
  | GRAVITY_TEXTURE_TYPE_1D_ARRAY
  | GRAVITY_TEXTURE_TYPE_2D
  | GRAVITY_TEXTURE_TYPE_2D_ARRAY
  | GRAVITY_TEXTURE_TYPE_2D_MS
  | GRAVITY_TEXTURE_TYPE_CUBE
  | GRAVITY_TEXTURE_TYPE_CUBE_ARRAY
  | GRAVITY_TEXTURE_TYPE_3D

primrec gravity_texture_type_val :: "gravity_texture_type \<Rightarrow> u32" where
    "gravity_texture_type_val GRAVITY_TEXTURE_TYPE_1D = 0"
  | "gravity_texture_type_val GRAVITY_TEXTURE_TYPE_1D_ARRAY = 1"
  | "gravity_texture_type_val GRAVITY_TEXTURE_TYPE_2D = 2"
  | "gravity_texture_type_val GRAVITY_TEXTURE_TYPE_2D_ARRAY = 3"
  | "gravity_texture_type_val GRAVITY_TEXTURE_TYPE_2D_MS = 4"
  | "gravity_texture_type_val GRAVITY_TEXTURE_TYPE_CUBE = 5"
  | "gravity_texture_type_val GRAVITY_TEXTURE_TYPE_CUBE_ARRAY = 6"
  | "gravity_texture_type_val GRAVITY_TEXTURE_TYPE_3D = 7"

datatype gravity_storage_mode =
    GRAVITY_STORAGE_SHARED
  | GRAVITY_STORAGE_MANAGED
  | GRAVITY_STORAGE_PRIVATE
  | GRAVITY_STORAGE_MEMORYLESS

primrec gravity_storage_mode_val :: "gravity_storage_mode \<Rightarrow> u32" where
    "gravity_storage_mode_val GRAVITY_STORAGE_SHARED = 0"
  | "gravity_storage_mode_val GRAVITY_STORAGE_MANAGED = 1"
  | "gravity_storage_mode_val GRAVITY_STORAGE_PRIVATE = 2"
  | "gravity_storage_mode_val GRAVITY_STORAGE_MEMORYLESS = 3"

datatype gravity_load_action =
    GRAVITY_LOAD_DONT_CARE
  | GRAVITY_LOAD_LOAD
  | GRAVITY_LOAD_CLEAR

primrec gravity_load_action_val :: "gravity_load_action \<Rightarrow> u32" where
    "gravity_load_action_val GRAVITY_LOAD_DONT_CARE = 0"
  | "gravity_load_action_val GRAVITY_LOAD_LOAD = 1"
  | "gravity_load_action_val GRAVITY_LOAD_CLEAR = 2"

datatype gravity_store_action =
    GRAVITY_STORE_DONT_CARE
  | GRAVITY_STORE_STORE
  | GRAVITY_STORE_MULTISAMPLE_RESOLVE
  | GRAVITY_STORE_STORE_AND_MULTISAMPLE_RESOLVE
  | GRAVITY_STORE_UNKNOWN
  | GRAVITY_STORE_CUSTOM_SAMPLE_DEPTH_STORE

primrec gravity_store_action_val :: "gravity_store_action \<Rightarrow> u32" where
    "gravity_store_action_val GRAVITY_STORE_DONT_CARE = 0"
  | "gravity_store_action_val GRAVITY_STORE_STORE = 1"
  | "gravity_store_action_val GRAVITY_STORE_MULTISAMPLE_RESOLVE = 2"
  | "gravity_store_action_val GRAVITY_STORE_STORE_AND_MULTISAMPLE_RESOLVE = 3"
  | "gravity_store_action_val GRAVITY_STORE_UNKNOWN = 4"
  | "gravity_store_action_val GRAVITY_STORE_CUSTOM_SAMPLE_DEPTH_STORE = 5"

datatype gravity_primitive_type =
    GRAVITY_PRIMITIVE_POINT
  | GRAVITY_PRIMITIVE_LINE
  | GRAVITY_PRIMITIVE_LINE_STRIP
  | GRAVITY_PRIMITIVE_TRIANGLE
  | GRAVITY_PRIMITIVE_TRIANGLE_STRIP

primrec gravity_primitive_type_val :: "gravity_primitive_type \<Rightarrow> u32" where
    "gravity_primitive_type_val GRAVITY_PRIMITIVE_POINT = 0"
  | "gravity_primitive_type_val GRAVITY_PRIMITIVE_LINE = 1"
  | "gravity_primitive_type_val GRAVITY_PRIMITIVE_LINE_STRIP = 2"
  | "gravity_primitive_type_val GRAVITY_PRIMITIVE_TRIANGLE = 3"
  | "gravity_primitive_type_val GRAVITY_PRIMITIVE_TRIANGLE_STRIP = 4"

datatype gravity_index_type =
    GRAVITY_INDEX_UINT16
  | GRAVITY_INDEX_UINT32

primrec gravity_index_type_val :: "gravity_index_type \<Rightarrow> u32" where
    "gravity_index_type_val GRAVITY_INDEX_UINT16 = 0"
  | "gravity_index_type_val GRAVITY_INDEX_UINT32 = 1"

datatype gravity_cull_mode =
    GRAVITY_CULL_NONE
  | GRAVITY_CULL_FRONT
  | GRAVITY_CULL_BACK

primrec gravity_cull_mode_val :: "gravity_cull_mode \<Rightarrow> u32" where
    "gravity_cull_mode_val GRAVITY_CULL_NONE = 0"
  | "gravity_cull_mode_val GRAVITY_CULL_FRONT = 1"
  | "gravity_cull_mode_val GRAVITY_CULL_BACK = 2"

datatype gravity_winding =
    GRAVITY_WINDING_CW
  | GRAVITY_WINDING_CCW

primrec gravity_winding_val :: "gravity_winding \<Rightarrow> u32" where
    "gravity_winding_val GRAVITY_WINDING_CW = 0"
  | "gravity_winding_val GRAVITY_WINDING_CCW = 1"

datatype gravity_triangle_fill_mode =
    GRAVITY_FILL_FILL
  | GRAVITY_FILL_LINES

primrec gravity_triangle_fill_mode_val :: "gravity_triangle_fill_mode \<Rightarrow> u32" where
    "gravity_triangle_fill_mode_val GRAVITY_FILL_FILL = 0"
  | "gravity_triangle_fill_mode_val GRAVITY_FILL_LINES = 1"

datatype gravity_compare_function =
    GRAVITY_COMPARE_NEVER
  | GRAVITY_COMPARE_LESS
  | GRAVITY_COMPARE_EQUAL
  | GRAVITY_COMPARE_LESS_EQUAL
  | GRAVITY_COMPARE_GREATER
  | GRAVITY_COMPARE_NOT_EQUAL
  | GRAVITY_COMPARE_GREATER_EQUAL
  | GRAVITY_COMPARE_ALWAYS

primrec gravity_compare_function_val :: "gravity_compare_function \<Rightarrow> u32" where
    "gravity_compare_function_val GRAVITY_COMPARE_NEVER = 0"
  | "gravity_compare_function_val GRAVITY_COMPARE_LESS = 1"
  | "gravity_compare_function_val GRAVITY_COMPARE_EQUAL = 2"
  | "gravity_compare_function_val GRAVITY_COMPARE_LESS_EQUAL = 3"
  | "gravity_compare_function_val GRAVITY_COMPARE_GREATER = 4"
  | "gravity_compare_function_val GRAVITY_COMPARE_NOT_EQUAL = 5"
  | "gravity_compare_function_val GRAVITY_COMPARE_GREATER_EQUAL = 6"
  | "gravity_compare_function_val GRAVITY_COMPARE_ALWAYS = 7"

datatype gravity_sampler_address_mode =
    GRAVITY_ADDRESS_CLAMP_TO_EDGE
  | GRAVITY_ADDRESS_MIRROR_CLAMP
  | GRAVITY_ADDRESS_REPEAT
  | GRAVITY_ADDRESS_MIRROR_REPEAT
  | GRAVITY_ADDRESS_CLAMP_TO_ZERO
  | GRAVITY_ADDRESS_CLAMP_TO_BORDER

primrec gravity_sampler_address_mode_val :: "gravity_sampler_address_mode \<Rightarrow> u32" where
    "gravity_sampler_address_mode_val GRAVITY_ADDRESS_CLAMP_TO_EDGE = 0"
  | "gravity_sampler_address_mode_val GRAVITY_ADDRESS_MIRROR_CLAMP = 1"
  | "gravity_sampler_address_mode_val GRAVITY_ADDRESS_REPEAT = 2"
  | "gravity_sampler_address_mode_val GRAVITY_ADDRESS_MIRROR_REPEAT = 3"
  | "gravity_sampler_address_mode_val GRAVITY_ADDRESS_CLAMP_TO_ZERO = 4"
  | "gravity_sampler_address_mode_val GRAVITY_ADDRESS_CLAMP_TO_BORDER = 5"

datatype gravity_sampler_min_mag_filter =
    GRAVITY_FILTER_NEAREST
  | GRAVITY_FILTER_LINEAR

primrec gravity_sampler_min_mag_filter_val :: "gravity_sampler_min_mag_filter \<Rightarrow> u32" where
    "gravity_sampler_min_mag_filter_val GRAVITY_FILTER_NEAREST = 0"
  | "gravity_sampler_min_mag_filter_val GRAVITY_FILTER_LINEAR = 1"

datatype gravity_sampler_mip_filter =
    GRAVITY_MIP_NOT_MIPMAPPED
  | GRAVITY_MIP_NEAREST
  | GRAVITY_MIP_LINEAR

primrec gravity_sampler_mip_filter_val :: "gravity_sampler_mip_filter \<Rightarrow> u32" where
    "gravity_sampler_mip_filter_val GRAVITY_MIP_NOT_MIPMAPPED = 0"
  | "gravity_sampler_mip_filter_val GRAVITY_MIP_NEAREST = 1"
  | "gravity_sampler_mip_filter_val GRAVITY_MIP_LINEAR = 2"

datatype gravity_blend_factor =
    GRAVITY_BLEND_ZERO
  | GRAVITY_BLEND_ONE
  | GRAVITY_BLEND_SRC_COLOR
  | GRAVITY_BLEND_ONE_MINUS_SRC_COLOR
  | GRAVITY_BLEND_SRC_ALPHA
  | GRAVITY_BLEND_ONE_MINUS_SRC_ALPHA
  | GRAVITY_BLEND_DST_COLOR
  | GRAVITY_BLEND_ONE_MINUS_DST_COLOR
  | GRAVITY_BLEND_DST_ALPHA
  | GRAVITY_BLEND_ONE_MINUS_DST_ALPHA
  | GRAVITY_BLEND_SRC_ALPHA_SATURATED
  | GRAVITY_BLEND_BLEND_COLOR
  | GRAVITY_BLEND_ONE_MINUS_BLEND_COLOR
  | GRAVITY_BLEND_BLEND_ALPHA
  | GRAVITY_BLEND_ONE_MINUS_BLEND_ALPHA

primrec gravity_blend_factor_val :: "gravity_blend_factor \<Rightarrow> u32" where
    "gravity_blend_factor_val GRAVITY_BLEND_ZERO = 0"
  | "gravity_blend_factor_val GRAVITY_BLEND_ONE = 1"
  | "gravity_blend_factor_val GRAVITY_BLEND_SRC_COLOR = 2"
  | "gravity_blend_factor_val GRAVITY_BLEND_ONE_MINUS_SRC_COLOR = 3"
  | "gravity_blend_factor_val GRAVITY_BLEND_SRC_ALPHA = 4"
  | "gravity_blend_factor_val GRAVITY_BLEND_ONE_MINUS_SRC_ALPHA = 5"
  | "gravity_blend_factor_val GRAVITY_BLEND_DST_COLOR = 6"
  | "gravity_blend_factor_val GRAVITY_BLEND_ONE_MINUS_DST_COLOR = 7"
  | "gravity_blend_factor_val GRAVITY_BLEND_DST_ALPHA = 8"
  | "gravity_blend_factor_val GRAVITY_BLEND_ONE_MINUS_DST_ALPHA = 9"
  | "gravity_blend_factor_val GRAVITY_BLEND_SRC_ALPHA_SATURATED = 10"
  | "gravity_blend_factor_val GRAVITY_BLEND_BLEND_COLOR = 11"
  | "gravity_blend_factor_val GRAVITY_BLEND_ONE_MINUS_BLEND_COLOR = 12"
  | "gravity_blend_factor_val GRAVITY_BLEND_BLEND_ALPHA = 13"
  | "gravity_blend_factor_val GRAVITY_BLEND_ONE_MINUS_BLEND_ALPHA = 14"

datatype gravity_blend_operation =
    GRAVITY_BLEND_OP_ADD
  | GRAVITY_BLEND_OP_SUBTRACT
  | GRAVITY_BLEND_OP_REVERSE_SUBTRACT
  | GRAVITY_BLEND_OP_MIN
  | GRAVITY_BLEND_OP_MAX

primrec gravity_blend_operation_val :: "gravity_blend_operation \<Rightarrow> u32" where
    "gravity_blend_operation_val GRAVITY_BLEND_OP_ADD = 0"
  | "gravity_blend_operation_val GRAVITY_BLEND_OP_SUBTRACT = 1"
  | "gravity_blend_operation_val GRAVITY_BLEND_OP_REVERSE_SUBTRACT = 2"
  | "gravity_blend_operation_val GRAVITY_BLEND_OP_MIN = 3"
  | "gravity_blend_operation_val GRAVITY_BLEND_OP_MAX = 4"

datatype gravity_vertex_format =
    GRAVITY_VERTEX_FORMAT_INVALID
  | GRAVITY_VERTEX_FORMAT_FLOAT
  | GRAVITY_VERTEX_FORMAT_FLOAT2
  | GRAVITY_VERTEX_FORMAT_FLOAT3
  | GRAVITY_VERTEX_FORMAT_FLOAT4
  | GRAVITY_VERTEX_FORMAT_UCHAR4
  | GRAVITY_VERTEX_FORMAT_UCHAR4_NORM
  | GRAVITY_VERTEX_FORMAT_SHORT2
  | GRAVITY_VERTEX_FORMAT_SHORT4
  | GRAVITY_VERTEX_FORMAT_HALF2
  | GRAVITY_VERTEX_FORMAT_HALF4
  | GRAVITY_VERTEX_FORMAT_INT
  | GRAVITY_VERTEX_FORMAT_INT2
  | GRAVITY_VERTEX_FORMAT_INT3
  | GRAVITY_VERTEX_FORMAT_INT4
  | GRAVITY_VERTEX_FORMAT_UINT

primrec gravity_vertex_format_val :: "gravity_vertex_format \<Rightarrow> u32" where
    "gravity_vertex_format_val GRAVITY_VERTEX_FORMAT_INVALID = 0"
  | "gravity_vertex_format_val GRAVITY_VERTEX_FORMAT_FLOAT = 28"
  | "gravity_vertex_format_val GRAVITY_VERTEX_FORMAT_FLOAT2 = 29"
  | "gravity_vertex_format_val GRAVITY_VERTEX_FORMAT_FLOAT3 = 30"
  | "gravity_vertex_format_val GRAVITY_VERTEX_FORMAT_FLOAT4 = 31"
  | "gravity_vertex_format_val GRAVITY_VERTEX_FORMAT_UCHAR4 = 45"
  | "gravity_vertex_format_val GRAVITY_VERTEX_FORMAT_UCHAR4_NORM = 46"
  | "gravity_vertex_format_val GRAVITY_VERTEX_FORMAT_SHORT2 = 52"
  | "gravity_vertex_format_val GRAVITY_VERTEX_FORMAT_SHORT4 = 54"
  | "gravity_vertex_format_val GRAVITY_VERTEX_FORMAT_HALF2 = 56"
  | "gravity_vertex_format_val GRAVITY_VERTEX_FORMAT_HALF4 = 58"
  | "gravity_vertex_format_val GRAVITY_VERTEX_FORMAT_INT = 33"
  | "gravity_vertex_format_val GRAVITY_VERTEX_FORMAT_INT2 = 34"
  | "gravity_vertex_format_val GRAVITY_VERTEX_FORMAT_INT3 = 35"
  | "gravity_vertex_format_val GRAVITY_VERTEX_FORMAT_INT4 = 36"
  | "gravity_vertex_format_val GRAVITY_VERTEX_FORMAT_UINT = 37"

datatype gravity_vertex_step_function =
    GRAVITY_STEP_CONSTANT
  | GRAVITY_STEP_PER_VERTEX
  | GRAVITY_STEP_PER_INSTANCE
  | GRAVITY_STEP_PER_PATCH
  | GRAVITY_STEP_PER_PATCH_CONTROL

primrec gravity_vertex_step_function_val :: "gravity_vertex_step_function \<Rightarrow> u32" where
    "gravity_vertex_step_function_val GRAVITY_STEP_CONSTANT = 0"
  | "gravity_vertex_step_function_val GRAVITY_STEP_PER_VERTEX = 1"
  | "gravity_vertex_step_function_val GRAVITY_STEP_PER_INSTANCE = 2"
  | "gravity_vertex_step_function_val GRAVITY_STEP_PER_PATCH = 3"
  | "gravity_vertex_step_function_val GRAVITY_STEP_PER_PATCH_CONTROL = 4"

datatype gravity_stencil_operation =
    GRAVITY_STENCIL_OP_KEEP
  | GRAVITY_STENCIL_OP_ZERO
  | GRAVITY_STENCIL_OP_REPLACE
  | GRAVITY_STENCIL_OP_INCREMENT_CLAMP
  | GRAVITY_STENCIL_OP_DECREMENT_CLAMP
  | GRAVITY_STENCIL_OP_INVERT
  | GRAVITY_STENCIL_OP_INCREMENT_WRAP
  | GRAVITY_STENCIL_OP_DECREMENT_WRAP

primrec gravity_stencil_operation_val :: "gravity_stencil_operation \<Rightarrow> u32" where
    "gravity_stencil_operation_val GRAVITY_STENCIL_OP_KEEP = 0"
  | "gravity_stencil_operation_val GRAVITY_STENCIL_OP_ZERO = 1"
  | "gravity_stencil_operation_val GRAVITY_STENCIL_OP_REPLACE = 2"
  | "gravity_stencil_operation_val GRAVITY_STENCIL_OP_INCREMENT_CLAMP = 3"
  | "gravity_stencil_operation_val GRAVITY_STENCIL_OP_DECREMENT_CLAMP = 4"
  | "gravity_stencil_operation_val GRAVITY_STENCIL_OP_INVERT = 5"
  | "gravity_stencil_operation_val GRAVITY_STENCIL_OP_INCREMENT_WRAP = 6"
  | "gravity_stencil_operation_val GRAVITY_STENCIL_OP_DECREMENT_WRAP = 7"

datatype gravity_shader_type =
    GRAVITY_SHADER_VERTEX
  | GRAVITY_SHADER_FRAGMENT
  | GRAVITY_SHADER_COMPUTE

primrec gravity_shader_type_val :: "gravity_shader_type \<Rightarrow> u32" where
    "gravity_shader_type_val GRAVITY_SHADER_VERTEX = 0"
  | "gravity_shader_type_val GRAVITY_SHADER_FRAGMENT = 1"
  | "gravity_shader_type_val GRAVITY_SHADER_COMPUTE = 2"

datatype gravity_shader_source_type =
    GRAVITY_SHADER_SOURCE_MSL
  | GRAVITY_SHADER_SOURCE_METALLIB
  | GRAVITY_SHADER_SOURCE_AIR

primrec gravity_shader_source_type_val :: "gravity_shader_source_type \<Rightarrow> u32" where
    "gravity_shader_source_type_val GRAVITY_SHADER_SOURCE_MSL = 0"
  | "gravity_shader_source_type_val GRAVITY_SHADER_SOURCE_METALLIB = 1"
  | "gravity_shader_source_type_val GRAVITY_SHADER_SOURCE_AIR = 2"

section \<open>Command header\<close>

record gravity_cmd_header =
  hdr_opcode :: "u16"
  hdr_flags :: "u16"
  hdr_size :: "u32"
  hdr_sequence :: "u32"
  hdr_fence_id :: "u32"

definition gravity_cmd_header_at :: "mem \<Rightarrow> nat \<Rightarrow> gravity_cmd_header" where
  "gravity_cmd_header_at m a = \<lparr>
     hdr_opcode = ld16 m a,
     hdr_flags = ld16 m (a + 2),
     hdr_size = ld32 m (a + 4),
     hdr_sequence = ld32 m (a + 8),
     hdr_fence_id = ld32 m (a + 12)\<rparr>"

definition gravity_cmd_header_bytes :: "gravity_cmd_header \<Rightarrow> u8 list" where
  "gravity_cmd_header_bytes s =
     le_bytes 2 (hdr_opcode s) @
     le_bytes 2 (hdr_flags s) @
     le_bytes 4 (hdr_size s) @
     le_bytes 4 (hdr_sequence s) @
     le_bytes 4 (hdr_fence_id s)"

definition sizeof_cmd_header :: nat where "sizeof_cmd_header = 16"

section \<open>Command structures\<close>

record gravity_cmd_hello =
  hello_hdr :: "gravity_cmd_header"
  hello_magic :: "u32"
  hello_version_major :: "u16"
  hello_version_minor :: "u16"
  hello_guest_features :: "u32"
  hello_reserved :: "u32 list"

definition gravity_cmd_hello_at :: "mem \<Rightarrow> nat \<Rightarrow> gravity_cmd_hello" where
  "gravity_cmd_hello_at m a = \<lparr>
     hello_hdr = gravity_cmd_header_at m a,
     hello_magic = ld32 m (a + 16),
     hello_version_major = ld16 m (a + 20),
     hello_version_minor = ld16 m (a + 22),
     hello_guest_features = ld32 m (a + 24),
     hello_reserved = map (\<lambda>i. ld32 m (a + 28 + 4 * i)) [0..<4]\<rparr>"

definition gravity_cmd_hello_bytes :: "gravity_cmd_hello \<Rightarrow> u8 list" where
  "gravity_cmd_hello_bytes s =
     gravity_cmd_header_bytes (hello_hdr s) @
     le_bytes 4 (hello_magic s) @
     le_bytes 2 (hello_version_major s) @
     le_bytes 2 (hello_version_minor s) @
     le_bytes 4 (hello_guest_features s) @
     concat (map (le_bytes 4) (hello_reserved s))"

record gravity_cmd_hello_response =
  hresp_hdr :: "gravity_cmd_header"
  hresp_magic :: "u32"
  hresp_version_major :: "u16"
  hresp_version_minor :: "u16"
  hresp_host_features :: "u32"
  hresp_max_texture_size :: "u32"
  hresp_max_buffer_size :: "u32"
  hresp_max_threads_per_group :: "u32"
  hresp_reserved :: "u32 list"

definition gravity_cmd_hello_response_at :: "mem \<Rightarrow> nat \<Rightarrow> gravity_cmd_hello_response" where
  "gravity_cmd_hello_response_at m a = \<lparr>
     hresp_hdr = gravity_cmd_header_at m a,
     hresp_magic = ld32 m (a + 16),
     hresp_version_major = ld16 m (a + 20),
     hresp_version_minor = ld16 m (a + 22),
     hresp_host_features = ld32 m (a + 24),
     hresp_max_texture_size = ld32 m (a + 28),
     hresp_max_buffer_size = ld32 m (a + 32),
     hresp_max_threads_per_group = ld32 m (a + 36),
     hresp_reserved = map (\<lambda>i. ld32 m (a + 40 + 4 * i)) [0..<4]\<rparr>"

definition gravity_cmd_hello_response_bytes :: "gravity_cmd_hello_response \<Rightarrow> u8 list" where
  "gravity_cmd_hello_response_bytes s =
     gravity_cmd_header_bytes (hresp_hdr s) @
     le_bytes 4 (hresp_magic s) @
     le_bytes 2 (hresp_version_major s) @
     le_bytes 2 (hresp_version_minor s) @
     le_bytes 4 (hresp_host_features s) @
     le_bytes 4 (hresp_max_texture_size s) @
     le_bytes 4 (hresp_max_buffer_size s) @
     le_bytes 4 (hresp_max_threads_per_group s) @
     concat (map (le_bytes 4) (hresp_reserved s))"

record gravity_cmd_create_buffer =
  cb_hdr :: "gravity_cmd_header"
  cb_handle :: "u32"
  cb_size :: "u64"
  cb_storage_mode :: "u32"
  cb_usage :: "u32"
  cb_data_offset :: "u64"
  cb_data_size :: "u32"
  cb_reserved :: "u32"

definition gravity_cmd_create_buffer_at :: "mem \<Rightarrow> nat \<Rightarrow> gravity_cmd_create_buffer" where
  "gravity_cmd_create_buffer_at m a = \<lparr>
     cb_hdr = gravity_cmd_header_at m a,
     cb_handle = ld32 m (a + 16),
     cb_size = ld64 m (a + 20),
     cb_storage_mode = ld32 m (a + 28),
     cb_usage = ld32 m (a + 32),
     cb_data_offset = ld64 m (a + 36),
     cb_data_size = ld32 m (a + 44),
     cb_reserved = ld32 m (a + 48)\<rparr>"

record gravity_cmd_destroy_buffer =
  db_hdr :: "gravity_cmd_header"
  db_handle :: "u32"

definition gravity_cmd_destroy_buffer_at :: "mem \<Rightarrow> nat \<Rightarrow> gravity_cmd_destroy_buffer" where
  "gravity_cmd_destroy_buffer_at m a = \<lparr>
     db_hdr = gravity_cmd_header_at m a,
     db_handle = ld32 m (a + 16)\<rparr>"

record gravity_cmd_create_texture =
  ct_hdr :: "gravity_cmd_header"
  ct_handle :: "u32"
  ct_texture_type :: "u32"
  ct_pixel_format :: "u32"
  ct_width :: "u32"
  ct_height :: "u32"
  ct_depth :: "u32"
  ct_mipmap_levels :: "u32"
  ct_array_length :: "u32"
  ct_sample_count :: "u32"
  ct_storage_mode :: "u32"
  ct_usage :: "u32"
  ct_data_offset :: "u64"
  ct_data_size :: "u32"
  ct_reserved :: "u32"

definition gravity_cmd_create_texture_at :: "mem \<Rightarrow> nat \<Rightarrow> gravity_cmd_create_texture" where
  "gravity_cmd_create_texture_at m a = \<lparr>
     ct_hdr = gravity_cmd_header_at m a,
     ct_handle = ld32 m (a + 16),
     ct_texture_type = ld32 m (a + 20),
     ct_pixel_format = ld32 m (a + 24),
     ct_width = ld32 m (a + 28),
     ct_height = ld32 m (a + 32),
     ct_depth = ld32 m (a + 36),
     ct_mipmap_levels = ld32 m (a + 40),
     ct_array_length = ld32 m (a + 44),
     ct_sample_count = ld32 m (a + 48),
     ct_storage_mode = ld32 m (a + 52),
     ct_usage = ld32 m (a + 56),
     ct_data_offset = ld64 m (a + 60),
     ct_data_size = ld32 m (a + 68),
     ct_reserved = ld32 m (a + 72)\<rparr>"

record gravity_cmd_destroy_texture =
  dt_hdr :: "gravity_cmd_header"
  dt_handle :: "u32"

definition gravity_cmd_destroy_texture_at :: "mem \<Rightarrow> nat \<Rightarrow> gravity_cmd_destroy_texture" where
  "gravity_cmd_destroy_texture_at m a = \<lparr>
     dt_hdr = gravity_cmd_header_at m a,
     dt_handle = ld32 m (a + 16)\<rparr>"

record gravity_cmd_create_sampler =
  cs_hdr :: "gravity_cmd_header"
  cs_handle :: "u32"
  cs_min_filter :: "u32"
  cs_mag_filter :: "u32"
  cs_mip_filter :: "u32"
  cs_address_mode_s :: "u32"
  cs_address_mode_t :: "u32"
  cs_address_mode_r :: "u32"
  cs_lod_min_clamp :: "u32"
  cs_lod_max_clamp :: "u32"
  cs_max_anisotropy :: "u32"
  cs_compare_function :: "u32"
  cs_reserved :: "u32"

definition gravity_cmd_create_sampler_at :: "mem \<Rightarrow> nat \<Rightarrow> gravity_cmd_create_sampler" where
  "gravity_cmd_create_sampler_at m a = \<lparr>
     cs_hdr = gravity_cmd_header_at m a,
     cs_handle = ld32 m (a + 16),
     cs_min_filter = ld32 m (a + 20),
     cs_mag_filter = ld32 m (a + 24),
     cs_mip_filter = ld32 m (a + 28),
     cs_address_mode_s = ld32 m (a + 32),
     cs_address_mode_t = ld32 m (a + 36),
     cs_address_mode_r = ld32 m (a + 40),
     cs_lod_min_clamp = ld32 m (a + 44),
     cs_lod_max_clamp = ld32 m (a + 48),
     cs_max_anisotropy = ld32 m (a + 52),
     cs_compare_function = ld32 m (a + 56),
     cs_reserved = ld32 m (a + 60)\<rparr>"

record gravity_cmd_destroy_sampler =
  ds_hdr :: "gravity_cmd_header"
  ds_handle :: "u32"

definition gravity_cmd_destroy_sampler_at :: "mem \<Rightarrow> nat \<Rightarrow> gravity_cmd_destroy_sampler" where
  "gravity_cmd_destroy_sampler_at m a = \<lparr>
     ds_hdr = gravity_cmd_header_at m a,
     ds_handle = ld32 m (a + 16)\<rparr>"

record gravity_cmd_create_shader =
  csh_hdr :: "gravity_cmd_header"
  csh_handle :: "u32"
  csh_shader_type :: "u32"
  csh_source_type :: "u32"
  csh_source_offset :: "u64"
  csh_source_size :: "u32"
  csh_entry_point :: "u8 list"
  csh_reserved :: "u32"

definition gravity_cmd_create_shader_at :: "mem \<Rightarrow> nat \<Rightarrow> gravity_cmd_create_shader" where
  "gravity_cmd_create_shader_at m a = \<lparr>
     csh_hdr = gravity_cmd_header_at m a,
     csh_handle = ld32 m (a + 16),
     csh_shader_type = ld32 m (a + 20),
     csh_source_type = ld32 m (a + 24),
     csh_source_offset = ld64 m (a + 28),
     csh_source_size = ld32 m (a + 36),
     csh_entry_point = rd m (a + 40) 64,
     csh_reserved = ld32 m (a + 104)\<rparr>"

record gravity_vertex_attribute_desc =
  va_format :: "u32"
  va_offset :: "u32"
  va_buffer_index :: "u32"
  va_reserved :: "u32"

definition gravity_vertex_attribute_desc_at :: "mem \<Rightarrow> nat \<Rightarrow> gravity_vertex_attribute_desc" where
  "gravity_vertex_attribute_desc_at m a = \<lparr>
     va_format = ld32 m a,
     va_offset = ld32 m (a + 4),
     va_buffer_index = ld32 m (a + 8),
     va_reserved = ld32 m (a + 12)\<rparr>"

record gravity_vertex_buffer_layout_desc =
  vbl_stride :: "u32"
  vbl_step_function :: "u32"
  vbl_step_rate :: "u32"
  vbl_reserved :: "u32"

definition gravity_vertex_buffer_layout_desc_at :: "mem \<Rightarrow> nat \<Rightarrow> gravity_vertex_buffer_layout_desc" where
  "gravity_vertex_buffer_layout_desc_at m a = \<lparr>
     vbl_stride = ld32 m a,
     vbl_step_function = ld32 m (a + 4),
     vbl_step_rate = ld32 m (a + 8),
     vbl_reserved = ld32 m (a + 12)\<rparr>"

record gravity_color_attachment_desc =
  cad_pixel_format :: "u32"
  cad_blending_enabled :: "u8"
  cad_write_mask :: "u8"
  cad_reserved :: "u8 list"
  cad_rgb_blend_operation :: "u32"
  cad_alpha_blend_operation :: "u32"
  cad_src_rgb_blend_factor :: "u32"
  cad_dst_rgb_blend_factor :: "u32"
  cad_src_alpha_blend_factor :: "u32"
  cad_dst_alpha_blend_factor :: "u32"

definition gravity_color_attachment_desc_at :: "mem \<Rightarrow> nat \<Rightarrow> gravity_color_attachment_desc" where
  "gravity_color_attachment_desc_at m a = \<lparr>
     cad_pixel_format = ld32 m a,
     cad_blending_enabled = m (a + 4),
     cad_write_mask = m (a + 5),
     cad_reserved = rd m (a + 6) 2,
     cad_rgb_blend_operation = ld32 m (a + 8),
     cad_alpha_blend_operation = ld32 m (a + 12),
     cad_src_rgb_blend_factor = ld32 m (a + 16),
     cad_dst_rgb_blend_factor = ld32 m (a + 20),
     cad_src_alpha_blend_factor = ld32 m (a + 24),
     cad_dst_alpha_blend_factor = ld32 m (a + 28)\<rparr>"

record gravity_stencil_desc =
  sd_stencil_compare :: "u32"
  sd_stencil_fail_op :: "u32"
  sd_depth_fail_op :: "u32"
  sd_depth_stencil_pass_op :: "u32"
  sd_read_mask :: "u32"
  sd_write_mask :: "u32"

definition gravity_stencil_desc_at :: "mem \<Rightarrow> nat \<Rightarrow> gravity_stencil_desc" where
  "gravity_stencil_desc_at m a = \<lparr>
     sd_stencil_compare = ld32 m a,
     sd_stencil_fail_op = ld32 m (a + 4),
     sd_depth_fail_op = ld32 m (a + 8),
     sd_depth_stencil_pass_op = ld32 m (a + 12),
     sd_read_mask = ld32 m (a + 16),
     sd_write_mask = ld32 m (a + 20)\<rparr>"

record gravity_cmd_create_render_pipeline =
  crp_hdr :: "gravity_cmd_header"
  crp_handle :: "u32"
  crp_vertex_shader :: "u32"
  crp_fragment_shader :: "u32"
  crp_num_vertex_attributes :: "u32"
  crp_vertex_attributes :: "gravity_vertex_attribute_desc list"
  crp_num_vertex_buffer_layouts :: "u32"
  crp_vertex_buffer_layouts :: "gravity_vertex_buffer_layout_desc list"
  crp_num_color_attachments :: "u32"
  crp_color_attachments :: "gravity_color_attachment_desc list"
  crp_depth_attachment_format :: "u32"
  crp_stencil_attachment_format :: "u32"
  crp_sample_count :: "u32"
  crp_alpha_to_coverage_enabled :: "u8"
  crp_alpha_to_one_enabled :: "u8"
  crp_rasterization_enabled :: "u8"
  crp_reserved_pad :: "u8"
  crp_reserved :: "u32"

definition gravity_cmd_create_render_pipeline_at :: "mem \<Rightarrow> nat \<Rightarrow> gravity_cmd_create_render_pipeline" where
  "gravity_cmd_create_render_pipeline_at m a = \<lparr>
     crp_hdr = gravity_cmd_header_at m a,
     crp_handle = ld32 m (a + 16),
     crp_vertex_shader = ld32 m (a + 20),
     crp_fragment_shader = ld32 m (a + 24),
     crp_num_vertex_attributes = ld32 m (a + 28),
     crp_vertex_attributes = map (\<lambda>i. gravity_vertex_attribute_desc_at m (a + 32 + 16 * i)) [0..<31],
     crp_num_vertex_buffer_layouts = ld32 m (a + 528),
     crp_vertex_buffer_layouts = map (\<lambda>i. gravity_vertex_buffer_layout_desc_at m (a + 532 + 16 * i)) [0..<31],
     crp_num_color_attachments = ld32 m (a + 1028),
     crp_color_attachments = map (\<lambda>i. gravity_color_attachment_desc_at m (a + 1032 + 32 * i)) [0..<8],
     crp_depth_attachment_format = ld32 m (a + 1288),
     crp_stencil_attachment_format = ld32 m (a + 1292),
     crp_sample_count = ld32 m (a + 1296),
     crp_alpha_to_coverage_enabled = m (a + 1300),
     crp_alpha_to_one_enabled = m (a + 1301),
     crp_rasterization_enabled = m (a + 1302),
     crp_reserved_pad = m (a + 1303),
     crp_reserved = ld32 m (a + 1304)\<rparr>"

record gravity_cmd_create_depth_stencil =
  cds_hdr :: "gravity_cmd_header"
  cds_handle :: "u32"
  cds_depth_compare :: "u32"
  cds_depth_write_enabled :: "u8"
  cds_reserved_pad :: "u8 list"
  cds_front_face_stencil :: "gravity_stencil_desc"
  cds_back_face_stencil :: "gravity_stencil_desc"

definition gravity_cmd_create_depth_stencil_at :: "mem \<Rightarrow> nat \<Rightarrow> gravity_cmd_create_depth_stencil" where
  "gravity_cmd_create_depth_stencil_at m a = \<lparr>
     cds_hdr = gravity_cmd_header_at m a,
     cds_handle = ld32 m (a + 16),
     cds_depth_compare = ld32 m (a + 20),
     cds_depth_write_enabled = m (a + 24),
     cds_reserved_pad = rd m (a + 25) 3,
     cds_front_face_stencil = gravity_stencil_desc_at m (a + 28),
     cds_back_face_stencil = gravity_stencil_desc_at m (a + 52)\<rparr>"

record gravity_color_attachment_action =
  caa_texture :: "u32"
  caa_level :: "u32"
  caa_slice :: "u32"
  caa_load_action :: "u32"
  caa_store_action :: "u32"
  caa_clear_color :: "u32 list"

definition gravity_color_attachment_action_at :: "mem \<Rightarrow> nat \<Rightarrow> gravity_color_attachment_action" where
  "gravity_color_attachment_action_at m a = \<lparr>
     caa_texture = ld32 m a,
     caa_level = ld32 m (a + 4),
     caa_slice = ld32 m (a + 8),
     caa_load_action = ld32 m (a + 12),
     caa_store_action = ld32 m (a + 16),
     caa_clear_color = map (\<lambda>i. ld32 m (a + 20 + 4 * i)) [0..<4]\<rparr>"

record gravity_depth_attachment_action =
  daa_texture :: "u32"
  daa_level :: "u32"
  daa_slice :: "u32"
  daa_load_action :: "u32"
  daa_store_action :: "u32"
  daa_clear_depth :: "u32"
  daa_reserved :: "u32"

definition gravity_depth_attachment_action_at :: "mem \<Rightarrow> nat \<Rightarrow> gravity_depth_attachment_action" where
  "gravity_depth_attachment_action_at m a = \<lparr>
     daa_texture = ld32 m a,
     daa_level = ld32 m (a + 4),
     daa_slice = ld32 m (a + 8),
     daa_load_action = ld32 m (a + 12),
     daa_store_action = ld32 m (a + 16),
     daa_clear_depth = ld32 m (a + 20),
     daa_reserved = ld32 m (a + 24)\<rparr>"

record gravity_stencil_attachment_action =
  saa_texture :: "u32"
  saa_level :: "u32"
  saa_slice :: "u32"
  saa_load_action :: "u32"
  saa_store_action :: "u32"
  saa_clear_stencil :: "u32"
  saa_reserved :: "u32"

definition gravity_stencil_attachment_action_at :: "mem \<Rightarrow> nat \<Rightarrow> gravity_stencil_attachment_action" where
  "gravity_stencil_attachment_action_at m a = \<lparr>
     saa_texture = ld32 m a,
     saa_level = ld32 m (a + 4),
     saa_slice = ld32 m (a + 8),
     saa_load_action = ld32 m (a + 12),
     saa_store_action = ld32 m (a + 16),
     saa_clear_stencil = ld32 m (a + 20),
     saa_reserved = ld32 m (a + 24)\<rparr>"

record gravity_cmd_render_begin =
  rb_hdr :: "gravity_cmd_header"
  rb_cmdbuf :: "u32"
  rb_num_color_attachments :: "u32"
  rb_color_attachments :: "gravity_color_attachment_action list"
  rb_depth_attachment :: "gravity_depth_attachment_action"
  rb_stencil_attachment :: "gravity_stencil_attachment_action"
  rb_render_area_x :: "u32"
  rb_render_area_y :: "u32"
  rb_render_area_width :: "u32"
  rb_render_area_height :: "u32"

definition gravity_cmd_render_begin_at :: "mem \<Rightarrow> nat \<Rightarrow> gravity_cmd_render_begin" where
  "gravity_cmd_render_begin_at m a = \<lparr>
     rb_hdr = gravity_cmd_header_at m a,
     rb_cmdbuf = ld32 m (a + 16),
     rb_num_color_attachments = ld32 m (a + 20),
     rb_color_attachments = map (\<lambda>i. gravity_color_attachment_action_at m (a + 24 + 36 * i)) [0..<8],
     rb_depth_attachment = gravity_depth_attachment_action_at m (a + 312),
     rb_stencil_attachment = gravity_stencil_attachment_action_at m (a + 340),
     rb_render_area_x = ld32 m (a + 368),
     rb_render_area_y = ld32 m (a + 372),
     rb_render_area_width = ld32 m (a + 376),
     rb_render_area_height = ld32 m (a + 380)\<rparr>"

record gravity_cmd_render_end =
  re_hdr :: "gravity_cmd_header"
  re_cmdbuf :: "u32"

definition gravity_cmd_render_end_at :: "mem \<Rightarrow> nat \<Rightarrow> gravity_cmd_render_end" where
  "gravity_cmd_render_end_at m a = \<lparr>
     re_hdr = gravity_cmd_header_at m a,
     re_cmdbuf = ld32 m (a + 16)\<rparr>"

record gravity_viewport =
  vp_x :: "u32"
  vp_y :: "u32"
  vp_width :: "u32"
  vp_height :: "u32"
  vp_znear :: "u32"
  vp_zfar :: "u32"

definition gravity_viewport_at :: "mem \<Rightarrow> nat \<Rightarrow> gravity_viewport" where
  "gravity_viewport_at m a = \<lparr>
     vp_x = ld32 m a,
     vp_y = ld32 m (a + 4),
     vp_width = ld32 m (a + 8),
     vp_height = ld32 m (a + 12),
     vp_znear = ld32 m (a + 16),
     vp_zfar = ld32 m (a + 20)\<rparr>"

record gravity_scissor_rect =
  sr_x :: "u32"
  sr_y :: "u32"
  sr_width :: "u32"
  sr_height :: "u32"

definition gravity_scissor_rect_at :: "mem \<Rightarrow> nat \<Rightarrow> gravity_scissor_rect" where
  "gravity_scissor_rect_at m a = \<lparr>
     sr_x = ld32 m a,
     sr_y = ld32 m (a + 4),
     sr_width = ld32 m (a + 8),
     sr_height = ld32 m (a + 12)\<rparr>"

record gravity_cmd_render_set_vertex_buffer =
  svb_hdr :: "gravity_cmd_header"
  svb_cmdbuf :: "u32"
  svb_buffer :: "u32"
  svb_offset :: "u32"
  svb_index :: "u32"

definition gravity_cmd_render_set_vertex_buffer_at :: "mem \<Rightarrow> nat \<Rightarrow> gravity_cmd_render_set_vertex_buffer" where
  "gravity_cmd_render_set_vertex_buffer_at m a = \<lparr>
     svb_hdr = gravity_cmd_header_at m a,
     svb_cmdbuf = ld32 m (a + 16),
     svb_buffer = ld32 m (a + 20),
     svb_offset = ld32 m (a + 24),
     svb_index = ld32 m (a + 28)\<rparr>"

record gravity_cmd_render_set_viewport =
  svp_hdr :: "gravity_cmd_header"
  svp_cmdbuf :: "u32"
  svp_viewport :: "gravity_viewport"

definition gravity_cmd_render_set_viewport_at :: "mem \<Rightarrow> nat \<Rightarrow> gravity_cmd_render_set_viewport" where
  "gravity_cmd_render_set_viewport_at m a = \<lparr>
     svp_hdr = gravity_cmd_header_at m a,
     svp_cmdbuf = ld32 m (a + 16),
     svp_viewport = gravity_viewport_at m (a + 20)\<rparr>"

record gravity_cmd_render_set_scissor =
  ssc_hdr :: "gravity_cmd_header"
  ssc_cmdbuf :: "u32"
  ssc_rect :: "gravity_scissor_rect"

definition gravity_cmd_render_set_scissor_at :: "mem \<Rightarrow> nat \<Rightarrow> gravity_cmd_render_set_scissor" where
  "gravity_cmd_render_set_scissor_at m a = \<lparr>
     ssc_hdr = gravity_cmd_header_at m a,
     ssc_cmdbuf = ld32 m (a + 16),
     ssc_rect = gravity_scissor_rect_at m (a + 20)\<rparr>"

record gravity_cmd_render_draw =
  drw_hdr :: "gravity_cmd_header"
  drw_cmdbuf :: "u32"
  drw_primitive_type :: "u32"
  drw_vertex_start :: "u32"
  drw_vertex_count :: "u32"
  drw_reserved :: "u32"

definition gravity_cmd_render_draw_at :: "mem \<Rightarrow> nat \<Rightarrow> gravity_cmd_render_draw" where
  "gravity_cmd_render_draw_at m a = \<lparr>
     drw_hdr = gravity_cmd_header_at m a,
     drw_cmdbuf = ld32 m (a + 16),
     drw_primitive_type = ld32 m (a + 20),
     drw_vertex_start = ld32 m (a + 24),
     drw_vertex_count = ld32 m (a + 28),
     drw_reserved = ld32 m (a + 32)\<rparr>"

record gravity_cmd_render_draw_indexed =
  rdx_hdr :: "gravity_cmd_header"
  rdx_cmdbuf :: "u32"
  rdx_primitive_type :: "u32"
  rdx_index_count :: "u32"
  rdx_index_type :: "u32"
  rdx_index_buffer :: "u32"
  rdx_index_buffer_offset :: "u32"
  rdx_reserved :: "u32"

definition gravity_cmd_render_draw_indexed_at :: "mem \<Rightarrow> nat \<Rightarrow> gravity_cmd_render_draw_indexed" where
  "gravity_cmd_render_draw_indexed_at m a = \<lparr>
     rdx_hdr = gravity_cmd_header_at m a,
     rdx_cmdbuf = ld32 m (a + 16),
     rdx_primitive_type = ld32 m (a + 20),
     rdx_index_count = ld32 m (a + 24),
     rdx_index_type = ld32 m (a + 28),
     rdx_index_buffer = ld32 m (a + 32),
     rdx_index_buffer_offset = ld32 m (a + 36),
     rdx_reserved = ld32 m (a + 40)\<rparr>"

record gravity_cmd_render_draw_instanced =
  rdi_hdr :: "gravity_cmd_header"
  rdi_cmdbuf :: "u32"
  rdi_primitive_type :: "u32"
  rdi_vertex_start :: "u32"
  rdi_vertex_count :: "u32"
  rdi_instance_count :: "u32"
  rdi_base_instance :: "u32"
  rdi_reserved :: "u32"

definition gravity_cmd_render_draw_instanced_at :: "mem \<Rightarrow> nat \<Rightarrow> gravity_cmd_render_draw_instanced" where
  "gravity_cmd_render_draw_instanced_at m a = \<lparr>
     rdi_hdr = gravity_cmd_header_at m a,
     rdi_cmdbuf = ld32 m (a + 16),
     rdi_primitive_type = ld32 m (a + 20),
     rdi_vertex_start = ld32 m (a + 24),
     rdi_vertex_count = ld32 m (a + 28),
     rdi_instance_count = ld32 m (a + 32),
     rdi_base_instance = ld32 m (a + 36),
     rdi_reserved = ld32 m (a + 40)\<rparr>"

record gravity_cmd_present =
  pr_hdr :: "gravity_cmd_header"
  pr_texture :: "u32"
  pr_reserved :: "u32"

definition gravity_cmd_present_at :: "mem \<Rightarrow> nat \<Rightarrow> gravity_cmd_present" where
  "gravity_cmd_present_at m a = \<lparr>
     pr_hdr = gravity_cmd_header_at m a,
     pr_texture = ld32 m (a + 16),
     pr_reserved = ld32 m (a + 20)\<rparr>"

record gravity_cmd_resize_display =
  rsz_hdr :: "gravity_cmd_header"
  rsz_width :: "u32"
  rsz_height :: "u32"
  rsz_pixel_format :: "u32"
  rsz_reserved :: "u32"

definition gravity_cmd_resize_display_at :: "mem \<Rightarrow> nat \<Rightarrow> gravity_cmd_resize_display" where
  "gravity_cmd_resize_display_at m a = \<lparr>
     rsz_hdr = gravity_cmd_header_at m a,
     rsz_width = ld32 m (a + 16),
     rsz_height = ld32 m (a + 20),
     rsz_pixel_format = ld32 m (a + 24),
     rsz_reserved = ld32 m (a + 28)\<rparr>"

record gravity_cmd_cmdbuf_create =
  cbc_hdr :: "gravity_cmd_header"
  cbc_handle :: "u32"

definition gravity_cmd_cmdbuf_create_at :: "mem \<Rightarrow> nat \<Rightarrow> gravity_cmd_cmdbuf_create" where
  "gravity_cmd_cmdbuf_create_at m a = \<lparr>
     cbc_hdr = gravity_cmd_header_at m a,
     cbc_handle = ld32 m (a + 16)\<rparr>"

record gravity_cmd_cmdbuf_commit =
  cbm_hdr :: "gravity_cmd_header"
  cbm_handle :: "u32"

definition gravity_cmd_cmdbuf_commit_at :: "mem \<Rightarrow> nat \<Rightarrow> gravity_cmd_cmdbuf_commit" where
  "gravity_cmd_cmdbuf_commit_at m a = \<lparr>
     cbm_hdr = gravity_cmd_header_at m a,
     cbm_handle = ld32 m (a + 16)\<rparr>"

record gravity_cmd_cmdbuf_completed =
  comp_hdr :: "gravity_cmd_header"
  comp_handle :: "u32"
  comp_status :: "u32"
  comp_gpu_time_ns :: "u64"

definition gravity_cmd_cmdbuf_completed_at :: "mem \<Rightarrow> nat \<Rightarrow> gravity_cmd_cmdbuf_completed" where
  "gravity_cmd_cmdbuf_completed_at m a = \<lparr>
     comp_hdr = gravity_cmd_header_at m a,
     comp_handle = ld32 m (a + 16),
     comp_status = ld32 m (a + 20),
     comp_gpu_time_ns = ld64 m (a + 24)\<rparr>"

definition gravity_cmd_cmdbuf_completed_bytes :: "gravity_cmd_cmdbuf_completed \<Rightarrow> u8 list" where
  "gravity_cmd_cmdbuf_completed_bytes s =
     gravity_cmd_header_bytes (comp_hdr s) @
     le_bytes 4 (comp_handle s) @
     le_bytes 4 (comp_status s) @
     le_bytes 8 (comp_gpu_time_ns s)"

section \<open>Command names\<close>

definition cmd_names :: "(u16 \<times> string) list" where
  "cmd_names =
    [(gravity_cmd_op_val GRAVITY_CMD_NOP, ''NOP''),
     (gravity_cmd_op_val GRAVITY_CMD_HELLO, ''HELLO''),
     (gravity_cmd_op_val GRAVITY_CMD_GOODBYE, ''GOODBYE''),
     (gravity_cmd_op_val GRAVITY_CMD_PING, ''PING''),
     (gravity_cmd_op_val GRAVITY_CMD_PONG, ''PONG''),
     (gravity_cmd_op_val GRAVITY_CMD_GET_DEVICE_INFO, ''GET_DEVICE_INFO''),
     (gravity_cmd_op_val GRAVITY_CMD_DEVICE_INFO_RESPONSE, ''DEVICE_INFO_RESPONSE''),
     (gravity_cmd_op_val GRAVITY_CMD_CREATE_BUFFER, ''CREATE_BUFFER''),
     (gravity_cmd_op_val GRAVITY_CMD_DESTROY_BUFFER, ''DESTROY_BUFFER''),
     (gravity_cmd_op_val GRAVITY_CMD_CREATE_TEXTURE, ''CREATE_TEXTURE''),
     (gravity_cmd_op_val GRAVITY_CMD_DESTROY_TEXTURE, ''DESTROY_TEXTURE''),
     (gravity_cmd_op_val GRAVITY_CMD_CREATE_SAMPLER, ''CREATE_SAMPLER''),
     (gravity_cmd_op_val GRAVITY_CMD_DESTROY_SAMPLER, ''DESTROY_SAMPLER''),
     (gravity_cmd_op_val GRAVITY_CMD_CREATE_SHADER, ''CREATE_SHADER''),
     (gravity_cmd_op_val GRAVITY_CMD_DESTROY_SHADER, ''DESTROY_SHADER''),
     (gravity_cmd_op_val GRAVITY_CMD_CREATE_RENDER_PIPELINE, ''CREATE_RENDER_PIPELINE''),
     (gravity_cmd_op_val GRAVITY_CMD_DESTROY_RENDER_PIPELINE, ''DESTROY_RENDER_PIPELINE''),
     (gravity_cmd_op_val GRAVITY_CMD_CREATE_COMPUTE_PIPELINE, ''CREATE_COMPUTE_PIPELINE''),
     (gravity_cmd_op_val GRAVITY_CMD_DESTROY_COMPUTE_PIPELINE, ''DESTROY_COMPUTE_PIPELINE''),
     (gravity_cmd_op_val GRAVITY_CMD_CREATE_DEPTH_STENCIL, ''CREATE_DEPTH_STENCIL''),
     (gravity_cmd_op_val GRAVITY_CMD_DESTROY_DEPTH_STENCIL, ''DESTROY_DEPTH_STENCIL''),
     (gravity_cmd_op_val GRAVITY_CMD_CMDBUF_CREATE, ''CMDBUF_CREATE''),
     (gravity_cmd_op_val GRAVITY_CMD_CMDBUF_COMMIT, ''CMDBUF_COMMIT''),
     (gravity_cmd_op_val GRAVITY_CMD_CMDBUF_WAIT, ''CMDBUF_WAIT''),
     (gravity_cmd_op_val GRAVITY_CMD_CMDBUF_COMPLETED, ''CMDBUF_COMPLETED''),
     (gravity_cmd_op_val GRAVITY_CMD_RENDER_BEGIN, ''RENDER_BEGIN''),
     (gravity_cmd_op_val GRAVITY_CMD_RENDER_END, ''RENDER_END''),
     (gravity_cmd_op_val GRAVITY_CMD_RENDER_SET_PIPELINE, ''RENDER_SET_PIPELINE''),
     (gravity_cmd_op_val GRAVITY_CMD_RENDER_SET_VERTEX_BUFFER, ''RENDER_SET_VERTEX_BUFFER''),
     (gravity_cmd_op_val GRAVITY_CMD_RENDER_SET_FRAGMENT_BUFFER, ''RENDER_SET_FRAGMENT_BUFFER''),
     (gravity_cmd_op_val GRAVITY_CMD_RENDER_SET_FRAGMENT_TEXTURE, ''RENDER_SET_FRAGMENT_TEXTURE''),
     (gravity_cmd_op_val GRAVITY_CMD_RENDER_SET_FRAGMENT_SAMPLER, ''RENDER_SET_FRAGMENT_SAMPLER''),
     (gravity_cmd_op_val GRAVITY_CMD_RENDER_SET_VERTEX_TEXTURE, ''RENDER_SET_VERTEX_TEXTURE''),
     (gravity_cmd_op_val GRAVITY_CMD_RENDER_SET_VERTEX_SAMPLER, ''RENDER_SET_VERTEX_SAMPLER''),
     (gravity_cmd_op_val GRAVITY_CMD_RENDER_SET_VIEWPORT, ''RENDER_SET_VIEWPORT''),
     (gravity_cmd_op_val GRAVITY_CMD_RENDER_SET_SCISSOR, ''RENDER_SET_SCISSOR''),
     (gravity_cmd_op_val GRAVITY_CMD_RENDER_SET_CULL_MODE, ''RENDER_SET_CULL_MODE''),
     (gravity_cmd_op_val GRAVITY_CMD_RENDER_SET_WINDING, ''RENDER_SET_WINDING''),
     (gravity_cmd_op_val GRAVITY_CMD_RENDER_SET_DEPTH_STENCIL, ''RENDER_SET_DEPTH_STENCIL''),
     (gravity_cmd_op_val GRAVITY_CMD_RENDER_SET_DEPTH_BIAS, ''RENDER_SET_DEPTH_BIAS''),
     (gravity_cmd_op_val GRAVITY_CMD_RENDER_SET_STENCIL_REF, ''RENDER_SET_STENCIL_REF''),
     (gravity_cmd_op_val GRAVITY_CMD_RENDER_SET_BLEND_COLOR, ''RENDER_SET_BLEND_COLOR''),
     (gravity_cmd_op_val GRAVITY_CMD_RENDER_SET_TRIANGLE_FILL, ''RENDER_SET_TRIANGLE_FILL''),
     (gravity_cmd_op_val GRAVITY_CMD_RENDER_DRAW, ''RENDER_DRAW''),
     (gravity_cmd_op_val GRAVITY_CMD_RENDER_DRAW_INDEXED, ''RENDER_DRAW_INDEXED''),
     (gravity_cmd_op_val GRAVITY_CMD_RENDER_DRAW_INSTANCED, ''RENDER_DRAW_INSTANCED''),
     (gravity_cmd_op_val GRAVITY_CMD_RENDER_DRAW_INDEXED_INSTANCED, ''RENDER_DRAW_INDEXED_INSTANCED''),
     (gravity_cmd_op_val GRAVITY_CMD_RENDER_DRAW_INDIRECT, ''RENDER_DRAW_INDIRECT''),
     (gravity_cmd_op_val GRAVITY_CMD_COMPUTE_BEGIN, ''COMPUTE_BEGIN''),
     (gravity_cmd_op_val GRAVITY_CMD_COMPUTE_END, ''COMPUTE_END''),
     (gravity_cmd_op_val GRAVITY_CMD_COMPUTE_SET_PIPELINE, ''COMPUTE_SET_PIPELINE''),
     (gravity_cmd_op_val GRAVITY_CMD_COMPUTE_SET_BUFFER, ''COMPUTE_SET_BUFFER''),
     (gravity_cmd_op_val GRAVITY_CMD_COMPUTE_SET_TEXTURE, ''COMPUTE_SET_TEXTURE''),
     (gravity_cmd_op_val GRAVITY_CMD_COMPUTE_SET_SAMPLER, ''COMPUTE_SET_SAMPLER''),
     (gravity_cmd_op_val GRAVITY_CMD_COMPUTE_DISPATCH, ''COMPUTE_DISPATCH''),
     (gravity_cmd_op_val GRAVITY_CMD_COMPUTE_DISPATCH_INDIRECT, ''COMPUTE_DISPATCH_INDIRECT''),
     (gravity_cmd_op_val GRAVITY_CMD_BLIT_BEGIN, ''BLIT_BEGIN''),
     (gravity_cmd_op_val GRAVITY_CMD_BLIT_END, ''BLIT_END''),
     (gravity_cmd_op_val GRAVITY_CMD_BLIT_COPY_BUFFER, ''BLIT_COPY_BUFFER''),
     (gravity_cmd_op_val GRAVITY_CMD_BLIT_COPY_TEXTURE, ''BLIT_COPY_TEXTURE''),
     (gravity_cmd_op_val GRAVITY_CMD_BLIT_COPY_BUF_TO_TEX, ''BLIT_COPY_BUF_TO_TEX''),
     (gravity_cmd_op_val GRAVITY_CMD_BLIT_COPY_TEX_TO_BUF, ''BLIT_COPY_TEX_TO_BUF''),
     (gravity_cmd_op_val GRAVITY_CMD_BLIT_GENERATE_MIPMAPS, ''BLIT_GENERATE_MIPMAPS''),
     (gravity_cmd_op_val GRAVITY_CMD_BLIT_FILL_BUFFER, ''BLIT_FILL_BUFFER''),
     (gravity_cmd_op_val GRAVITY_CMD_BLIT_SYNCHRONIZE, ''BLIT_SYNCHRONIZE''),
     (gravity_cmd_op_val GRAVITY_CMD_CREATE_FENCE, ''CREATE_FENCE''),
     (gravity_cmd_op_val GRAVITY_CMD_DESTROY_FENCE, ''DESTROY_FENCE''),
     (gravity_cmd_op_val GRAVITY_CMD_WAIT_FENCE, ''WAIT_FENCE''),
     (gravity_cmd_op_val GRAVITY_CMD_SIGNAL_FENCE, ''SIGNAL_FENCE''),
     (gravity_cmd_op_val GRAVITY_CMD_CREATE_EVENT, ''CREATE_EVENT''),
     (gravity_cmd_op_val GRAVITY_CMD_DESTROY_EVENT, ''DESTROY_EVENT''),
     (gravity_cmd_op_val GRAVITY_CMD_UPLOAD_DATA, ''UPLOAD_DATA''),
     (gravity_cmd_op_val GRAVITY_CMD_READBACK_DATA, ''READBACK_DATA''),
     (gravity_cmd_op_val GRAVITY_CMD_PRESENT, ''PRESENT''),
     (gravity_cmd_op_val GRAVITY_CMD_RESIZE_DISPLAY, ''RESIZE_DISPLAY'')]"

definition gravity_cmd_name :: "u16 \<Rightarrow> string" where
  "gravity_cmd_name opcode =
     (case find (\<lambda>e. fst e = opcode) cmd_names of
        Some e \<Rightarrow> snd e
      | None \<Rightarrow> ''UNKNOWN'')"

section \<open>Header validation and initialisation\<close>

text \<open>
  The header pointer is \<open>None\<close> for \<^verbatim>\<open>NULL\<close>; \<open>available_bytes\<close> is a 64-bit \<^verbatim>\<open>size_t\<close>.
\<close>

definition gravity_cmd_validate :: "gravity_cmd_header option \<Rightarrow> u64 \<Rightarrow> int" where
  "gravity_cmd_validate hdr available_bytes =
     (case hdr of
        None \<Rightarrow> -1
      | Some h \<Rightarrow>
          if available_bytes < of_nat sizeof_cmd_header then -1
          else if hdr_size h < of_nat sizeof_cmd_header then -1
          else if available_bytes < ucast (hdr_size h) then -1
          else if gravity_cmd_op_val GRAVITY_CMD_MAX \<le> hdr_opcode h then -1
          else 0)"

definition gravity_cmd_init ::
  "u16 \<Rightarrow> u32 \<Rightarrow> u32 \<Rightarrow> gravity_cmd_header" where
  "gravity_cmd_init opcode sz sequence =
     \<lparr>hdr_opcode = opcode, hdr_flags = 0, hdr_size = sz, hdr_sequence = sequence,
      hdr_fence_id = 0\<rparr>"

section \<open>Facts about headers\<close>

lemma header_at_cong:
  assumes "\<And>i. i < 16 \<Longrightarrow> m (a + i) = m' (b + i)"
  shows "gravity_cmd_header_at m a = gravity_cmd_header_at m' b"
proof -
  have "ld16 m a = ld16 m' b" by (rule ld16_cong2) (use assms in auto)
  moreover have "ld16 m (a + 2) = ld16 m' (b + 2)"
    by (rule ld16_cong2) (use assms [of "2 + i" for i] in \<open>auto simp: add.assoc\<close>)
  moreover have "ld32 m (a + 4) = ld32 m' (b + 4)"
    by (rule ld32_cong2) (use assms [of "4 + i" for i] in \<open>auto simp: add.assoc\<close>)
  moreover have "ld32 m (a + 8) = ld32 m' (b + 8)"
    by (rule ld32_cong2) (use assms [of "8 + i" for i] in \<open>auto simp: add.assoc\<close>)
  moreover have "ld32 m (a + 12) = ld32 m' (b + 12)"
    by (rule ld32_cong2) (use assms [of "12 + i" for i] in \<open>auto simp: add.assoc\<close>)
  ultimately show ?thesis by (simp add: gravity_cmd_header_at_def)
qed

text \<open>The header at the front of a byte list.\<close>

definition header_of :: "u8 list \<Rightarrow> gravity_cmd_header" where
  "header_of bs = gravity_cmd_header_at (list_mem bs) 0"

lemma header_of_append: "16 \<le> length bs \<Longrightarrow> header_of (bs @ cs) = header_of bs"
  unfolding header_of_def by (rule header_at_cong) (simp add: list_mem_append)

lemma header_of_take: "16 \<le> n \<Longrightarrow> header_of (take n bs) = header_of bs"
  unfolding header_of_def by (rule header_at_cong) (simp add: list_mem_take)

lemma header_of_rd: "16 \<le> n \<Longrightarrow> header_of (rd m a n) = gravity_cmd_header_at m a"
  unfolding header_of_def by (rule header_at_cong) (simp add: list_mem_rd)

lemma length_header_bytes [simp]: "length (gravity_cmd_header_bytes h) = 16"
  by (simp add: gravity_cmd_header_bytes_def)

lemma list_mem_ld16:
  "n + 2 \<le> length bs \<Longrightarrow> ld16 (list_mem bs) n = le_word (take 2 (drop n bs))"
  unfolding ld16_def by (rule arg_cong [where f = le_word], rule nth_equalityI)
    (auto simp: list_mem_def)

lemma list_mem_ld32:
  "n + 4 \<le> length bs \<Longrightarrow> ld32 (list_mem bs) n = le_word (take 4 (drop n bs))"
  unfolding ld32_def by (rule arg_cong [where f = le_word], rule nth_equalityI)
    (auto simp: list_mem_def)

lemma list_mem_ld64:
  "n + 8 \<le> length bs \<Longrightarrow> ld64 (list_mem bs) n = le_word (take 8 (drop n bs))"
  unfolding ld64_def by (rule arg_cong [where f = le_word], rule nth_equalityI)
    (auto simp: list_mem_def)

lemmas list_mem_ld = list_mem_ld16 list_mem_ld32 list_mem_ld64

lemma header_of_bytes [simp]: "header_of (gravity_cmd_header_bytes h) = h"
  by (cases h) (simp add: header_of_def gravity_cmd_header_at_def list_mem_ld
      gravity_cmd_header_bytes_def le_word_le_bytes)

lemma validate_zero_iff:
  "gravity_cmd_validate (Some h) avail = 0 \<longleftrightarrow>
     16 \<le> unat (hdr_size h) \<and> unat (hdr_size h) \<le> unat avail \<and> unat (hdr_opcode h) < 0xB02"
  by (auto simp: gravity_cmd_validate_def sizeof_cmd_header_def word_le_nat_alt word_less_nat_alt)

end
