(* ===== verification/Gravity_Ring.thy ===== *)
theory Gravity_Ring
  imports Ring_Core Gravity_Protocol
begin

text \<open>
  The shared-memory transport (\<^verbatim>\<open>protocol/include/gravity_ring.h\<close>): the 64-byte ring header at
  the base of the shared memory, the per-side context \<open>gravity_ring\<close>, initialisation and
  attachment, the command ring (guest to host), the completion ring (host to guest) and the
  bump allocator of the data region.  Pointers into the shared memory are addresses of the
  byte memory; the fences order the accesses of one side and have no effect of their own on
  the memory.  A routine that returns \<open>-1\<close> without a result is modelled with its integer
  result or, where it only fills a context, with \<open>None\<close>.
\<close>

section \<open>Ring header\<close>

datatype gravity_ring_header =
    rh_magic | rh_version | rh_cmd_ring_offset | rh_cmd_ring_size | rh_comp_ring_offset
  | rh_comp_ring_size | rh_data_region_offset | rh_data_region_size
  | rh_cmd_head | rh_cmd_tail | rh_comp_head | rh_comp_tail | rh_status

text \<open>Byte offset of each field in the packed structure; \<^verbatim>\<open>reserved[3]\<close> fills bytes 52 to 63.\<close>

primrec hdr_off :: "gravity_ring_header \<Rightarrow> nat" where
    "hdr_off rh_magic = 0"
  | "hdr_off rh_version = 4"
  | "hdr_off rh_cmd_ring_offset = 8"
  | "hdr_off rh_cmd_ring_size = 12"
  | "hdr_off rh_comp_ring_offset = 16"
  | "hdr_off rh_comp_ring_size = 20"
  | "hdr_off rh_data_region_offset = 24"
  | "hdr_off rh_data_region_size = 28"
  | "hdr_off rh_cmd_head = 32"
  | "hdr_off rh_cmd_tail = 36"
  | "hdr_off rh_comp_head = 40"
  | "hdr_off rh_comp_tail = 44"
  | "hdr_off rh_status = 48"

definition get_hdr :: "mem \<Rightarrow> nat \<Rightarrow> gravity_ring_header \<Rightarrow> u32" where
  "get_hdr m h f = ld32 m (h + hdr_off f)"

definition put_hdr :: "mem \<Rightarrow> nat \<Rightarrow> gravity_ring_header \<Rightarrow> u32 \<Rightarrow> mem" where
  "put_hdr m h f v = st32 m (h + hdr_off f) v"

definition GRAVITY_RING_MAGIC :: u32 where "GRAVITY_RING_MAGIC = 0x52494E47"
definition GRAVITY_RING_HEADER_SIZE :: u32 where "GRAVITY_RING_HEADER_SIZE = 64"
definition GRAVITY_RING_STATUS_READY :: u32 where "GRAVITY_RING_STATUS_READY = 1"

lemmas ring_consts = GRAVITY_RING_MAGIC_def GRAVITY_RING_HEADER_SIZE_def GRAVITY_RING_STATUS_READY_def

lemma hdr_off_bound: "hdr_off f + 4 \<le> 52"
  by (cases f) simp_all

lemma hdr_off_disjoint: "f \<noteq> g \<Longrightarrow> hdr_off f + 4 \<le> hdr_off g \<or> hdr_off g + 4 \<le> hdr_off f"
  by (cases f; cases g) simp_all

lemma get_put_hdr [mem_simps]:
  "get_hdr (put_hdr m h f v) h g = (if g = f then v else get_hdr m h g)"
  using hdr_off_disjoint [of g f] by (auto simp: get_hdr_def put_hdr_def mem_simps)

lemma put_hdr_outside [mem_simps]: "x < h \<or> h + 64 \<le> x \<Longrightarrow> put_hdr m h f v x = m x"
  using hdr_off_bound [of f] by (auto simp: put_hdr_def intro!: st32_outside)

lemma get_hdr_cong: "(\<And>x. h \<le> x \<Longrightarrow> x < h + 64 \<Longrightarrow> m x = m' x) \<Longrightarrow> get_hdr m h f = get_hdr m' h f"
  unfolding get_hdr_def by (rule ld32_cong) (use hdr_off_bound [of f] in auto)

section \<open>Ring context\<close>

record gravity_ring =
  rg_header :: nat
  rg_cmd_ring :: nat
  rg_comp_ring :: nat
  rg_data_region :: nat
  rg_cmd_ring_size :: u32
  rg_cmd_ring_mask :: u32
  rg_comp_ring_size :: u32
  rg_comp_ring_mask :: u32
  rg_data_region_size :: u32
  rg_data_alloc_offset :: u32

section \<open>Initialisation\<close>

text \<open>
  \<^verbatim>\<open>ring_sz = 1; while (ring_sz < n) ring_sz <<= 1;\<close> on 32-bit values.  \<open>None\<close>: the loop does
  not return.
\<close>

definition round_pow2 :: "u32 \<Rightarrow> u32 option" where
  "round_pow2 n = while_option (\<lambda>ring_sz. ring_sz < n) (\<lambda>ring_sz. push_bit 1 ring_sz) 1"

definition mem_zero :: "mem \<Rightarrow> nat \<Rightarrow> nat \<Rightarrow> mem" where
  "mem_zero m a n = (\<lambda>x. if a \<le> x \<and> x < a + n then 0 else m x)"

definition gravity_ring_init_host ::
  "mem \<Rightarrow> nat \<Rightarrow> u32 \<Rightarrow> u32 \<Rightarrow> u32 \<Rightarrow> (int \<times> mem) option" where
  "gravity_ring_init_host m base total_size cmd_req comp_req =
     (case round_pow2 cmd_req of None \<Rightarrow> None | Some cmd_ring_size \<Rightarrow>
      case round_pow2 comp_req of None \<Rightarrow> None | Some comp_ring_size \<Rightarrow>
        let cmd_offset = GRAVITY_RING_HEADER_SIZE;
            comp_offset = cmd_offset + cmd_ring_size;
            data_offset = comp_offset + comp_ring_size
        in if total_size \<le> data_offset then Some (-1, m)
           else
             let m0 = mem_zero m base (unat total_size);
                 m1 = put_hdr m0 base rh_magic GRAVITY_RING_MAGIC;
                 m2 = put_hdr m1 base rh_version protocol_version;
                 m3 = put_hdr m2 base rh_cmd_ring_offset cmd_offset;
                 m4 = put_hdr m3 base rh_cmd_ring_size cmd_ring_size;
                 m5 = put_hdr m4 base rh_comp_ring_offset comp_offset;
                 m6 = put_hdr m5 base rh_comp_ring_size comp_ring_size;
                 m7 = put_hdr m6 base rh_data_region_offset data_offset;
                 m8 = put_hdr m7 base rh_data_region_size (total_size - data_offset);
                 m9 = put_hdr m8 base rh_cmd_head 0;
                 m10 = put_hdr m9 base rh_cmd_tail 0;
                 m11 = put_hdr m10 base rh_comp_head 0;
                 m12 = put_hdr m11 base rh_comp_tail 0;
                 m13 = put_hdr m12 base rh_status GRAVITY_RING_STATUS_READY
             in Some (0, m13))"

definition gravity_ring_attach :: "mem \<Rightarrow> nat \<Rightarrow> gravity_ring option" where
  "gravity_ring_attach m base =
     (if get_hdr m base rh_magic \<noteq> GRAVITY_RING_MAGIC then None
      else if get_hdr m base rh_status AND GRAVITY_RING_STATUS_READY = 0 then None
      else if get_hdr m base rh_cmd_ring_size AND (get_hdr m base rh_cmd_ring_size - 1) \<noteq> 0 then None
      else Some
        \<lparr>rg_header = base,
         rg_cmd_ring = base + unat (get_hdr m base rh_cmd_ring_offset),
         rg_comp_ring = base + unat (get_hdr m base rh_comp_ring_offset),
         rg_data_region = base + unat (get_hdr m base rh_data_region_offset),
         rg_cmd_ring_size = get_hdr m base rh_cmd_ring_size,
         rg_cmd_ring_mask = get_hdr m base rh_cmd_ring_size - 1,
         rg_comp_ring_size = get_hdr m base rh_comp_ring_size,
         rg_comp_ring_mask = get_hdr m base rh_comp_ring_size - 1,
         rg_data_region_size = get_hdr m base rh_data_region_size,
         rg_data_alloc_offset = 0\<rparr>)"

section \<open>Command ring\<close>

definition gravity_ring_cmd_space :: "gravity_ring \<Rightarrow> mem \<Rightarrow> u32" where
  "gravity_ring_cmd_space ring m =
     (let head = get_hdr m (rg_header ring) rh_cmd_head;
          tail = get_hdr m (rg_header ring) rh_cmd_tail
      in (rg_cmd_ring_size ring - 1) - ((tail - head) AND rg_cmd_ring_mask ring))"

text \<open>The caller's buffer holds at least \<open>size\<close> bytes; the loop reads the first \<open>size\<close> of them.\<close>

definition gravity_ring_cmd_write ::
  "gravity_ring \<Rightarrow> mem \<Rightarrow> u8 list \<Rightarrow> u32 \<Rightarrow> int \<times> mem" where
  "gravity_ring_cmd_write ring m data sz =
     (if sz = 0 \<or> rg_cmd_ring_size ring div 2 < sz then (-1, m)
      else if gravity_ring_cmd_space ring m < sz then (-1, m)
      else
        let tail = get_hdr m (rg_header ring) rh_cmd_tail;
            msk = rg_cmd_ring_mask ring;
            m1 = ring_put m (rg_cmd_ring ring) msk tail (take (unat sz) data)
        in (0, put_hdr m1 (rg_header ring) rh_cmd_tail ((tail + sz) AND msk)))"

definition gravity_ring_cmd_available :: "gravity_ring \<Rightarrow> mem \<Rightarrow> u32" where
  "gravity_ring_cmd_available ring m =
     (let tail = get_hdr m (rg_header ring) rh_cmd_tail;
          head = get_hdr m (rg_header ring) rh_cmd_head
      in (tail - head) AND rg_cmd_ring_mask ring)"

text \<open>
  \<open>out_buf\<close> is the caller's buffer as a byte memory of its own; the result says whether the
  routine returns \<open>out_buf\<close> (\<open>True\<close>) or \<^verbatim>\<open>NULL\<close>, and what the buffer holds afterwards.
\<close>

definition gravity_ring_cmd_peek ::
  "gravity_ring \<Rightarrow> mem \<Rightarrow> mem \<Rightarrow> u32 \<Rightarrow> bool \<times> mem" where
  "gravity_ring_cmd_peek ring m out_buf buf_size =
     (let avail = gravity_ring_cmd_available ring m
      in if avail < of_nat sizeof_cmd_header then (False, out_buf)
         else
           let head = get_hdr m (rg_header ring) rh_cmd_head;
               msk = rg_cmd_ring_mask ring;
               dst = ring_fetch m (rg_cmd_ring ring) msk head out_buf 0
                       (min sizeof_cmd_header (unat buf_size));
               sz = hdr_size (gravity_cmd_header_at dst 0)
           in if avail < sz \<or> buf_size < sz then (False, dst)
              else (True, ring_fetch m (rg_cmd_ring ring) msk head dst sizeof_cmd_header (unat sz)))"

definition gravity_ring_cmd_consume :: "gravity_ring \<Rightarrow> mem \<Rightarrow> u32 \<Rightarrow> mem" where
  "gravity_ring_cmd_consume ring m sz =
     (let head = get_hdr m (rg_header ring) rh_cmd_head
      in put_hdr m (rg_header ring) rh_cmd_head ((head + sz) AND rg_cmd_ring_mask ring))"

section \<open>Completion ring\<close>

definition gravity_ring_comp_write ::
  "gravity_ring \<Rightarrow> mem \<Rightarrow> u8 list \<Rightarrow> u32 \<Rightarrow> int \<times> mem" where
  "gravity_ring_comp_write ring m data sz =
     (let head = get_hdr m (rg_header ring) rh_comp_head;
          tail = get_hdr m (rg_header ring) rh_comp_tail;
          space = (rg_comp_ring_size ring - 1) - ((tail - head) AND rg_comp_ring_mask ring)
      in if space < sz then (-1, m)
         else
           let msk = rg_comp_ring_mask ring;
               m1 = ring_put m (rg_comp_ring ring) msk tail (take (unat sz) data)
           in (0, put_hdr m1 (rg_header ring) rh_comp_tail ((tail + sz) AND msk)))"

definition gravity_ring_comp_read ::
  "gravity_ring \<Rightarrow> mem \<Rightarrow> mem \<Rightarrow> u32 \<Rightarrow> int \<times> mem \<times> mem" where
  "gravity_ring_comp_read ring m out_buf buf_size =
     (let tail = get_hdr m (rg_header ring) rh_comp_tail;
          head = get_hdr m (rg_header ring) rh_comp_head;
          avail = (tail - head) AND rg_comp_ring_mask ring
      in if avail < of_nat sizeof_cmd_header then (0, out_buf, m)
         else
           let msk = rg_comp_ring_mask ring;
               dst = ring_fetch m (rg_comp_ring ring) msk head out_buf 0
                       (min sizeof_cmd_header (unat buf_size));
               sz = hdr_size (gravity_cmd_header_at dst 0)
           in if avail < sz \<or> buf_size < sz then (-1, dst, m)
              else
                let dst' = ring_fetch m (rg_comp_ring ring) msk head dst sizeof_cmd_header (unat sz);
                    sz' = hdr_size (gravity_cmd_header_at dst' 0)
                in (sint sz', dst',
                    put_hdr m (rg_header ring) rh_comp_head ((head + sz') AND msk)))"

section \<open>Data region\<close>

text \<open>\<open>None\<close> for the result \<open>-1\<close>; \<open>Some off\<close> for \<open>0\<close> with \<^verbatim>\<open>*out_offset = off\<close>.\<close>

definition gravity_ring_data_write ::
  "gravity_ring \<Rightarrow> mem \<Rightarrow> u8 list \<Rightarrow> u32 \<Rightarrow> u64 option \<times> gravity_ring \<times> mem" where
  "gravity_ring_data_write ring m data sz =
     (if rg_data_region_size ring < sz then (None, ring, m)
      else
        let offset = (if rg_data_region_size ring < rg_data_alloc_offset ring + sz then 0
                      else rg_data_alloc_offset ring);
            m1 = wr m (rg_data_region ring + unat offset) (take (unat sz) data);
            out_offset = ucast (get_hdr m1 (rg_header ring) rh_data_region_offset + offset);
            a1 = (offset + sz + 63) AND NOT 63;
            a2 = (if rg_data_region_size ring \<le> a1 then 0 else a1)
        in (Some out_offset, ring\<lparr>rg_data_alloc_offset := a2\<rparr>, m1))"

definition gravity_ring_data_ptr :: "gravity_ring \<Rightarrow> mem \<Rightarrow> u64 \<Rightarrow> nat option" where
  "gravity_ring_data_ptr ring m offset =
     (let data_start = get_hdr m (rg_header ring) rh_data_region_offset
      in if offset < ucast data_start then None
         else
           let local_offset = (ucast (offset - ucast data_start) :: u32)
           in if rg_data_region_size ring \<le> local_offset then None
              else Some (rg_data_region ring + unat local_offset))"

section \<open>Contents and well-formedness\<close>

text \<open>The bytes between the consumer and the producer index, in the order they were written.\<close>

definition cmd_contents :: "gravity_ring \<Rightarrow> mem \<Rightarrow> u8 list" where
  "cmd_contents ring m =
     (let head = get_hdr m (rg_header ring) rh_cmd_head;
          tail = get_hdr m (rg_header ring) rh_cmd_tail;
          msk = rg_cmd_ring_mask ring
      in map (\<lambda>i. m (rg_cmd_ring ring + unat ((head + of_nat i) AND msk)))
           [0..<unat ((tail - head) AND msk)])"

definition comp_contents :: "gravity_ring \<Rightarrow> mem \<Rightarrow> u8 list" where
  "comp_contents ring m =
     (let head = get_hdr m (rg_header ring) rh_comp_head;
          tail = get_hdr m (rg_header ring) rh_comp_tail;
          msk = rg_comp_ring_mask ring
      in map (\<lambda>i. m (rg_comp_ring ring + unat ((head + of_nat i) AND msk)))
           [0..<unat ((tail - head) AND msk)])"

text \<open>
  What attachment must leave behind for the routines to be memory-safe: power-of-two sizes
  with their masks, and header, rings and data region one after the other.  It says nothing
  about the indices, which the other side writes.
\<close>

definition pow2_sized :: "u32 \<Rightarrow> u32 \<Rightarrow> bool" where
  "pow2_sized sz msk \<longleftrightarrow> (\<exists>k\<in>{..<32}. sz = 2 ^ k \<and> msk = mask k)"

definition ring_ok :: "gravity_ring \<Rightarrow> bool" where
  "ring_ok ring \<longleftrightarrow>
     pow2_sized (rg_cmd_ring_size ring) (rg_cmd_ring_mask ring) \<and>
     pow2_sized (rg_comp_ring_size ring) (rg_comp_ring_mask ring) \<and>
     rg_header ring + 64 \<le> rg_cmd_ring ring \<and>
     rg_cmd_ring ring + unat (rg_cmd_ring_size ring) \<le> rg_comp_ring ring \<and>
     rg_comp_ring ring + unat (rg_comp_ring_size ring) \<le> rg_data_region ring"

lemma pow2_sizedE:
  assumes "pow2_sized sz msk"
  obtains k where "k \<le> 31" "sz = 2 ^ k" "msk = mask k" "unat sz = 2 ^ k"
proof -
  from assms obtain k where "k < 32" "sz = 2 ^ k" "msk = mask k"
    by (auto simp: pow2_sized_def)
  then show thesis using pow2_unat [of k, where ?'a = 32] by (intro that [of k]) simp_all
qed

lemma ring_okD:
  assumes "ring_ok ring"
  shows "pow2_sized (rg_cmd_ring_size ring) (rg_cmd_ring_mask ring)"
    and "pow2_sized (rg_comp_ring_size ring) (rg_comp_ring_mask ring)"
    and "rg_header ring + 64 \<le> rg_cmd_ring ring"
    and "rg_cmd_ring ring + unat (rg_cmd_ring_size ring) \<le> rg_comp_ring ring"
    and "rg_comp_ring ring + unat (rg_comp_ring_size ring) \<le> rg_data_region ring"
  using assms by (simp_all add: ring_ok_def)

lemma cmd_contents_eq:
  "rg_cmd_ring_mask ring = mask k \<Longrightarrow>
     cmd_contents ring m = ring_bytes m (rg_cmd_ring ring) k
       (get_hdr m (rg_header ring) rh_cmd_head) (get_hdr m (rg_header ring) rh_cmd_tail)"
  by (simp add: cmd_contents_def ring_bytes_def ring_used_def Let_def)

lemma comp_contents_eq:
  "rg_comp_ring_mask ring = mask k \<Longrightarrow>
     comp_contents ring m = ring_bytes m (rg_comp_ring ring) k
       (get_hdr m (rg_header ring) rh_comp_head) (get_hdr m (rg_header ring) rh_comp_tail)"
  by (simp add: comp_contents_def ring_bytes_def ring_used_def Let_def)

lemma length_cmd_contents: "length (cmd_contents ring m) = unat (gravity_ring_cmd_available ring m)"
  by (simp add: cmd_contents_def gravity_ring_cmd_available_def Let_def)

lemma cmd_contents_less:
  "ring_ok ring \<Longrightarrow> length (cmd_contents ring m) < unat (rg_cmd_ring_size ring)"
  by (erule ring_okD(1) [THEN pow2_sizedE]) (simp add: cmd_contents_eq used_less)

lemma comp_contents_less:
  "ring_ok ring \<Longrightarrow> length (comp_contents ring m) < unat (rg_comp_ring_size ring)"
  by (erule ring_okD(2) [THEN pow2_sizedE]) (simp add: comp_contents_eq used_less)

text \<open>The free space of a ring: one byte is kept empty to tell full from empty.\<close>

lemma unat_space:
  assumes "k \<le> 31"
  shows "unat ((2 ^ k :: u32) - 1 - ((wp - rp) AND mask k)) = 2 ^ k - 1 - ring_used k rp wp"
proof -
  have p: "unat ((2 ^ k :: u32) - 1) = 2 ^ k - 1"
    using assms pow2_unat [of k, where ?'a = 32]
    by (subst unat_sub) (simp_all add: word_le_nat_alt)
  have "ring_used k rp wp \<le> 2 ^ k - 1" using used_less [of k rp wp] assms by simp
  then show ?thesis
    unfolding ring_used_def by (subst unat_sub) (simp_all add: word_le_nat_alt p)
qed

lemma cmd_space_eq:
  assumes "ring_ok ring"
  shows "unat (gravity_ring_cmd_space ring m) =
           unat (rg_cmd_ring_size ring) - 1 - length (cmd_contents ring m)"
  using ring_okD(1) [OF assms]
  by (elim pow2_sizedE) (simp add: gravity_ring_cmd_space_def cmd_contents_eq unat_space)

section \<open>Command ring: behaviour of each routine\<close>

lemma cmd_write_fail:
  "fst (gravity_ring_cmd_write ring m data sz) \<noteq> 0 \<Longrightarrow>
     gravity_ring_cmd_write ring m data sz = (-1, m)"
  by (auto simp: gravity_ring_cmd_write_def Let_def split: if_splits)

lemma cmd_write_zero_iff:
  assumes "ring_ok ring"
  shows "fst (gravity_ring_cmd_write ring m data sz) = 0 \<longleftrightarrow>
           0 < unat sz \<and> unat sz \<le> unat (rg_cmd_ring_size ring) div 2 \<and>
           length (cmd_contents ring m) + unat sz < unat (rg_cmd_ring_size ring)"
proof -
  have "fst (gravity_ring_cmd_write ring m data sz) = 0 \<longleftrightarrow>
      sz \<noteq> 0 \<and> \<not> rg_cmd_ring_size ring div 2 < sz \<and> \<not> gravity_ring_cmd_space ring m < sz"
    by (simp add: gravity_ring_cmd_write_def Let_def)
  moreover have "sz \<noteq> 0 \<longleftrightarrow> 0 < unat sz"
    by (simp add: unat_gt_0)
  moreover have "\<not> rg_cmd_ring_size ring div 2 < sz \<longleftrightarrow> unat sz \<le> unat (rg_cmd_ring_size ring) div 2"
    by (simp add: word_less_nat_alt unat_div not_less)
  moreover have "\<not> gravity_ring_cmd_space ring m < sz \<longleftrightarrow>
      length (cmd_contents ring m) + unat sz < unat (rg_cmd_ring_size ring)"
    using cmd_contents_less [OF assms, of m] cmd_space_eq [OF assms, of m]
    unfolding word_less_nat_alt by linarith
  ultimately show ?thesis by blast
qed

lemma cmd_write_mem:
  assumes "fst (gravity_ring_cmd_write ring m data sz) = 0"
  shows "snd (gravity_ring_cmd_write ring m data sz) =
     (let tail = get_hdr m (rg_header ring) rh_cmd_tail; msk = rg_cmd_ring_mask ring
      in put_hdr (ring_put m (rg_cmd_ring ring) msk tail (take (unat sz) data))
           (rg_header ring) rh_cmd_tail ((tail + sz) AND msk))"
  using assms by (auto simp: gravity_ring_cmd_write_def Let_def split: if_splits)

lemma get_hdr_ring_put:
  "k \<le> 32 \<Longrightarrow> h + 64 \<le> base \<Longrightarrow>
     get_hdr (ring_put m base (mask k) pos bs) h f = get_hdr m h f"
  by (rule get_hdr_cong) (simp add: ring_put_outside)

lemma ring_bytes_put_hdr:
  "k \<le> 32 \<Longrightarrow> h + 64 \<le> base \<Longrightarrow>
     ring_bytes (put_hdr m h f v) base k rp wp = ring_bytes m base k rp wp"
  by (rule ring_bytes_cong) (simp_all add: put_hdr_outside)

lemma ring_bytes_ring_put_disjoint:
  "k \<le> 32 \<Longrightarrow> j \<le> 32 \<Longrightarrow> base + 2 ^ k \<le> b2 \<or> b2 + 2 ^ j \<le> base \<Longrightarrow>
     ring_bytes (ring_put m b2 (mask j) pos bs) base k rp wp = ring_bytes m base k rp wp"
  by (rule ring_bytes_cong) (auto simp: ring_put_outside)

lemmas ring_frame = get_hdr_ring_put ring_bytes_put_hdr ring_bytes_ring_put_disjoint

text \<open>An accepted write appends its bytes to the command ring and leaves the completion ring alone.\<close>

lemma cmd_write_contents:
  assumes "ring_ok ring" "fst (gravity_ring_cmd_write ring m data sz) = 0" "unat sz \<le> length data"
  shows "cmd_contents ring (snd (gravity_ring_cmd_write ring m data sz)) =
           cmd_contents ring m @ take (unat sz) data"
proof -
  obtain k where k: "k \<le> 31" "rg_cmd_ring_mask ring = mask k" "unat (rg_cmd_ring_size ring) = 2 ^ k"
    using ring_okD(1) [OF assms(1)] by (elim pow2_sizedE)
  let ?d = "take (unat sz) data"
  have len: "length ?d = unat sz" using assms(3) by simp
  have "length (cmd_contents ring m) + unat sz < 2 ^ k"
    using assms(2) cmd_write_zero_iff [OF assms(1)] k(3) by auto
  then have fits: "ring_used k (get_hdr m (rg_header ring) rh_cmd_head)
      (get_hdr m (rg_header ring) rh_cmd_tail) + length ?d < 2 ^ k"
    by (simp add: cmd_contents_eq [OF k(2)] len)
  show ?thesis
    using k ring_okD(3) [OF assms(1)] ring_bytes_put [OF _ fits, of m "rg_cmd_ring ring"] len
    by (simp add: cmd_write_mem [OF assms(2)] Let_def cmd_contents_eq ring_frame mem_simps)
qed

lemma cmd_write_comp_contents:
  assumes "ring_ok ring"
  shows "comp_contents ring (snd (gravity_ring_cmd_write ring m data sz)) = comp_contents ring m"
proof (cases "fst (gravity_ring_cmd_write ring m data sz) = 0")
  case True
  obtain k where k: "k \<le> 31" "rg_cmd_ring_mask ring = mask k" "unat (rg_cmd_ring_size ring) = 2 ^ k"
    using ring_okD(1) [OF assms] by (elim pow2_sizedE)
  obtain j where j: "j \<le> 31" "rg_comp_ring_mask ring = mask j" "unat (rg_comp_ring_size ring) = 2 ^ j"
    using ring_okD(2) [OF assms] by (elim pow2_sizedE)
  show ?thesis
    using k j ring_okD(3,4) [OF assms]
    by (simp add: cmd_write_mem [OF True] Let_def comp_contents_eq ring_frame mem_simps)
qed (simp add: cmd_write_fail)

text \<open>Memory safety: a write touches the ring's bytes and its own index only.\<close>

lemma cmd_write_frame:
  assumes "ring_ok ring"
    and "x < rg_cmd_ring ring \<or> rg_cmd_ring ring + unat (rg_cmd_ring_size ring) \<le> x"
    and "x < rg_header ring + 36 \<or> rg_header ring + 40 \<le> x"
  shows "snd (gravity_ring_cmd_write ring m data sz) x = m x"
proof (cases "fst (gravity_ring_cmd_write ring m data sz) = 0")
  case True
  obtain k where k: "k \<le> 31" "rg_cmd_ring_mask ring = mask k" "unat (rg_cmd_ring_size ring) = 2 ^ k"
    using ring_okD(1) [OF assms(1)] by (elim pow2_sizedE)
  show ?thesis
    unfolding cmd_write_mem [OF True] Let_def put_hdr_def
    using k assms by (subst st32_outside) (auto simp: ring_put_outside)
qed (simp add: cmd_write_fail)

text \<open>Consuming \<open>n\<close> bytes drops them from the front.\<close>

lemma cmd_consume_contents:
  assumes "ring_ok ring" "unat sz \<le> length (cmd_contents ring m)"
  shows "cmd_contents ring (gravity_ring_cmd_consume ring m sz) = drop (unat sz) (cmd_contents ring m)"
proof -
  obtain k where k: "k \<le> 31" "rg_cmd_ring_mask ring = mask k" "unat (rg_cmd_ring_size ring) = 2 ^ k"
    using ring_okD(1) [OF assms(1)] by (elim pow2_sizedE)
  have n: "unat sz \<le> ring_used k (get_hdr m (rg_header ring) rh_cmd_head)
      (get_hdr m (rg_header ring) rh_cmd_tail)"
    using assms(2) by (simp add: cmd_contents_eq [OF k(2)])
  show ?thesis
    using k ring_okD(3) [OF assms(1)] ring_bytes_advance [OF _ n, of m "rg_cmd_ring ring"]
    by (simp add: gravity_ring_cmd_consume_def Let_def cmd_contents_eq ring_frame mem_simps)
qed

lemma cmd_consume_comp_contents:
  assumes "ring_ok ring"
  shows "comp_contents ring (gravity_ring_cmd_consume ring m sz) = comp_contents ring m"
proof -
  obtain j where j: "j \<le> 31" "rg_comp_ring_mask ring = mask j"
    using ring_okD(2) [OF assms] by (elim pow2_sizedE)
  then show ?thesis
    using ring_okD(3,4) [OF assms]
    by (simp add: gravity_ring_cmd_consume_def Let_def comp_contents_eq ring_frame mem_simps)
qed

lemma cmd_consume_frame:
  "x < rg_header ring + 32 \<or> rg_header ring + 36 \<le> x \<Longrightarrow> gravity_ring_cmd_consume ring m sz x = m x"
  by (auto simp: gravity_ring_cmd_consume_def Let_def put_hdr_def intro!: st32_outside)

text \<open>
  A peek returns the buffer exactly when the contents hold a whole command that fits the
  buffer; the buffer then starts with the command's bytes, and whatever it held beyond the
  header and the command is still there.
\<close>

definition peek_ready :: "u8 list \<Rightarrow> u32 \<Rightarrow> bool" where
  "peek_ready bs buf_size \<longleftrightarrow>
     16 \<le> length bs \<and> unat (hdr_size (header_of bs)) \<le> length bs \<and>
     unat (hdr_size (header_of bs)) \<le> unat buf_size"

lemma peek_header:
  assumes "16 \<le> length (ring_bytes m base k rp wp)"
  shows "gravity_cmd_header_at (ring_fetch m base (mask k) rp buf 0 16) 0 =
           header_of (ring_bytes m base k rp wp)"
proof -
  have "rd (ring_fetch m base (mask k) rp buf 0 16) 0 16 = take 16 (ring_bytes m base k rp wp)"
    using assms by (simp add: rd_ring_fetch)
  then show ?thesis
    using header_of_rd [of 16 "ring_fetch m base (mask k) rp buf 0 16" 0] header_of_take [of 16]
    by simp
qed

lemma cmd_peek_eq:
  assumes "ring_ok ring" "16 \<le> unat buf_size"
  shows "gravity_ring_cmd_peek ring m buf buf_size =
     (let bs = cmd_contents ring m
      in if length bs < 16 then (False, buf)
         else if peek_ready bs buf_size
         then (True, wr buf 0 (take (max 16 (unat (hdr_size (header_of bs)))) bs))
         else (False, wr buf 0 (take 16 bs)))"
proof -
  obtain k where k: "k \<le> 31" "rg_cmd_ring_mask ring = mask k"
    using ring_okD(1) [OF assms(1)] by (elim pow2_sizedE)
  let ?rp = "get_hdr m (rg_header ring) rh_cmd_head"
  let ?wp = "get_hdr m (rg_header ring) rh_cmd_tail"
  let ?bs = "ring_bytes m (rg_cmd_ring ring) k ?rp ?wp"
  let ?f = "\<lambda>n. ring_fetch m (rg_cmd_ring ring) (mask k) ?rp buf 0 n"
  have bs: "cmd_contents ring m = ?bs" by (rule cmd_contents_eq) (rule k)
  have avail: "unat (gravity_ring_cmd_available ring m) = length ?bs"
    using length_cmd_contents [of ring m] bs by simp
  have fetch: "?f n = wr buf 0 (take n ?bs)" if "n \<le> length ?bs" for n
    using that by (auto simp: ring_fetch_eq wr_def fun_eq_iff)
  show ?thesis
  proof (cases "length ?bs < 16")
    case True
    then show ?thesis
      by (simp add: gravity_ring_cmd_peek_def bs Let_def word_less_nat_alt avail sizeof_cmd_header_def)
  next
    case False
    let ?sz = "hdr_size (header_of ?bs)"
    have f16: "?f 16 = wr buf 0 (take 16 ?bs)" using False by (intro fetch) simp
    have hdr: "gravity_cmd_header_at (wr buf 0 (take 16 ?bs)) 0 = header_of ?bs"
      using False unfolding f16 [symmetric] by (intro peek_header) simp
    have rest: "ring_fetch m (rg_cmd_ring ring) (mask k) ?rp (wr buf 0 (take 16 ?bs)) 16 (unat ?sz) =
        wr buf 0 (take (max 16 (unat ?sz)) ?bs)" if "unat ?sz \<le> length ?bs"
    proof -
      have "ring_fetch m (rg_cmd_ring ring) (mask k) ?rp (?f 16) 16 (unat ?sz) = ?f (max 16 (unat ?sz))"
        by (cases "16 \<le> unat ?sz") (auto simp: ring_fetch_eq fun_eq_iff)
      moreover have "?f (max 16 (unat ?sz)) = wr buf 0 (take (max 16 (unat ?sz)) ?bs)"
        using that False by (intro fetch) simp
      ultimately show ?thesis by (simp only: f16)
    qed
    have "gravity_ring_cmd_peek ring m buf buf_size =
        (if length ?bs < unat ?sz \<or> unat buf_size < unat ?sz then (False, wr buf 0 (take 16 ?bs))
         else (True, ring_fetch m (rg_cmd_ring ring) (mask k) ?rp (wr buf 0 (take 16 ?bs)) 16 (unat ?sz)))"
      using False assms(2)
      by (simp add: gravity_ring_cmd_peek_def Let_def word_less_nat_alt avail sizeof_cmd_header_def
          k(2) f16 hdr min_absorb1)
    with False show ?thesis
      unfolding bs Let_def peek_ready_def by (auto simp del: length_ring_bytes simp: rest)
  qed
qed

lemma comp_write_fail:
  "fst (gravity_ring_comp_write ring m data sz) \<noteq> 0 \<Longrightarrow>
     gravity_ring_comp_write ring m data sz = (-1, m)"
  by (auto simp: gravity_ring_comp_write_def Let_def split: if_splits)

lemma comp_write_zero_iff:
  assumes "ring_ok ring"
  shows "fst (gravity_ring_comp_write ring m data sz) = 0 \<longleftrightarrow>
           length (comp_contents ring m) + unat sz < unat (rg_comp_ring_size ring)"
proof -
  obtain k where k: "k \<le> 31" "rg_comp_ring_size ring = 2 ^ k" "rg_comp_ring_mask ring = mask k"
    "unat (rg_comp_ring_size ring) = 2 ^ k"
    using ring_okD(2) [OF assms(1)] by (elim pow2_sizedE)
  have "length (comp_contents ring m) < 2 ^ k" using comp_contents_less [OF assms, of m] k(4) by simp
  then have "\<not> 2 ^ k - 1 - length (comp_contents ring m) < unat sz \<longleftrightarrow>
      length (comp_contents ring m) + unat sz < 2 ^ k" by linarith
  then show ?thesis
    unfolding k(4) by (simp add: gravity_ring_comp_write_def Let_def word_less_nat_alt
        unat_space [OF k(1)] k(2,3) comp_contents_eq [OF k(3)]) blast
qed

lemma comp_write_mem:
  assumes "fst (gravity_ring_comp_write ring m data sz) = 0"
  shows "snd (gravity_ring_comp_write ring m data sz) =
     (let tail = get_hdr m (rg_header ring) rh_comp_tail; msk = rg_comp_ring_mask ring
      in put_hdr (ring_put m (rg_comp_ring ring) msk tail (take (unat sz) data))
           (rg_header ring) rh_comp_tail ((tail + sz) AND msk))"
  using assms by (auto simp: gravity_ring_comp_write_def Let_def split: if_splits)

lemma comp_write_contents:
  assumes "ring_ok ring" "fst (gravity_ring_comp_write ring m data sz) = 0" "unat sz \<le> length data"
  shows "comp_contents ring (snd (gravity_ring_comp_write ring m data sz)) =
           comp_contents ring m @ take (unat sz) data"
proof -
  obtain k where k: "k \<le> 31" "rg_comp_ring_mask ring = mask k" "unat (rg_comp_ring_size ring) = 2 ^ k"
    using ring_okD(2) [OF assms(1)] by (elim pow2_sizedE)
  let ?d = "take (unat sz) data"
  have len: "length ?d = unat sz" using assms(3) by simp
  have "length (comp_contents ring m) + unat sz < 2 ^ k"
    using assms(2) comp_write_zero_iff [OF assms(1)] k(3) by auto
  then have fits: "ring_used k (get_hdr m (rg_header ring) rh_comp_head)
      (get_hdr m (rg_header ring) rh_comp_tail) + length ?d < 2 ^ k"
    by (simp add: comp_contents_eq [OF k(2)] len)
  show ?thesis
    using k ring_okD(3,4) [OF assms(1)] ring_bytes_put [OF _ fits, of m "rg_comp_ring ring"] len
    by (simp add: comp_write_mem [OF assms(2)] Let_def comp_contents_eq ring_frame mem_simps)
qed

lemma comp_write_cmd_contents:
  assumes "ring_ok ring"
  shows "cmd_contents ring (snd (gravity_ring_comp_write ring m data sz)) = cmd_contents ring m"
proof (cases "fst (gravity_ring_comp_write ring m data sz) = 0")
  case True
  obtain k where k: "k \<le> 31" "rg_cmd_ring_mask ring = mask k" "unat (rg_cmd_ring_size ring) = 2 ^ k"
    using ring_okD(1) [OF assms] by (elim pow2_sizedE)
  obtain j where j: "j \<le> 31" "rg_comp_ring_mask ring = mask j" "unat (rg_comp_ring_size ring) = 2 ^ j"
    using ring_okD(2) [OF assms] by (elim pow2_sizedE)
  show ?thesis
    using k j ring_okD(3,4) [OF assms]
    by (simp add: comp_write_mem [OF True] Let_def cmd_contents_eq ring_frame mem_simps)
qed (simp add: comp_write_fail)

lemma comp_write_frame:
  assumes "ring_ok ring"
    and "x < rg_comp_ring ring \<or> rg_comp_ring ring + unat (rg_comp_ring_size ring) \<le> x"
    and "x < rg_header ring + 44 \<or> rg_header ring + 48 \<le> x"
  shows "snd (gravity_ring_comp_write ring m data sz) x = m x"
proof (cases "fst (gravity_ring_comp_write ring m data sz) = 0")
  case True
  obtain k where k: "k \<le> 31" "rg_comp_ring_mask ring = mask k" "unat (rg_comp_ring_size ring) = 2 ^ k"
    using ring_okD(2) [OF assms(1)] by (elim pow2_sizedE)
  show ?thesis
    unfolding comp_write_mem [OF True] Let_def put_hdr_def
    using k assms by (subst st32_outside) (auto simp: ring_put_outside)
qed (simp add: comp_write_fail)

section \<open>Reading completions\<close>

text \<open>The routine as a function of the completion ring's contents.\<close>

lemma comp_read_eq:
  assumes "ring_ok ring" "16 \<le> unat buf_size"
  shows "gravity_ring_comp_read ring m buf buf_size =
     (let bs = comp_contents ring m; sz = hdr_size (header_of bs)
      in if length bs < 16 then (0, buf, m)
         else if peek_ready bs buf_size
         then (sint sz, wr buf 0 (take (max 16 (unat sz)) bs),
               put_hdr m (rg_header ring) rh_comp_head
                 ((get_hdr m (rg_header ring) rh_comp_head + sz) AND rg_comp_ring_mask ring))
         else (-1, wr buf 0 (take 16 bs), m))"
proof -
  obtain k where k: "k \<le> 31" "rg_comp_ring_mask ring = mask k"
    using ring_okD(2) [OF assms(1)] by (elim pow2_sizedE)
  let ?rp = "get_hdr m (rg_header ring) rh_comp_head"
  let ?wp = "get_hdr m (rg_header ring) rh_comp_tail"
  let ?bs = "ring_bytes m (rg_comp_ring ring) k ?rp ?wp"
  let ?f = "\<lambda>n. ring_fetch m (rg_comp_ring ring) (mask k) ?rp buf 0 n"
  have bs: "comp_contents ring m = ?bs" by (rule comp_contents_eq) (rule k)
  have avail: "unat ((?wp - ?rp) AND mask k) = length ?bs" by (simp add: ring_used_def)
  have fetch: "?f n = wr buf 0 (take n ?bs)" if "n \<le> length ?bs" for n
    using that by (auto simp: ring_fetch_eq wr_def fun_eq_iff)
  show ?thesis
  proof (cases "length ?bs < 16")
    case True
    then show ?thesis
      by (simp add: gravity_ring_comp_read_def bs Let_def word_less_nat_alt k(2) ring_used_def
          sizeof_cmd_header_def)
  next
    case False
    let ?sz = "hdr_size (header_of ?bs)"
    have f16: "?f 16 = wr buf 0 (take 16 ?bs)" using False by (intro fetch) simp
    have hdr: "gravity_cmd_header_at (wr buf 0 (take 16 ?bs)) 0 = header_of ?bs"
      using False unfolding f16 [symmetric] by (intro peek_header) simp
    have rest: "ring_fetch m (rg_comp_ring ring) (mask k) ?rp (wr buf 0 (take 16 ?bs)) 16 (unat ?sz) =
        wr buf 0 (take (max 16 (unat ?sz)) ?bs)" if "unat ?sz \<le> length ?bs"
    proof -
      have "ring_fetch m (rg_comp_ring ring) (mask k) ?rp (?f 16) 16 (unat ?sz) = ?f (max 16 (unat ?sz))"
        by (cases "16 \<le> unat ?sz") (auto simp: ring_fetch_eq fun_eq_iff)
      moreover have "?f (max 16 (unat ?sz)) = wr buf 0 (take (max 16 (unat ?sz)) ?bs)"
        using that False by (intro fetch) simp
      ultimately show ?thesis by (simp only: f16)
    qed
    have again: "gravity_cmd_header_at (wr buf 0 (take (max 16 n) ?bs)) 0 =
        gravity_cmd_header_at (wr buf 0 (take 16 ?bs)) 0" for n
      by (rule header_at_cong) (use False in \<open>auto simp: wr_def\<close>)
    have "gravity_ring_comp_read ring m buf buf_size =
        (let dst = wr buf 0 (take 16 ?bs);
             dst' = ring_fetch m (rg_comp_ring ring) (mask k) ?rp dst 16 (unat ?sz);
             sz' = hdr_size (gravity_cmd_header_at dst' 0)
         in if length ?bs < unat ?sz \<or> unat buf_size < unat ?sz then (-1, dst, m)
            else (sint sz', dst', put_hdr m (rg_header ring) rh_comp_head ((?rp + sz') AND mask k)))"
      using False assms(2)
      by (simp add: gravity_ring_comp_read_def Let_def word_less_nat_alt ring_used_def [symmetric]
          sizeof_cmd_header_def k(2) f16 hdr min_absorb1)
    with False show ?thesis
      unfolding bs Let_def peek_ready_def
      by (auto simp del: length_ring_bytes simp: rest again hdr k(2))
  qed
qed

lemma comp_advance_contents:
  assumes "ring_ok ring" "unat sz \<le> length (comp_contents ring m)"
  shows "comp_contents ring (put_hdr m (rg_header ring) rh_comp_head
           ((get_hdr m (rg_header ring) rh_comp_head + sz) AND rg_comp_ring_mask ring)) =
         drop (unat sz) (comp_contents ring m)"
proof -
  obtain k where k: "k \<le> 31" "rg_comp_ring_mask ring = mask k"
    using ring_okD(2) [OF assms(1)] by (elim pow2_sizedE)
  have n: "unat sz \<le> ring_used k (get_hdr m (rg_header ring) rh_comp_head)
      (get_hdr m (rg_header ring) rh_comp_tail)"
    using assms(2) by (simp add: comp_contents_eq [OF k(2)])
  show ?thesis
    using k ring_okD(3,4) [OF assms(1)] ring_bytes_advance [OF _ n, of m "rg_comp_ring ring"]
    by (simp add: comp_contents_eq ring_frame mem_simps)
qed

section \<open>Rounding to a power of two\<close>

lemma shift_pow: "((\<lambda>ring_sz. push_bit 1 ring_sz) ^^ j) (1 :: u32) = 2 ^ j"
  by (induction j) (simp_all add: push_bit_eq_mult)

lemma pow2_u32_le: "(2 ^ j :: u32) \<le> 2 ^ 31"
proof (cases "j < 32")
  case True
  then have "(2::nat) ^ j \<le> 2 ^ 31" by (intro power_increasing) auto
  with True show ?thesis using pow2_unat [of j, where ?'a = 32] by (simp add: word_le_nat_alt)
next
  case False
  then have "(2 ^ j :: u32) = 0" by (simp add: not_less)
  then show ?thesis by (simp only:) simp
qed

lemma round_pow2_None: "2 ^ 31 < n \<Longrightarrow> round_pow2 n = None"
  unfolding round_pow2_def while_option_def shift_pow
  using le_less_trans [OF pow2_u32_le] by auto

lemma round_pow2_Some:
  assumes "n \<le> 2 ^ 31"
  shows "\<exists>k\<le>31. round_pow2 n = Some (2 ^ k) \<and> n \<le> 2 ^ k \<and> (\<forall>j<k. 2 ^ j < n)"
proof -
  let ?P = "\<lambda>j. \<not> (2 ^ j :: u32) < n"
  let ?k = "LEAST j. ?P j"
  have w: "?P 31" using assms by (simp add: not_less)
  have "?k \<le> 31" using w by (rule Least_le)
  moreover have "?P ?k" using w by (rule LeastI)
  moreover have "\<forall>j<?k. 2 ^ j < n" using not_less_Least by blast
  moreover have "round_pow2 n = Some (2 ^ ?k)"
    unfolding round_pow2_def while_option_def shift_pow using exI [of ?P, OF w] by simp
  ultimately show ?thesis by (auto simp: not_less)
qed

lemma round_pow2_exact: "k \<le> 31 \<Longrightarrow> round_pow2 (2 ^ k) = Some (2 ^ k)"
proof -
  assume k: "k \<le> 31"
  obtain j where j: "j \<le> 31" "round_pow2 (2 ^ k) = Some (2 ^ j)" "(2 ^ k :: u32) \<le> 2 ^ j"
      "\<forall>i<j. (2 ^ i :: u32) < 2 ^ k"
    using round_pow2_Some [OF pow2_u32_le, of k] by blast
  have "\<not> k < j" using j(4) by blast
  moreover have "\<not> j < k"
    using j(1,3) k pow2_unat [of k, where ?'a = 32] pow2_unat [of j, where ?'a = 32]
      power_strict_increasing [of j k "2::nat"] by (auto simp: word_le_nat_alt)
  ultimately show ?thesis using j(2) by simp
qed

section \<open>Initialisation followed by attachment\<close>

lemma mem_zero_outside: "x < a \<or> a + n \<le> x \<Longrightarrow> mem_zero m a n x = m x"
  by (auto simp: mem_zero_def)

lemma pow2_and_pred: "k \<le> 31 \<Longrightarrow> (2 ^ k :: u32) AND (2 ^ k - 1) = 0"
  by (simp add: pow2_minus1 word_unat_eq_iff unat_and_mask pow2_unat)

definition init_ring :: "nat \<Rightarrow> u32 \<Rightarrow> u32 \<Rightarrow> u32 \<Rightarrow> gravity_ring" where
  "init_ring base tot csz psz =
     \<lparr>rg_header = base, rg_cmd_ring = base + 64, rg_comp_ring = base + 64 + unat csz,
      rg_data_region = base + 64 + unat csz + unat psz,
      rg_cmd_ring_size = csz, rg_cmd_ring_mask = csz - 1,
      rg_comp_ring_size = psz, rg_comp_ring_mask = psz - 1,
      rg_data_region_size = tot - (64 + csz + psz), rg_data_alloc_offset = 0\<rparr>"

lemma init_host_attach:
  assumes "round_pow2 cmd_req = Some csz" "round_pow2 comp_req = Some psz"
    and "64 + unat csz + unat psz < unat tot"
  shows "\<exists>m'. gravity_ring_init_host m base tot cmd_req comp_req = Some (0, m') \<and>
           gravity_ring_attach m' base = Some (init_ring base tot csz psz) \<and>
           cmd_contents (init_ring base tot csz psz) m' = [] \<and>
           comp_contents (init_ring base tot csz psz) m' = [] \<and>
           (\<forall>x. x < base \<or> base + unat tot \<le> x \<longrightarrow> m' x = m x)"
proof -
  obtain k where k: "k \<le> 31" "csz = 2 ^ k"
    using assms(1) round_pow2_None [of cmd_req] round_pow2_Some [of cmd_req]
    by (cases "cmd_req \<le> 2 ^ 31") (auto simp: not_le)
  then have csz_and: "csz AND (csz - 1) = 0" using pow2_and_pred by simp
  have b: "64 + unat csz + unat psz < 2 ^ 32"
    using assms(3) unsigned_less [of tot, where ?'a = nat] by simp
  have u1: "unat (64 + csz) = 64 + unat csz"
    using b by (simp add: unat_word_ariths)
  have u2: "unat (64 + csz + psz) = 64 + unat csz + unat psz"
    using b u1 by (subst unat_word_ariths) simp
  have lt: "\<not> tot \<le> 64 + csz + psz" using assms(3) by (simp add: word_le_nat_alt u2)
  obtain m' where m': "gravity_ring_init_host m base tot cmd_req comp_req = Some (0, m')"
    using lt by (simp add: gravity_ring_init_host_def assms(1,2) Let_def GRAVITY_RING_HEADER_SIZE_def)
  have f: "get_hdr m' base rh_magic = GRAVITY_RING_MAGIC"
    "get_hdr m' base rh_status = GRAVITY_RING_STATUS_READY"
    "get_hdr m' base rh_cmd_ring_offset = 64" "get_hdr m' base rh_cmd_ring_size = csz"
    "get_hdr m' base rh_comp_ring_offset = 64 + csz" "get_hdr m' base rh_comp_ring_size = psz"
    "get_hdr m' base rh_data_region_offset = 64 + csz + psz"
    "get_hdr m' base rh_data_region_size = tot - (64 + csz + psz)"
    "get_hdr m' base rh_cmd_head = 0" "get_hdr m' base rh_cmd_tail = 0"
    "get_hdr m' base rh_comp_head = 0" "get_hdr m' base rh_comp_tail = 0"
    using m' lt by (auto simp: gravity_ring_init_host_def assms(1,2) Let_def mem_simps
        GRAVITY_RING_HEADER_SIZE_def)
  have "m' x = m x" if "x < base \<or> base + unat tot \<le> x" for x
  proof -
    have "x < base \<or> base + 64 \<le> x" using that assms(3) by linarith
    then show ?thesis
      using m' lt that by (auto simp: gravity_ring_init_host_def assms(1,2) Let_def
          GRAVITY_RING_HEADER_SIZE_def put_hdr_outside mem_zero_outside)
  qed
  moreover have "gravity_ring_attach m' base = Some (init_ring base tot csz psz)"
    using csz_and
    by (simp add: gravity_ring_attach_def f ring_consts init_ring_def u1 u2 u2 [unfolded add.assoc] add.assoc)
  moreover have "cmd_contents (init_ring base tot csz psz) m' = []"
    "comp_contents (init_ring base tot csz psz) m' = []"
    by (simp_all add: cmd_contents_def comp_contents_def init_ring_def f)
  ultimately show ?thesis using m' by blast
qed

lemma init_ring_ok:
  assumes "round_pow2 cmd_req = Some csz" "round_pow2 comp_req = Some psz"
  shows "ring_ok (init_ring base tot csz psz)"
proof -
  have "\<exists>k\<le>31. s = 2 ^ k" if "round_pow2 n = Some s" for n s
    using that round_pow2_None [of n] round_pow2_Some [of n]
    by (cases "n \<le> 2 ^ 31") (auto simp: not_le)
  with assms obtain k j where "k \<le> 31" "csz = 2 ^ k" "j \<le> 31" "psz = 2 ^ j" by metis
  moreover have "pow2_sized (2 ^ i) (2 ^ i - 1)" if "i \<le> 31" for i
    using that by (auto simp: pow2_sized_def pow2_minus1 intro!: bexI [of _ i])
  ultimately show ?thesis by (simp add: ring_ok_def init_ring_def)
qed

text \<open>The sizes the daemon and the device ask for.\<close>

lemma default_ring_sizes: "round_pow2 (4 * 1024 * 1024) = Some 0x400000" "round_pow2 (256 * 1024) = Some 0x40000"
  using round_pow2_exact [of 22] round_pow2_exact [of 18] by simp_all

lemma init_host_small:
  assumes "unat tot \<le> 64 + 0x400000 + 0x40000"
  shows "gravity_ring_init_host m base tot (4 * 1024 * 1024) (256 * 1024) = Some (-1, m)"
  using assms default_ring_sizes
  by (simp add: gravity_ring_init_host_def Let_def GRAVITY_RING_HEADER_SIZE_def word_le_nat_alt)

lemmas init_host_large = init_host_attach [OF default_ring_sizes]

section \<open>The bump allocator\<close>

lemma and_not_mask:
  fixes x :: "'a::len word"
  shows "x AND NOT (mask n) = x - (x AND mask n)"
proof -
  have "NOT x AND (x AND mask n) = 0" by (rule bit_eqI) (simp add: bit_simps)
  then have "x - (x AND mask n) = x AND NOT (x AND mask n)" by (rule disjunctive_diff_eq_and_not)
  also have "\<dots> = x AND NOT (mask n)" by (rule bit_eqI) (auto simp: bit_simps)
  finally show ?thesis by simp
qed

lemma unat_align_down:
  fixes x :: "'a::len word"
  shows "unat (x AND NOT (mask n)) = unat x - unat x mod 2 ^ n"
  unfolding and_not_mask
  by (subst unat_sub) (simp_all add: word_le_nat_alt unat_and_mask)

text \<open>
  The context agrees with the header it was attached to, the allocation offset is a cache
  line inside the region, and the region ends below 2 GiB, so that \<^verbatim>\<open>offset + size\<close> cannot
  wrap in 32 bits.
\<close>

definition data_ok :: "gravity_ring \<Rightarrow> mem \<Rightarrow> bool" where
  "data_ok ring m \<longleftrightarrow>
     rg_header ring + 64 \<le> rg_data_region ring \<and>
     rg_data_region ring = rg_header ring + unat (get_hdr m (rg_header ring) rh_data_region_offset) \<and>
     unat (get_hdr m (rg_header ring) rh_data_region_offset) + unat (rg_data_region_size ring) < 2 ^ 32 \<and>
     unat (rg_data_region_size ring) \<le> 2 ^ 31 \<and>
     unat (rg_data_alloc_offset ring) < unat (rg_data_region_size ring) \<and>
     unat (rg_data_alloc_offset ring) mod 64 = 0"

text \<open>Where the allocator places \<open>sz\<close> bytes, on natural numbers.\<close>

definition data_place :: "gravity_ring \<Rightarrow> u32 \<Rightarrow> nat" where
  "data_place ring sz =
     (if unat (rg_data_region_size ring) < unat (rg_data_alloc_offset ring) + unat sz then 0
      else unat (rg_data_alloc_offset ring))"

lemma data_ok_alloc:
  "data_ok ring m \<Longrightarrow>
     get_hdr m' (rg_header ring) rh_data_region_offset = get_hdr m (rg_header ring) rh_data_region_offset \<Longrightarrow>
     unat a < unat (rg_data_region_size ring) \<Longrightarrow> unat a mod 64 = 0 \<Longrightarrow>
     data_ok (ring\<lparr>rg_data_alloc_offset := a\<rparr>) m'"
  by (simp add: data_ok_def)

lemma data_write_ok:
  assumes ok: "data_ok ring m" and sz: "unat sz \<le> unat (rg_data_region_size ring)"
    and len: "unat sz \<le> length data"
  shows "\<exists>off ring' m'. gravity_ring_data_write ring m data sz = (Some off, ring', m') \<and>
     unat off = unat (get_hdr m (rg_header ring) rh_data_region_offset) + data_place ring sz \<and>
     m' = wr m (rg_data_region ring + data_place ring sz) (take (unat sz) data) \<and>
     ring' = ring\<lparr>rg_data_alloc_offset := rg_data_alloc_offset ring'\<rparr> \<and>
     data_place ring sz + unat sz \<le> unat (rg_data_region_size ring) \<and>
     (rg_data_alloc_offset ring' = 0 \<or>
      data_place ring sz + unat sz \<le> unat (rg_data_alloc_offset ring')) \<and>
     data_ok ring' m'"
proof -
  let ?D = "rg_data_region_size ring" and ?a = "rg_data_alloc_offset ring"
  let ?ds = "get_hdr m (rg_header ring) rh_data_region_offset"
  let ?o = "if ?D < ?a + sz then 0 else ?a"
  let ?p = "data_place ring sz"
  let ?m = "wr m (rg_data_region ring + ?p) (take (unat sz) data)"
  have D: "unat ?D \<le> 2 ^ 31" and a: "unat ?a < unat ?D" and al: "unat ?a mod 64 = 0"
    and hd: "rg_header ring + 64 \<le> rg_data_region ring" and dsb: "unat ?ds + unat ?D < 2 ^ 32"
    and dr: "rg_data_region ring = rg_header ring + unat ?ds"
    using ok by (simp_all add: data_ok_def)
  have "unat (?a + sz) = unat ?a + unat sz"
    using a D sz by (subst unat_word_ariths) simp
  then have o: "unat ?o = ?p" by (simp add: data_place_def word_less_nat_alt)
  have p: "?p + unat sz \<le> unat ?D" and pD: "?p < unat ?D" and p64: "?p mod 64 = 0"
    using a sz al by (auto simp: data_place_def)
  have hdr: "get_hdr ?m (rg_header ring) f = get_hdr m (rg_header ring) f" for f
    by (rule get_hdr_cong) (use hd in \<open>auto simp: wr_def\<close>)
  have dso: "unat (?ds + ?o) = unat ?ds + ?p"
    using dsb pD o by (subst unat_word_ariths) simp
  let ?a1 = "(?o + sz + 63) AND NOT 63"
  let ?a2 = "if ?D \<le> ?a1 then 0 else ?a1"
  have u63: "unat (w + sz + 63) = ?p + unat sz + 63" if "unat w = ?p" for w :: u32
  proof -
    have "unat (w + sz) = ?p + unat sz" using p D that by (subst unat_word_ariths) simp
    then show ?thesis using p D by (subst unat_word_ariths) simp
  qed
  have n63: "(NOT 63 :: u32) = NOT (mask 6)" by (simp add: mask_eq_exp_minus_1)
  have a1: "unat ?a1 = (?p + unat sz + 63) - (?p + unat sz + 63) mod 64"
    unfolding n63 unat_align_down u63 [OF o] by simp
  then have a1': "?p + unat sz \<le> unat ?a1" "unat ?a1 mod 64 = 0"
    by (simp_all add: minus_mod_eq_mult_div)
  let ?r = "ring\<lparr>rg_data_alloc_offset := ?a2\<rparr>"
  have "gravity_ring_data_write ring m data sz = (Some (ucast (?ds + ?o)), ?r, ?m)"
    using sz by (simp add: gravity_ring_data_write_def Let_def word_less_nat_alt not_less o hdr
        del: unat_arith_simps) (simp add: o [symmetric] word_less_nat_alt word_le_nat_alt)
  moreover have "unat (ucast (?ds + ?o) :: u64) = unat ?ds + ?p" by (simp only: unat_ucast_32_64 dso)
  moreover have "data_ok ?r ?m"
    by (rule data_ok_alloc [OF ok hdr]) (use a a1' in \<open>auto simp: word_le_nat_alt\<close>)
  moreover have "?a2 = 0 \<or> ?p + unat sz \<le> unat ?a2" using a1' by auto
  ultimately show ?thesis using p by fastforce
qed

lemma data_ptr_placed:
  assumes "data_ok ring m" "p < unat (rg_data_region_size ring)"
    and "unat off = unat (get_hdr m (rg_header ring) rh_data_region_offset) + p"
  shows "gravity_ring_data_ptr ring m off = Some (rg_data_region ring + p)"
proof -
  let ?ds = "get_hdr m (rg_header ring) rh_data_region_offset"
  have le: "(ucast ?ds :: u64) \<le> off" using assms(3) by (simp add: word_le_nat_alt)
  then have "unat (off - ucast ?ds) = p" using assms(3) by (simp add: unat_sub)
  then have "unat (ucast (off - ucast ?ds) :: u32) = p"
    using assms(1,2) by (simp add: data_ok_def unsigned_ucast_eq take_bit_nat_eq_self)
  then show ?thesis
    using assms(2) le by (simp add: gravity_ring_data_ptr_def Let_def word_le_nat_alt word_less_nat_alt)
qed

lemma data_ptr_inside:
  "gravity_ring_data_ptr ring m off = Some p \<Longrightarrow>
     rg_data_region ring \<le> p \<and> p < rg_data_region ring + unat (rg_data_region_size ring)"
  by (auto simp: gravity_ring_data_ptr_def Let_def word_le_nat_alt split: if_splits)

end
