(* ===== verification/Ring_Fifo.thy ===== *)
theory Ring_Fifo
  imports Gravity_Ring
begin

text \<open>
  The contract both rings offer their clients, as a locale: a queue of framed messages (each
  starts with a command header whose \<open>size\<close> field is the message's length).  The client
  lemmas, proved once, say that any interleaving of sends and receives delivers the accepted
  messages once, whole and in order.  The locale is interpreted on the command ring
  (\<^verbatim>\<open>gravity_ring_cmd_write\<close> against \<^verbatim>\<open>gravity_ring_cmd_peek\<close> followed by
  \<^verbatim>\<open>gravity_ring_cmd_consume\<close>, as the daemon's loop does) and on the completion ring
  (\<^verbatim>\<open>gravity_ring_comp_write\<close> against \<^verbatim>\<open>gravity_ring_comp_read\<close>).
\<close>

section \<open>Framed messages\<close>

definition framed :: "nat \<Rightarrow> u8 list \<Rightarrow> bool" where
  "framed limit d \<longleftrightarrow> 16 \<le> length d \<and> unat (hdr_size (header_of d)) = length d \<and> length d \<le> limit"

lemma framed_not_Nil: "framed n d \<Longrightarrow> d \<noteq> []"
  by (auto simp: framed_def)

lemma framed_header: "framed n d \<Longrightarrow> header_of (d @ rest) = header_of d"
  by (simp add: framed_def header_of_append)

lemma framed_size: "framed n d \<Longrightarrow> unat (of_nat (length d) :: u32) = length d"
  unfolding framed_def by (metis word_unat_eq_iff of_nat_unat ucast_id)

lemma framed_ready: "framed (unat n) d \<Longrightarrow> peek_ready (d @ rest) n"
  by (simp add: peek_ready_def framed_header) (simp add: framed_def)

section \<open>Operations of a queue and their runs\<close>

datatype qop = QSend "u8 list" | QRecv

text \<open>Final state, the messages the sends accepted and the messages the receives returned.\<close>

fun run_queue ::
  "('s \<Rightarrow> u8 list \<Rightarrow> 's option) \<Rightarrow> ('s \<Rightarrow> (u8 list \<times> 's) option) \<Rightarrow> 's \<Rightarrow> qop list \<Rightarrow>
     's \<times> u8 list list \<times> u8 list list" where
  "run_queue snd1 rcv1 s [] = (s, [], [])"
| "run_queue snd1 rcv1 s (QSend d # ops) =
     (case snd1 s d of
        None \<Rightarrow> run_queue snd1 rcv1 s ops
      | Some s' \<Rightarrow> (case run_queue snd1 rcv1 s' ops of (t, acc, out) \<Rightarrow> (t, d # acc, out)))"
| "run_queue snd1 rcv1 s (QRecv # ops) =
     (case rcv1 s of
        None \<Rightarrow> run_queue snd1 rcv1 s ops
      | Some (d, s') \<Rightarrow> (case run_queue snd1 rcv1 s' ops of (t, acc, out) \<Rightarrow> (t, acc, d # out)))"

definition sends_framed :: "nat \<Rightarrow> qop list \<Rightarrow> bool" where
  "sends_framed limit ops = list_all (\<lambda>op. case op of QSend d \<Rightarrow> framed limit d | QRecv \<Rightarrow> True) ops"

section \<open>The contract\<close>

locale message_queue =
  fixes inv :: "'s \<Rightarrow> bool" and contents :: "'s \<Rightarrow> u8 list" and limit :: nat
    and snd1 :: "'s \<Rightarrow> u8 list \<Rightarrow> 's option" and rcv1 :: "'s \<Rightarrow> (u8 list \<times> 's) option"
  assumes send_law: "inv s \<Longrightarrow> framed limit d \<Longrightarrow> snd1 s d = Some s' \<Longrightarrow>
      inv s' \<and> contents s' = contents s @ d"
    and recv_law: "inv s \<Longrightarrow> framed limit d \<Longrightarrow> contents s = d @ rest \<Longrightarrow>
      \<exists>s'. rcv1 s = Some (d, s') \<and> inv s' \<and> contents s' = rest"
    and empty_law: "inv s \<Longrightarrow> contents s = [] \<Longrightarrow> rcv1 s = None"
begin

lemma recv_None_iff:
  assumes "inv s" "contents s = concat q" "list_all (framed limit) q"
  shows "rcv1 s = None \<longleftrightarrow> q = []"
proof (cases q)
  case (Cons d ds)
  then show ?thesis using assms recv_law [of s d "concat ds"] by auto
qed (use assms empty_law in simp)

text \<open>The queue holds whole messages throughout, and nothing is lost, duplicated or reordered.\<close>

lemma run_fifo:
  assumes "inv s" "contents s = concat q" "list_all (framed limit) q" "sends_framed limit ops"
    and "run_queue snd1 rcv1 s ops = (t, acc, out)"
  shows "\<exists>q'. inv t \<and> contents t = concat q' \<and> list_all (framed limit) q' \<and> q @ acc = out @ q'"
  using assms
proof (induction ops arbitrary: s q acc out)
  case (Cons op ops)
  have ops: "sends_framed limit ops" using Cons.prems(4) by (simp add: sends_framed_def)
  show ?case
  proof (cases op)
    case (QSend d)
    then have d: "framed limit d" using Cons.prems(4) by (simp add: sends_framed_def)
    show ?thesis
    proof (cases "snd1 s d")
      case (Some s')
      obtain acc' where r: "run_queue snd1 rcv1 s' ops = (t, acc', out)" "acc = d # acc'"
        using Cons.prems(5) QSend Some by (auto split: prod.splits)
      have s': "inv s'" "contents s' = concat (q @ [d])"
        using send_law [OF Cons.prems(1) d Some] Cons.prems(2) by simp_all
      show ?thesis
        using Cons.IH [OF s'(1,2) _ ops r(1)] Cons.prems(3) d by (auto simp: r(2))
    qed (use Cons QSend ops in auto)
  next
    case QRecv
    show ?thesis
    proof (cases q)
      case Nil
      then show ?thesis
        using Cons.IH [OF Cons.prems(1-3) ops] Cons.prems QRecv empty_law [OF Cons.prems(1)] by auto
    next
      case (Cons d ds)
      then obtain s' where s': "rcv1 s = Some (d, s')" "inv s'" "contents s' = concat ds"
        using recv_law [OF Cons.prems(1), of d "concat ds"] Cons.prems(2,3) by auto
      obtain out' where r: "run_queue snd1 rcv1 s' ops = (t, acc, out')" "out = d # out'"
        using Cons.prems(5) QRecv s'(1) by (auto split: prod.splits)
      show ?thesis
        using Cons.IH [OF s'(2,3) _ ops r(1)] Cons.prems(3) by (auto simp: r(2) Cons)
    qed
  qed
qed auto

text \<open>Draining: as many receives as there are messages return them all.\<close>

lemma drain:
  assumes "inv s" "contents s = concat q" "list_all (framed limit) q"
  shows "\<exists>t. run_queue snd1 rcv1 s (replicate (length q) QRecv) = (t, [], q) \<and>
             inv t \<and> contents t = []"
  using assms
proof (induction q arbitrary: s)
  case (Cons d ds)
  then obtain s' where "rcv1 s = Some (d, s')" "inv s'" "contents s' = concat ds"
    using recv_law [of s d "concat ds"] by auto
  then show ?case using Cons.IH [of s'] Cons.prems(3) by auto
qed simp

end

section \<open>The command ring as a queue\<close>

type_synonym ring_state = "gravity_ring \<times> mem"

definition cmdq_send :: "ring_state \<Rightarrow> u8 list \<Rightarrow> ring_state option" where
  "cmdq_send = (\<lambda>(ring, m) d.
     case gravity_ring_cmd_write ring m d (of_nat (length d)) of
       (r, m') \<Rightarrow> if r = 0 then Some (ring, m') else None)"

text \<open>Peek into a buffer of \<open>n\<close> bytes holding \<open>buf\<close>, then consume what the header says.\<close>

definition cmdq_recv :: "mem \<Rightarrow> u32 \<Rightarrow> ring_state \<Rightarrow> (u8 list \<times> ring_state) option" where
  "cmdq_recv buf n = (\<lambda>(ring, m).
     case gravity_ring_cmd_peek ring m buf n of
       (ok, dst) \<Rightarrow>
         if \<not> ok then None
         else let sz = hdr_size (gravity_cmd_header_at dst 0)
              in Some (rd dst 0 (unat sz), (ring, gravity_ring_cmd_consume ring m sz)))"

definition ringq_inv :: "ring_state \<Rightarrow> bool" where
  "ringq_inv s = ring_ok (fst s)"

definition cmdq_contents :: "ring_state \<Rightarrow> u8 list" where
  "cmdq_contents s = cmd_contents (fst s) (snd s)"

lemma rd_wr_take: "n \<le> length bs \<Longrightarrow> n \<le> k \<Longrightarrow> rd (wr buf 0 (take k bs)) 0 n = take n bs"
  by (rule nth_equalityI) (auto simp: wr_def)

lemma header_at_wr: "16 \<le> length bs \<Longrightarrow> gravity_cmd_header_at (wr buf 0 bs) 0 = header_of bs"
  unfolding header_of_def by (rule header_at_cong) (auto simp: wr_def list_mem_def)

text \<open>Peeking at the command at the front of the command ring.\<close>

lemma cmd_peek_front:
  assumes ok: "ring_ok ring" and bs: "cmd_contents ring m = d @ rest" and fr: "framed (unat n) d"
  shows "gravity_ring_cmd_peek ring m buf n = (True, wr buf 0 d)"
    and "gravity_cmd_header_at (wr buf 0 d) 0 = header_of d"
    and "cmd_contents ring (gravity_ring_cmd_consume ring m (hdr_size (header_of d))) = rest"
proof -
  have f: "16 \<le> length d" "unat (hdr_size (header_of d)) = length d" "length d \<le> unat n"
    using fr by (simp_all add: framed_def)
  show "gravity_ring_cmd_peek ring m buf n = (True, wr buf 0 d)"
    using cmd_peek_eq [OF ok, of n m buf] f framed_ready [OF fr, of rest] framed_header [OF fr]
    by (simp add: bs)
  show "gravity_cmd_header_at (wr buf 0 d) 0 = header_of d" using f by (simp add: header_at_wr)
  show "cmd_contents ring (gravity_ring_cmd_consume ring m (hdr_size (header_of d))) = rest"
    using cmd_consume_contents [OF ok, of "hdr_size (header_of d)" m] f by (simp add: bs)
qed

interpretation cmdq: message_queue ringq_inv cmdq_contents "unat n" cmdq_send "cmdq_recv buf n"
  for buf n
proof (unfold_locales, goal_cases)
  case (1 s d s')
  then show ?case
    using cmd_write_contents [of "fst s" "snd s" d "of_nat (length d)"] framed_size [OF 1(2)]
    by (auto simp: cmdq_send_def ringq_inv_def cmdq_contents_def split: prod.splits if_splits)
next
  case (2 s d rest)
  obtain ring m where s: "s = (ring, m)" by force
  have ok: "ring_ok ring" and bs: "cmd_contents ring m = d @ rest"
    using 2 s by (simp_all add: ringq_inv_def cmdq_contents_def)
  note front = cmd_peek_front [OF ok bs 2(2)]
  have "unat (hdr_size (header_of d)) = length d" using 2(2) by (simp add: framed_def)
  then have "cmdq_recv buf n s = Some (d, (ring, gravity_ring_cmd_consume ring m (hdr_size (header_of d))))"
    by (simp add: cmdq_recv_def s front Let_def rd_wr_take [of _ d "length d", simplified])
  then show ?case using ok front(3) by (auto simp: ringq_inv_def cmdq_contents_def)
next
  case (3 s)
  obtain ring m where s: "s = (ring, m)" by force
  have "gravity_ring_cmd_available ring m = 0"
    using 3 s length_cmd_contents [of ring m] by (simp add: cmdq_contents_def unat_eq_0)
  then show ?case
    by (simp add: cmdq_recv_def s gravity_ring_cmd_peek_def Let_def sizeof_cmd_header_def word_less_nat_alt)
qed

section \<open>The completion ring as a queue\<close>

definition compq_send :: "ring_state \<Rightarrow> u8 list \<Rightarrow> ring_state option" where
  "compq_send = (\<lambda>(ring, m) d.
     case gravity_ring_comp_write ring m d (of_nat (length d)) of
       (r, m') \<Rightarrow> if r = 0 then Some (ring, m') else None)"

definition compq_recv :: "mem \<Rightarrow> u32 \<Rightarrow> ring_state \<Rightarrow> (u8 list \<times> ring_state) option" where
  "compq_recv buf n = (\<lambda>(ring, m).
     case gravity_ring_comp_read ring m buf n of
       (r, dst, m') \<Rightarrow> if 0 < r then Some (rd dst 0 (nat r), (ring, m')) else None)"

definition compq_contents :: "ring_state \<Rightarrow> u8 list" where
  "compq_contents s = comp_contents (fst s) (snd s)"

lemma sint_pos:
  fixes w :: u32
  assumes "unat w < 2 ^ 31"
  shows "sint w = int (unat w)"
proof -
  have "int (unat w) < int (2 ^ 31)" using assms by (simp only: of_nat_less_iff)
  then have "uint w < 2 ^ 31" by (simp only: uint_nat) simp
  then have "signed_take_bit (LENGTH(32) - Suc 0) (uint w) = uint w"
    by (intro signed_take_bit_int_eq_self) (simp_all add: order_trans [OF _ uint_ge_0])
  then show ?thesis by (simp only: sint_uint uint_nat)
qed

text \<open>Reading the message at the front of the completion ring.\<close>

lemma comp_read_front:
  assumes ok: "ring_ok ring" and bs: "comp_contents ring m = d @ rest"
    and fr: "framed (min (unat n) (2 ^ 31 - 1)) d"
  shows "\<exists>m'. gravity_ring_comp_read ring m buf n = (int (length d), wr buf 0 d, m') \<and>
     comp_contents ring m' = rest"
proof -
  have fr': "framed (unat n) d" using fr by (simp add: framed_def)
  have f: "16 \<le> length d" "unat (hdr_size (header_of d)) = length d" "length d \<le> unat n"
    "length d < 2 ^ 31"
    using fr by (simp_all add: framed_def)
  let ?sz = "hdr_size (header_of d)"
  let ?m = "put_hdr m (rg_header ring) rh_comp_head
     ((get_hdr m (rg_header ring) rh_comp_head + ?sz) AND rg_comp_ring_mask ring)"
  have i: "sint ?sz = int (length d)" using f by (simp add: sint_pos)
  have "gravity_ring_comp_read ring m buf n = (sint ?sz, wr buf 0 d, ?m)"
    using comp_read_eq [OF ok, of n m buf] f framed_ready [OF fr', of rest] framed_header [OF fr']
    by (simp add: bs Let_def)
  moreover have "comp_contents ring ?m = rest"
    using comp_advance_contents [OF ok, of ?sz m] f by (simp add: bs)
  ultimately show ?thesis unfolding i by blast
qed

interpretation compq: message_queue ringq_inv compq_contents "min (unat n) (2 ^ 31 - 1)"
    compq_send "compq_recv buf n"
  for buf n
proof (unfold_locales, goal_cases)
  case (1 s d s')
  then show ?case
    using comp_write_contents [of "fst s" "snd s" d "of_nat (length d)"] framed_size [OF 1(2)]
    by (auto simp: compq_send_def ringq_inv_def compq_contents_def split: prod.splits if_splits)
next
  case (2 s d rest)
  obtain ring m where s: "s = (ring, m)" by force
  have ok: "ring_ok ring" and bs: "comp_contents ring m = d @ rest"
    using 2 s by (simp_all add: ringq_inv_def compq_contents_def)
  obtain m' where m': "gravity_ring_comp_read ring m buf n = (int (length d), wr buf 0 d, m')"
    "comp_contents ring m' = rest"
    using comp_read_front [OF ok bs 2(2)] by blast
  have "compq_recv buf n s = Some (d, (ring, m'))"
    using framed_not_Nil [OF 2(2)] by (simp add: compq_recv_def s m'(1) rd_wr_take [of _ d "length d", simplified])
  then show ?case using ok m'(2) by (auto simp: ringq_inv_def compq_contents_def)
next
  case (3 s)
  obtain ring m where s: "s = (ring, m)" by force
  have "comp_contents ring m = []" using 3 s by (simp add: compq_contents_def)
  then have "(get_hdr m (rg_header ring) rh_comp_tail - get_hdr m (rg_header ring) rh_comp_head) AND
      rg_comp_ring_mask ring = 0"
    by (simp add: comp_contents_def Let_def unat_eq_0)
  then show ?case
    by (simp add: compq_recv_def s gravity_ring_comp_read_def Let_def sizeof_cmd_header_def word_less_nat_alt)
qed

section \<open>Concrete rings\<close>

text \<open>A ring of 256 command and 128 completion bytes in 1024 bytes of shared memory.\<close>

definition demo_ring :: gravity_ring where
  "demo_ring = init_ring 0 1024 256 128"

definition demo_mem :: mem where
  "demo_mem = (case gravity_ring_init_host (\<lambda>_. 0) 0 1024 256 128 of Some (_, m) \<Rightarrow> m | None \<Rightarrow> (\<lambda>_. 0))"

lemma demo_round: "round_pow2 256 = Some 256" "round_pow2 128 = Some 128"
  using round_pow2_exact [of 8] round_pow2_exact [of 7] by simp_all

lemma demo_ok [simp]: "ring_ok demo_ring"
  unfolding demo_ring_def by (rule init_ring_ok [OF demo_round])

lemma demo_sizes [simp]:
  "rg_cmd_ring_size demo_ring = 256" "rg_comp_ring_size demo_ring = 128"
  "rg_data_region_size demo_ring = 576"
  by (simp_all add: demo_ring_def init_ring_def)

lemma demo_attach:
  "gravity_ring_init_host (\<lambda>_. 0) 0 1024 256 128 = Some (0, demo_mem) \<and>
   gravity_ring_attach demo_mem 0 = Some demo_ring \<and>
   cmd_contents demo_ring demo_mem = [] \<and> comp_contents demo_ring demo_mem = []"
  using init_host_attach [OF demo_round, of 1024 "\<lambda>_. 0" 0]
  by (auto simp: demo_mem_def demo_ring_def)

lemma attach_fields:
  "gravity_ring_attach m base = Some ring \<Longrightarrow>
     rg_header ring = base \<and>
     rg_data_region ring = base + unat (get_hdr m base rh_data_region_offset) \<and>
     rg_data_region_size ring = get_hdr m base rh_data_region_size \<and> rg_data_alloc_offset ring = 0"
  by (auto simp: gravity_ring_attach_def split: if_splits)

lemma init_data_ok:
  assumes "gravity_ring_attach m base = Some (init_ring base tot csz psz)"
    and "64 + unat csz + unat psz < unat tot" "unat tot \<le> 2 ^ 31"
  shows "data_ok (init_ring base tot csz psz) m"
proof -
  have c: "unat (64 + csz) = 64 + unat csz"
    using assms(2,3) by (subst unat_word_ariths) simp
  have d: "unat (64 + csz + psz) = 64 + unat csz + unat psz"
    using assms(2,3) c by (subst unat_word_ariths) simp
  have s: "unat (tot - (64 + csz + psz)) = unat tot - (64 + unat csz + unat psz)"
    using assms(2) d by (subst unat_sub) (simp_all add: word_le_nat_alt)
  show ?thesis
    using attach_fields [OF assms(1)] assms(2,3) s
    by (auto simp: data_ok_def init_ring_def)
qed

lemma demo_data_ok [simp]: "data_ok demo_ring demo_mem"
  unfolding demo_ring_def
  by (rule init_data_ok) (use demo_attach in \<open>simp_all add: demo_ring_def\<close>)

text \<open>A ping command of 16 bytes with sequence number \<open>s\<close>.\<close>

definition demo_ping :: "u32 \<Rightarrow> u8 list" where
  "demo_ping s = gravity_cmd_header_bytes (gravity_cmd_init (gravity_cmd_op_val GRAVITY_CMD_PING) 16 s)"

lemma demo_ping_framed [simp]: "16 \<le> n \<Longrightarrow> framed n (demo_ping s)"
  by (simp add: framed_def demo_ping_def gravity_cmd_init_def)

lemma length_demo_ping [simp]: "length (demo_ping s) = 16"
  by (simp add: demo_ping_def)

section \<open>The data region, written and read back\<close>

lemma data_write_returns:
  assumes "data_ok ring m" "data \<noteq> []" "length data \<le> unat (rg_data_region_size ring)"
  shows "\<exists>off ring' m' p.
     gravity_ring_data_write ring m data (of_nat (length data)) = (Some off, ring', m') \<and>
     gravity_ring_data_ptr ring' m' off = Some p \<and> rd m' p (length data) = data \<and>
     rg_data_region ring \<le> p \<and> p + length data \<le> rg_data_region ring + unat (rg_data_region_size ring) \<and>
     (\<forall>x. x < p \<or> p + length data \<le> x \<longrightarrow> m' x = m x) \<and> data_ok ring' m' \<and>
     (rg_data_alloc_offset ring' = 0 \<or>
      p + length data \<le> rg_data_region ring + unat (rg_data_alloc_offset ring'))"
proof -
  let ?n = "of_nat (length data) :: u32"
  let ?p = "data_place ring ?n"
  have n: "unat ?n = length data"
    using assms(3) unsigned_less [of "rg_data_region_size ring", where ?'a = nat] by (simp add: unat_of_nat)
  obtain off ring' m' where w: "gravity_ring_data_write ring m data ?n = (Some off, ring', m')"
    and off: "unat off = unat (get_hdr m (rg_header ring) rh_data_region_offset) + ?p"
    and m': "m' = wr m (rg_data_region ring + ?p) data"
    and ring': "ring' = ring\<lparr>rg_data_alloc_offset := rg_data_alloc_offset ring'\<rparr>"
    and fit: "?p + length data \<le> unat (rg_data_region_size ring)"
    and nxt: "rg_data_alloc_offset ring' = 0 \<or> ?p + length data \<le> unat (rg_data_alloc_offset ring')"
    and ok: "data_ok ring' m'"
    using data_write_ok [OF assms(1), of ?n data] assms(3) n by auto
  have f: "rg_header ring' = rg_header ring" "rg_data_region ring' = rg_data_region ring"
    "rg_data_region_size ring' = rg_data_region_size ring"
    by (subst ring'; simp)+
  have "get_hdr m' (rg_header ring) rh_data_region_offset = get_hdr m (rg_header ring) rh_data_region_offset"
    unfolding m' using assms(1) by (intro get_hdr_cong) (auto simp: wr_def data_ok_def)
  then have "gravity_ring_data_ptr ring' m' off = Some (rg_data_region ring + ?p)"
    using data_ptr_placed [OF ok, of ?p off] off fit assms(2) f by (cases data) auto
  moreover have "rd m' (rg_data_region ring + ?p) (length data) = data"
    unfolding m' by (simp add: rd_wr_same)
  moreover have "\<forall>x. x < rg_data_region ring + ?p \<or> rg_data_region ring + ?p + length data \<le> x \<longrightarrow> m' x = m x"
    unfolding m' by (auto simp: wr_def)
  ultimately show ?thesis using w ok nxt fit by fastforce
qed

section \<open>Properties\<close>

text \<open>
  C24: initialising shared memory that has room for the header, both rings and a data region
  makes a ring that attachment accepts, that is well formed and empty; nothing outside the
  region changes, and below 2 GiB its data region is well formed too.
\<close>

theorem ring_init_then_attach:
  assumes "round_pow2 cmd_req = Some csz" "round_pow2 comp_req = Some psz"
    and "64 + unat csz + unat psz < unat tot"
  shows "\<exists>m' ring. gravity_ring_init_host m base tot cmd_req comp_req = Some (0, m') \<and>
           gravity_ring_attach m' base = Some ring \<and> ring_ok ring \<and>
           (unat tot \<le> 2 ^ 31 \<longrightarrow> data_ok ring m') \<and>
           cmd_contents ring m' = [] \<and> comp_contents ring m' = [] \<and>
           rg_cmd_ring_size ring = csz \<and> rg_comp_ring_size ring = psz \<and>
           (\<forall>x. x < base \<or> base + unat tot \<le> x \<longrightarrow> m' x = m x)"
proof -
  let ?r = "init_ring base tot csz psz"
  have sizes: "rg_cmd_ring_size ?r = csz" "rg_comp_ring_size ?r = psz" by (simp_all add: init_ring_def)
  show ?thesis
    using init_host_attach [OF assms, of m base] init_ring_ok [OF assms(1,2), of base tot] sizes
      init_data_ok [OF _ assms(3), of _ base] by blast
qed

theorem ring_init_then_attach_witness:
  "\<exists>m' ring. gravity_ring_init_host (\<lambda>_. 0) 0 1024 256 128 = Some (0, m') \<and>
     gravity_ring_attach m' 0 = Some ring \<and> ring_ok ring \<and> data_ok ring m'"
  using ring_init_then_attach [OF demo_round, of 1024 "\<lambda>_. 0" 0] by auto

text \<open>
  C40: the loop that rounds a requested ring size up returns the least power of two that is
  large enough, for requests of at most \<open>2 ^ 31\<close> bytes, and never returns above.
\<close>

theorem ring_size_rounding:
  "round_pow2 n = (if n \<le> 2 ^ 31 then Some (2 ^ (LEAST k. n \<le> 2 ^ k)) else None)"
proof (cases "n \<le> 2 ^ 31")
  case True
  then obtain k where k: "round_pow2 n = Some (2 ^ k)" "n \<le> 2 ^ k" "\<forall>j<k. 2 ^ j < n"
    using round_pow2_Some by blast
  then have "(LEAST k. n \<le> 2 ^ k) = k" by (intro Least_equality) (auto simp: not_less [symmetric])
  with True k show ?thesis by simp
qed (simp add: round_pow2_None not_le)

text \<open>
  \<^verbatim>\<open>gravity_ring_cmd_write\<close> accepts a command exactly when it is not empty, at most half
  the ring, and leaves one byte of the ring free; an accepted command is appended to the
  ring's contents, a refused one changes nothing, and no byte outside the command ring and
  its producer index is ever touched.
\<close>

lemma cmd_write_spec:
  assumes "ring_ok ring" "length data < 2 ^ 32"
  shows "case gravity_ring_cmd_write ring m data (of_nat (length data)) of (r, m') \<Rightarrow>
     (r = 0 \<longleftrightarrow> data \<noteq> [] \<and> length data \<le> unat (rg_cmd_ring_size ring) div 2 \<and>
               length (cmd_contents ring m) + length data < unat (rg_cmd_ring_size ring)) \<and>
     (r \<noteq> 0 \<longrightarrow> r = -1 \<and> m' = m) \<and>
     (r = 0 \<longrightarrow> cmd_contents ring m' = cmd_contents ring m @ data) \<and>
     comp_contents ring m' = comp_contents ring m \<and>
     (\<forall>x. (x < rg_cmd_ring ring \<or> rg_cmd_ring ring + unat (rg_cmd_ring_size ring) \<le> x) \<longrightarrow>
          (x < rg_header ring + 36 \<or> rg_header ring + 40 \<le> x) \<longrightarrow> m' x = m x)"
proof -
  let ?n = "of_nat (length data) :: u32"
  have n: "unat ?n = length data" using assms(2) by (simp add: unat_of_nat)
  obtain r m' where e: "gravity_ring_cmd_write ring m data ?n = (r, m')" by force
  have z: "r = 0 \<longleftrightarrow> data \<noteq> [] \<and> length data \<le> unat (rg_cmd_ring_size ring) div 2 \<and>
               length (cmd_contents ring m) + length data < unat (rg_cmd_ring_size ring)"
    using cmd_write_zero_iff [OF assms(1), of m data ?n] by (simp only: e n fst_conv length_greater_0_conv)
  show ?thesis
    unfolding e prod.case
    using z cmd_write_fail [of ring m data ?n] cmd_write_contents [OF assms(1), of m data ?n]
      cmd_write_comp_contents [OF assms(1), of m data ?n] cmd_write_frame [OF assms(1), of _ m data ?n]
    by (simp only: e n fst_conv snd_conv prod.inject) auto
qed

lemma cmd_write_spec_witness:
  "cmd_contents demo_ring (snd (gravity_ring_cmd_write demo_ring demo_mem (demo_ping 7) 16)) = demo_ping 7"
  using cmd_write_spec [of demo_ring "demo_ping 7" demo_mem, OF demo_ok] demo_attach
    length_demo_ping [of 7]
  by (cases "gravity_ring_cmd_write demo_ring demo_mem (demo_ping 7) 16") force

text \<open>
  C15: the command ring is a FIFO of whole commands: whatever sequence of
  \<^verbatim>\<open>gravity_ring_cmd_write\<close> and peek-and-consume calls runs from an empty ring, the commands
  received are, in order, a prefix of the commands accepted, and the rest of those is what the
  ring still holds.
\<close>

theorem cmd_ring_fifo:
  assumes "ring_ok ring" "cmd_contents ring m = []" "sends_framed (unat n) ops"
    and "run_queue cmdq_send (cmdq_recv buf n) (ring, m) ops = ((ring', m'), acc, out)"
  shows "\<exists>q. acc = out @ q \<and> cmd_contents ring' m' = concat q \<and> ring_ok ring'"
  using cmdq.run_fifo [where q = "[]", OF _ _ _ assms(3,4)] assms(1,2)
  by (auto simp: ringq_inv_def cmdq_contents_def)

theorem cmd_ring_fifo_witness:
  "\<exists>q. fst (snd (run_queue cmdq_send (cmdq_recv (\<lambda>_. 0) 64) (demo_ring, demo_mem)
                   [QSend (demo_ping 1), QSend (demo_ping 2), QRecv])) =
       snd (snd (run_queue cmdq_send (cmdq_recv (\<lambda>_. 0) 64) (demo_ring, demo_mem)
                   [QSend (demo_ping 1), QSend (demo_ping 2), QRecv])) @ q"
proof -
  let ?ops = "[QSend (demo_ping 1), QSend (demo_ping 2), QRecv]"
  obtain ring' m' acc out
    where r: "run_queue cmdq_send (cmdq_recv (\<lambda>_. 0) 64) (demo_ring, demo_mem) ?ops = ((ring', m'), acc, out)"
    by (metis prod.exhaust)
  show ?thesis
    using cmd_ring_fifo [OF demo_ok _ _ r] demo_attach unfolding r by (auto simp: sends_framed_def)
qed

text \<open>
  so is the completion ring, between \<^verbatim>\<open>gravity_ring_comp_write\<close> and
  \<^verbatim>\<open>gravity_ring_comp_read\<close>, for messages below 2 GiB.
\<close>

lemma comp_ring_fifo:
  assumes "ring_ok ring" "comp_contents ring m = []" "sends_framed (min (unat n) (2 ^ 31 - 1)) ops"
    and "run_queue compq_send (compq_recv buf n) (ring, m) ops = ((ring', m'), acc, out)"
  shows "\<exists>q. acc = out @ q \<and> comp_contents ring' m' = concat q \<and> ring_ok ring'"
  using compq.run_fifo [where q = "[]", OF _ _ _ assms(3,4)] assms(1,2)
  by (auto simp: ringq_inv_def compq_contents_def)

lemma comp_ring_fifo_witness:
  "\<exists>q. fst (snd (run_queue compq_send (compq_recv (\<lambda>_. 0) 64) (demo_ring, demo_mem)
                   [QSend (demo_ping 1), QRecv, QRecv])) =
       snd (snd (run_queue compq_send (compq_recv (\<lambda>_. 0) 64) (demo_ring, demo_mem)
                   [QSend (demo_ping 1), QRecv, QRecv])) @ q"
proof -
  let ?ops = "[QSend (demo_ping 1), QRecv, QRecv]"
  obtain ring' m' acc out
    where r: "run_queue compq_send (compq_recv (\<lambda>_. 0) 64) (demo_ring, demo_mem) ?ops = ((ring', m'), acc, out)"
    by (metis prod.exhaust)
  show ?thesis
    using comp_ring_fifo [OF demo_ok _ _ r] demo_attach unfolding r by (auto simp: sends_framed_def)
qed

text \<open>
  C28: what \<^verbatim>\<open>gravity_ring_data_write\<close> stores is read back through
  \<^verbatim>\<open>gravity_ring_data_ptr\<close> at the offset it returns; the bytes lie inside the data region,
  nothing else changes, and the next allocation starts behind them or at the region's start.
\<close>

theorem data_write_read_back:
  assumes "data_ok ring m" "data \<noteq> []" "length data \<le> unat (rg_data_region_size ring)"
  shows "\<exists>off ring' m' p.
     gravity_ring_data_write ring m data (of_nat (length data)) = (Some off, ring', m') \<and>
     gravity_ring_data_ptr ring' m' off = Some p \<and> rd m' p (length data) = data \<and>
     rg_data_region ring \<le> p \<and> p + length data \<le> rg_data_region ring + unat (rg_data_region_size ring) \<and>
     (\<forall>x. x < p \<or> p + length data \<le> x \<longrightarrow> m' x = m x) \<and> data_ok ring' m' \<and>
     (rg_data_alloc_offset ring' = 0 \<or>
      p + length data \<le> rg_data_region ring + unat (rg_data_alloc_offset ring'))"
  using assms by (rule data_write_returns)

theorem data_write_read_back_witness:
  "\<exists>off ring' m' p. gravity_ring_data_write demo_ring demo_mem [1, 2, 3] 3 = (Some off, ring', m') \<and>
     gravity_ring_data_ptr ring' m' off = Some p \<and> rd m' p 3 = [1, 2, 3]"
proof -
  have n: "length [1 :: u8, 2, 3] = 3" "(of_nat (length [1 :: u8, 2, 3]) :: u32) = 3" by simp_all
  show ?thesis
    using data_write_read_back [OF demo_data_ok, of "[1, 2, 3]"] unfolding n by auto
qed

end
