(* ===== verification/Ring_Spsc.thy ===== *)
theory Ring_Spsc
  imports Ring_Fifo
begin

text \<open>
  The command ring with guest and host running at the same time.  The bodies of
  \<^verbatim>\<open>gravity_ring_cmd_write\<close>, \<^verbatim>\<open>gravity_ring_cmd_peek\<close> and \<^verbatim>\<open>gravity_ring_cmd_consume\<close>
  (\<^verbatim>\<open>protocol/include/gravity_ring.h\<close>) are cut into the steps between their accesses to shared
  memory: one byte of a copy, or one index, at a time.  Steps of the two sides interleave in any
  order; the memory is sequentially consistent, which the fences around the index accesses
  provide on the x86 machines the code is for.
\<close>

section \<open>Program points and state\<close>

text \<open>The producer is idle, or copies \<open>src\<close> to the tail it read, \<open>i\<close> bytes of it done.\<close>

datatype producer = P_Idle | P_Copy "u8 list" u32 nat

text \<open>
  The consumer is idle, copies the header (head, bytes available, bytes done, buffer), copies the
  body (head, size, bytes done, buffer), or has a command in its buffer.
\<close>

datatype consumer = C_Idle | C_Fetch u32 u32 nat mem | C_Body u32 u32 nat mem | C_Have u32 mem

text \<open>\<open>sp_sent\<close> and \<open>sp_got\<close> record the bytes of the commands written, and of those read and consumed.\<close>

record spsc =
  sp_mem :: mem
  sp_prod :: producer
  sp_cons :: consumer
  sp_sent :: "u8 list"
  sp_got :: "u8 list"

definition ring_byte :: "gravity_ring \<Rightarrow> u32 \<Rightarrow> nat \<Rightarrow> nat" where
  "ring_byte ring pos i = rg_cmd_ring ring + unat ((pos + of_nat i) AND rg_cmd_ring_mask ring)"

section \<open>Steps\<close>

text \<open>
  \<open>n\<close> is the size of the consumer's buffer.  The loop that calls peek consumes the size the
  header declares, or only the header's 16 bytes when it takes the command to be invalid.
\<close>

inductive spsc_step :: "gravity_ring \<Rightarrow> u32 \<Rightarrow> spsc \<Rightarrow> spsc \<Rightarrow> bool" for ring :: gravity_ring and n :: u32 where
  write_begin:
    "sp_prod s = P_Idle \<Longrightarrow> src \<noteq> [] \<Longrightarrow> length src \<le> unat (rg_cmd_ring_size ring div 2) \<Longrightarrow>
     length src \<le> unat (gravity_ring_cmd_space ring (sp_mem s)) \<Longrightarrow>
     spsc_step ring n s (s\<lparr>sp_prod := P_Copy src (get_hdr (sp_mem s) (rg_header ring) rh_cmd_tail) 0\<rparr>)"
| write_byte:
    "sp_prod s = P_Copy src tail i \<Longrightarrow> i < length src \<Longrightarrow>
     spsc_step ring n s (s\<lparr>sp_mem := (sp_mem s)(ring_byte ring tail i := src ! i), sp_prod := P_Copy src tail (Suc i)\<rparr>)"
| write_publish:
    "sp_prod s = P_Copy src tail (length src) \<Longrightarrow>
     spsc_step ring n s (s\<lparr>sp_mem := put_hdr (sp_mem s) (rg_header ring) rh_cmd_tail
                             ((tail + of_nat (length src)) AND rg_cmd_ring_mask ring),
                           sp_prod := P_Idle, sp_sent := sp_sent s @ src\<rparr>)"
| peek_begin:
    "sp_cons s = C_Idle \<Longrightarrow> 16 \<le> unat (gravity_ring_cmd_available ring (sp_mem s)) \<Longrightarrow>
     spsc_step ring n s (s\<lparr>sp_cons := C_Fetch (get_hdr (sp_mem s) (rg_header ring) rh_cmd_head)
                             (gravity_ring_cmd_available ring (sp_mem s)) 0 buf\<rparr>)"
| peek_header_byte:
    "sp_cons s = C_Fetch head avail i buf \<Longrightarrow> i < min 16 (unat n) \<Longrightarrow>
     spsc_step ring n s (s\<lparr>sp_cons := C_Fetch head avail (Suc i) (buf(i := sp_mem s (ring_byte ring head i)))\<rparr>)"
| peek_refuse:
    "sp_cons s = C_Fetch head avail (min 16 (unat n)) buf \<Longrightarrow>
     avail < hdr_size (gravity_cmd_header_at buf 0) \<or> n < hdr_size (gravity_cmd_header_at buf 0) \<Longrightarrow>
     spsc_step ring n s (s\<lparr>sp_cons := C_Idle\<rparr>)"
| peek_accept:
    "sp_cons s = C_Fetch head avail (min 16 (unat n)) buf \<Longrightarrow>
     hdr_size (gravity_cmd_header_at buf 0) \<le> avail \<Longrightarrow> hdr_size (gravity_cmd_header_at buf 0) \<le> n \<Longrightarrow>
     spsc_step ring n s (s\<lparr>sp_cons := C_Body head (hdr_size (gravity_cmd_header_at buf 0)) 16 buf\<rparr>)"
| peek_body_byte:
    "sp_cons s = C_Body head sz i buf \<Longrightarrow> i < unat sz \<Longrightarrow>
     spsc_step ring n s (s\<lparr>sp_cons := C_Body head sz (Suc i) (buf(i := sp_mem s (ring_byte ring head i)))\<rparr>)"
| peek_return:
    "sp_cons s = C_Body head sz i buf \<Longrightarrow> unat sz \<le> i \<Longrightarrow>
     spsc_step ring n s (s\<lparr>sp_cons := C_Have sz buf\<rparr>)"
| consume:
    "sp_cons s = C_Have sz buf \<Longrightarrow> amount = sz \<or> amount = 16 \<Longrightarrow>
     spsc_step ring n s (s\<lparr>sp_mem := gravity_ring_cmd_consume ring (sp_mem s) amount, sp_cons := C_Idle,
                           sp_got := sp_got s @ rd buf 0 (unat amount)\<rparr>)"

section \<open>Accesses of one side, seen from the other\<close>

lemma contents_nth:
  "i < length (cmd_contents ring m) \<Longrightarrow>
     m (ring_byte ring (get_hdr m (rg_header ring) rh_cmd_head) i) = cmd_contents ring m ! i"
  by (simp add: cmd_contents_def ring_byte_def Let_def)

text \<open>The ring's free part: \<open>j\<close> bytes behind the tail, with fewer than the ring's size used.\<close>

lemma ring_byte_cases:
  assumes "ring_ok ring"
  obtains k where "k \<le> 31" "rg_cmd_ring_mask ring = mask k" "unat (rg_cmd_ring_size ring) = 2 ^ k"
    "\<And>pos i. ring_byte ring pos i = rg_cmd_ring ring + slot k pos i"
    "\<And>m. cmd_contents ring m = ring_bytes m (rg_cmd_ring ring) k (get_hdr m (rg_header ring) rh_cmd_head)
        (get_hdr m (rg_header ring) rh_cmd_tail)"
proof -
  obtain k where "k \<le> 31" "rg_cmd_ring_mask ring = mask k" "unat (rg_cmd_ring_size ring) = 2 ^ k"
    using ring_okD(1) [OF assms] by (elim pow2_sizedE)
  then show thesis by (intro that [of k]) (simp_all add: ring_byte_def cmd_contents_eq)
qed

lemma write_byte_hdr:
  "ring_ok ring \<Longrightarrow> get_hdr (m(ring_byte ring pos i := b)) (rg_header ring) f = get_hdr m (rg_header ring) f"
  using ring_okD(3) [of ring] by (intro get_hdr_cong) (simp add: ring_byte_def)

lemma write_byte_contents:
  assumes "ring_ok ring" "length (cmd_contents ring m) + j < unat (rg_cmd_ring_size ring)"
  shows "cmd_contents ring (m(ring_byte ring (get_hdr m (rg_header ring) rh_cmd_tail) j := b)) = cmd_contents ring m"
proof (rule ring_byte_cases [OF assms(1)])
  fix k
  let ?h = "get_hdr m (rg_header ring) rh_cmd_head" and ?t = "get_hdr m (rg_header ring) rh_cmd_tail"
  assume k: "k \<le> 31" "rg_cmd_ring_mask ring = mask k" "unat (rg_cmd_ring_size ring) = 2 ^ k"
    and byte: "\<And>pos i. ring_byte ring pos i = rg_cmd_ring ring + slot k pos i"
    and c: "\<And>m. cmd_contents ring m = ring_bytes m (rg_cmd_ring ring) k (get_hdr m (rg_header ring) rh_cmd_head)
        (get_hdr m (rg_header ring) rh_cmd_tail)"
  show ?thesis
    using write_byte_hdr [OF assms(1)] ring_bytes_behind [of k ?h ?t j] assms(2) k by (simp add: c byte)
qed

lemma write_byte_others:
  assumes "ring_ok ring" "i < unat (rg_cmd_ring_size ring)" "j < unat (rg_cmd_ring_size ring)" "i \<noteq> j"
  shows "ring_byte ring pos i \<noteq> ring_byte ring pos j"
proof (rule ring_byte_cases [OF assms(1)])
  fix k
  assume "k \<le> 31" "unat (rg_cmd_ring_size ring) = 2 ^ k"
    and "\<And>pos i. ring_byte ring pos i = rg_cmd_ring ring + slot k pos i"
  then show ?thesis using assms(2-4) slot_inj [of k i j pos] by auto
qed

text \<open>Publishing the tail appends the bytes that lie behind it.\<close>

lemma publish_contents:
  assumes "ring_ok ring" "length (cmd_contents ring m) + length src < unat (rg_cmd_ring_size ring)"
    and "\<And>j. j < length src \<Longrightarrow> m (ring_byte ring (get_hdr m (rg_header ring) rh_cmd_tail) j) = src ! j"
  shows "cmd_contents ring (put_hdr m (rg_header ring) rh_cmd_tail
      ((get_hdr m (rg_header ring) rh_cmd_tail + of_nat (length src)) AND rg_cmd_ring_mask ring)) = cmd_contents ring m @ src"
proof (rule ring_byte_cases [OF assms(1)])
  fix k
  let ?h = "get_hdr m (rg_header ring) rh_cmd_head" and ?t = "get_hdr m (rg_header ring) rh_cmd_tail"
  assume k: "k \<le> 31" "rg_cmd_ring_mask ring = mask k" "unat (rg_cmd_ring_size ring) = 2 ^ k"
    and byte: "\<And>pos i. ring_byte ring pos i = rg_cmd_ring ring + slot k pos i"
    and c: "\<And>m. cmd_contents ring m = ring_bytes m (rg_cmd_ring ring) k (get_hdr m (rg_header ring) rh_cmd_head)
        (get_hdr m (rg_header ring) rh_cmd_tail)"
  have "ring_put m (rg_cmd_ring ring) (mask k) ?t src = m"
    using k assms(2,3) by (intro ring_put_same) (simp_all add: byte)
  then show ?thesis
    using ring_bytes_put [of k ?h ?t src m "rg_cmd_ring ring"] assms(2) k ring_okD(3) [OF assms(1)]
    by (simp add: c ring_frame mem_simps)
qed

section \<open>The invariant\<close>

definition producer_inv :: "gravity_ring \<Rightarrow> spsc \<Rightarrow> bool" where
  "producer_inv ring s = (case sp_prod s of
     P_Idle \<Rightarrow> True
   | P_Copy src tail i \<Rightarrow>
       tail = get_hdr (sp_mem s) (rg_header ring) rh_cmd_tail \<and> i \<le> length src \<and>
       length (cmd_contents ring (sp_mem s)) + length src < unat (rg_cmd_ring_size ring) \<and>
       (\<forall>j<i. sp_mem s (ring_byte ring tail j) = src ! j))"

definition copied :: "gravity_ring \<Rightarrow> mem \<Rightarrow> mem \<Rightarrow> nat \<Rightarrow> bool" where
  "copied ring m buf i \<longleftrightarrow> i \<le> length (cmd_contents ring m) \<and> (\<forall>j<i. buf j = cmd_contents ring m ! j)"

definition consumer_inv :: "gravity_ring \<Rightarrow> spsc \<Rightarrow> bool" where
  "consumer_inv ring s = (case sp_cons s of
     C_Idle \<Rightarrow> True
   | C_Fetch head avail i buf \<Rightarrow>
       head = get_hdr (sp_mem s) (rg_header ring) rh_cmd_head \<and> 16 \<le> unat avail \<and>
       unat avail \<le> length (cmd_contents ring (sp_mem s)) \<and> i \<le> 16 \<and> copied ring (sp_mem s) buf i
   | C_Body head sz i buf \<Rightarrow>
       head = get_hdr (sp_mem s) (rg_header ring) rh_cmd_head \<and> 16 \<le> i \<and> i \<le> max 16 (unat sz) \<and>
       unat sz \<le> length (cmd_contents ring (sp_mem s)) \<and> copied ring (sp_mem s) buf i
   | C_Have sz buf \<Rightarrow> copied ring (sp_mem s) buf (max 16 (unat sz)))"

definition spsc_inv :: "gravity_ring \<Rightarrow> spsc \<Rightarrow> bool" where
  "spsc_inv ring s \<longleftrightarrow> sp_sent s = sp_got s @ cmd_contents ring (sp_mem s) \<and> producer_inv ring s \<and> consumer_inv ring s"

lemma inv_same:
  "sp_mem s' = sp_mem s \<Longrightarrow> sp_cons s' = sp_cons s \<Longrightarrow> consumer_inv ring s' = consumer_inv ring s"
  "sp_mem s' = sp_mem s \<Longrightarrow> sp_prod s' = sp_prod s \<Longrightarrow> producer_inv ring s' = producer_inv ring s"
  by (simp_all add: consumer_inv_def producer_inv_def split: consumer.split producer.split)

text \<open>The consumer's part survives as long as the head stays and the contents only grow.\<close>

lemma copied_grow:
  "cmd_contents ring m' = cmd_contents ring m @ bs \<Longrightarrow> copied ring m buf i \<Longrightarrow> copied ring m' buf i"
  by (auto simp: copied_def nth_append)

lemma consumer_inv_grow:
  assumes "cmd_contents ring (sp_mem s') = cmd_contents ring (sp_mem s) @ bs" "sp_cons s' = sp_cons s"
    and "get_hdr (sp_mem s') (rg_header ring) rh_cmd_head = get_hdr (sp_mem s) (rg_header ring) rh_cmd_head"
    and "consumer_inv ring s"
  shows "consumer_inv ring s'"
  using assms(4) copied_grow [OF assms(1)]
  unfolding consumer_inv_def assms(2,3) by (auto simp: assms(1) split: consumer.splits)

lemma copied_step:
  assumes "copied ring m buf i" "i < length (cmd_contents ring m)"
  shows "copied ring m (buf(i := m (ring_byte ring (get_hdr m (rg_header ring) rh_cmd_head) i))) (Suc i)"
  using assms contents_nth [OF assms(2)] by (auto simp: copied_def less_Suc_eq)

lemma copied_rd: "copied ring m buf i \<Longrightarrow> j \<le> i \<Longrightarrow> rd buf 0 j = take j (cmd_contents ring m)"
  by (rule nth_equalityI) (auto simp: copied_def)

lemma consume_hdr:
  "ring_ok ring \<Longrightarrow> get_hdr (gravity_ring_cmd_consume ring m a) (rg_header ring) rh_cmd_tail =
     get_hdr m (rg_header ring) rh_cmd_tail"
  by (simp add: gravity_ring_cmd_consume_def Let_def mem_simps)

lemma consume_bytes:
  "ring_ok ring \<Longrightarrow> gravity_ring_cmd_consume ring m a (ring_byte ring pos i) = m (ring_byte ring pos i)"
  using ring_okD(3) [of ring] by (intro cmd_consume_frame) (simp add: ring_byte_def)

lemma spsc_step_inv:
  assumes ok: "ring_ok ring" and n: "16 \<le> unat n" and step: "spsc_step ring n s s'" and inv: "spsc_inv ring s"
  shows "spsc_inv ring s'"
proof -
  have sent: "sp_sent s = sp_got s @ cmd_contents ring (sp_mem s)" and p: "producer_inv ring s" and c: "consumer_inv ring s"
    using inv by (auto simp: spsc_inv_def)
  let ?m = "sp_mem s" and ?cs = "cmd_contents ring (sp_mem s)"
  show ?thesis
    using step
  proof (cases rule: spsc_step.cases)
    case (write_begin src)
    have "length ?cs + length src < unat (rg_cmd_ring_size ring)"
      using write_begin(3,5) cmd_space_eq [OF ok, of ?m] cmd_contents_less [OF ok, of ?m] by (cases src) auto
    moreover have "consumer_inv ring s'" using c inv_same(1) [of s' s ring] write_begin(1) by simp
    ultimately show ?thesis using write_begin sent by (simp add: spsc_inv_def producer_inv_def)
  next
    case (write_byte src tail i)
    let ?m' = "?m(ring_byte ring tail i := src ! i)"
    have t: "tail = get_hdr ?m (rg_header ring) rh_cmd_tail"
      "length ?cs + length src < unat (rg_cmd_ring_size ring)" "\<forall>j<i. ?m (ring_byte ring tail j) = src ! j"
      using p unfolding producer_inv_def write_byte(2) by auto
    have cs: "cmd_contents ring ?m' = ?cs @ []"
      using write_byte_contents [OF ok, of ?m i] t write_byte(3) by simp
    have "?m' (ring_byte ring tail j) = src ! j" if "j < Suc i" for j
      using that t(2,3) write_byte(3) write_byte_others [OF ok, of i j tail] by (auto simp: less_Suc_eq)
    then show ?thesis
      using write_byte sent cs t write_byte_hdr [OF ok] consumer_inv_grow [OF _ _ _ c, of s' "[]"]
      by (simp add: spsc_inv_def producer_inv_def)
  next
    case (write_publish src tail)
    let ?m' = "put_hdr ?m (rg_header ring) rh_cmd_tail ((tail + of_nat (length src)) AND rg_cmd_ring_mask ring)"
    have t: "tail = get_hdr ?m (rg_header ring) rh_cmd_tail"
      "length ?cs + length src < unat (rg_cmd_ring_size ring)" "\<forall>j<length src. ?m (ring_byte ring tail j) = src ! j"
      using p unfolding producer_inv_def write_publish(2) by auto
    have cs: "cmd_contents ring ?m' = ?cs @ src"
      using publish_contents [OF ok t(2)] t(1,3) by simp
    show ?thesis
      using write_publish sent cs consumer_inv_grow [OF _ _ _ c, of s' src]
      by (simp add: spsc_inv_def producer_inv_def mem_simps)
  next
    case (peek_begin buf)
    moreover have "producer_inv ring s'" using p inv_same(2) [of s' s ring] peek_begin(1) by simp
    ultimately show ?thesis
      using sent by (simp add: spsc_inv_def consumer_inv_def copied_def length_cmd_contents)
  next
    case (peek_header_byte head avail i buf)
    moreover have "producer_inv ring s'" using p inv_same(2) [of s' s ring] peek_header_byte(1) by simp
    ultimately show ?thesis
      using sent c n copied_step [of ring ?m buf i] by (auto simp: spsc_inv_def consumer_inv_def)
  next
    case (peek_refuse head avail buf)
    moreover have "producer_inv ring s'" using p inv_same(2) [of s' s ring] peek_refuse(1) by simp
    ultimately show ?thesis using sent by (simp add: spsc_inv_def consumer_inv_def)
  next
    case (peek_accept head avail buf)
    moreover have "producer_inv ring s'" using p inv_same(2) [of s' s ring] peek_accept(1) by simp
    ultimately show ?thesis
      using sent c n by (auto simp: spsc_inv_def consumer_inv_def word_le_nat_alt)
  next
    case (peek_body_byte head sz i buf)
    moreover have "producer_inv ring s'" using p inv_same(2) [of s' s ring] peek_body_byte(1) by simp
    ultimately show ?thesis
      using sent c copied_step [of ring ?m buf i] by (auto simp: spsc_inv_def consumer_inv_def)
  next
    case (peek_return head sz i buf)
    moreover have "producer_inv ring s'" using p inv_same(2) [of s' s ring] peek_return(1) by simp
    ultimately show ?thesis
      using sent c by (auto simp: spsc_inv_def consumer_inv_def copied_def max_def split: if_splits)
  next
    case (consume sz buf amount)
    let ?m' = "gravity_ring_cmd_consume ring ?m amount"
    have b: "copied ring ?m buf (max 16 (unat sz))" "unat amount \<le> max 16 (unat sz)"
      using c consume by (auto simp: consumer_inv_def)
    have r: "rd buf 0 (unat amount) = take (unat amount) ?cs" using copied_rd [OF b] .
    have cs: "cmd_contents ring ?m' = drop (unat amount) ?cs"
      using b by (intro cmd_consume_contents [OF ok]) (auto simp: copied_def)
    have "producer_inv ring s'"
      using p consume cs consume_hdr [OF ok] consume_bytes [OF ok]
      by (auto simp: producer_inv_def split: producer.splits)
    then show ?thesis
      using consume sent cs r by (simp add: spsc_inv_def consumer_inv_def)
  qed
qed

definition spsc_start :: "mem \<Rightarrow> spsc" where
  "spsc_start m = \<lparr>sp_mem = m, sp_prod = P_Idle, sp_cons = C_Idle, sp_sent = [], sp_got = []\<rparr>"

lemma spsc_steps_inv:
  assumes "ring_ok ring" "16 \<le> unat n" "(spsc_step ring n)\<^sup>*\<^sup>* s s'" "spsc_inv ring s"
  shows "spsc_inv ring s'"
  using assms(3,4) by (induction rule: rtranclp_induct) (auto intro: spsc_step_inv [OF assms(1,2)])

text \<open>
  guest and host may interleave at every single byte: started on an empty ring, in every
  state they can reach the bytes the host has read and consumed are a prefix of those the guest
  has published, the rest are the ring's contents, and a command the host has in its buffer is
  the front of these contents: nothing is lost, duplicated, reordered or torn.
\<close>

lemma ring_concurrent_fifo:
  assumes "ring_ok ring" "16 \<le> unat n" "cmd_contents ring m = []"
    and "(spsc_step ring n)\<^sup>*\<^sup>* (spsc_start m) s"
  shows "sp_sent s = sp_got s @ cmd_contents ring (sp_mem s) \<and>
    (case sp_cons s of
       C_Have sz buf \<Rightarrow> unat sz \<le> length (cmd_contents ring (sp_mem s)) \<and>
         rd buf 0 (unat sz) = take (unat sz) (cmd_contents ring (sp_mem s))
     | _ \<Rightarrow> True)"
proof -
  have "spsc_inv ring (spsc_start m)"
    using assms(3) by (simp add: spsc_inv_def producer_inv_def consumer_inv_def spsc_start_def)
  then have inv: "spsc_inv ring s" using spsc_steps_inv [OF assms(1,2,4)] by simp
  have have_command: "unat sz \<le> length (cmd_contents ring (sp_mem s)) \<and> rd buf 0 (unat sz) = take (unat sz) (cmd_contents ring (sp_mem s))"
    if "sp_cons s = C_Have sz buf" for sz buf
  proof -
    have c: "copied ring (sp_mem s) buf (max 16 (unat sz))" using inv that by (simp add: spsc_inv_def consumer_inv_def)
    show ?thesis using copied_rd [OF c, of "unat sz"] c by (auto simp: copied_def)
  qed
  show ?thesis using inv have_command by (auto simp: spsc_inv_def split: consumer.split)
qed

section \<open>The routines are made of these steps\<close>

lemma same_point:
  "sp_prod s = p \<Longrightarrow> s\<lparr>sp_prod := p\<rparr> = s" "sp_cons s = c \<Longrightarrow> s\<lparr>sp_cons := c\<rparr> = s"
  by (cases s, simp)+

text \<open>Any relation that allows the producer's steps for \<open>src\<close> allows the whole write.\<close>

lemma write_bytes_run:
  assumes bytes: "\<And>s i. sp_prod s = P_Copy src tail i \<Longrightarrow> i < length src \<Longrightarrow>
      R s (s\<lparr>sp_mem := (sp_mem s)(ring_byte ring tail i := src ! i), sp_prod := P_Copy src tail (Suc i)\<rparr>)"
    and "sp_prod s = P_Copy src tail i" "i \<le> length src"
  shows "R\<^sup>*\<^sup>* s (s\<lparr>sp_mem := ring_put (sp_mem s) (rg_cmd_ring ring) (rg_cmd_ring_mask ring)
      (tail + of_nat i) (drop i src), sp_prod := P_Copy src tail (length src)\<rparr>)"
  using assms(2,3)
proof (induction "length src - i" arbitrary: s i)
  case 0
  then show ?case by (simp add: same_point)
next
  case (Suc d)
  then have i: "i < length src" by simp
  let ?s = "s\<lparr>sp_mem := (sp_mem s)(ring_byte ring tail i := src ! i), sp_prod := P_Copy src tail (Suc i)\<rparr>"
  have "R s ?s" by (rule bytes) (use Suc.prems i in auto)
  moreover have "R\<^sup>*\<^sup>* ?s (?s\<lparr>sp_mem := ring_put (sp_mem ?s) (rg_cmd_ring ring) (rg_cmd_ring_mask ring)
      (tail + of_nat (Suc i)) (drop (Suc i) src), sp_prod := P_Copy src tail (length src)\<rparr>)"
    by (rule Suc.hyps(1)) (use Suc.hyps(2) i in auto)
  moreover have "drop i src = src ! i # drop (Suc i) src" using i by (simp add: Cons_nth_drop_Suc)
  ultimately show ?case
    by (simp add: converse_rtranclp_into_rtranclp ring_byte_def add.assoc add.commute [of 1])
qed

lemma write_bytes_steps:
  assumes "sp_prod s = P_Copy src tail i" "i \<le> length src"
  shows "(spsc_step ring n)\<^sup>*\<^sup>* s (s\<lparr>sp_mem := ring_put (sp_mem s) (rg_cmd_ring ring) (rg_cmd_ring_mask ring)
      (tail + of_nat i) (drop i src), sp_prod := P_Copy src tail (length src)\<rparr>)"
  by (rule write_bytes_run [where R = "spsc_step ring n" and src = src and tail = tail and ring = ring, OF write_byte assms])

lemma write_run:
  assumes begins: "length src \<le> unat (rg_cmd_ring_size ring div 2) \<Longrightarrow>
      length src \<le> unat (gravity_ring_cmd_space ring (sp_mem s)) \<Longrightarrow>
      R s (s\<lparr>sp_prod := P_Copy src (get_hdr (sp_mem s) (rg_header ring) rh_cmd_tail) 0\<rparr>)"
    and bytes: "\<And>s tail i. sp_prod s = P_Copy src tail i \<Longrightarrow> i < length src \<Longrightarrow>
      R s (s\<lparr>sp_mem := (sp_mem s)(ring_byte ring tail i := src ! i), sp_prod := P_Copy src tail (Suc i)\<rparr>)"
    and publish: "\<And>s tail. sp_prod s = P_Copy src tail (length src) \<Longrightarrow>
      R s (s\<lparr>sp_mem := put_hdr (sp_mem s) (rg_header ring) rh_cmd_tail
               ((tail + of_nat (length src)) AND rg_cmd_ring_mask ring),
             sp_prod := P_Idle, sp_sent := sp_sent s @ src\<rparr>)"
    and "sp_prod s = P_Idle" "length src < 2 ^ 32"
    and w: "fst (gravity_ring_cmd_write ring (sp_mem s) src (of_nat (length src))) = 0"
  shows "R\<^sup>*\<^sup>* s (s\<lparr>sp_mem := snd (gravity_ring_cmd_write ring (sp_mem s) src (of_nat (length src))),
      sp_sent := sp_sent s @ src\<rparr>)"
proof -
  let ?tail = "get_hdr (sp_mem s) (rg_header ring) rh_cmd_tail"
  let ?m = "ring_put (sp_mem s) (rg_cmd_ring ring) (rg_cmd_ring_mask ring) ?tail src"
  have u: "unat (of_nat (length src) :: u32) = length src" using assms(5) by (simp add: unat_of_nat)
  have b: "length src \<le> unat (rg_cmd_ring_size ring div 2)" "length src \<le> unat (gravity_ring_cmd_space ring (sp_mem s))"
    using w u by (auto simp: gravity_ring_cmd_write_def Let_def word_less_nat_alt not_less split: if_splits)
  have w: "snd (gravity_ring_cmd_write ring (sp_mem s) src (of_nat (length src))) =
      put_hdr ?m (rg_header ring) rh_cmd_tail ((?tail + of_nat (length src)) AND rg_cmd_ring_mask ring)"
    using cmd_write_mem [OF w] u by (simp add: Let_def)
  define s1 where "s1 = s\<lparr>sp_prod := P_Copy src ?tail 0\<rparr>"
  define s2 where "s2 = s\<lparr>sp_mem := ?m, sp_prod := P_Copy src ?tail (length src)\<rparr>"
  define s3 where "s3 = s\<lparr>sp_mem := snd (gravity_ring_cmd_write ring (sp_mem s) src (of_nat (length src))),
      sp_sent := sp_sent s @ src\<rparr>"
  have "R s s1" unfolding s1_def by (rule begins [OF b])
  moreover have "R\<^sup>*\<^sup>* s1 s2" using write_bytes_run [where R = R and src = src and tail = ?tail and ring = ring, OF bytes, of s1 0]
    by (simp add: s1_def s2_def)
  moreover have "s3 = s2\<lparr>sp_mem := put_hdr (sp_mem s2) (rg_header ring) rh_cmd_tail
       ((?tail + of_nat (length src)) AND rg_cmd_ring_mask ring), sp_prod := P_Idle, sp_sent := sp_sent s2 @ src\<rparr>"
    unfolding s3_def w s2_def using assms(4) by (cases s) simp
  moreover have "sp_prod s2 = P_Copy src ?tail (length src)" by (simp add: s2_def)
  ultimately have "R\<^sup>*\<^sup>* s s3"
    using publish [of s2 ?tail] by (metis converse_rtranclp_into_rtranclp rtranclp.rtrancl_into_rtrancl)
  then show ?thesis by (simp only: s3_def)
qed

lemma write_steps:
  assumes "sp_prod s = P_Idle" "src \<noteq> []" "length src < 2 ^ 32"
    and "fst (gravity_ring_cmd_write ring (sp_mem s) src (of_nat (length src))) = 0"
  shows "(spsc_step ring n)\<^sup>*\<^sup>* s (s\<lparr>sp_mem := snd (gravity_ring_cmd_write ring (sp_mem s) src (of_nat (length src))),
      sp_sent := sp_sent s @ src\<rparr>)"
  by (rule write_run [OF write_begin [OF assms(1,2)] write_byte write_publish assms(1,3,4)])

text \<open>Any relation that allows the consumer's steps inside peek allows the whole peek.\<close>

lemma header_bytes_run:
  assumes R: "\<And>s s'. spsc_step ring n s s' \<Longrightarrow> sp_prod s' = sp_prod s \<Longrightarrow>
      \<not> (\<exists>sz buf. sp_cons s = C_Have sz buf) \<Longrightarrow> R s s'"
  shows "sp_cons s = C_Fetch head avail i buf \<Longrightarrow> i \<le> min 16 (unat n) \<Longrightarrow>
     R\<^sup>*\<^sup>* s (s\<lparr>sp_cons := C_Fetch head avail (min 16 (unat n))
        (ring_fetch (sp_mem s) (rg_cmd_ring ring) (rg_cmd_ring_mask ring) head buf i (min 16 (unat n)))\<rparr>)"
proof (induction "min 16 (unat n) - i" arbitrary: s i buf)
  case 0
  then show ?case by (subst ring_fetch.simps) (simp add: same_point)
next
  case (Suc d)
  then have i: "i < min 16 (unat n)" by linarith
  let ?s = "s\<lparr>sp_cons := C_Fetch head avail (Suc i) (buf(i := sp_mem s (ring_byte ring head i)))\<rparr>"
  have "R s ?s" by (rule R [OF peek_header_byte [OF Suc.prems(1) i]]) (use Suc.prems(1) in simp_all)
  moreover have "R\<^sup>*\<^sup>* ?s (?s\<lparr>sp_cons := C_Fetch head avail (min 16 (unat n))
        (ring_fetch (sp_mem ?s) (rg_cmd_ring ring) (rg_cmd_ring_mask ring) head
           (buf(i := sp_mem s (ring_byte ring head i))) (Suc i) (min 16 (unat n)))\<rparr>)"
    by (rule Suc.hyps(1)) (use Suc.hyps(2) i in auto)
  moreover have "ring_fetch (sp_mem s) (rg_cmd_ring ring) (rg_cmd_ring_mask ring) head buf i (min 16 (unat n)) =
      ring_fetch (sp_mem s) (rg_cmd_ring ring) (rg_cmd_ring_mask ring) head
        (buf(i := sp_mem s (ring_byte ring head i))) (Suc i) (min 16 (unat n))"
    using i by (subst ring_fetch.simps) (simp add: ring_byte_def)
  ultimately show ?case by (simp add: converse_rtranclp_into_rtranclp)
qed

lemma body_bytes_run:
  assumes R: "\<And>s s'. spsc_step ring n s s' \<Longrightarrow> sp_prod s' = sp_prod s \<Longrightarrow>
      \<not> (\<exists>sz buf. sp_cons s = C_Have sz buf) \<Longrightarrow> R s s'"
  shows "sp_cons s = C_Body head sz i buf \<Longrightarrow>
     R\<^sup>*\<^sup>* s (s\<lparr>sp_cons := C_Have sz
        (ring_fetch (sp_mem s) (rg_cmd_ring ring) (rg_cmd_ring_mask ring) head buf i (unat sz))\<rparr>)"
proof (induction "unat sz - i" arbitrary: s i buf)
  case 0
  then have "R s (s\<lparr>sp_cons := C_Have sz buf\<rparr>)" by (intro R [OF peek_return [OF 0(2)]]) simp_all
  then show ?case using 0 by (subst ring_fetch.simps) simp
next
  case (Suc d)
  then have i: "i < unat sz" by simp
  let ?s = "s\<lparr>sp_cons := C_Body head sz (Suc i) (buf(i := sp_mem s (ring_byte ring head i)))\<rparr>"
  have "R s ?s" by (rule R [OF peek_body_byte [OF Suc.prems(1) i]]) (use Suc.prems(1) in simp_all)
  moreover have "R\<^sup>*\<^sup>* ?s (?s\<lparr>sp_cons := C_Have sz
        (ring_fetch (sp_mem ?s) (rg_cmd_ring ring) (rg_cmd_ring_mask ring) head
           (buf(i := sp_mem s (ring_byte ring head i))) (Suc i) (unat sz))\<rparr>)"
    by (rule Suc.hyps(1)) (use Suc.hyps(2) i in auto)
  moreover have "ring_fetch (sp_mem s) (rg_cmd_ring ring) (rg_cmd_ring_mask ring) head buf i (unat sz) =
      ring_fetch (sp_mem s) (rg_cmd_ring ring) (rg_cmd_ring_mask ring) head
        (buf(i := sp_mem s (ring_byte ring head i))) (Suc i) (unat sz)"
    using i by (subst ring_fetch.simps) (simp add: ring_byte_def)
  ultimately show ?case by (simp add: converse_rtranclp_into_rtranclp)
qed

lemma peek_run:
  assumes R: "\<And>s s'. spsc_step ring n s s' \<Longrightarrow> sp_prod s' = sp_prod s \<Longrightarrow>
      \<not> (\<exists>sz buf. sp_cons s = C_Have sz buf) \<Longrightarrow> R s s'"
    and "sp_cons s = C_Idle" "16 \<le> unat n" "gravity_ring_cmd_peek ring (sp_mem s) buf n = (True, buf')"
  shows "R\<^sup>*\<^sup>* s (s\<lparr>sp_cons := C_Have (hdr_size (gravity_cmd_header_at buf' 0)) buf'\<rparr>)"
proof -
  let ?m = "sp_mem s"
  let ?head = "get_hdr ?m (rg_header ring) rh_cmd_head" and ?avail = "gravity_ring_cmd_available ring ?m"
  define dst where "dst = ring_fetch ?m (rg_cmd_ring ring) (rg_cmd_ring_mask ring) ?head buf 0 16"
  let ?sz = "hdr_size (gravity_cmd_header_at dst 0)"
  have h: "16 \<le> unat ?avail" "?sz \<le> ?avail" "?sz \<le> n"
    and buf': "buf' = ring_fetch ?m (rg_cmd_ring ring) (rg_cmd_ring_mask ring) ?head dst 16 (unat ?sz)"
    using assms(3,4) unfolding dst_def
    by (auto simp: gravity_ring_cmd_peek_def Let_def sizeof_cmd_header_def word_less_nat_alt word_le_nat_alt min_absorb1
        not_less split: if_splits)
  have "gravity_cmd_header_at buf' 0 = gravity_cmd_header_at dst 0"
    by (rule header_at_cong) (simp add: buf' ring_fetch_eq)
  then have sz: "hdr_size (gravity_cmd_header_at buf' 0) = ?sz" by simp
  have mn: "min 16 (unat n) = 16" using assms(3) by simp
  let ?s1 = "s\<lparr>sp_cons := C_Fetch ?head ?avail 0 buf\<rparr>"
  let ?s2 = "s\<lparr>sp_cons := C_Fetch ?head ?avail 16 dst\<rparr>"
  let ?s3 = "s\<lparr>sp_cons := C_Body ?head ?sz 16 dst\<rparr>"
  have "R s ?s1" by (rule R [OF peek_begin [OF assms(2) h(1)]]) (use assms(2) in simp_all)
  moreover have "R\<^sup>*\<^sup>* ?s1 ?s2"
    using header_bytes_run [where R = R and s = ?s1 and n = n and ring = ring and i = 0 and buf = buf, OF R] by (simp add: mn dst_def)
  moreover have "R ?s2 ?s3"
    by (rule R) (use peek_accept [of ?s2 ?head ?avail n dst ring] h in \<open>simp_all add: mn\<close>)
  moreover have "R\<^sup>*\<^sup>* ?s3 (s\<lparr>sp_cons := C_Have ?sz buf'\<rparr>)"
    using body_bytes_run [where R = R and s = ?s3 and n = n and ring = ring and i = 16 and buf = dst, OF R] by (simp add: buf')
  ultimately show ?thesis unfolding sz
    by (meson converse_rtranclp_into_rtranclp rtranclp_trans)
qed

lemma peek_steps:
  assumes "sp_cons s = C_Idle" "16 \<le> unat n" "gravity_ring_cmd_peek ring (sp_mem s) buf n = (True, buf')"
  shows "(spsc_step ring n)\<^sup>*\<^sup>* s (s\<lparr>sp_cons := C_Have (hdr_size (gravity_cmd_header_at buf' 0)) buf'\<rparr>)"
  by (rule peek_run [OF _ assms])

text \<open>
  The steps are those of the routines: run without interruption, a write that returns 0 goes
  through the producer's steps to exactly the memory \<^verbatim>\<open>gravity_ring_cmd_write\<close> leaves, and a
  peek that returns a command through the consumer's to exactly the buffer it fills.
\<close>

lemma routines_as_steps:
  shows "(sp_prod s = P_Idle \<and> src \<noteq> [] \<and> length src < 2 ^ 32 \<and>
      gravity_ring_cmd_write ring (sp_mem s) src (of_nat (length src)) = (0, m') \<longrightarrow>
      (spsc_step ring n)\<^sup>*\<^sup>* s (s\<lparr>sp_mem := m', sp_sent := sp_sent s @ src\<rparr>)) \<and>
    (sp_cons s = C_Idle \<and> 16 \<le> unat n \<and> gravity_ring_cmd_peek ring (sp_mem s) buf n = (True, buf') \<longrightarrow>
      (spsc_step ring n)\<^sup>*\<^sup>* s (s\<lparr>sp_cons := C_Have (hdr_size (gravity_cmd_header_at buf' 0)) buf'\<rparr>))"
  using write_steps [of s src ring n] peek_steps [of s n ring buf buf'] by auto

text \<open>A ping written into the demonstration ring and read from it.\<close>

lemma routines_as_steps_witness:
  "(spsc_step demo_ring 64)\<^sup>*\<^sup>* (spsc_start demo_mem)
     (spsc_start demo_mem\<lparr>sp_mem := snd (gravity_ring_cmd_write demo_ring demo_mem (demo_ping 1) 16), sp_sent := demo_ping 1\<rparr>)"
proof -
  have u: "unat (16 :: u32) = 16" by simp
  have "fst (gravity_ring_cmd_write demo_ring demo_mem (demo_ping 1) 16) = 0"
    using cmd_write_zero_iff [OF demo_ok, of demo_mem "demo_ping 1" 16] demo_attach by simp
  then have "gravity_ring_cmd_write demo_ring demo_mem (demo_ping 1) 16 =
      (0, snd (gravity_ring_cmd_write demo_ring demo_mem (demo_ping 1) 16))" by (metis prod.collapse)
  moreover have "demo_ping 1 \<noteq> []" using length_demo_ping [of 1] by (metis list.size(3) zero_neq_numeral)
  ultimately show ?thesis
    using routines_as_steps [of "spsc_start demo_mem" "demo_ping 1" demo_ring _ 64] by (simp add: spsc_start_def)
qed

lemma ring_concurrent_fifo_witness:
  "\<exists>s. (spsc_step demo_ring 64)\<^sup>*\<^sup>* (spsc_start demo_mem) s \<and> sp_prod s \<noteq> P_Idle \<and> sp_sent s = sp_got s"
proof -
  have ne: "demo_ping 1 \<noteq> []" using length_demo_ping [of 1] by (metis list.size(3) zero_neq_numeral)
  have sp: "unat (gravity_ring_cmd_space demo_ring demo_mem) = 255"
    using cmd_space_eq [OF demo_ok, of demo_mem] demo_attach by simp
  let ?s = "spsc_start demo_mem\<lparr>sp_prod := P_Copy (demo_ping 1)
      (get_hdr (sp_mem (spsc_start demo_mem)) (rg_header demo_ring) rh_cmd_tail) 0\<rparr>"
  have "spsc_step demo_ring 64 (spsc_start demo_mem) ?s"
    by (rule write_begin) (use ne sp in \<open>simp_all add: spsc_start_def\<close>)
  then have r: "(spsc_step demo_ring 64)\<^sup>*\<^sup>* (spsc_start demo_mem) ?s" by (rule r_into_rtranclp)
  show ?thesis
    using ring_concurrent_fifo [OF demo_ok _ _ r] demo_attach r
    by (intro exI [of _ ?s]) (simp add: spsc_start_def)
qed

end
