(* ===== verification/Comp_Spsc.thy ===== *)
theory Comp_Spsc
  imports Ring_Spsc
begin

text \<open>
  The completion ring with host and guest running at the same time, cut into steps as
  \<open>Ring_Spsc\<close> cuts the command ring: \<^verbatim>\<open>gravity_ring_comp_write\<close> and \<^verbatim>\<open>gravity_ring_comp_read\<close>
  (\<^verbatim>\<open>protocol/include/gravity_ring.h\<close>) between their accesses to shared memory.  Then both rings
  together: one memory, four program points, every interleaving.
\<close>

section \<open>Steps\<close>

text \<open>
  The program points are those of the command ring, with the host as producer.  The read advances
  the head itself, by the size in the header it has fetched (which the body does not overwrite).
\<close>

definition comp_byte :: "gravity_ring \<Rightarrow> u32 \<Rightarrow> nat \<Rightarrow> nat" where
  "comp_byte ring pos i = rg_comp_ring ring + unat ((pos + of_nat i) AND rg_comp_ring_mask ring)"

inductive comp_step :: "gravity_ring \<Rightarrow> u32 \<Rightarrow> spsc \<Rightarrow> spsc \<Rightarrow> bool" for ring :: gravity_ring and n :: u32 where
  comp_begin:
    "sp_prod s = P_Idle \<Longrightarrow> length src < 2 ^ 32 \<Longrightarrow>
     head = get_hdr (sp_mem s) (rg_header ring) rh_comp_head \<Longrightarrow>
     tail = get_hdr (sp_mem s) (rg_header ring) rh_comp_tail \<Longrightarrow>
     \<not> (rg_comp_ring_size ring - 1) - ((tail - head) AND rg_comp_ring_mask ring) < of_nat (length src) \<Longrightarrow>
     comp_step ring n s (s\<lparr>sp_prod := P_Copy src tail 0\<rparr>)"
| comp_write_byte:
    "sp_prod s = P_Copy src tail i \<Longrightarrow> i < length src \<Longrightarrow>
     comp_step ring n s (s\<lparr>sp_mem := (sp_mem s)(comp_byte ring tail i := src ! i), sp_prod := P_Copy src tail (Suc i)\<rparr>)"
| comp_publish:
    "sp_prod s = P_Copy src tail (length src) \<Longrightarrow>
     comp_step ring n s (s\<lparr>sp_mem := put_hdr (sp_mem s) (rg_header ring) rh_comp_tail
                             ((tail + of_nat (length src)) AND rg_comp_ring_mask ring),
                           sp_prod := P_Idle, sp_sent := sp_sent s @ src\<rparr>)"
| read_begin:
    "sp_cons s = C_Idle \<Longrightarrow> head = get_hdr (sp_mem s) (rg_header ring) rh_comp_head \<Longrightarrow>
     avail = (get_hdr (sp_mem s) (rg_header ring) rh_comp_tail - head) AND rg_comp_ring_mask ring \<Longrightarrow>
     16 \<le> unat avail \<Longrightarrow>
     comp_step ring n s (s\<lparr>sp_cons := C_Fetch head avail 0 buf\<rparr>)"
| read_header_byte:
    "sp_cons s = C_Fetch head avail i buf \<Longrightarrow> i < min 16 (unat n) \<Longrightarrow>
     comp_step ring n s (s\<lparr>sp_cons := C_Fetch head avail (Suc i) (buf(i := sp_mem s (comp_byte ring head i)))\<rparr>)"
| read_refuse:
    "sp_cons s = C_Fetch head avail (min 16 (unat n)) buf \<Longrightarrow>
     avail < hdr_size (gravity_cmd_header_at buf 0) \<or> n < hdr_size (gravity_cmd_header_at buf 0) \<Longrightarrow>
     comp_step ring n s (s\<lparr>sp_cons := C_Idle\<rparr>)"
| read_accept:
    "sp_cons s = C_Fetch head avail (min 16 (unat n)) buf \<Longrightarrow>
     hdr_size (gravity_cmd_header_at buf 0) \<le> avail \<Longrightarrow> hdr_size (gravity_cmd_header_at buf 0) \<le> n \<Longrightarrow>
     comp_step ring n s (s\<lparr>sp_cons := C_Body head (hdr_size (gravity_cmd_header_at buf 0)) 16 buf\<rparr>)"
| read_body_byte:
    "sp_cons s = C_Body head sz i buf \<Longrightarrow> i < unat sz \<Longrightarrow>
     comp_step ring n s (s\<lparr>sp_cons := C_Body head sz (Suc i) (buf(i := sp_mem s (comp_byte ring head i)))\<rparr>)"
| read_release:
    "sp_cons s = C_Body head sz i buf \<Longrightarrow> unat sz \<le> i \<Longrightarrow>
     comp_step ring n s (s\<lparr>sp_mem := put_hdr (sp_mem s) (rg_header ring) rh_comp_head
                             ((head + sz) AND rg_comp_ring_mask ring),
                           sp_cons := C_Idle, sp_got := sp_got s @ rd buf 0 (unat sz)\<rparr>)"

section \<open>Accesses of one side, seen from the other\<close>

lemma comp_byte_cases:
  assumes "ring_ok ring"
  obtains k where "k \<le> 31" "rg_comp_ring_mask ring = mask k" "unat (rg_comp_ring_size ring) = 2 ^ k"
    "rg_comp_ring_size ring = 2 ^ k"
    "\<And>pos i. comp_byte ring pos i = rg_comp_ring ring + slot k pos i"
    "\<And>m. comp_contents ring m = ring_bytes m (rg_comp_ring ring) k (get_hdr m (rg_header ring) rh_comp_head)
        (get_hdr m (rg_header ring) rh_comp_tail)"
proof -
  obtain k where "k \<le> 31" "rg_comp_ring_mask ring = mask k" "unat (rg_comp_ring_size ring) = 2 ^ k"
    "rg_comp_ring_size ring = 2 ^ k"
    using ring_okD(2) [OF assms] by (elim pow2_sizedE)
  then show thesis by (intro that [of k]) (simp_all add: comp_byte_def comp_contents_eq)
qed

lemma comp_contents_nth:
  "i < length (comp_contents ring m) \<Longrightarrow>
     m (comp_byte ring (get_hdr m (rg_header ring) rh_comp_head) i) = comp_contents ring m ! i"
  by (simp add: comp_contents_def comp_byte_def Let_def)

lemma length_comp_contents:
  "length (comp_contents ring m) =
     unat ((get_hdr m (rg_header ring) rh_comp_tail - get_hdr m (rg_header ring) rh_comp_head) AND rg_comp_ring_mask ring)"
  by (simp add: comp_contents_def Let_def)

lemma comp_space:
  fixes src :: "u8 list"
  assumes "ring_ok ring" "length src < 2 ^ 32"
    and "\<not> (rg_comp_ring_size ring - 1) - ((get_hdr m (rg_header ring) rh_comp_tail - get_hdr m (rg_header ring) rh_comp_head)
           AND rg_comp_ring_mask ring) < of_nat (length src)"
  shows "length (comp_contents ring m) + length src < unat (rg_comp_ring_size ring)"
proof -
  have u: "unat (of_nat (length src) :: u32) = length src" using assms(2) by (simp add: unat_of_nat)
  have "fst (gravity_ring_comp_write ring m src (of_nat (length src))) = 0"
    using assms(3) by (simp add: gravity_ring_comp_write_def Let_def)
  then show ?thesis using comp_write_zero_iff [OF assms(1)] u by simp
qed

lemma comp_byte_range:
  assumes "ring_ok ring"
  shows "rg_comp_ring ring \<le> comp_byte ring pos i"
    "comp_byte ring pos i < rg_comp_ring ring + unat (rg_comp_ring_size ring)"
  by (rule comp_byte_cases [OF assms]; simp add: slot_less)+

lemma comp_byte_hdr:
  assumes "ring_ok ring"
  shows "get_hdr (m(comp_byte ring pos i := b)) (rg_header ring) f = get_hdr m (rg_header ring) f"
  using comp_byte_range(1) [OF assms, of pos i] ring_okD(3,4) [OF assms] by (intro get_hdr_cong) simp

lemma comp_byte_unseen:
  assumes "ring_ok ring" "length (comp_contents ring m) + j < unat (rg_comp_ring_size ring)"
  shows "comp_contents ring (m(comp_byte ring (get_hdr m (rg_header ring) rh_comp_tail) j := b)) = comp_contents ring m"
proof (rule comp_byte_cases [OF assms(1)])
  fix k
  let ?h = "get_hdr m (rg_header ring) rh_comp_head" and ?t = "get_hdr m (rg_header ring) rh_comp_tail"
  assume k: "k \<le> 31" "unat (rg_comp_ring_size ring) = 2 ^ k"
    and byte: "\<And>pos i. comp_byte ring pos i = rg_comp_ring ring + slot k pos i"
    and c: "\<And>m. comp_contents ring m = ring_bytes m (rg_comp_ring ring) k (get_hdr m (rg_header ring) rh_comp_head)
        (get_hdr m (rg_header ring) rh_comp_tail)"
  show ?thesis
    using comp_byte_hdr [OF assms(1)] ring_bytes_behind [of k ?h ?t j] assms(2) k by (simp add: c byte)
qed

lemma comp_byte_others:
  assumes "ring_ok ring" "i < unat (rg_comp_ring_size ring)" "j < unat (rg_comp_ring_size ring)" "i \<noteq> j"
  shows "comp_byte ring pos i \<noteq> comp_byte ring pos j"
proof (rule comp_byte_cases [OF assms(1)])
  fix k
  assume "k \<le> 31" "unat (rg_comp_ring_size ring) = 2 ^ k"
    and "\<And>pos i. comp_byte ring pos i = rg_comp_ring ring + slot k pos i"
  then show ?thesis using assms(2-4) slot_inj [of k i j pos] by auto
qed

lemma comp_publish_contents:
  assumes "ring_ok ring" "length (comp_contents ring m) + length src < unat (rg_comp_ring_size ring)"
    and "\<And>j. j < length src \<Longrightarrow> m (comp_byte ring (get_hdr m (rg_header ring) rh_comp_tail) j) = src ! j"
  shows "comp_contents ring (put_hdr m (rg_header ring) rh_comp_tail
      ((get_hdr m (rg_header ring) rh_comp_tail + of_nat (length src)) AND rg_comp_ring_mask ring)) = comp_contents ring m @ src"
proof (rule comp_byte_cases [OF assms(1)])
  fix k
  let ?h = "get_hdr m (rg_header ring) rh_comp_head" and ?t = "get_hdr m (rg_header ring) rh_comp_tail"
  assume k: "k \<le> 31" "rg_comp_ring_mask ring = mask k" "unat (rg_comp_ring_size ring) = 2 ^ k"
    and byte: "\<And>pos i. comp_byte ring pos i = rg_comp_ring ring + slot k pos i"
    and c: "\<And>m. comp_contents ring m = ring_bytes m (rg_comp_ring ring) k (get_hdr m (rg_header ring) rh_comp_head)
        (get_hdr m (rg_header ring) rh_comp_tail)"
  have "ring_put m (rg_comp_ring ring) (mask k) ?t src = m"
    using k assms(2,3) by (intro ring_put_same) (simp_all add: byte)
  then show ?thesis
    using ring_bytes_put [of k ?h ?t src m "rg_comp_ring ring"] assms(2) k ring_okD(3,4) [OF assms(1)]
    by (simp add: c ring_frame mem_simps)
qed

section \<open>The invariant\<close>

definition comp_producer_inv :: "gravity_ring \<Rightarrow> spsc \<Rightarrow> bool" where
  "comp_producer_inv ring s = (case sp_prod s of
     P_Idle \<Rightarrow> True
   | P_Copy src tail i \<Rightarrow>
       tail = get_hdr (sp_mem s) (rg_header ring) rh_comp_tail \<and> i \<le> length src \<and>
       length (comp_contents ring (sp_mem s)) + length src < unat (rg_comp_ring_size ring) \<and>
       (\<forall>j<i. sp_mem s (comp_byte ring tail j) = src ! j))"

definition fetched :: "u8 list \<Rightarrow> mem \<Rightarrow> nat \<Rightarrow> bool" where
  "fetched bs buf i \<longleftrightarrow> i \<le> length bs \<and> (\<forall>j<i. buf j = bs ! j)"

definition comp_consumer_inv :: "gravity_ring \<Rightarrow> spsc \<Rightarrow> bool" where
  "comp_consumer_inv ring s = (case sp_cons s of
     C_Idle \<Rightarrow> True
   | C_Fetch head avail i buf \<Rightarrow>
       head = get_hdr (sp_mem s) (rg_header ring) rh_comp_head \<and> 16 \<le> unat avail \<and>
       unat avail \<le> length (comp_contents ring (sp_mem s)) \<and> i \<le> 16 \<and>
       fetched (comp_contents ring (sp_mem s)) buf i
   | C_Body head sz i buf \<Rightarrow>
       head = get_hdr (sp_mem s) (rg_header ring) rh_comp_head \<and> 16 \<le> i \<and> i \<le> max 16 (unat sz) \<and>
       unat sz \<le> length (comp_contents ring (sp_mem s)) \<and> fetched (comp_contents ring (sp_mem s)) buf i
   | C_Have sz buf \<Rightarrow> False)"

definition comp_inv :: "gravity_ring \<Rightarrow> spsc \<Rightarrow> bool" where
  "comp_inv ring s \<longleftrightarrow> sp_sent s = sp_got s @ comp_contents ring (sp_mem s) \<and>
     comp_producer_inv ring s \<and> comp_consumer_inv ring s"

lemma comp_inv_same:
  "sp_mem s' = sp_mem s \<Longrightarrow> sp_cons s' = sp_cons s \<Longrightarrow> comp_consumer_inv ring s' = comp_consumer_inv ring s"
  "sp_mem s' = sp_mem s \<Longrightarrow> sp_prod s' = sp_prod s \<Longrightarrow> comp_producer_inv ring s' = comp_producer_inv ring s"
  by (simp_all add: comp_consumer_inv_def comp_producer_inv_def split: consumer.split producer.split)

lemma fetched_grow: "fetched bs buf i \<Longrightarrow> fetched (bs @ cs) buf i"
  by (auto simp: fetched_def nth_append)

lemma fetched_step:
  assumes "fetched (comp_contents ring m) buf i" "i < length (comp_contents ring m)"
  shows "fetched (comp_contents ring m) (buf(i := m (comp_byte ring (get_hdr m (rg_header ring) rh_comp_head) i))) (Suc i)"
  using assms comp_contents_nth [OF assms(2)] by (auto simp: fetched_def less_Suc_eq)

lemma fetched_rd: "fetched bs buf i \<Longrightarrow> j \<le> i \<Longrightarrow> rd buf 0 j = take j bs"
  by (rule nth_equalityI) (auto simp: fetched_def)

text \<open>The consumer's part survives as long as the head stays and the contents only grow.\<close>

lemma comp_consumer_inv_grow:
  assumes "comp_contents ring (sp_mem s') = comp_contents ring (sp_mem s) @ bs" "sp_cons s' = sp_cons s"
    and "get_hdr (sp_mem s') (rg_header ring) rh_comp_head = get_hdr (sp_mem s) (rg_header ring) rh_comp_head"
    and "comp_consumer_inv ring s"
  shows "comp_consumer_inv ring s'"
  using assms(4) fetched_grow
  unfolding comp_consumer_inv_def assms(2,3) by (auto simp: assms(1) split: consumer.splits)

lemma put_hdr_comp_byte:
  assumes "ring_ok ring"
  shows "put_hdr m (rg_header ring) f v (comp_byte ring pos i) = m (comp_byte ring pos i)"
  using comp_byte_range(1) [OF assms, of pos i] ring_okD(3,4) [OF assms] by (intro put_hdr_outside) simp

lemma comp_producer_step_inv:
  assumes ok: "ring_ok ring" and step: "comp_step ring n s s'" and inv: "comp_inv ring s" and same: "sp_cons s' = sp_cons s"
    and prod: "sp_prod s' \<noteq> sp_prod s"
  shows "comp_inv ring s'"
proof -
  have sent: "sp_sent s = sp_got s @ comp_contents ring (sp_mem s)" and p: "comp_producer_inv ring s"
    and c: "comp_consumer_inv ring s"
    using inv by (auto simp: comp_inv_def)
  let ?m = "sp_mem s" and ?cs = "comp_contents ring (sp_mem s)"
  show ?thesis
    using step
  proof (cases rule: comp_step.cases)
    case (comp_begin src head tail)
    have "length ?cs + length src < unat (rg_comp_ring_size ring)"
      using comp_space [OF ok comp_begin(3), of ?m] comp_begin by simp
    moreover have "comp_consumer_inv ring s'" using c comp_inv_same(1) [of s' s ring] comp_begin(1) by simp
    ultimately show ?thesis using comp_begin sent by (simp add: comp_inv_def comp_producer_inv_def)
  next
    case (comp_write_byte src tail i)
    let ?m' = "?m(comp_byte ring tail i := src ! i)"
    have t: "tail = get_hdr ?m (rg_header ring) rh_comp_tail"
      "length ?cs + length src < unat (rg_comp_ring_size ring)" "\<forall>j<i. ?m (comp_byte ring tail j) = src ! j"
      using p unfolding comp_producer_inv_def comp_write_byte(2) by auto
    have cs: "comp_contents ring ?m' = ?cs @ []"
      using comp_byte_unseen [OF ok, of ?m i] t comp_write_byte(3) by simp
    have "?m' (comp_byte ring tail j) = src ! j" if "j < Suc i" for j
      using that t(2,3) comp_write_byte(3) comp_byte_others [OF ok, of i j tail] by (auto simp: less_Suc_eq)
    then show ?thesis
      using comp_write_byte sent cs t comp_byte_hdr [OF ok] comp_consumer_inv_grow [OF _ _ _ c, of s' "[]"]
      by (simp add: comp_inv_def comp_producer_inv_def)
  next
    case (comp_publish src tail)
    let ?m' = "put_hdr ?m (rg_header ring) rh_comp_tail ((tail + of_nat (length src)) AND rg_comp_ring_mask ring)"
    have t: "tail = get_hdr ?m (rg_header ring) rh_comp_tail"
      "length ?cs + length src < unat (rg_comp_ring_size ring)" "\<forall>j<length src. ?m (comp_byte ring tail j) = src ! j"
      using p unfolding comp_producer_inv_def comp_publish(2) by auto
    have cs: "comp_contents ring ?m' = ?cs @ src"
      using comp_publish_contents [OF ok t(2)] t(1,3) by simp
    show ?thesis
      using comp_publish sent cs comp_consumer_inv_grow [OF _ _ _ c, of s' src]
      by (simp add: comp_inv_def comp_producer_inv_def mem_simps)
  qed (use same prod in auto)
qed

lemma comp_step_inv:
  assumes ok: "ring_ok ring" and n: "16 \<le> unat n" and step: "comp_step ring n s s'" and inv: "comp_inv ring s"
  shows "comp_inv ring s'"
proof -
  have sent: "sp_sent s = sp_got s @ comp_contents ring (sp_mem s)" and p: "comp_producer_inv ring s"
    and c: "comp_consumer_inv ring s"
    using inv by (auto simp: comp_inv_def)
  let ?m = "sp_mem s" and ?cs = "comp_contents ring (sp_mem s)"
  have producer: "comp_inv ring s'" if "sp_cons s' = sp_cons s" "sp_prod s' \<noteq> sp_prod s"
    by (rule comp_producer_step_inv [OF ok step inv that])
  show ?thesis
    using step
  proof (cases rule: comp_step.cases)
    case (read_begin head avail buf)
    moreover have "comp_producer_inv ring s'" using p comp_inv_same(2) [of s' s ring] read_begin(1) by simp
    ultimately show ?thesis
      using sent by (simp add: comp_inv_def comp_consumer_inv_def fetched_def length_comp_contents)
  next
    case (read_header_byte head avail i buf)
    moreover have "comp_producer_inv ring s'" using p comp_inv_same(2) [of s' s ring] read_header_byte(1) by simp
    ultimately show ?thesis
      using sent c n fetched_step [of ring ?m buf i] by (auto simp: comp_inv_def comp_consumer_inv_def)
  next
    case (read_refuse head avail buf)
    moreover have "comp_producer_inv ring s'" using p comp_inv_same(2) [of s' s ring] read_refuse(1) by simp
    ultimately show ?thesis using sent by (simp add: comp_inv_def comp_consumer_inv_def)
  next
    case (read_accept head avail buf)
    moreover have "comp_producer_inv ring s'" using p comp_inv_same(2) [of s' s ring] read_accept(1) by simp
    ultimately show ?thesis
      using sent c n by (auto simp: comp_inv_def comp_consumer_inv_def word_le_nat_alt)
  next
    case (read_body_byte head sz i buf)
    moreover have "comp_producer_inv ring s'" using p comp_inv_same(2) [of s' s ring] read_body_byte(1) by simp
    ultimately show ?thesis
      using sent c fetched_step [of ring ?m buf i] by (auto simp: comp_inv_def comp_consumer_inv_def)
  next
    case (read_release head sz i buf)
    let ?m' = "put_hdr ?m (rg_header ring) rh_comp_head ((head + sz) AND rg_comp_ring_mask ring)"
    have b: "head = get_hdr ?m (rg_header ring) rh_comp_head" "unat sz \<le> length ?cs" "fetched ?cs buf i"
      using c unfolding comp_consumer_inv_def read_release(2) by auto
    have r: "rd buf 0 (unat sz) = take (unat sz) ?cs" using fetched_rd [OF b(3) read_release(3)] .
    have cs: "comp_contents ring ?m' = drop (unat sz) ?cs"
      using comp_advance_contents [OF ok b(2)] by (simp add: b(1))
    have "comp_producer_inv ring s'"
      using p read_release cs put_hdr_comp_byte [OF ok]
      by (auto simp: comp_producer_inv_def mem_simps split: producer.splits)
    then show ?thesis
      using read_release sent cs r by (simp add: comp_inv_def comp_consumer_inv_def)
  qed (use producer in auto)
qed

lemma comp_steps_inv:
  assumes "ring_ok ring" "16 \<le> unat n" "(comp_step ring n)\<^sup>*\<^sup>* s s'" "comp_inv ring s"
  shows "comp_inv ring s'"
  using assms(3,4) by (induction rule: rtranclp_induct) (auto intro: comp_step_inv [OF assms(1,2)])

section \<open>The routines are made of these steps\<close>

lemma comp_write_bytes_steps:
  assumes "sp_prod s = P_Copy src tail i" "i \<le> length src"
  shows "(comp_step ring n)\<^sup>*\<^sup>* s (s\<lparr>sp_mem := ring_put (sp_mem s) (rg_comp_ring ring) (rg_comp_ring_mask ring)
      (tail + of_nat i) (drop i src), sp_prod := P_Copy src tail (length src)\<rparr>)"
  using assms
proof (induction "length src - i" arbitrary: s i)
  case 0
  then show ?case by (simp add: same_point)
next
  case (Suc d)
  then have i: "i < length src" by simp
  let ?s = "s\<lparr>sp_mem := (sp_mem s)(comp_byte ring tail i := src ! i), sp_prod := P_Copy src tail (Suc i)\<rparr>"
  have "comp_step ring n s ?s" by (rule comp_write_byte) (use Suc.prems i in auto)
  moreover have "(comp_step ring n)\<^sup>*\<^sup>* ?s (?s\<lparr>sp_mem := ring_put (sp_mem ?s) (rg_comp_ring ring) (rg_comp_ring_mask ring)
      (tail + of_nat (Suc i)) (drop (Suc i) src), sp_prod := P_Copy src tail (length src)\<rparr>)"
    by (rule Suc.hyps(1)) (use Suc.hyps(2) i in auto)
  moreover have "drop i src = src ! i # drop (Suc i) src" using i by (simp add: Cons_nth_drop_Suc)
  ultimately show ?case
    by (simp add: converse_rtranclp_into_rtranclp comp_byte_def add.assoc add.commute [of 1])
qed

lemma comp_write_steps:
  assumes "sp_prod s = P_Idle" "length src < 2 ^ 32"
    and w: "gravity_ring_comp_write ring (sp_mem s) src (of_nat (length src)) = (0, m')"
  shows "(comp_step ring n)\<^sup>*\<^sup>* s (s\<lparr>sp_mem := m', sp_sent := sp_sent s @ src\<rparr>)"
proof -
  let ?head = "get_hdr (sp_mem s) (rg_header ring) rh_comp_head"
  let ?tail = "get_hdr (sp_mem s) (rg_header ring) rh_comp_tail"
  let ?m = "ring_put (sp_mem s) (rg_comp_ring ring) (rg_comp_ring_mask ring) ?tail src"
  have u: "unat (of_nat (length src) :: u32) = length src" using assms(2) by (simp add: unat_of_nat)
  have space: "\<not> (rg_comp_ring_size ring - 1) - ((?tail - ?head) AND rg_comp_ring_mask ring) < of_nat (length src)"
    and m': "m' = put_hdr ?m (rg_header ring) rh_comp_tail ((?tail + of_nat (length src)) AND rg_comp_ring_mask ring)"
    using w u by (auto simp: gravity_ring_comp_write_def Let_def split: if_splits)
  define s1 where "s1 = s\<lparr>sp_prod := P_Copy src ?tail 0\<rparr>"
  define s2 where "s2 = s\<lparr>sp_mem := ?m, sp_prod := P_Copy src ?tail (length src)\<rparr>"
  define s3 where "s3 = s\<lparr>sp_mem := m', sp_sent := sp_sent s @ src\<rparr>"
  have "comp_step ring n s s1" unfolding s1_def by (rule comp_begin [OF assms(1,2) refl refl space])
  moreover have "(comp_step ring n)\<^sup>*\<^sup>* s1 s2" using comp_write_bytes_steps [of s1 src ?tail 0] by (simp add: s1_def s2_def)
  moreover have "s3 = s2\<lparr>sp_mem := put_hdr (sp_mem s2) (rg_header ring) rh_comp_tail
       ((?tail + of_nat (length src)) AND rg_comp_ring_mask ring), sp_prod := P_Idle, sp_sent := sp_sent s2 @ src\<rparr>"
    unfolding s3_def m' s2_def using assms(1) by (cases s) simp
  moreover have "sp_prod s2 = P_Copy src ?tail (length src)" by (simp add: s2_def)
  ultimately have "(comp_step ring n)\<^sup>*\<^sup>* s s3"
    using comp_publish [of s2 src ?tail ring n] by (metis converse_rtranclp_into_rtranclp rtranclp.rtrancl_into_rtrancl)
  then show ?thesis by (simp only: s3_def)
qed

lemma comp_header_bytes_steps:
  "sp_cons s = C_Fetch head avail i buf \<Longrightarrow> i \<le> min 16 (unat n) \<Longrightarrow>
     (comp_step ring n)\<^sup>*\<^sup>* s (s\<lparr>sp_cons := C_Fetch head avail (min 16 (unat n))
        (ring_fetch (sp_mem s) (rg_comp_ring ring) (rg_comp_ring_mask ring) head buf i (min 16 (unat n)))\<rparr>)"
proof (induction "min 16 (unat n) - i" arbitrary: s i buf)
  case 0
  then show ?case by (subst ring_fetch.simps) (simp add: same_point)
next
  case (Suc d)
  then have i: "i < min 16 (unat n)" by linarith
  let ?s = "s\<lparr>sp_cons := C_Fetch head avail (Suc i) (buf(i := sp_mem s (comp_byte ring head i)))\<rparr>"
  have "comp_step ring n s ?s" by (rule read_header_byte [OF Suc.prems(1) i])
  moreover have "(comp_step ring n)\<^sup>*\<^sup>* ?s (?s\<lparr>sp_cons := C_Fetch head avail (min 16 (unat n))
        (ring_fetch (sp_mem ?s) (rg_comp_ring ring) (rg_comp_ring_mask ring) head
           (buf(i := sp_mem s (comp_byte ring head i))) (Suc i) (min 16 (unat n)))\<rparr>)"
    by (rule Suc.hyps(1)) (use Suc.hyps(2) i in auto)
  ultimately show ?case
    using i by (subst ring_fetch.simps) (simp add: converse_rtranclp_into_rtranclp comp_byte_def)
qed

lemma comp_body_bytes_steps:
  "sp_cons s = C_Body head sz i buf \<Longrightarrow> i \<le> max 16 (unat sz) \<Longrightarrow>
     (comp_step ring n)\<^sup>*\<^sup>* s (s\<lparr>sp_cons := C_Body head sz (max i (unat sz))
        (ring_fetch (sp_mem s) (rg_comp_ring ring) (rg_comp_ring_mask ring) head buf i (unat sz))\<rparr>)"
proof (induction "unat sz - i" arbitrary: s i buf)
  case 0
  then show ?case by (subst ring_fetch.simps) (simp add: same_point max_absorb1)
next
  case (Suc d)
  then have i: "i < unat sz" by simp
  let ?s = "s\<lparr>sp_cons := C_Body head sz (Suc i) (buf(i := sp_mem s (comp_byte ring head i)))\<rparr>"
  have "comp_step ring n s ?s" by (rule read_body_byte [OF Suc.prems(1) i])
  moreover have "(comp_step ring n)\<^sup>*\<^sup>* ?s (?s\<lparr>sp_cons := C_Body head sz (max (Suc i) (unat sz))
        (ring_fetch (sp_mem ?s) (rg_comp_ring ring) (rg_comp_ring_mask ring) head
           (buf(i := sp_mem s (comp_byte ring head i))) (Suc i) (unat sz))\<rparr>)"
    by (rule Suc.hyps(1)) (use Suc.hyps(2) i in auto)
  ultimately show ?case
    using i by (subst ring_fetch.simps) (simp add: converse_rtranclp_into_rtranclp comp_byte_def max_def)
qed

text \<open>A read that returns a message, as steps.\<close>

lemma comp_read_steps:
  assumes "sp_cons s = C_Idle" "16 \<le> unat n" "gravity_ring_comp_read ring (sp_mem s) buf n = (r, buf', m')"
    and "r \<noteq> 0" "r \<noteq> -1"
  shows "(comp_step ring n)\<^sup>*\<^sup>* s (s\<lparr>sp_mem := m',
     sp_got := sp_got s @ rd buf' 0 (unat (hdr_size (gravity_cmd_header_at buf' 0)))\<rparr>)"
proof -
  let ?m = "sp_mem s"
  let ?head = "get_hdr ?m (rg_header ring) rh_comp_head"
  let ?avail = "(get_hdr ?m (rg_header ring) rh_comp_tail - ?head) AND rg_comp_ring_mask ring"
  let ?fetch = "ring_fetch ?m (rg_comp_ring ring) (rg_comp_ring_mask ring) ?head"
  define dst where "dst = ?fetch buf 0 16"
  let ?sz = "hdr_size (gravity_cmd_header_at dst 0)"
  have h: "16 \<le> unat ?avail" "?sz \<le> ?avail" "?sz \<le> n" and buf': "buf' = ?fetch dst 16 (unat ?sz)"
    and m': "m' = put_hdr ?m (rg_header ring) rh_comp_head
      ((?head + hdr_size (gravity_cmd_header_at buf' 0)) AND rg_comp_ring_mask ring)"
    using assms(2-5) unfolding dst_def
    by (auto simp: gravity_ring_comp_read_def Let_def sizeof_cmd_header_def word_less_nat_alt word_le_nat_alt min_absorb1
        not_less split: if_splits)
  have "gravity_cmd_header_at buf' 0 = gravity_cmd_header_at dst 0"
    by (rule header_at_cong) (simp add: buf' ring_fetch_eq)
  then have sz: "hdr_size (gravity_cmd_header_at buf' 0) = ?sz" by simp
  have mn: "min 16 (unat n) = 16" using assms(2) by simp
  let ?s1 = "s\<lparr>sp_cons := C_Fetch ?head ?avail 0 buf\<rparr>"
  let ?s2 = "s\<lparr>sp_cons := C_Fetch ?head ?avail 16 dst\<rparr>"
  let ?s3 = "s\<lparr>sp_cons := C_Body ?head ?sz 16 dst\<rparr>"
  let ?s4 = "s\<lparr>sp_cons := C_Body ?head ?sz (max 16 (unat ?sz)) buf'\<rparr>"
  let ?s5 = "s\<lparr>sp_mem := m', sp_cons := C_Idle, sp_got := sp_got s @ rd buf' 0 (unat ?sz)\<rparr>"
  have "comp_step ring n s ?s1" by (rule read_begin [OF assms(1) refl refl h(1)])
  moreover have "(comp_step ring n)\<^sup>*\<^sup>* ?s1 ?s2"
    using comp_header_bytes_steps [of ?s1 ?head ?avail 0 buf n ring] by (simp add: mn dst_def)
  moreover have "comp_step ring n ?s2 ?s3"
    using read_accept [of ?s2 ?head ?avail n dst ring] h by (simp add: mn)
  moreover have "(comp_step ring n)\<^sup>*\<^sup>* ?s3 ?s4"
    using comp_body_bytes_steps [of ?s3 ?head ?sz 16 dst ring n] by (simp add: buf')
  moreover have "comp_step ring n ?s4 ?s5"
    using read_release [of ?s4 ?head ?sz "max 16 (unat ?sz)" buf' ring n] by (simp add: m' sz)
  moreover have "?s5 = s\<lparr>sp_mem := m', sp_got := sp_got s @ rd buf' 0 (unat ?sz)\<rparr>"
    using assms(1) by (cases s) simp
  ultimately show ?thesis unfolding sz
    by (metis (no_types, lifting) converse_rtranclp_into_rtranclp rtranclp.rtrancl_into_rtrancl rtranclp_trans)
qed

section \<open>Both rings at once\<close>

text \<open>What one ring's invariant depends on: its indices and its bytes.\<close>

definition same_cmd :: "gravity_ring \<Rightarrow> mem \<Rightarrow> mem \<Rightarrow> bool" where
  "same_cmd ring m m' \<longleftrightarrow>
     get_hdr m' (rg_header ring) rh_cmd_head = get_hdr m (rg_header ring) rh_cmd_head \<and>
     get_hdr m' (rg_header ring) rh_cmd_tail = get_hdr m (rg_header ring) rh_cmd_tail \<and>
     (\<forall>pos i. m' (ring_byte ring pos i) = m (ring_byte ring pos i))"

definition same_comp :: "gravity_ring \<Rightarrow> mem \<Rightarrow> mem \<Rightarrow> bool" where
  "same_comp ring m m' \<longleftrightarrow>
     get_hdr m' (rg_header ring) rh_comp_head = get_hdr m (rg_header ring) rh_comp_head \<and>
     get_hdr m' (rg_header ring) rh_comp_tail = get_hdr m (rg_header ring) rh_comp_tail \<and>
     (\<forall>pos i. m' (comp_byte ring pos i) = m (comp_byte ring pos i))"

lemma same_cmd_contents: "same_cmd ring m m' \<Longrightarrow> cmd_contents ring m' = cmd_contents ring m"
  by (simp add: same_cmd_def cmd_contents_def Let_def ring_byte_def)

lemma same_comp_contents: "same_comp ring m m' \<Longrightarrow> comp_contents ring m' = comp_contents ring m"
  by (simp add: same_comp_def comp_contents_def Let_def comp_byte_def)

lemma spsc_inv_other:
  assumes "same_cmd ring (sp_mem s) m" "spsc_inv ring s"
  shows "spsc_inv ring (s\<lparr>sp_mem := m\<rparr>)"
  using assms same_cmd_contents [OF assms(1)]
  by (simp add: spsc_inv_def producer_inv_def consumer_inv_def copied_def same_cmd_def
      split: producer.splits consumer.splits)

lemma comp_inv_other:
  assumes "same_comp ring (sp_mem s) m" "comp_inv ring s"
  shows "comp_inv ring (s\<lparr>sp_mem := m\<rparr>)"
  using assms same_comp_contents [OF assms(1)]
  by (simp add: comp_inv_def comp_producer_inv_def comp_consumer_inv_def same_comp_def
      split: producer.splits consumer.splits)

text \<open>Each ring's steps leave the other ring alone.\<close>

lemma ring_byte_range:
  assumes "ring_ok ring"
  shows "rg_cmd_ring ring \<le> ring_byte ring pos i"
    "ring_byte ring pos i < rg_cmd_ring ring + unat (rg_cmd_ring_size ring)"
  by (rule ring_byte_cases [OF assms]; simp add: slot_less)+

lemma bytes_apart:
  assumes "ring_ok ring"
  shows "ring_byte ring pos i \<noteq> comp_byte ring pos' i'"
  using ring_byte_range(2) [OF assms, of pos i] comp_byte_range(1) [OF assms, of pos' i'] ring_okD(4) [OF assms] by simp

lemma put_hdr_ring_byte:
  assumes "ring_ok ring"
  shows "put_hdr m (rg_header ring) f v (ring_byte ring pos i) = m (ring_byte ring pos i)"
  using ring_byte_range(1) [OF assms, of pos i] ring_okD(3) [OF assms] by (intro put_hdr_outside) simp

lemma cmd_step_same_comp:
  assumes "ring_ok ring" "spsc_step ring n s s'"
  shows "same_comp ring (sp_mem s) (sp_mem s')"
  using assms(2)
  by (cases rule: spsc_step.cases)
    (simp_all add: same_comp_def write_byte_hdr [OF assms(1)] put_hdr_comp_byte [OF assms(1)]
      bytes_apart [OF assms(1), symmetric] gravity_ring_cmd_consume_def Let_def mem_simps)

lemma comp_step_same_cmd:
  assumes "ring_ok ring" "comp_step ring n s s'"
  shows "same_cmd ring (sp_mem s) (sp_mem s')"
  using assms(2)
  by (cases rule: comp_step.cases)
    (simp_all add: same_cmd_def comp_byte_hdr [OF assms(1)] put_hdr_ring_byte [OF assms(1)]
      bytes_apart [OF assms(1)] mem_simps)

text \<open>
  The whole transport: the points of the command ring's two sides and of the completion ring's,
  over one memory.  \<open>n\<close> is the size of the host's buffer, \<open>n'\<close> that of the guest's.
\<close>

inductive duplex_step :: "gravity_ring \<Rightarrow> u32 \<Rightarrow> u32 \<Rightarrow> spsc \<times> spsc \<Rightarrow> spsc \<times> spsc \<Rightarrow> bool"
  for ring :: gravity_ring and n n' :: u32 where
  commands: "spsc_step ring n s s' \<Longrightarrow> duplex_step ring n n' (s, t) (s', t\<lparr>sp_mem := sp_mem s'\<rparr>)"
| completions: "comp_step ring n' t t' \<Longrightarrow> duplex_step ring n n' (s, t) (s\<lparr>sp_mem := sp_mem t'\<rparr>, t')"

inductive_cases duplex_stepE: "duplex_step ring n n' (s, t) u"

definition duplex_inv :: "gravity_ring \<Rightarrow> spsc \<times> spsc \<Rightarrow> bool" where
  "duplex_inv ring u \<longleftrightarrow> sp_mem (fst u) = sp_mem (snd u) \<and> spsc_inv ring (fst u) \<and> comp_inv ring (snd u)"

lemma duplex_step_inv:
  assumes "ring_ok ring" "16 \<le> unat n" "16 \<le> unat n'" "duplex_step ring n n' u u'" "duplex_inv ring u"
  shows "duplex_inv ring u'"
  using assms(4)
proof cases
  case (commands s s' t)
  then show ?thesis
    using assms(5) spsc_step_inv [OF assms(1,2), of s s'] cmd_step_same_comp [OF assms(1), of n s s']
      comp_inv_other [of ring t "sp_mem s'"] by (simp add: duplex_inv_def)
next
  case (completions t t' s)
  then show ?thesis
    using assms(5) comp_step_inv [OF assms(1,3), of t t'] comp_step_same_cmd [OF assms(1), of n' t t']
      spsc_inv_other [of ring s "sp_mem t'"] by (simp add: duplex_inv_def)
qed

text \<open>
  C4: guest and host use both rings at the same time, every access to the shared memory a step of
  its own and all four sides interleaved in any order: what the host has consumed is a prefix of
  the commands the guest has published, what the guest has read is a prefix of the completions
  the host has published, and the rest of both is what the rings contain.
\<close>

theorem duplex_fifo:
  assumes "ring_ok ring" "16 \<le> unat n" "16 \<le> unat n'" "cmd_contents ring m = []" "comp_contents ring m = []"
    and "(duplex_step ring n n')\<^sup>*\<^sup>* (spsc_start m, spsc_start m) (s, t)"
  shows "sp_mem s = sp_mem t \<and> sp_sent s = sp_got s @ cmd_contents ring (sp_mem s) \<and>
     sp_sent t = sp_got t @ comp_contents ring (sp_mem s)"
proof -
  have "duplex_inv ring (spsc_start m, spsc_start m)"
    using assms(4,5) by (simp add: duplex_inv_def spsc_inv_def producer_inv_def consumer_inv_def comp_inv_def
      comp_producer_inv_def comp_consumer_inv_def spsc_start_def)
  with assms(6) have "duplex_inv ring (s, t)"
    by (induction rule: rtranclp_induct) (auto intro: duplex_step_inv [OF assms(1-3)])
  then show ?thesis by (simp add: duplex_inv_def spsc_inv_def comp_inv_def)
qed

text \<open>The routines of the two sides, one after the other, are such runs.\<close>

lemma commands_run:
  "(spsc_step ring n)\<^sup>*\<^sup>* s s' \<Longrightarrow> sp_mem t = sp_mem s \<Longrightarrow>
     (duplex_step ring n n')\<^sup>*\<^sup>* (s, t) (s', t\<lparr>sp_mem := sp_mem s'\<rparr>)"
proof (induction rule: rtranclp_induct)
  case base
  then have "t\<lparr>sp_mem := sp_mem s\<rparr> = t" by (cases t) simp
  then show ?case by simp
next
  case (step s' s'')
  have "duplex_step ring n n' (s', t\<lparr>sp_mem := sp_mem s'\<rparr>) (s'', t\<lparr>sp_mem := sp_mem s''\<rparr>)"
    using commands [OF step.hyps(2), of n' "t\<lparr>sp_mem := sp_mem s'\<rparr>"] by simp
  then show ?case using step.IH step.prems by (simp add: rtranclp.rtrancl_into_rtrancl)
qed

lemma completions_run:
  "(comp_step ring n')\<^sup>*\<^sup>* t t' \<Longrightarrow> sp_mem s = sp_mem t \<Longrightarrow>
     (duplex_step ring n n')\<^sup>*\<^sup>* (s, t) (s\<lparr>sp_mem := sp_mem t'\<rparr>, t')"
proof (induction rule: rtranclp_induct)
  case base
  then have "s\<lparr>sp_mem := sp_mem t\<rparr> = s" by (cases s) simp
  then show ?case by simp
next
  case (step t' t'')
  have "duplex_step ring n n' (s\<lparr>sp_mem := sp_mem t'\<rparr>, t') (s\<lparr>sp_mem := sp_mem t''\<rparr>, t'')"
    using completions [OF step.hyps(2), of n "s\<lparr>sp_mem := sp_mem t'\<rparr>"] by simp
  then show ?case using step.IH step.prems by (simp add: rtranclp.rtrancl_into_rtrancl)
qed

text \<open>A command written and then a completion, on the demonstration ring.\<close>

theorem duplex_fifo_witness:
  "\<exists>s t. (duplex_step demo_ring 64 64)\<^sup>*\<^sup>* (spsc_start demo_mem, spsc_start demo_mem) (s, t) \<and>
     cmd_contents demo_ring (sp_mem s) = demo_ping 1 \<and> comp_contents demo_ring (sp_mem s) = demo_ping 2"
proof -
  define m1 where "m1 = snd (gravity_ring_cmd_write demo_ring demo_mem (demo_ping 1) 16)"
  define m2 where "m2 = snd (gravity_ring_comp_write demo_ring m1 (demo_ping 2) 16)"
  define s1 where "s1 = spsc_start demo_mem\<lparr>sp_mem := m1, sp_sent := demo_ping 1\<rparr>"
  define t1 where "t1 = spsc_start demo_mem\<lparr>sp_mem := m1\<rparr>"
  define t2 where "t2 = t1\<lparr>sp_mem := m2, sp_sent := demo_ping 2\<rparr>"
  have z1: "fst (gravity_ring_cmd_write demo_ring demo_mem (demo_ping 1) 16) = 0"
    using cmd_write_zero_iff [OF demo_ok, of demo_mem "demo_ping 1" 16] demo_attach by simp
  have "comp_contents demo_ring m1 = []"
    using cmd_write_comp_contents [OF demo_ok] demo_attach by (simp add: m1_def)
  then have w2: "gravity_ring_comp_write demo_ring m1 (demo_ping 2) 16 = (0, m2)"
    using comp_write_zero_iff [OF demo_ok, of m1 "demo_ping 2" 16] by (simp add: m2_def prod_eq_iff)
  have "demo_ping 1 \<noteq> []" using length_demo_ping [of 1] by (metis list.size(3) zero_neq_numeral)
  then have "(spsc_step demo_ring 64)\<^sup>*\<^sup>* (spsc_start demo_mem) s1"
    using write_steps [of "spsc_start demo_mem" "demo_ping 1" demo_ring 64] z1 by (simp add: s1_def m1_def spsc_start_def)
  then have "(duplex_step demo_ring 64 64)\<^sup>*\<^sup>* (spsc_start demo_mem, spsc_start demo_mem) (s1, t1)"
    using commands_run [of demo_ring 64 "spsc_start demo_mem" s1 "spsc_start demo_mem" 64] by (simp add: s1_def t1_def)
  moreover have "(comp_step demo_ring 64)\<^sup>*\<^sup>* t1 t2"
    using comp_write_steps [of t1 "demo_ping 2" demo_ring m2 64] w2 by (simp add: t1_def t2_def spsc_start_def)
  then have "(duplex_step demo_ring 64 64)\<^sup>*\<^sup>* (s1, t1) (s1\<lparr>sp_mem := m2\<rparr>, t2)"
    using completions_run [of demo_ring 64 t1 t2 s1 64] by (simp add: s1_def t1_def t2_def)
  ultimately have r: "(duplex_step demo_ring 64 64)\<^sup>*\<^sup>* (spsc_start demo_mem, spsc_start demo_mem) (s1\<lparr>sp_mem := m2\<rparr>, t2)"
    by (rule rtranclp_trans)
  then show ?thesis
    using duplex_fifo [OF demo_ok _ _ _ _ r] demo_attach
    by (intro exI [of _ "s1\<lparr>sp_mem := m2\<rparr>"] exI [of _ t2]) (simp add: s1_def t1_def t2_def spsc_start_def)
qed

end
