(* ===== verification/Resource_Tracker.thy ===== *)
theory Resource_Tracker
  imports Ring_Core Gravity_Protocol
begin

text \<open>
  The table that maps guest handles to host objects
  (\<^verbatim>\<open>host-daemon/src/resource_tracker.c\<close> and its header): an array of entries with a free list
  threaded through \<open>ref_count\<close>, and an open-addressing hash table of entry indices with linear
  probing.  A pointer to an entry is its index, \<^verbatim>\<open>NULL\<close> is \<open>None\<close>; the arrays are functions
  on the naturals, of which only the indices below the array sizes are ever used (that is part
  of the invariant proved here).  The union of an entry is kept as its bytes, laid out as the
  x86-64 ABI does, so that reading it through another member than the one written is
  represented too.
\<close>

section \<open>Data\<close>

datatype gravity_resource_type =
    GRAVITY_RES_BUFFER | GRAVITY_RES_TEXTURE | GRAVITY_RES_SAMPLER | GRAVITY_RES_SHADER
  | GRAVITY_RES_RENDER_PIPELINE | GRAVITY_RES_COMPUTE_PIPELINE | GRAVITY_RES_DEPTH_STENCIL
  | GRAVITY_RES_FENCE | GRAVITY_RES_EVENT | GRAVITY_RES_CMDBUF

text \<open>The members of the union's structures and their byte offsets.\<close>

datatype res_field =
    buffer_buffer | buffer_memory | buffer_size | buffer_mapped
  | texture_image | texture_image_view | texture_memory | texture_width | texture_height
  | texture_depth | texture_mip_levels | texture_array_layers | texture_format
  | texture_current_layout
  | sampler_sampler | shader_module | shader_shader_type
  | pipeline_pipeline | pipeline_layout | pipeline_desc_set_layout
  | ds_depth_compare | ds_depth_write_enabled | ds_front_face | ds_back_face
  | cmdbuf_cmd_buf | cmdbuf_fence | cmdbuf_recording | cmdbuf_in_render_pass

primrec res_off :: "res_field \<Rightarrow> nat" where
    "res_off buffer_buffer = 0"
  | "res_off buffer_memory = 8"
  | "res_off buffer_size = 16"
  | "res_off buffer_mapped = 24"
  | "res_off texture_image = 0"
  | "res_off texture_image_view = 8"
  | "res_off texture_memory = 16"
  | "res_off texture_width = 24"
  | "res_off texture_height = 28"
  | "res_off texture_depth = 32"
  | "res_off texture_mip_levels = 36"
  | "res_off texture_array_layers = 40"
  | "res_off texture_format = 44"
  | "res_off texture_current_layout = 48"
  | "res_off sampler_sampler = 0"
  | "res_off shader_module = 0"
  | "res_off shader_shader_type = 8"
  | "res_off pipeline_pipeline = 0"
  | "res_off pipeline_layout = 8"
  | "res_off pipeline_desc_set_layout = 16"
  | "res_off ds_depth_compare = 0"
  | "res_off ds_depth_write_enabled = 4"
  | "res_off ds_front_face = 5"
  | "res_off ds_back_face = 29"
  | "res_off cmdbuf_cmd_buf = 0"
  | "res_off cmdbuf_fence = 8"
  | "res_off cmdbuf_recording = 16"
  | "res_off cmdbuf_in_render_pass = 17"

record gravity_resource_entry =
  re_handle :: u32
  re_type :: gravity_resource_type
  re_ref_count :: u32
  re_in_use :: bool
  re_union :: mem

definition get_res64 :: "gravity_resource_entry \<Rightarrow> res_field \<Rightarrow> u64" where
  "get_res64 e f = ld64 (re_union e) (res_off f)"

definition get_res32 :: "gravity_resource_entry \<Rightarrow> res_field \<Rightarrow> u32" where
  "get_res32 e f = ld32 (re_union e) (res_off f)"

definition get_resb :: "gravity_resource_entry \<Rightarrow> res_field \<Rightarrow> bool" where
  "get_resb e f \<longleftrightarrow> re_union e (res_off f) \<noteq> 0"

definition put_res64 :: "res_field \<Rightarrow> u64 \<Rightarrow> gravity_resource_entry \<Rightarrow> gravity_resource_entry" where
  "put_res64 f v e = e\<lparr>re_union := st64 (re_union e) (res_off f) v\<rparr>"

definition put_res32 :: "res_field \<Rightarrow> u32 \<Rightarrow> gravity_resource_entry \<Rightarrow> gravity_resource_entry" where
  "put_res32 f v e = e\<lparr>re_union := st32 (re_union e) (res_off f) v\<rparr>"

definition put_resb :: "res_field \<Rightarrow> bool \<Rightarrow> gravity_resource_entry \<Rightarrow> gravity_resource_entry" where
  "put_resb f b e = e\<lparr>re_union := (re_union e)(res_off f := (if b then 1 else 0))\<rparr>"

abbreviation UINT32_MAX :: u32 where "UINT32_MAX \<equiv> - 1"

definition GRAVITY_TRACKER_HASH_SIZE :: nat where "GRAVITY_TRACKER_HASH_SIZE = 4096"
definition GRAVITY_TRACKER_MAX_ENTRIES :: nat where "GRAVITY_TRACKER_MAX_ENTRIES = 65536"

lemmas tracker_sizes = GRAVITY_TRACKER_HASH_SIZE_def GRAVITY_TRACKER_MAX_ENTRIES_def

record gravity_resource_tracker =
  rt_entries :: "nat \<Rightarrow> gravity_resource_entry"
  rt_hash_table :: "nat \<Rightarrow> u32"
  rt_entry_count :: u32
  rt_free_head :: u32

text \<open>What \<^verbatim>\<open>memset(entry, 0, sizeof *entry)\<close> leaves.\<close>

definition zero_entry :: gravity_resource_entry where
  "zero_entry = \<lparr>re_handle = 0, re_type = GRAVITY_RES_BUFFER, re_ref_count = 0, re_in_use = False,
                 re_union = (\<lambda>_. 0)\<rparr>"

definition zero_tracker :: gravity_resource_tracker where
  "zero_tracker = \<lparr>rt_entries = (\<lambda>_. zero_entry), rt_hash_table = (\<lambda>_. 0), rt_entry_count = 0,
                   rt_free_head = 0\<rparr>"

section \<open>Operations\<close>

definition hash_handle :: "u32 \<Rightarrow> u32" where
  "hash_handle handle =
     (let h = (drop_bit 16 handle XOR handle) * 0x45d9f3b;
          h = (drop_bit 16 h XOR h) * 0x45d9f3b;
          h = drop_bit 16 h XOR h
      in h AND (of_nat GRAVITY_TRACKER_HASH_SIZE - 1))"

definition gravity_resource_tracker_init :: "gravity_resource_tracker \<Rightarrow> gravity_resource_tracker" where
  "gravity_resource_tracker_init tracker =
     (let t0 = zero_tracker;
          t1 = t0\<lparr>rt_hash_table := (\<lambda>i. if i < GRAVITY_TRACKER_HASH_SIZE then UINT32_MAX
                                         else rt_hash_table t0 i)\<rparr>;
          t2 = t1\<lparr>rt_entries := (\<lambda>i. if i < GRAVITY_TRACKER_MAX_ENTRIES - 1
                  then (rt_entries t1 i)\<lparr>re_ref_count := of_nat i + 1, re_in_use := False\<rparr>
                  else rt_entries t1 i)\<rparr>;
          l = GRAVITY_TRACKER_MAX_ENTRIES - 1;
          t3 = t2\<lparr>rt_entries := (rt_entries t2)
                  (l := (rt_entries t2 l)\<lparr>re_ref_count := UINT32_MAX, re_in_use := False\<rparr>)\<rparr>
      in t3\<lparr>rt_free_head := 0, rt_entry_count := 0\<rparr>)"

text \<open>
  The leak report: the count of the warning line and the handle and type of every line that
  follows it, or \<open>None\<close> when nothing is printed.
\<close>

definition gravity_resource_tracker_destroy ::
  "gravity_resource_tracker \<Rightarrow> (u32 \<times> (u32 \<times> gravity_resource_type) list) option \<times> gravity_resource_tracker" where
  "gravity_resource_tracker_destroy tracker =
     ((if 0 < rt_entry_count tracker
       then Some (rt_entry_count tracker,
              map (\<lambda>i. (re_handle (rt_entries tracker i), re_type (rt_entries tracker i)))
                (filter (\<lambda>i. re_in_use (rt_entries tracker i)) [0..<GRAVITY_TRACKER_MAX_ENTRIES]))
       else None),
      zero_tracker)"

text \<open>
  The probe loop that \<^verbatim>\<open>get\<close> and \<^verbatim>\<open>remove\<close> run; the result is the slot where it
  found the handle.
\<close>

function probe_handle :: "gravity_resource_tracker \<Rightarrow> u32 \<Rightarrow> u32 \<Rightarrow> nat \<Rightarrow> nat option" where
  "probe_handle tracker handle hash probe =
     (if probe < GRAVITY_TRACKER_HASH_SIZE then
        let sl = unat ((hash + of_nat probe) AND (of_nat GRAVITY_TRACKER_HASH_SIZE - 1));
            idx = rt_hash_table tracker sl
        in if idx = UINT32_MAX then None
           else if re_in_use (rt_entries tracker (unat idx)) \<and>
                   re_handle (rt_entries tracker (unat idx)) = handle
           then Some sl
           else probe_handle tracker handle hash (probe + 1)
      else None)"
  by pat_completeness auto
termination
  by (relation "measure (\<lambda>(t, h, hs, p). GRAVITY_TRACKER_HASH_SIZE - p)") auto

declare probe_handle.simps [simp del]

definition gravity_resource_tracker_get :: "gravity_resource_tracker \<Rightarrow> u32 \<Rightarrow> nat option" where
  "gravity_resource_tracker_get tracker handle =
     (if handle = GRAVITY_INVALID_HANDLE then None
      else case probe_handle tracker handle (hash_handle handle) 0 of
             None \<Rightarrow> None
           | Some sl \<Rightarrow> Some (unat (rt_hash_table tracker sl)))"

text \<open>The insertion loop of \<^verbatim>\<open>add\<close>: the first empty slot on the probe path takes the index.\<close>

function probe_insert :: "(nat \<Rightarrow> u32) \<Rightarrow> u32 \<Rightarrow> u32 \<Rightarrow> nat \<Rightarrow> (nat \<Rightarrow> u32)" where
  "probe_insert table idx hash probe =
     (if probe < GRAVITY_TRACKER_HASH_SIZE then
        let sl = unat ((hash + of_nat probe) AND (of_nat GRAVITY_TRACKER_HASH_SIZE - 1))
        in if table sl = UINT32_MAX then table(sl := idx)
           else probe_insert table idx hash (probe + 1)
      else table)"
  by pat_completeness auto
termination
  by (relation "measure (\<lambda>(t, i, hs, p). GRAVITY_TRACKER_HASH_SIZE - p)") auto

declare probe_insert.simps [simp del]

definition gravity_resource_tracker_add ::
  "gravity_resource_tracker \<Rightarrow> u32 \<Rightarrow> gravity_resource_type \<Rightarrow> nat option \<times> gravity_resource_tracker" where
  "gravity_resource_tracker_add tracker handle type =
     (if handle = GRAVITY_INVALID_HANDLE then (None, tracker)
      else if rt_free_head tracker = UINT32_MAX then (None, tracker)
      else if gravity_resource_tracker_get tracker handle \<noteq> None then (None, tracker)
      else
        let idx = rt_free_head tracker;
            i = unat idx;
            t1 = tracker\<lparr>rt_free_head := re_ref_count (rt_entries tracker i)\<rparr>;
            entry = zero_entry\<lparr>re_handle := handle, re_type := type, re_ref_count := 1, re_in_use := True\<rparr>;
            t2 = t1\<lparr>rt_entries := (rt_entries t1)(i := entry)\<rparr>;
            t3 = t2\<lparr>rt_hash_table := probe_insert (rt_hash_table t2) idx (hash_handle handle) 0\<rparr>
        in (Some i, t3\<lparr>rt_entry_count := rt_entry_count t3 + 1\<rparr>))"

definition gravity_resource_tracker_remove ::
  "gravity_resource_tracker \<Rightarrow> u32 \<Rightarrow> gravity_resource_tracker" where
  "gravity_resource_tracker_remove tracker handle =
     (if handle = GRAVITY_INVALID_HANDLE then tracker
      else case probe_handle tracker handle (hash_handle handle) 0 of
             None \<Rightarrow> tracker
           | Some sl \<Rightarrow>
               let idx = rt_hash_table tracker sl;
                   i = unat idx;
                   e = (rt_entries tracker i)\<lparr>re_in_use := False, re_handle := GRAVITY_INVALID_HANDLE,
                                               re_ref_count := rt_free_head tracker\<rparr>
               in tracker\<lparr>rt_entries := (rt_entries tracker)(i := e),
                          rt_free_head := idx,
                          rt_hash_table := (rt_hash_table tracker)(sl := UINT32_MAX),
                          rt_entry_count := rt_entry_count tracker - 1\<rparr>)"

definition gravity_resource_tracker_count :: "gravity_resource_tracker \<Rightarrow> u32" where
  "gravity_resource_tracker_count tracker = rt_entry_count tracker"

section \<open>Probe paths\<close>

text \<open>The slot inspected in round \<open>p\<close> for \<open>handle\<close>.\<close>

definition pslot :: "u32 \<Rightarrow> nat \<Rightarrow> nat" where
  "pslot handle p = slot 12 (hash_handle handle) p"

lemma hash_mask: "(4095 :: u32) = mask 12"
  by (simp add: mask_eq_exp_minus_1)

lemma hash_size [simp]: "GRAVITY_TRACKER_HASH_SIZE = 4096" and
  max_entries [simp]: "GRAVITY_TRACKER_MAX_ENTRIES = 65536"
  by (simp_all add: tracker_sizes)

lemma pslot_less [simp]: "pslot h p < 4096"
  using slot_less [of 12 "hash_handle h" p] by (simp add: pslot_def)

lemma pslot_inj: "p < 4096 \<Longrightarrow> q < 4096 \<Longrightarrow> pslot h p = pslot h q \<longleftrightarrow> p = q"
  using slot_inj [of 12 p q "hash_handle h"] by (auto simp: pslot_def)

lemma pslot_surj:
  assumes "s < 4096"
  obtains p where "p < 4096" "pslot h p = s"
proof -
  have "inj_on (pslot h) {..<4096}" by (auto simp: inj_on_def pslot_inj)
  then have "pslot h ` {..<4096} = {..<4096}"
    by (intro endo_inj_surj) auto
  then have "s \<in> pslot h ` {..<4096}" using assms by simp
  then show thesis using that by auto
qed

definition hit :: "gravity_resource_tracker \<Rightarrow> u32 \<Rightarrow> nat \<Rightarrow> bool" where
  "hit t h s \<longleftrightarrow> rt_hash_table t s \<noteq> UINT32_MAX \<and>
     re_in_use (rt_entries t (unat (rt_hash_table t s))) \<and>
     re_handle (rt_entries t (unat (rt_hash_table t s))) = h"

definition passed :: "gravity_resource_tracker \<Rightarrow> u32 \<Rightarrow> nat \<Rightarrow> bool" where
  "passed t h s \<longleftrightarrow> rt_hash_table t s \<noteq> UINT32_MAX \<and> \<not> hit t h s"

lemma probe_handle_Some:
  "probe_handle t h (hash_handle h) p = Some s \<longleftrightarrow>
     (\<exists>q. p \<le> q \<and> q < 4096 \<and> s = pslot h q \<and> hit t h s \<and> (\<forall>r. p \<le> r \<and> r < q \<longrightarrow> passed t h (pslot h r)))"
  (is "?l p \<longleftrightarrow> ?r p")
proof (induction "4096 - p" arbitrary: p)
  case 0
  then show ?case by (subst probe_handle.simps) auto
next
  case (Suc n)
  then have p: "p < 4096" by simp
  have step: "(p \<le> r \<longleftrightarrow> r = p \<or> Suc p \<le> r)" for r by auto
  have IH: "?l (Suc p) \<longleftrightarrow> ?r (Suc p)" using Suc by simp
  show ?case
  proof (cases "passed t h (pslot h p)")
    case True
    then have "?l p \<longleftrightarrow> ?l (Suc p)"
      using p by (subst probe_handle.simps) (auto simp: Let_def hash_mask pslot_def passed_def hit_def)
    also have "\<dots> \<longleftrightarrow> ?r p"
      unfolding IH
    proof
      assume "?r (Suc p)"
      then show "?r p" using True by (metis Suc_leD le_antisym not_less_eq_eq)
    next
      assume "?r p"
      then obtain q where q: "p \<le> q" "q < 4096" "s = pslot h q" "hit t h s"
        "\<forall>r. p \<le> r \<and> r < q \<longrightarrow> passed t h (pslot h r)" by blast
      then have "q \<noteq> p" using True by (auto simp: passed_def)
      then show "?r (Suc p)" using q by (intro exI [of _ q]) auto
    qed
    finally show ?thesis .
  next
    case False
    have "?l p \<longleftrightarrow> hit t h (pslot h p) \<and> s = pslot h p"
      using False p by (subst probe_handle.simps) (auto simp: Let_def hash_mask pslot_def passed_def hit_def)
    also have "\<dots> \<longleftrightarrow> ?r p"
      using False p by (metis le_neq_implies_less le_refl less_or_eq_imp_le linorder_not_less)
    finally show ?thesis .
  qed
qed

text \<open>\<open>reaches t h s\<close>: the loop looking for \<open>h\<close> stops at slot \<open>s\<close> because it holds \<open>h\<close>.\<close>

definition reaches :: "gravity_resource_tracker \<Rightarrow> u32 \<Rightarrow> nat \<Rightarrow> bool" where
  "reaches t h s \<longleftrightarrow> (\<exists>q<4096. s = pslot h q \<and> hit t h s \<and> (\<forall>r<q. passed t h (pslot h r)))"

lemma probe_handle_reaches: "probe_handle t h (hash_handle h) 0 = Some s \<longleftrightarrow> reaches t h s"
  by (simp add: probe_handle_Some reaches_def)

lemma reaches_unique: "reaches t h s \<Longrightarrow> reaches t h s' \<Longrightarrow> s = s'"
  by (metis option.inject probe_handle_reaches)

lemma get_Some:
  "gravity_resource_tracker_get t h = Some i \<longleftrightarrow>
     h \<noteq> 0 \<and> (\<exists>s. reaches t h s \<and> i = unat (rt_hash_table t s))"
  by (auto simp: gravity_resource_tracker_get_def GRAVITY_INVALID_HANDLE_def
      probe_handle_reaches [symmetric] split: option.splits)

lemma probe_insert_eq:
  "probe_insert tab idx (hash_handle h) p =
     (if \<exists>q. p \<le> q \<and> q < 4096 \<and> tab (pslot h q) = UINT32_MAX
      then tab(pslot h (LEAST q. p \<le> q \<and> q < 4096 \<and> tab (pslot h q) = UINT32_MAX) := idx) else tab)"
proof (induction "4096 - p" arbitrary: p)
  case 0
  then show ?case by (subst probe_insert.simps) auto
next
  case (Suc n)
  then have p: "p < 4096" by simp
  show ?case
  proof (cases "tab (pslot h p) = UINT32_MAX")
    case True
    have "(LEAST q. p \<le> q \<and> q < 4096 \<and> tab (pslot h q) = UINT32_MAX) = p"
      using True p by (intro Least_equality) auto
    then show ?thesis
      using True p by (subst probe_insert.simps) (auto simp: Let_def hash_mask pslot_def)
  next
    case False
    have e: "(p \<le> q \<and> q < 4096 \<and> tab (pslot h q) = UINT32_MAX) =
          (Suc p \<le> q \<and> q < 4096 \<and> tab (pslot h q) = UINT32_MAX)" for q
      using False by (auto simp: le_eq_less_or_eq)
    have i: "probe_insert tab idx (hash_handle h) p = probe_insert tab idx (hash_handle h) (Suc p)"
      using False p by (subst probe_insert.simps) (auto simp: Let_def hash_mask pslot_def)
    have "n = 4096 - Suc p" using Suc(2) by simp
    then show ?thesis unfolding i e by (rule Suc(1))
  qed
qed

text \<open>Either the table is full, or the insertion takes the first empty slot of the path.\<close>

lemma probe_insert_cases:
  obtains (full) "\<forall>s<4096. tab s \<noteq> UINT32_MAX" "probe_insert tab idx (hash_handle h) 0 = tab"
  | (slot) q where "q < 4096" "tab (pslot h q) = UINT32_MAX" "\<forall>r<q. tab (pslot h r) \<noteq> UINT32_MAX"
      "probe_insert tab idx (hash_handle h) 0 = tab(pslot h q := idx)"
proof (cases "\<exists>q<4096. tab (pslot h q) = UINT32_MAX")
  case True
  let ?q = "LEAST q. q < 4096 \<and> tab (pslot h q) = UINT32_MAX"
  have q: "?q < 4096 \<and> tab (pslot h ?q) = UINT32_MAX" using True by (rule LeastI_ex)
  have r: "\<forall>r < ?q. tab (pslot h r) \<noteq> UINT32_MAX"
    using not_less_Least q by (metis (mono_tags, lifting) order_less_trans)
  have "probe_insert tab idx (hash_handle h) 0 = tab(pslot h ?q := idx)"
    using True by (simp add: probe_insert_eq)
  then show thesis using q r slot by blast
next
  case False
  then have "\<forall>s<4096. tab s \<noteq> UINT32_MAX" by (metis pslot_surj)
  with False show thesis by (intro full) (simp_all add: probe_insert_eq)
qed

section \<open>The invariant every operation keeps\<close>

lemma inj_table_insert:
  assumes "inj_on f {s. s < n \<and> f s \<noteq> M}" "\<And>s. s < n \<Longrightarrow> f s \<noteq> M \<Longrightarrow> f s = v \<Longrightarrow> False"
  shows "inj_on (f(s0 := v)) {s. s < n \<and> (f(s0 := v)) s \<noteq> M}"
proof (rule inj_onI)
  fix x y
  assume x: "x \<in> {s. s < n \<and> (f(s0 := v)) s \<noteq> M}" and y: "y \<in> {s. s < n \<and> (f(s0 := v)) s \<noteq> M}"
    and e: "(f(s0 := v)) x = (f(s0 := v)) y"
  consider "x = s0" "y = s0" | "x = s0" "y \<noteq> s0" | "x \<noteq> s0" "y = s0" | "x \<noteq> s0" "y \<noteq> s0" by blast
  then show "x = y"
  proof cases
    case 2
    then have "y < n" "f y \<noteq> M" "f y = v" using y e by simp_all
    then show ?thesis using assms(2) by blast
  next
    case 3
    then have "x < n" "f x \<noteq> M" "f x = v" using x e by simp_all
    then show ?thesis using assms(2) by blast
  next
    case 4
    then have "f x = f y" "x < n" "f x \<noteq> M" "y < n" "f y \<noteq> M" using x y e by simp_all
    then show ?thesis using inj_onD [OF assms(1)] by blast
  qed simp
qed

text \<open>\<open>fl\<close> is the free list, followed through \<open>ref_count\<close> from the head.\<close>

primrec free_chain :: "(nat \<Rightarrow> gravity_resource_entry) \<Rightarrow> u32 \<Rightarrow> nat list \<Rightarrow> bool" where
  "free_chain es h [] = (h = UINT32_MAX)"
| "free_chain es h (i # is) = (i < 65536 \<and> h = of_nat i \<and> free_chain es (re_ref_count (es i)) is)"

definition live :: "gravity_resource_tracker \<Rightarrow> nat set" where
  "live t = {i. i < 65536 \<and> re_in_use (rt_entries t i)}"

definition trk_inv :: "gravity_resource_tracker \<Rightarrow> nat list \<Rightarrow> bool" where
  "trk_inv t fl \<longleftrightarrow>
     free_chain (rt_entries t) (rt_free_head t) fl \<and> distinct fl \<and> set fl = {..<65536} - live t \<and>
     (\<forall>s<4096. rt_hash_table t s \<noteq> UINT32_MAX \<longrightarrow> unat (rt_hash_table t s) \<in> live t) \<and>
     inj_on (rt_hash_table t) {s. s < 4096 \<and> rt_hash_table t s \<noteq> UINT32_MAX} \<and>
     (\<forall>i\<in>live t. re_handle (rt_entries t i) \<noteq> 0) \<and>
     rt_entry_count t = of_nat (card (live t))"

definition trk_ok :: "gravity_resource_tracker \<Rightarrow> bool" where
  "trk_ok t \<longleftrightarrow> (\<exists>fl. trk_inv t fl)"

lemma live_finite [simp]: "finite (live t)"
  by (simp add: live_def)

lemma live_card: "card (live t) \<le> 65536"
  using card_mono [of "{..<65536}" "live t"] by (auto simp: live_def)

lemma free_chain_upd: "i \<notin> set fl \<Longrightarrow> free_chain (es(i := e)) h fl = free_chain es h fl"
  by (induction fl arbitrary: h) auto

lemma unat_small: "i < 65536 \<Longrightarrow> unat (of_nat i :: u32) = i"
  by (simp add: unat_of_nat)

lemma of_nat_max:
  assumes "i < 65536"
  shows "(of_nat i :: u32) \<noteq> UINT32_MAX"
proof
  assume "(of_nat i :: u32) = UINT32_MAX"
  then have "(of_nat (Suc i) :: u32) = 0" by simp
  then have "unat (of_nat (Suc i) :: u32) = 0" by (simp only: unat_0)
  then show False using assms by (simp add: unat_of_nat del: of_nat_Suc)
qed

lemma trk_invD:
  assumes "trk_inv t fl"
  shows "free_chain (rt_entries t) (rt_free_head t) fl" "distinct fl" "set fl = {..<65536} - live t"
    and "\<And>s. s < 4096 \<Longrightarrow> rt_hash_table t s \<noteq> UINT32_MAX \<Longrightarrow> unat (rt_hash_table t s) \<in> live t"
    and "inj_on (rt_hash_table t) {s. s < 4096 \<and> rt_hash_table t s \<noteq> UINT32_MAX}"
    and "\<And>i. i \<in> live t \<Longrightarrow> re_handle (rt_entries t i) \<noteq> 0"
    and "rt_entry_count t = of_nat (card (live t))"
  using assms by (auto simp: trk_inv_def)

lemma trk_count: "trk_ok t \<Longrightarrow> unat (rt_entry_count t) = card (live t)"
  using live_card [of t] by (auto simp: trk_ok_def trk_inv_def unat_of_nat)

lemma get_live:
  assumes "trk_ok t" "gravity_resource_tracker_get t h = Some i"
  shows "h \<noteq> 0 \<and> i \<in> live t \<and> re_handle (rt_entries t i) = h"
proof -
  obtain fl s where fl: "trk_inv t fl" and s: "h \<noteq> 0" "reaches t h s" "i = unat (rt_hash_table t s)"
    using assms by (auto simp: trk_ok_def get_Some)
  have "s < 4096" "hit t h s" using s(2) by (auto simp: reaches_def)
  then show ?thesis using trk_invD(4) [OF fl, of s] s by (auto simp: hit_def)
qed

section \<open>Initialisation\<close>

lemma init_entries:
  "re_in_use (rt_entries (gravity_resource_tracker_init t) i) = False"
  "i < 65535 \<Longrightarrow> re_ref_count (rt_entries (gravity_resource_tracker_init t) i) = of_nat (Suc i)"
  "re_ref_count (rt_entries (gravity_resource_tracker_init t) 65535) = UINT32_MAX"
  "s < 4096 \<Longrightarrow> rt_hash_table (gravity_resource_tracker_init t) s = UINT32_MAX"
  "rt_entry_count (gravity_resource_tracker_init t) = 0"
  "rt_free_head (gravity_resource_tracker_init t) = 0"
  by (simp_all add: gravity_resource_tracker_init_def Let_def zero_tracker_def zero_entry_def add.commute)

lemma init_chain:
  assumes "i \<le> 65535"
  shows "free_chain (rt_entries (gravity_resource_tracker_init t)) (of_nat i) [i..<65536]"
  using assms
proof (induction "65535 - i" arbitrary: i)
  case 0
  then have "i = 65535" by simp
  then show ?case by (simp add: upt_conv_Cons init_entries)
next
  case (Suc n)
  then have "free_chain (rt_entries (gravity_resource_tracker_init t)) (of_nat (Suc i)) [Suc i..<65536]"
    by (intro Suc.hyps(1)) auto
  then show ?case using Suc by (subst upt_conv_Cons) (auto simp: init_entries)
qed

lemma init_live [simp]: "live (gravity_resource_tracker_init t) = {}"
  by (simp add: live_def init_entries)

lemma init_inv: "trk_inv (gravity_resource_tracker_init t) [0..<65536]"
  using init_chain [of 0 t] unfolding trk_inv_def by (auto simp: init_entries inj_on_def)

lemma init_ok [simp]: "trk_ok (gravity_resource_tracker_init t)"
  using init_inv by (auto simp: trk_ok_def)

section \<open>Adding\<close>

definition new_entry :: "u32 \<Rightarrow> gravity_resource_type \<Rightarrow> gravity_resource_entry" where
  "new_entry h ty = zero_entry\<lparr>re_handle := h, re_type := ty, re_ref_count := 1, re_in_use := True\<rparr>"

lemma new_entry_sel [simp]:
  "re_handle (new_entry h ty) = h" "re_type (new_entry h ty) = ty" "re_in_use (new_entry h ty)"
  "re_ref_count (new_entry h ty) = 1" "re_union (new_entry h ty) = (\<lambda>_. 0)"
  by (simp_all add: new_entry_def zero_entry_def)

text \<open>The four ways \<^verbatim>\<open>add\<close> ends.\<close>

lemma add_refused:
  "h = 0 \<or> rt_free_head t = UINT32_MAX \<or> gravity_resource_tracker_get t h \<noteq> None \<Longrightarrow>
     gravity_resource_tracker_add t h ty = (None, t)"
  by (auto simp: gravity_resource_tracker_add_def GRAVITY_INVALID_HANDLE_def)

lemma add_None:
  "fst (gravity_resource_tracker_add t h ty) = None \<Longrightarrow> snd (gravity_resource_tracker_add t h ty) = t"
  by (auto simp: gravity_resource_tracker_add_def Let_def split: if_splits)

lemma add_taken:
  assumes "trk_inv t (i # fl)" "h \<noteq> 0" "gravity_resource_tracker_get t h = None"
  shows "gravity_resource_tracker_add t h ty =
     (Some i, t\<lparr>rt_free_head := re_ref_count (rt_entries t i),
                rt_entries := (rt_entries t)(i := new_entry h ty),
                rt_hash_table := probe_insert (rt_hash_table t) (of_nat i) (hash_handle h) 0,
                rt_entry_count := rt_entry_count t + 1\<rparr>)"
proof -
  have i: "i < 65536" "rt_free_head t = of_nat i" using trk_invD(1) [OF assms(1)] by auto
  have "rt_free_head t \<noteq> UINT32_MAX" unfolding i(2) by (rule of_nat_max) (rule i(1))
  then show ?thesis
    using assms(2,3) i unat_small [OF i(1)]
    by (simp add: gravity_resource_tracker_add_def GRAVITY_INVALID_HANDLE_def Let_def new_entry_def)
qed

lemma add_inv:
  assumes "trk_inv t (i # fl)" "h \<noteq> 0" "gravity_resource_tracker_get t h = None"
  shows "trk_inv (snd (gravity_resource_tracker_add t h ty)) fl"
    and "live (snd (gravity_resource_tracker_add t h ty)) = insert i (live t)" "i \<notin> live t"
proof -
  let ?t = "snd (gravity_resource_tracker_add t h ty)"
  note inv = trk_invD [OF assms(1)]
  have i: "i < 65536" "i \<notin> live t" "i \<notin> set fl" using inv(1-3) by auto
  show l: "live ?t = insert i (live t)"
    using i by (auto simp: add_taken [OF assms] live_def)
  show "i \<notin> live t" by (rule i)
  have c: "free_chain (rt_entries ?t) (rt_free_head ?t) fl"
    using inv(1) i by (simp add: add_taken [OF assms] free_chain_upd)
  have f: "set fl = {..<65536} - live ?t" using inv(2,3) i l by auto
  have ent: "rt_entries ?t = (rt_entries t)(i := new_entry h ty)" by (simp add: add_taken [OF assms])
  obtain idx :: u32 where idx: "idx = of_nat i" "idx \<noteq> UINT32_MAX" "unat idx = i"
    using of_nat_max [OF i(1)] unat_small [OF i(1)] by blast
  have other: "s < 4096 \<Longrightarrow> rt_hash_table t s \<noteq> UINT32_MAX \<Longrightarrow> rt_hash_table t s = idx \<Longrightarrow> False" for s
    using inv(4) [of s] i(2) idx(3) by simp
  have tab: "rt_hash_table ?t = probe_insert (rt_hash_table t) idx (hash_handle h) 0"
    by (simp add: add_taken [OF assms] idx(1))
  have "(\<forall>s<4096. rt_hash_table ?t s \<noteq> UINT32_MAX \<longrightarrow> unat (rt_hash_table ?t s) \<in> live ?t) \<and>
        inj_on (rt_hash_table ?t) {s. s < 4096 \<and> rt_hash_table ?t s \<noteq> UINT32_MAX}"
  proof (cases rule: probe_insert_cases [of "rt_hash_table t" idx h])
    case full
    then show ?thesis using inv(4,5) l unfolding tab by simp
  next
    case (slot q)
    have "inj_on (rt_hash_table ?t) {s. s < 4096 \<and> rt_hash_table ?t s \<noteq> UINT32_MAX}"
      unfolding tab slot(4) by (rule inj_table_insert [OF inv(5)]) (rule other)
    then show ?thesis
      using inv(4) l idx(3) unfolding tab slot(4) by simp
  qed
  moreover have "\<forall>j\<in>live ?t. re_handle (rt_entries ?t j) \<noteq> 0"
    using inv(6) assms(2) l ent by auto
  moreover have "rt_entry_count ?t = of_nat (card (live ?t))"
    using inv(7) l i by (simp add: add_taken [OF assms])
  ultimately show "trk_inv ?t fl" using c f inv(2) by (simp add: trk_inv_def)
qed

lemma free_head_cases:
  assumes "trk_inv t fl"
  obtains "fl = []" "rt_free_head t = UINT32_MAX" "live t = {..<65536}"
  | i fl' where "fl = i # fl'"
  using trk_invD(1,3) [OF assms] by (cases fl) (auto simp: live_def)

lemma add_ok:
  assumes "trk_ok t"
  shows "trk_ok (snd (gravity_resource_tracker_add t h ty))"
proof -
  obtain fl where fl: "trk_inv t fl" using assms by (auto simp: trk_ok_def)
  show ?thesis
  proof (cases "h = 0 \<or> gravity_resource_tracker_get t h \<noteq> None")
    case True
    then show ?thesis using add_refused assms by (metis snd_conv)
  next
    case False
    show ?thesis
    proof (cases rule: free_head_cases [OF fl])
      case 1
      then show ?thesis using add_refused [of h t ty] assms by simp
    next
      case (2 i fl')
      then show ?thesis using add_inv(1) [of t i fl' h ty] fl False by (auto simp: trk_ok_def)
    qed
  qed
qed

section \<open>Removing\<close>

lemma remove_nothing:
  "gravity_resource_tracker_get t h = None \<Longrightarrow> gravity_resource_tracker_remove t h = t"
  by (auto simp: gravity_resource_tracker_get_def gravity_resource_tracker_remove_def split: option.splits if_splits)

lemma remove_found:
  assumes "h \<noteq> 0" "reaches t h s"
  shows "gravity_resource_tracker_remove t h =
    (let i = unat (rt_hash_table t s)
     in t\<lparr>rt_entries := (rt_entries t)
            (i := (rt_entries t i)\<lparr>re_in_use := False, re_handle := 0, re_ref_count := rt_free_head t\<rparr>),
          rt_free_head := rt_hash_table t s,
          rt_hash_table := (rt_hash_table t)(s := UINT32_MAX),
          rt_entry_count := rt_entry_count t - 1\<rparr>)"
  using assms probe_handle_reaches [of t h s]
  by (simp add: gravity_resource_tracker_remove_def GRAVITY_INVALID_HANDLE_def Let_def)

lemma reaches_slot: "reaches t h s \<Longrightarrow> s < 4096 \<and> rt_hash_table t s \<noteq> UINT32_MAX \<and> hit t h s"
  by (auto simp: reaches_def hit_def)

lemma remove_inv:
  assumes "trk_inv t fl" "h \<noteq> 0" "reaches t h s"
  shows "trk_inv (gravity_resource_tracker_remove t h) (unat (rt_hash_table t s) # fl)"
    and "live (gravity_resource_tracker_remove t h) = live t - {unat (rt_hash_table t s)}"
proof -
  let ?t = "gravity_resource_tracker_remove t h" and ?i = "unat (rt_hash_table t s)"
  note inv = trk_invD [OF assms(1)] and r = remove_found [OF assms(2,3), unfolded Let_def]
  have s: "s < 4096" "rt_hash_table t s \<noteq> UINT32_MAX" using reaches_slot [OF assms(3)] by auto
  have i: "?i \<in> live t" "?i < 65536" using inv(4) [OF s] by (auto simp: live_def)
  show l: "live ?t = live t - {?i}" by (auto simp: r live_def)
  have c: "free_chain (rt_entries ?t) (rt_free_head ?t) (?i # fl)"
    using inv(1,3) i by (simp add: r free_chain_upd)
  have f: "set (?i # fl) = {..<65536} - live ?t" "distinct (?i # fl)"
    using inv(2,3) i l by auto
  have ne: "rt_hash_table t s' \<noteq> rt_hash_table t s" if "s' < 4096" "s' \<noteq> s" "rt_hash_table t s' \<noteq> UINT32_MAX" for s'
    using inv(5) s that by (auto simp: inj_on_def)
  have "\<forall>s'<4096. rt_hash_table ?t s' \<noteq> UINT32_MAX \<longrightarrow> unat (rt_hash_table ?t s') \<in> live ?t"
  proof (intro allI impI)
    fix s'
    assume a: "s' < 4096" "rt_hash_table ?t s' \<noteq> UINT32_MAX"
    then have b: "s' \<noteq> s" "rt_hash_table t s' \<noteq> UINT32_MAX" by (auto simp: r split: if_splits)
    have "unat (rt_hash_table t s') \<noteq> ?i"
      using ne [OF a(1) b] by (metis word_unat_eq_iff)
    then show "unat (rt_hash_table ?t s') \<in> live ?t"
      using inv(4) [OF a(1) b(2)] b(1) l by (simp add: r)
  qed
  moreover have "inj_on (rt_hash_table ?t) {s'. s' < 4096 \<and> rt_hash_table ?t s' \<noteq> UINT32_MAX}"
    using inv(5) by (auto simp: r inj_on_def)
  moreover have "\<forall>j\<in>live ?t. re_handle (rt_entries ?t j) \<noteq> 0"
    using inv(6) l by (auto simp: r)
  moreover have "rt_entry_count ?t = of_nat (card (live ?t))"
  proof -
    have "card (live t) = Suc (card (live ?t))"
      unfolding l by (rule card_Suc_Diff1 [OF live_finite i(1), symmetric])
    moreover have "rt_entry_count ?t = rt_entry_count t - 1" by (simp add: r)
    ultimately show ?thesis using inv(7) by simp
  qed
  ultimately show "trk_inv ?t (?i # fl)" using c f unfolding trk_inv_def by blast
qed

lemma remove_ok: "trk_ok t \<Longrightarrow> trk_ok (gravity_resource_tracker_remove t h)"
proof (cases "gravity_resource_tracker_get t h")
  case (Some i)
  assume "trk_ok t"
  with Some show ?thesis using remove_inv(1) [of t _ h] by (auto simp: trk_ok_def get_Some)
qed (simp add: remove_nothing)

end
