(* ===== verification/Gravity_Formats.thy ===== *)
theory Gravity_Formats
  imports Gravity_Protocol
begin

text \<open>
  The Metal to Vulkan mapping tables of \<^verbatim>\<open>protocol/src/gravity_formats.c\<close>.  Enumeration
  arguments arrive from the wire as 32-bit values, so the conversions take the value and compare
  it with the values of the enumerators; results are the raw values the code returns.
\<close>

section \<open>Vulkan format values\<close>

datatype gravity_vk_format =
    GVK_FORMAT_UNDEFINED
  | GVK_FORMAT_R8_UNORM
  | GVK_FORMAT_R8_SNORM
  | GVK_FORMAT_R8_UINT
  | GVK_FORMAT_R16_UINT
  | GVK_FORMAT_R16_SFLOAT
  | GVK_FORMAT_R8G8_UNORM
  | GVK_FORMAT_R8G8_SNORM
  | GVK_FORMAT_R32_UINT
  | GVK_FORMAT_R32_SFLOAT
  | GVK_FORMAT_R16G16_UINT
  | GVK_FORMAT_R16G16_SFLOAT
  | GVK_FORMAT_R8G8B8A8_UNORM
  | GVK_FORMAT_R8G8B8A8_SRGB
  | GVK_FORMAT_R8G8B8A8_SNORM
  | GVK_FORMAT_R8G8B8A8_UINT
  | GVK_FORMAT_B8G8R8A8_UNORM
  | GVK_FORMAT_B8G8R8A8_SRGB
  | GVK_FORMAT_A2B10G10R10_UNORM_PACK32
  | GVK_FORMAT_R32G32_UINT
  | GVK_FORMAT_R32G32_SFLOAT
  | GVK_FORMAT_R16G16B16A16_UINT
  | GVK_FORMAT_R16G16B16A16_SFLOAT
  | GVK_FORMAT_R32G32B32A32_UINT
  | GVK_FORMAT_R32G32B32A32_SFLOAT
  | GVK_FORMAT_D16_UNORM
  | GVK_FORMAT_D32_SFLOAT
  | GVK_FORMAT_S8_UINT
  | GVK_FORMAT_D24_UNORM_S8_UINT
  | GVK_FORMAT_D32_SFLOAT_S8_UINT
  | GVK_FORMAT_A8_UNORM
  | GVK_FORMAT_R32_SFLOAT_V
  | GVK_FORMAT_R32G32_SFLOAT_V
  | GVK_FORMAT_R32G32B32_SFLOAT
  | GVK_FORMAT_R32G32B32A32_SFLOAT_V
  | GVK_FORMAT_R8G8B8A8_UNORM_V
  | GVK_FORMAT_R16G16_SINT
  | GVK_FORMAT_R16G16B16A16_SINT
  | GVK_FORMAT_R16G16_SFLOAT_V
  | GVK_FORMAT_R16G16B16A16_SFLOAT_V
  | GVK_FORMAT_R32_SINT
  | GVK_FORMAT_R32G32_SINT
  | GVK_FORMAT_R32G32B32_SINT
  | GVK_FORMAT_R32G32B32A32_SINT
  | GVK_FORMAT_R32_UINT_V

primrec gravity_vk_format_val :: "gravity_vk_format \<Rightarrow> u32" where
    "gravity_vk_format_val GVK_FORMAT_UNDEFINED = 0"
  | "gravity_vk_format_val GVK_FORMAT_R8_UNORM = 9"
  | "gravity_vk_format_val GVK_FORMAT_R8_SNORM = 10"
  | "gravity_vk_format_val GVK_FORMAT_R8_UINT = 13"
  | "gravity_vk_format_val GVK_FORMAT_R16_UINT = 74"
  | "gravity_vk_format_val GVK_FORMAT_R16_SFLOAT = 76"
  | "gravity_vk_format_val GVK_FORMAT_R8G8_UNORM = 16"
  | "gravity_vk_format_val GVK_FORMAT_R8G8_SNORM = 17"
  | "gravity_vk_format_val GVK_FORMAT_R32_UINT = 98"
  | "gravity_vk_format_val GVK_FORMAT_R32_SFLOAT = 100"
  | "gravity_vk_format_val GVK_FORMAT_R16G16_UINT = 81"
  | "gravity_vk_format_val GVK_FORMAT_R16G16_SFLOAT = 83"
  | "gravity_vk_format_val GVK_FORMAT_R8G8B8A8_UNORM = 37"
  | "gravity_vk_format_val GVK_FORMAT_R8G8B8A8_SRGB = 43"
  | "gravity_vk_format_val GVK_FORMAT_R8G8B8A8_SNORM = 38"
  | "gravity_vk_format_val GVK_FORMAT_R8G8B8A8_UINT = 41"
  | "gravity_vk_format_val GVK_FORMAT_B8G8R8A8_UNORM = 44"
  | "gravity_vk_format_val GVK_FORMAT_B8G8R8A8_SRGB = 50"
  | "gravity_vk_format_val GVK_FORMAT_A2B10G10R10_UNORM_PACK32 = 64"
  | "gravity_vk_format_val GVK_FORMAT_R32G32_UINT = 101"
  | "gravity_vk_format_val GVK_FORMAT_R32G32_SFLOAT = 103"
  | "gravity_vk_format_val GVK_FORMAT_R16G16B16A16_UINT = 95"
  | "gravity_vk_format_val GVK_FORMAT_R16G16B16A16_SFLOAT = 97"
  | "gravity_vk_format_val GVK_FORMAT_R32G32B32A32_UINT = 107"
  | "gravity_vk_format_val GVK_FORMAT_R32G32B32A32_SFLOAT = 109"
  | "gravity_vk_format_val GVK_FORMAT_D16_UNORM = 124"
  | "gravity_vk_format_val GVK_FORMAT_D32_SFLOAT = 126"
  | "gravity_vk_format_val GVK_FORMAT_S8_UINT = 127"
  | "gravity_vk_format_val GVK_FORMAT_D24_UNORM_S8_UINT = 129"
  | "gravity_vk_format_val GVK_FORMAT_D32_SFLOAT_S8_UINT = 130"
  | "gravity_vk_format_val GVK_FORMAT_A8_UNORM = 1000470000"
  | "gravity_vk_format_val GVK_FORMAT_R32_SFLOAT_V = 100"
  | "gravity_vk_format_val GVK_FORMAT_R32G32_SFLOAT_V = 103"
  | "gravity_vk_format_val GVK_FORMAT_R32G32B32_SFLOAT = 106"
  | "gravity_vk_format_val GVK_FORMAT_R32G32B32A32_SFLOAT_V = 109"
  | "gravity_vk_format_val GVK_FORMAT_R8G8B8A8_UNORM_V = 37"
  | "gravity_vk_format_val GVK_FORMAT_R16G16_SINT = 82"
  | "gravity_vk_format_val GVK_FORMAT_R16G16B16A16_SINT = 96"
  | "gravity_vk_format_val GVK_FORMAT_R16G16_SFLOAT_V = 83"
  | "gravity_vk_format_val GVK_FORMAT_R16G16B16A16_SFLOAT_V = 97"
  | "gravity_vk_format_val GVK_FORMAT_R32_SINT = 99"
  | "gravity_vk_format_val GVK_FORMAT_R32G32_SINT = 102"
  | "gravity_vk_format_val GVK_FORMAT_R32G32B32_SINT = 105"
  | "gravity_vk_format_val GVK_FORMAT_R32G32B32A32_SINT = 108"
  | "gravity_vk_format_val GVK_FORMAT_R32_UINT_V = 98"

section \<open>Pixel formats\<close>

record gravity_format_entry =
  fe_metal_format :: u32
  fe_vk_format :: u32
  fe_name :: string
  fe_bytes_per_pixel :: u32

definition pixel_format_table :: "gravity_format_entry list" where
  "pixel_format_table = map (\<lambda>(mf, vf, n, b).
       \<lparr>fe_metal_format = gravity_pixel_format_val mf, fe_vk_format = gravity_vk_format_val vf,
        fe_name = n, fe_bytes_per_pixel = b\<rparr>)
     [
      (GRAVITY_PIXEL_FORMAT_A8_UNORM, GVK_FORMAT_A8_UNORM, ''A8Unorm'', 1),
      (GRAVITY_PIXEL_FORMAT_R8_UNORM, GVK_FORMAT_R8_UNORM, ''R8Unorm'', 1),
      (GRAVITY_PIXEL_FORMAT_R8_SNORM, GVK_FORMAT_R8_SNORM, ''R8Snorm'', 1),
      (GRAVITY_PIXEL_FORMAT_R8_UINT, GVK_FORMAT_R8_UINT, ''R8Uint'', 1),
      (GRAVITY_PIXEL_FORMAT_R16_UINT, GVK_FORMAT_R16_UINT, ''R16Uint'', 2),
      (GRAVITY_PIXEL_FORMAT_R16_FLOAT, GVK_FORMAT_R16_SFLOAT, ''R16Float'', 2),
      (GRAVITY_PIXEL_FORMAT_RG8_UNORM, GVK_FORMAT_R8G8_UNORM, ''RG8Unorm'', 2),
      (GRAVITY_PIXEL_FORMAT_RG8_SNORM, GVK_FORMAT_R8G8_SNORM, ''RG8Snorm'', 2),
      (GRAVITY_PIXEL_FORMAT_R32_UINT, GVK_FORMAT_R32_UINT, ''R32Uint'', 4),
      (GRAVITY_PIXEL_FORMAT_R32_FLOAT, GVK_FORMAT_R32_SFLOAT, ''R32Float'', 4),
      (GRAVITY_PIXEL_FORMAT_RG16_UINT, GVK_FORMAT_R16G16_UINT, ''RG16Uint'', 4),
      (GRAVITY_PIXEL_FORMAT_RG16_FLOAT, GVK_FORMAT_R16G16_SFLOAT, ''RG16Float'', 4),
      (GRAVITY_PIXEL_FORMAT_RGBA8_UNORM, GVK_FORMAT_R8G8B8A8_UNORM, ''RGBA8Unorm'', 4),
      (GRAVITY_PIXEL_FORMAT_RGBA8_UNORM_SRGB, GVK_FORMAT_R8G8B8A8_SRGB, ''RGBA8Unorm_sRGB'', 4),
      (GRAVITY_PIXEL_FORMAT_RGBA8_SNORM, GVK_FORMAT_R8G8B8A8_SNORM, ''RGBA8Snorm'', 4),
      (GRAVITY_PIXEL_FORMAT_RGBA8_UINT, GVK_FORMAT_R8G8B8A8_UINT, ''RGBA8Uint'', 4),
      (GRAVITY_PIXEL_FORMAT_BGRA8_UNORM, GVK_FORMAT_B8G8R8A8_UNORM, ''BGRA8Unorm'', 4),
      (GRAVITY_PIXEL_FORMAT_BGRA8_UNORM_SRGB, GVK_FORMAT_B8G8R8A8_SRGB, ''BGRA8Unorm_sRGB'', 4),
      (GRAVITY_PIXEL_FORMAT_RGB10A2_UNORM, GVK_FORMAT_A2B10G10R10_UNORM_PACK32, ''RGB10A2Unorm'', 4),
      (GRAVITY_PIXEL_FORMAT_RG32_UINT, GVK_FORMAT_R32G32_UINT, ''RG32Uint'', 8),
      (GRAVITY_PIXEL_FORMAT_RG32_FLOAT, GVK_FORMAT_R32G32_SFLOAT, ''RG32Float'', 8),
      (GRAVITY_PIXEL_FORMAT_RGBA16_UINT, GVK_FORMAT_R16G16B16A16_UINT, ''RGBA16Uint'', 8),
      (GRAVITY_PIXEL_FORMAT_RGBA16_FLOAT, GVK_FORMAT_R16G16B16A16_SFLOAT, ''RGBA16Float'', 8),
      (GRAVITY_PIXEL_FORMAT_RGBA32_UINT, GVK_FORMAT_R32G32B32A32_UINT, ''RGBA32Uint'', 16),
      (GRAVITY_PIXEL_FORMAT_RGBA32_FLOAT, GVK_FORMAT_R32G32B32A32_SFLOAT, ''RGBA32Float'', 16),
      (GRAVITY_PIXEL_FORMAT_DEPTH16_UNORM, GVK_FORMAT_D16_UNORM, ''Depth16Unorm'', 2),
      (GRAVITY_PIXEL_FORMAT_DEPTH32_FLOAT, GVK_FORMAT_D32_SFLOAT, ''Depth32Float'', 4),
      (GRAVITY_PIXEL_FORMAT_STENCIL8, GVK_FORMAT_S8_UINT, ''Stencil8'', 1),
      (GRAVITY_PIXEL_FORMAT_DEPTH24_STENCIL8, GVK_FORMAT_D24_UNORM_S8_UINT, ''Depth24Unorm_Stencil8'', 4),
      (GRAVITY_PIXEL_FORMAT_DEPTH32_FLOAT_STENCIL8, GVK_FORMAT_D32_SFLOAT_S8_UINT, ''Depth32Float_Stencil8'', 5)]"

definition gravity_get_pixel_format_table :: "u32 \<times> gravity_format_entry list" where
  "gravity_get_pixel_format_table = (of_nat (length pixel_format_table), pixel_format_table)"

text \<open>The search loop of both lookups: the first entry whose Metal format matches.\<close>

primrec find_pixel_format :: "gravity_format_entry list \<Rightarrow> u32 \<Rightarrow> gravity_format_entry option" where
  "find_pixel_format [] fmt = None"
| "find_pixel_format (e # es) fmt = (if fe_metal_format e = fmt then Some e else find_pixel_format es fmt)"

definition gravity_metal_to_vk_pixel_format :: "u32 \<Rightarrow> u32" where
  "gravity_metal_to_vk_pixel_format metal_fmt =
     (case find_pixel_format pixel_format_table metal_fmt of
        Some e \<Rightarrow> fe_vk_format e | None \<Rightarrow> gravity_vk_format_val GVK_FORMAT_UNDEFINED)"

definition gravity_pixel_format_bpp :: "u32 \<Rightarrow> u32" where
  "gravity_pixel_format_bpp fmt =
     (case find_pixel_format pixel_format_table fmt of Some e \<Rightarrow> fe_bytes_per_pixel e | None \<Rightarrow> 0)"

definition gravity_pixel_format_is_depth_stencil :: "u32 \<Rightarrow> bool" where
  "gravity_pixel_format_is_depth_stencil fmt \<longleftrightarrow>
     gravity_pixel_format_val GRAVITY_PIXEL_FORMAT_DEPTH16_UNORM \<le> fmt \<and>
     fmt \<le> gravity_pixel_format_val GRAVITY_PIXEL_FORMAT_DEPTH32_FLOAT_STENCIL8"

section \<open>Vertex formats\<close>

record vertex_format_entry =
  ve_metal_fmt :: u32
  ve_vk_fmt :: u32
  ve_size_bytes :: u32

definition vertex_format_table :: "vertex_format_entry list" where
  "vertex_format_table = map (\<lambda>(mf, vf, n).
       \<lparr>ve_metal_fmt = gravity_vertex_format_val mf, ve_vk_fmt = gravity_vk_format_val vf,
        ve_size_bytes = n\<rparr>)
     [
      (GRAVITY_VERTEX_FORMAT_FLOAT, GVK_FORMAT_R32_SFLOAT_V, 4),
      (GRAVITY_VERTEX_FORMAT_FLOAT2, GVK_FORMAT_R32G32_SFLOAT_V, 8),
      (GRAVITY_VERTEX_FORMAT_FLOAT3, GVK_FORMAT_R32G32B32_SFLOAT, 12),
      (GRAVITY_VERTEX_FORMAT_FLOAT4, GVK_FORMAT_R32G32B32A32_SFLOAT_V, 16),
      (GRAVITY_VERTEX_FORMAT_UCHAR4, GVK_FORMAT_R8G8B8A8_UINT, 4),
      (GRAVITY_VERTEX_FORMAT_UCHAR4_NORM, GVK_FORMAT_R8G8B8A8_UNORM_V, 4),
      (GRAVITY_VERTEX_FORMAT_SHORT2, GVK_FORMAT_R16G16_SINT, 4),
      (GRAVITY_VERTEX_FORMAT_SHORT4, GVK_FORMAT_R16G16B16A16_SINT, 8),
      (GRAVITY_VERTEX_FORMAT_HALF2, GVK_FORMAT_R16G16_SFLOAT_V, 4),
      (GRAVITY_VERTEX_FORMAT_HALF4, GVK_FORMAT_R16G16B16A16_SFLOAT_V, 8),
      (GRAVITY_VERTEX_FORMAT_INT, GVK_FORMAT_R32_SINT, 4),
      (GRAVITY_VERTEX_FORMAT_INT2, GVK_FORMAT_R32G32_SINT, 8),
      (GRAVITY_VERTEX_FORMAT_INT3, GVK_FORMAT_R32G32B32_SINT, 12),
      (GRAVITY_VERTEX_FORMAT_INT4, GVK_FORMAT_R32G32B32A32_SINT, 16),
      (GRAVITY_VERTEX_FORMAT_UINT, GVK_FORMAT_R32_UINT_V, 4)]"

primrec find_vertex_format :: "vertex_format_entry list \<Rightarrow> u32 \<Rightarrow> vertex_format_entry option" where
  "find_vertex_format [] fmt = None"
| "find_vertex_format (e # es) fmt = (if ve_metal_fmt e = fmt then Some e else find_vertex_format es fmt)"

definition gravity_metal_to_vk_vertex_format :: "u32 \<Rightarrow> u32" where
  "gravity_metal_to_vk_vertex_format metal_fmt =
     (case find_vertex_format vertex_format_table metal_fmt of
        Some e \<Rightarrow> ve_vk_fmt e | None \<Rightarrow> gravity_vk_format_val GVK_FORMAT_UNDEFINED)"

definition gravity_vertex_format_size :: "u32 \<Rightarrow> u32" where
  "gravity_vertex_format_size fmt =
     (case find_vertex_format vertex_format_table fmt of Some e \<Rightarrow> ve_size_bytes e | None \<Rightarrow> 0)"

section \<open>Enumeration conversions\<close>

definition gravity_to_vk_primitive_topology :: "u32 \<Rightarrow> u32" where
  "gravity_to_vk_primitive_topology prim =
     (if prim = gravity_primitive_type_val GRAVITY_PRIMITIVE_POINT then 0
      else if prim = gravity_primitive_type_val GRAVITY_PRIMITIVE_LINE then 1
      else if prim = gravity_primitive_type_val GRAVITY_PRIMITIVE_LINE_STRIP then 2
      else if prim = gravity_primitive_type_val GRAVITY_PRIMITIVE_TRIANGLE then 3
      else if prim = gravity_primitive_type_val GRAVITY_PRIMITIVE_TRIANGLE_STRIP then 4
      else 3)"

definition gravity_to_vk_index_type :: "u32 \<Rightarrow> u32" where
  "gravity_to_vk_index_type idx =
     (if idx = gravity_index_type_val GRAVITY_INDEX_UINT16 then 0
      else if idx = gravity_index_type_val GRAVITY_INDEX_UINT32 then 1
      else 1)"

definition gravity_to_vk_cull_mode :: "u32 \<Rightarrow> u32" where
  "gravity_to_vk_cull_mode mode =
     (if mode = gravity_cull_mode_val GRAVITY_CULL_NONE then 0
      else if mode = gravity_cull_mode_val GRAVITY_CULL_FRONT then 1
      else if mode = gravity_cull_mode_val GRAVITY_CULL_BACK then 2
      else 0)"

definition gravity_to_vk_front_face :: "u32 \<Rightarrow> u32" where
  "gravity_to_vk_front_face winding =
     (if winding = gravity_winding_val GRAVITY_WINDING_CW then 0
      else if winding = gravity_winding_val GRAVITY_WINDING_CCW then 1
      else 0)"

definition gravity_to_vk_compare_op :: "u32 \<Rightarrow> u32" where
  "gravity_to_vk_compare_op func = func"

definition gravity_to_vk_blend_factor :: "u32 \<Rightarrow> u32" where
  "gravity_to_vk_blend_factor factor =
     (if factor = gravity_blend_factor_val GRAVITY_BLEND_ZERO then 0
      else if factor = gravity_blend_factor_val GRAVITY_BLEND_ONE then 1
      else if factor = gravity_blend_factor_val GRAVITY_BLEND_SRC_COLOR then 2
      else if factor = gravity_blend_factor_val GRAVITY_BLEND_ONE_MINUS_SRC_COLOR then 3
      else if factor = gravity_blend_factor_val GRAVITY_BLEND_DST_COLOR then 4
      else if factor = gravity_blend_factor_val GRAVITY_BLEND_ONE_MINUS_DST_COLOR then 5
      else if factor = gravity_blend_factor_val GRAVITY_BLEND_SRC_ALPHA then 6
      else if factor = gravity_blend_factor_val GRAVITY_BLEND_ONE_MINUS_SRC_ALPHA then 7
      else if factor = gravity_blend_factor_val GRAVITY_BLEND_DST_ALPHA then 8
      else if factor = gravity_blend_factor_val GRAVITY_BLEND_ONE_MINUS_DST_ALPHA then 9
      else if factor = gravity_blend_factor_val GRAVITY_BLEND_BLEND_COLOR then 12
      else if factor = gravity_blend_factor_val GRAVITY_BLEND_ONE_MINUS_BLEND_COLOR then 13
      else if factor = gravity_blend_factor_val GRAVITY_BLEND_BLEND_ALPHA then 14
      else if factor = gravity_blend_factor_val GRAVITY_BLEND_ONE_MINUS_BLEND_ALPHA then 15
      else if factor = gravity_blend_factor_val GRAVITY_BLEND_SRC_ALPHA_SATURATED then 10
      else 0)"

definition gravity_to_vk_blend_op :: "u32 \<Rightarrow> u32" where
  "gravity_to_vk_blend_op opr = opr"

definition gravity_to_vk_stencil_op :: "u32 \<Rightarrow> u32" where
  "gravity_to_vk_stencil_op opr = opr"

definition gravity_to_vk_load_op :: "u32 \<Rightarrow> u32" where
  "gravity_to_vk_load_op action =
     (if action = gravity_load_action_val GRAVITY_LOAD_LOAD then 0
      else if action = gravity_load_action_val GRAVITY_LOAD_CLEAR then 1
      else if action = gravity_load_action_val GRAVITY_LOAD_DONT_CARE then 2
      else 2)"

definition gravity_to_vk_store_op :: "u32 \<Rightarrow> u32" where
  "gravity_to_vk_store_op action =
     (if action = gravity_store_action_val GRAVITY_STORE_STORE then 0
      else if action = gravity_store_action_val GRAVITY_STORE_DONT_CARE then 1
      else 0)"

definition gravity_to_vk_address_mode :: "u32 \<Rightarrow> u32" where
  "gravity_to_vk_address_mode mode =
     (if mode = gravity_sampler_address_mode_val GRAVITY_ADDRESS_REPEAT then 0
      else if mode = gravity_sampler_address_mode_val GRAVITY_ADDRESS_MIRROR_REPEAT then 1
      else if mode = gravity_sampler_address_mode_val GRAVITY_ADDRESS_CLAMP_TO_EDGE then 2
      else if mode = gravity_sampler_address_mode_val GRAVITY_ADDRESS_CLAMP_TO_BORDER then 3
      else if mode = gravity_sampler_address_mode_val GRAVITY_ADDRESS_MIRROR_CLAMP then 4
      else if mode = gravity_sampler_address_mode_val GRAVITY_ADDRESS_CLAMP_TO_ZERO then 3
      else 2)"

definition gravity_to_vk_filter :: "u32 \<Rightarrow> u32" where
  "gravity_to_vk_filter filt =
     (if filt = gravity_sampler_min_mag_filter_val GRAVITY_FILTER_NEAREST then 0
      else if filt = gravity_sampler_min_mag_filter_val GRAVITY_FILTER_LINEAR then 1
      else 0)"

definition gravity_to_vk_mipmap_mode :: "u32 \<Rightarrow> u32" where
  "gravity_to_vk_mipmap_mode filt =
     (if filt = gravity_sampler_mip_filter_val GRAVITY_MIP_NOT_MIPMAPPED then 0
      else if filt = gravity_sampler_mip_filter_val GRAVITY_MIP_NEAREST then 0
      else if filt = gravity_sampler_mip_filter_val GRAVITY_MIP_LINEAR then 1
      else 0)"

definition gravity_to_vk_polygon_mode :: "u32 \<Rightarrow> u32" where
  "gravity_to_vk_polygon_mode mode =
     (if mode = gravity_triangle_fill_mode_val GRAVITY_FILL_FILL then 0
      else if mode = gravity_triangle_fill_mode_val GRAVITY_FILL_LINES then 1
      else 0)"

end
