(* ===== verification/Metal_To_Vulkan.thy ===== *)
theory Metal_To_Vulkan
  imports Gravity_Formats
begin

text \<open>
  The translation helpers of \<^verbatim>\<open>host-daemon/src/metal_to_vulkan.c\<close>.  The values of the Vulkan
  flag bits and enumerators are those the Vulkan specification fixes.
\<close>

section \<open>Vulkan constants\<close>

definition VK_IMAGE_USAGE_TRANSFER_SRC_BIT :: u32 where "VK_IMAGE_USAGE_TRANSFER_SRC_BIT = 0x1"
definition VK_IMAGE_USAGE_TRANSFER_DST_BIT :: u32 where "VK_IMAGE_USAGE_TRANSFER_DST_BIT = 0x2"
definition VK_IMAGE_USAGE_SAMPLED_BIT :: u32 where "VK_IMAGE_USAGE_SAMPLED_BIT = 0x4"
definition VK_IMAGE_USAGE_STORAGE_BIT :: u32 where "VK_IMAGE_USAGE_STORAGE_BIT = 0x8"
definition VK_IMAGE_USAGE_COLOR_ATTACHMENT_BIT :: u32 where "VK_IMAGE_USAGE_COLOR_ATTACHMENT_BIT = 0x10"
definition VK_IMAGE_USAGE_DEPTH_STENCIL_ATTACHMENT_BIT :: u32 where
  "VK_IMAGE_USAGE_DEPTH_STENCIL_ATTACHMENT_BIT = 0x20"

lemmas vk_usage_bits = VK_IMAGE_USAGE_TRANSFER_SRC_BIT_def VK_IMAGE_USAGE_TRANSFER_DST_BIT_def
  VK_IMAGE_USAGE_SAMPLED_BIT_def VK_IMAGE_USAGE_STORAGE_BIT_def
  VK_IMAGE_USAGE_COLOR_ATTACHMENT_BIT_def VK_IMAGE_USAGE_DEPTH_STENCIL_ATTACHMENT_BIT_def

definition VK_MEMORY_PROPERTY_DEVICE_LOCAL_BIT :: u32 where "VK_MEMORY_PROPERTY_DEVICE_LOCAL_BIT = 0x1"
definition VK_MEMORY_PROPERTY_HOST_VISIBLE_BIT :: u32 where "VK_MEMORY_PROPERTY_HOST_VISIBLE_BIT = 0x2"
definition VK_MEMORY_PROPERTY_HOST_COHERENT_BIT :: u32 where "VK_MEMORY_PROPERTY_HOST_COHERENT_BIT = 0x4"
definition VK_MEMORY_PROPERTY_HOST_CACHED_BIT :: u32 where "VK_MEMORY_PROPERTY_HOST_CACHED_BIT = 0x8"
definition VK_MEMORY_PROPERTY_LAZILY_ALLOCATED_BIT :: u32 where
  "VK_MEMORY_PROPERTY_LAZILY_ALLOCATED_BIT = 0x10"

lemmas vk_memory_bits = VK_MEMORY_PROPERTY_DEVICE_LOCAL_BIT_def VK_MEMORY_PROPERTY_HOST_VISIBLE_BIT_def
  VK_MEMORY_PROPERTY_HOST_COHERENT_BIT_def VK_MEMORY_PROPERTY_HOST_CACHED_BIT_def
  VK_MEMORY_PROPERTY_LAZILY_ALLOCATED_BIT_def

definition VK_IMAGE_ASPECT_COLOR_BIT :: u32 where "VK_IMAGE_ASPECT_COLOR_BIT = 0x1"
definition VK_IMAGE_ASPECT_DEPTH_BIT :: u32 where "VK_IMAGE_ASPECT_DEPTH_BIT = 0x2"
definition VK_IMAGE_ASPECT_STENCIL_BIT :: u32 where "VK_IMAGE_ASPECT_STENCIL_BIT = 0x4"

lemmas vk_aspect_bits = VK_IMAGE_ASPECT_COLOR_BIT_def VK_IMAGE_ASPECT_DEPTH_BIT_def
  VK_IMAGE_ASPECT_STENCIL_BIT_def

datatype VkImageType = VK_IMAGE_TYPE_1D | VK_IMAGE_TYPE_2D | VK_IMAGE_TYPE_3D

datatype VkImageViewType =
    VK_IMAGE_VIEW_TYPE_1D | VK_IMAGE_VIEW_TYPE_2D | VK_IMAGE_VIEW_TYPE_3D | VK_IMAGE_VIEW_TYPE_CUBE
  | VK_IMAGE_VIEW_TYPE_1D_ARRAY | VK_IMAGE_VIEW_TYPE_2D_ARRAY | VK_IMAGE_VIEW_TYPE_CUBE_ARRAY

section \<open>Translations\<close>

definition MTL_TEXTURE_USAGE_SHADER_READ :: u32 where "MTL_TEXTURE_USAGE_SHADER_READ = 0x01"
definition MTL_TEXTURE_USAGE_SHADER_WRITE :: u32 where "MTL_TEXTURE_USAGE_SHADER_WRITE = 0x02"
definition MTL_TEXTURE_USAGE_RENDER_TARGET :: u32 where "MTL_TEXTURE_USAGE_RENDER_TARGET = 0x04"

lemmas mtl_usage_bits = MTL_TEXTURE_USAGE_SHADER_READ_def MTL_TEXTURE_USAGE_SHADER_WRITE_def
  MTL_TEXTURE_USAGE_RENDER_TARGET_def

definition gravity_translate_texture_usage :: "u32 \<Rightarrow> u32 \<Rightarrow> u32" where
  "gravity_translate_texture_usage metal_usage format =
     (let usage = VK_IMAGE_USAGE_TRANSFER_SRC_BIT OR VK_IMAGE_USAGE_TRANSFER_DST_BIT;
          usage = (if metal_usage AND MTL_TEXTURE_USAGE_SHADER_READ \<noteq> 0
                   then usage OR VK_IMAGE_USAGE_SAMPLED_BIT else usage);
          usage = (if metal_usage AND MTL_TEXTURE_USAGE_SHADER_WRITE \<noteq> 0
                   then usage OR VK_IMAGE_USAGE_STORAGE_BIT else usage);
          usage = (if metal_usage AND MTL_TEXTURE_USAGE_RENDER_TARGET \<noteq> 0
                   then if gravity_pixel_format_is_depth_stencil format
                        then usage OR VK_IMAGE_USAGE_DEPTH_STENCIL_ATTACHMENT_BIT
                        else usage OR VK_IMAGE_USAGE_COLOR_ATTACHMENT_BIT
                   else usage)
      in if metal_usage = 0
         then usage OR (VK_IMAGE_USAGE_SAMPLED_BIT OR VK_IMAGE_USAGE_COLOR_ATTACHMENT_BIT)
         else usage)"

definition gravity_translate_storage_mode :: "u32 \<Rightarrow> u32" where
  "gravity_translate_storage_mode mode =
     (if mode = gravity_storage_mode_val GRAVITY_STORAGE_SHARED
      then VK_MEMORY_PROPERTY_HOST_VISIBLE_BIT OR VK_MEMORY_PROPERTY_HOST_COHERENT_BIT
      else if mode = gravity_storage_mode_val GRAVITY_STORAGE_MANAGED
      then VK_MEMORY_PROPERTY_HOST_VISIBLE_BIT OR VK_MEMORY_PROPERTY_HOST_CACHED_BIT
      else if mode = gravity_storage_mode_val GRAVITY_STORAGE_PRIVATE
      then VK_MEMORY_PROPERTY_DEVICE_LOCAL_BIT
      else if mode = gravity_storage_mode_val GRAVITY_STORAGE_MEMORYLESS
      then VK_MEMORY_PROPERTY_DEVICE_LOCAL_BIT OR VK_MEMORY_PROPERTY_LAZILY_ALLOCATED_BIT
      else VK_MEMORY_PROPERTY_DEVICE_LOCAL_BIT)"

definition gravity_translate_texture_type :: "u32 \<Rightarrow> VkImageType" where
  "gravity_translate_texture_type type =
     (if type = gravity_texture_type_val GRAVITY_TEXTURE_TYPE_1D \<or>
         type = gravity_texture_type_val GRAVITY_TEXTURE_TYPE_1D_ARRAY then VK_IMAGE_TYPE_1D
      else if type = gravity_texture_type_val GRAVITY_TEXTURE_TYPE_2D \<or>
              type = gravity_texture_type_val GRAVITY_TEXTURE_TYPE_2D_ARRAY \<or>
              type = gravity_texture_type_val GRAVITY_TEXTURE_TYPE_2D_MS \<or>
              type = gravity_texture_type_val GRAVITY_TEXTURE_TYPE_CUBE \<or>
              type = gravity_texture_type_val GRAVITY_TEXTURE_TYPE_CUBE_ARRAY then VK_IMAGE_TYPE_2D
      else if type = gravity_texture_type_val GRAVITY_TEXTURE_TYPE_3D then VK_IMAGE_TYPE_3D
      else VK_IMAGE_TYPE_2D)"

definition gravity_translate_image_view_type :: "u32 \<Rightarrow> VkImageViewType" where
  "gravity_translate_image_view_type type =
     (if type = gravity_texture_type_val GRAVITY_TEXTURE_TYPE_1D then VK_IMAGE_VIEW_TYPE_1D
      else if type = gravity_texture_type_val GRAVITY_TEXTURE_TYPE_1D_ARRAY then VK_IMAGE_VIEW_TYPE_1D_ARRAY
      else if type = gravity_texture_type_val GRAVITY_TEXTURE_TYPE_2D \<or>
              type = gravity_texture_type_val GRAVITY_TEXTURE_TYPE_2D_MS then VK_IMAGE_VIEW_TYPE_2D
      else if type = gravity_texture_type_val GRAVITY_TEXTURE_TYPE_2D_ARRAY then VK_IMAGE_VIEW_TYPE_2D_ARRAY
      else if type = gravity_texture_type_val GRAVITY_TEXTURE_TYPE_CUBE then VK_IMAGE_VIEW_TYPE_CUBE
      else if type = gravity_texture_type_val GRAVITY_TEXTURE_TYPE_CUBE_ARRAY then VK_IMAGE_VIEW_TYPE_CUBE_ARRAY
      else if type = gravity_texture_type_val GRAVITY_TEXTURE_TYPE_3D then VK_IMAGE_VIEW_TYPE_3D
      else VK_IMAGE_VIEW_TYPE_2D)"

definition gravity_get_aspect_flags :: "u32 \<Rightarrow> u32" where
  "gravity_get_aspect_flags format =
     (if format = gravity_vk_format_val GVK_FORMAT_D16_UNORM \<or>
         format = gravity_vk_format_val GVK_FORMAT_D32_SFLOAT then VK_IMAGE_ASPECT_DEPTH_BIT
      else if format = gravity_vk_format_val GVK_FORMAT_S8_UINT then VK_IMAGE_ASPECT_STENCIL_BIT
      else if format = gravity_vk_format_val GVK_FORMAT_D24_UNORM_S8_UINT \<or>
              format = gravity_vk_format_val GVK_FORMAT_D32_SFLOAT_S8_UINT
      then VK_IMAGE_ASPECT_DEPTH_BIT OR VK_IMAGE_ASPECT_STENCIL_BIT
      else VK_IMAGE_ASPECT_COLOR_BIT)"

section \<open>Lookups by enumerator\<close>

text \<open>The storage modes that \<^verbatim>\<open>create_buffer\<close> maps are the ones that ask for host-visible memory.\<close>

lemma storage_host_visible:
  "gravity_translate_storage_mode mode AND VK_MEMORY_PROPERTY_HOST_VISIBLE_BIT \<noteq> 0 \<longleftrightarrow>
     mode = gravity_storage_mode_val GRAVITY_STORAGE_SHARED \<or>
     mode = gravity_storage_mode_val GRAVITY_STORAGE_MANAGED"
  by (auto simp: gravity_translate_storage_mode_def vk_memory_bits)

lemma pixel_lookup:
  "f \<noteq> GRAVITY_PIXEL_FORMAT_INVALID \<Longrightarrow>
     \<exists>e. find_pixel_format pixel_format_table (gravity_pixel_format_val f) = Some e"
  by (cases f) (simp_all add: pixel_format_table_def)

text \<open>
  the pixel format table has one entry for each pixel format of the protocol but
  \<^verbatim>\<open>INVALID\<close>, no two of them with the same Metal or the same Vulkan format; so the conversion
  is defined on every valid format, never yields \<^verbatim>\<open>UNDEFINED\<close>, is injective, and comes with
  the format's non-zero size.
\<close>

lemma pixel_formats_complete:
  "fst gravity_get_pixel_format_table = 30 \<and>
   distinct (map fe_metal_format pixel_format_table) \<and> distinct (map fe_vk_format pixel_format_table) \<and>
   (gravity_metal_to_vk_pixel_format (gravity_pixel_format_val f) = gravity_vk_format_val GVK_FORMAT_UNDEFINED
      \<longleftrightarrow> f = GRAVITY_PIXEL_FORMAT_INVALID) \<and>
   (gravity_pixel_format_bpp (gravity_pixel_format_val f) = 0 \<longleftrightarrow> f = GRAVITY_PIXEL_FORMAT_INVALID)"
proof (intro conjI)
  show "fst gravity_get_pixel_format_table = 30"
    by (simp add: gravity_get_pixel_format_table_def pixel_format_table_def)
  show "distinct (map fe_metal_format pixel_format_table)" by (simp add: pixel_format_table_def)
  show "distinct (map fe_vk_format pixel_format_table)" by (simp add: pixel_format_table_def)
  show "gravity_metal_to_vk_pixel_format (gravity_pixel_format_val f) =
      gravity_vk_format_val GVK_FORMAT_UNDEFINED \<longleftrightarrow> f = GRAVITY_PIXEL_FORMAT_INVALID"
    by (cases f) (simp_all add: gravity_metal_to_vk_pixel_format_def pixel_format_table_def)
  show "gravity_pixel_format_bpp (gravity_pixel_format_val f) = 0 \<longleftrightarrow> f = GRAVITY_PIXEL_FORMAT_INVALID"
    by (cases f) (simp_all add: gravity_pixel_format_bpp_def pixel_format_table_def)
qed

text \<open>
  depth and stencil formats are treated alike on the three paths that ask: the range test,
  the image aspect of the converted format, and the attachment usage of a render target agree
  on every pixel format, and no image gets both attachment usages.
\<close>

lemma depth_stencil_consistent:
  "(gravity_pixel_format_is_depth_stencil (gravity_pixel_format_val f) \<longleftrightarrow>
      gravity_get_aspect_flags (gravity_metal_to_vk_pixel_format (gravity_pixel_format_val f)) AND
        VK_IMAGE_ASPECT_COLOR_BIT = 0) \<and>
   (gravity_translate_texture_usage u (gravity_pixel_format_val f) AND
        VK_IMAGE_USAGE_DEPTH_STENCIL_ATTACHMENT_BIT \<noteq> 0 \<longleftrightarrow>
      u AND MTL_TEXTURE_USAGE_RENDER_TARGET \<noteq> 0 \<and>
      gravity_get_aspect_flags (gravity_metal_to_vk_pixel_format (gravity_pixel_format_val f)) \<noteq>
        VK_IMAGE_ASPECT_COLOR_BIT) \<and>
   (gravity_translate_texture_usage u (gravity_pixel_format_val f) AND
        VK_IMAGE_USAGE_COLOR_ATTACHMENT_BIT \<noteq> 0 \<longleftrightarrow>
      u = 0 \<or> u AND MTL_TEXTURE_USAGE_RENDER_TARGET \<noteq> 0 \<and>
      gravity_get_aspect_flags (gravity_metal_to_vk_pixel_format (gravity_pixel_format_val f)) =
        VK_IMAGE_ASPECT_COLOR_BIT)"
proof -
  let ?v = "gravity_pixel_format_val f"
  let ?a = "gravity_get_aspect_flags (gravity_metal_to_vk_pixel_format ?v)"
  have 1: "gravity_pixel_format_is_depth_stencil ?v \<longleftrightarrow> ?a AND VK_IMAGE_ASPECT_COLOR_BIT = 0"
    by (cases f) (simp_all add: gravity_pixel_format_is_depth_stencil_def gravity_get_aspect_flags_def
        gravity_metal_to_vk_pixel_format_def pixel_format_table_def vk_aspect_bits
        word_le_nat_alt)
  have 2: "?a AND VK_IMAGE_ASPECT_COLOR_BIT = 0 \<longleftrightarrow> ?a \<noteq> VK_IMAGE_ASPECT_COLOR_BIT"
    by (auto simp: gravity_get_aspect_flags_def vk_aspect_bits)
  have 3: "gravity_translate_texture_usage u ?v AND VK_IMAGE_USAGE_DEPTH_STENCIL_ATTACHMENT_BIT \<noteq> 0 \<longleftrightarrow>
      u AND MTL_TEXTURE_USAGE_RENDER_TARGET \<noteq> 0 \<and> gravity_pixel_format_is_depth_stencil ?v"
    by (simp add: gravity_translate_texture_usage_def Let_def vk_usage_bits)
  have 4: "gravity_translate_texture_usage u ?v AND VK_IMAGE_USAGE_COLOR_ATTACHMENT_BIT \<noteq> 0 \<longleftrightarrow>
      u = 0 \<or> u AND MTL_TEXTURE_USAGE_RENDER_TARGET \<noteq> 0 \<and> \<not> gravity_pixel_format_is_depth_stencil ?v"
    by (simp add: gravity_translate_texture_usage_def Let_def vk_usage_bits)
  show ?thesis using 1 2 3 4 by blast
qed

text \<open>Components of a vertex format and the bytes of one component.\<close>

fun vertex_components :: "gravity_vertex_format \<Rightarrow> nat \<times> nat" where
  "vertex_components GRAVITY_VERTEX_FORMAT_INVALID = (0, 0)"
| "vertex_components GRAVITY_VERTEX_FORMAT_FLOAT = (1, 4)"
| "vertex_components GRAVITY_VERTEX_FORMAT_FLOAT2 = (2, 4)"
| "vertex_components GRAVITY_VERTEX_FORMAT_FLOAT3 = (3, 4)"
| "vertex_components GRAVITY_VERTEX_FORMAT_FLOAT4 = (4, 4)"
| "vertex_components GRAVITY_VERTEX_FORMAT_UCHAR4 = (4, 1)"
| "vertex_components GRAVITY_VERTEX_FORMAT_UCHAR4_NORM = (4, 1)"
| "vertex_components GRAVITY_VERTEX_FORMAT_SHORT2 = (2, 2)"
| "vertex_components GRAVITY_VERTEX_FORMAT_SHORT4 = (4, 2)"
| "vertex_components GRAVITY_VERTEX_FORMAT_HALF2 = (2, 2)"
| "vertex_components GRAVITY_VERTEX_FORMAT_HALF4 = (4, 2)"
| "vertex_components GRAVITY_VERTEX_FORMAT_INT = (1, 4)"
| "vertex_components GRAVITY_VERTEX_FORMAT_INT2 = (2, 4)"
| "vertex_components GRAVITY_VERTEX_FORMAT_INT3 = (3, 4)"
| "vertex_components GRAVITY_VERTEX_FORMAT_INT4 = (4, 4)"
| "vertex_components GRAVITY_VERTEX_FORMAT_UINT = (1, 4)"

text \<open>
  the vertex format table covers every vertex format but \<^verbatim>\<open>INVALID\<close>, with the size of
  its components (number of components times bytes of one).
\<close>

lemma vertex_formats_complete:
  "unat (gravity_vertex_format_size (gravity_vertex_format_val f)) =
     fst (vertex_components f) * snd (vertex_components f) \<and>
   (gravity_metal_to_vk_vertex_format (gravity_vertex_format_val f) =
      gravity_vk_format_val GVK_FORMAT_UNDEFINED \<longleftrightarrow> f = GRAVITY_VERTEX_FORMAT_INVALID)"
  by (cases f) (simp_all add: gravity_vertex_format_size_def gravity_metal_to_vk_vertex_format_def
      vertex_format_table_def)

section \<open>Blend factors\<close>

text \<open>The Vulkan enumerator of the same meaning, and the enumerators' values.\<close>

datatype VkBlendFactor =
    VK_BLEND_FACTOR_ZERO | VK_BLEND_FACTOR_ONE | VK_BLEND_FACTOR_SRC_COLOR
  | VK_BLEND_FACTOR_ONE_MINUS_SRC_COLOR | VK_BLEND_FACTOR_DST_COLOR
  | VK_BLEND_FACTOR_ONE_MINUS_DST_COLOR | VK_BLEND_FACTOR_SRC_ALPHA
  | VK_BLEND_FACTOR_ONE_MINUS_SRC_ALPHA | VK_BLEND_FACTOR_DST_ALPHA
  | VK_BLEND_FACTOR_ONE_MINUS_DST_ALPHA | VK_BLEND_FACTOR_CONSTANT_COLOR
  | VK_BLEND_FACTOR_ONE_MINUS_CONSTANT_COLOR | VK_BLEND_FACTOR_CONSTANT_ALPHA
  | VK_BLEND_FACTOR_ONE_MINUS_CONSTANT_ALPHA | VK_BLEND_FACTOR_SRC_ALPHA_SATURATE

primrec VkBlendFactor_val :: "VkBlendFactor \<Rightarrow> u32" where
    "VkBlendFactor_val VK_BLEND_FACTOR_ZERO = 0"
  | "VkBlendFactor_val VK_BLEND_FACTOR_ONE = 1"
  | "VkBlendFactor_val VK_BLEND_FACTOR_SRC_COLOR = 2"
  | "VkBlendFactor_val VK_BLEND_FACTOR_ONE_MINUS_SRC_COLOR = 3"
  | "VkBlendFactor_val VK_BLEND_FACTOR_DST_COLOR = 4"
  | "VkBlendFactor_val VK_BLEND_FACTOR_ONE_MINUS_DST_COLOR = 5"
  | "VkBlendFactor_val VK_BLEND_FACTOR_SRC_ALPHA = 6"
  | "VkBlendFactor_val VK_BLEND_FACTOR_ONE_MINUS_SRC_ALPHA = 7"
  | "VkBlendFactor_val VK_BLEND_FACTOR_DST_ALPHA = 8"
  | "VkBlendFactor_val VK_BLEND_FACTOR_ONE_MINUS_DST_ALPHA = 9"
  | "VkBlendFactor_val VK_BLEND_FACTOR_CONSTANT_COLOR = 10"
  | "VkBlendFactor_val VK_BLEND_FACTOR_ONE_MINUS_CONSTANT_COLOR = 11"
  | "VkBlendFactor_val VK_BLEND_FACTOR_CONSTANT_ALPHA = 12"
  | "VkBlendFactor_val VK_BLEND_FACTOR_ONE_MINUS_CONSTANT_ALPHA = 13"
  | "VkBlendFactor_val VK_BLEND_FACTOR_SRC_ALPHA_SATURATE = 14"

fun blend_meaning :: "gravity_blend_factor \<Rightarrow> VkBlendFactor" where
  "blend_meaning GRAVITY_BLEND_ZERO = VK_BLEND_FACTOR_ZERO"
| "blend_meaning GRAVITY_BLEND_ONE = VK_BLEND_FACTOR_ONE"
| "blend_meaning GRAVITY_BLEND_SRC_COLOR = VK_BLEND_FACTOR_SRC_COLOR"
| "blend_meaning GRAVITY_BLEND_ONE_MINUS_SRC_COLOR = VK_BLEND_FACTOR_ONE_MINUS_SRC_COLOR"
| "blend_meaning GRAVITY_BLEND_SRC_ALPHA = VK_BLEND_FACTOR_SRC_ALPHA"
| "blend_meaning GRAVITY_BLEND_ONE_MINUS_SRC_ALPHA = VK_BLEND_FACTOR_ONE_MINUS_SRC_ALPHA"
| "blend_meaning GRAVITY_BLEND_DST_COLOR = VK_BLEND_FACTOR_DST_COLOR"
| "blend_meaning GRAVITY_BLEND_ONE_MINUS_DST_COLOR = VK_BLEND_FACTOR_ONE_MINUS_DST_COLOR"
| "blend_meaning GRAVITY_BLEND_DST_ALPHA = VK_BLEND_FACTOR_DST_ALPHA"
| "blend_meaning GRAVITY_BLEND_ONE_MINUS_DST_ALPHA = VK_BLEND_FACTOR_ONE_MINUS_DST_ALPHA"
| "blend_meaning GRAVITY_BLEND_SRC_ALPHA_SATURATED = VK_BLEND_FACTOR_SRC_ALPHA_SATURATE"
| "blend_meaning GRAVITY_BLEND_BLEND_COLOR = VK_BLEND_FACTOR_CONSTANT_COLOR"
| "blend_meaning GRAVITY_BLEND_ONE_MINUS_BLEND_COLOR = VK_BLEND_FACTOR_ONE_MINUS_CONSTANT_COLOR"
| "blend_meaning GRAVITY_BLEND_BLEND_ALPHA = VK_BLEND_FACTOR_CONSTANT_ALPHA"
| "blend_meaning GRAVITY_BLEND_ONE_MINUS_BLEND_ALPHA = VK_BLEND_FACTOR_ONE_MINUS_CONSTANT_ALPHA"

text \<open>
  the blend factor conversion yields the Vulkan factor of the same meaning for the ten
  factors of source and destination, and a wrong one for the other five.
\<close>

lemma blend_factor_agreement:
  "gravity_to_vk_blend_factor (gravity_blend_factor_val f) = VkBlendFactor_val (blend_meaning f) \<longleftrightarrow>
     f \<notin> {GRAVITY_BLEND_BLEND_COLOR, GRAVITY_BLEND_ONE_MINUS_BLEND_COLOR, GRAVITY_BLEND_BLEND_ALPHA,
           GRAVITY_BLEND_ONE_MINUS_BLEND_ALPHA, GRAVITY_BLEND_SRC_ALPHA_SATURATED}"
  by (cases f) (simp_all add: gravity_to_vk_blend_factor_def)

end
