(* ===== verification/Vulkan_Api.thy ===== *)
theory Vulkan_Api
  imports Metal_To_Vulkan
begin

text \<open>
  Vulkan as the daemon sees it.  The driver is not part of the program, so it is a parameter
  \<open>V\<close> of every definition that calls it: a function from the calls made so far and the present
  call to the reply.  Nothing is assumed of it here; what a property needs is a hypothesis of
  that property.  The state of the program carries the calls made so far, in order, so that
  properties can speak of what the driver was told.  Handles and pointers are 64-bit words,
  \<^verbatim>\<open>VK_NULL_HANDLE\<close> is 0 and \<^verbatim>\<open>VK_SUCCESS\<close> is 0; floating-point fields are bit patterns.
\<close>

section \<open>Argument structures\<close>

record vk_image_info =
  ii_flags :: u32
  ii_type :: VkImageType
  ii_format :: u32
  ii_width :: u32
  ii_height :: u32
  ii_depth :: u32
  ii_mip_levels :: u32
  ii_array_layers :: u32
  ii_samples :: u32
  ii_usage :: u32

record vk_image_view_info =
  iv_image :: u64
  iv_type :: VkImageViewType
  iv_format :: u32
  iv_aspect :: u32
  iv_level_count :: u32
  iv_layer_count :: u32

record vk_sampler_info =
  si_mag_filter :: u32
  si_min_filter :: u32
  si_mipmap_mode :: u32
  si_address_u :: u32
  si_address_v :: u32
  si_address_w :: u32
  si_anisotropy_enable :: bool
  si_max_anisotropy :: u32
  si_compare_enable :: bool
  si_compare_op :: u32
  si_min_lod :: u32
  si_max_lod :: u32

record vk_color_attachment =
  ka_image_view :: u64
  ka_load_op :: u32
  ka_store_op :: u32
  ka_clear :: "u32 list"

record vk_depth_attachment =
  kd_image_view :: u64
  kd_load_op :: u32
  kd_store_op :: u32
  kd_clear_depth :: u32

record vk_image_barrier =
  ib_old_layout :: u32
  ib_new_layout :: u32
  ib_image :: u64
  ib_aspect :: u32
  ib_base_level :: u32
  ib_base_layer :: u32

record vk_rendering_info =
  ri_area :: "u32 \<times> u32 \<times> u32 \<times> u32"
  ri_color :: "vk_color_attachment list"
  ri_depth :: "vk_depth_attachment option"

section \<open>Calls\<close>

datatype (plugins only: size) vk_setup_call =
    vkCreateInstance bool
  | vkGetInstanceProcAddr u64 string
  | vkCreateDebugUtilsMessenger u64
  | vkDestroyDebugUtilsMessenger u64 u64
  | vkDestroyInstance u64
  | vkEnumeratePhysicalDevices u64 "u32 option"
  | vkGetPhysicalDeviceProperties u64
  | vkGetPhysicalDeviceMemoryProperties u64
  | vkGetPhysicalDeviceFeatures u64
  | vkGetPhysicalDeviceQueueFamilyProperties u64 "u32 option"
  | vkCreateDevice u64 "u32 list"
  | vkGetDeviceQueue u64 u32
  | vkCreateCommandPool u64 u32
  | vkCreatePipelineCache u64
  | vkCreateDescriptorPool u64
  | vkDeviceWaitIdle u64
  | vkDestroyDescriptorPool u64 u64
  | vkDestroyPipelineCache u64 u64
  | vkDestroyCommandPool u64 u64
  | vkDestroyDevice u64

datatype (plugins only: size) vk_res_call =
    vkCreateBuffer u64 u64 u32
  | vkGetBufferMemoryRequirements u64 u64
  | vkBindBufferMemory u64 u64 u64
  | vkDestroyBuffer u64 u64
  | vkAllocateMemory u64 u64 u32
  | vkMapMemory u64 u64 u64
  | vkFreeMemory u64 u64
  | vkCreateImage u64 vk_image_info
  | vkGetImageMemoryRequirements u64 u64
  | vkBindImageMemory u64 u64 u64
  | vkDestroyImage u64 u64
  | vkCreateImageView u64 vk_image_view_info
  | vkDestroyImageView u64 u64
  | vkCreateSampler u64 vk_sampler_info
  | vkDestroySampler u64 u64
  | vkCreateFence u64
  | vkDestroyFence u64 u64

datatype (plugins only: size) vk_cmd_call =
    vkAllocateCommandBuffers u64 u64
  | vkFreeCommandBuffers u64 u64 u64
  | vkBeginCommandBuffer u64
  | vkEndCommandBuffer u64
  | vkResetCommandBuffer u64
  | vkQueueSubmit u64 u64 u64
  | vkQueueWaitIdle u64
  | vkWaitForFences u64 u64
  | vkResetFences u64 u64
  | vkCmdPipelineBarrier u64 vk_image_barrier
  | vkCmdBeginRendering u64 vk_rendering_info
  | vkCmdEndRendering u64
  | vkCmdSetViewport u64 "u32 list"
  | vkCmdSetScissor u64 "u32 list"
  | vkCmdBindVertexBuffers u64 u32 u64 u64
  | vkCmdBindIndexBuffer u64 u64 u64 u32
  | vkCmdDraw u64 u32 u32 u32 u32
  | vkCmdDrawIndexed u64 u32

datatype vk_call = Setup vk_setup_call | Res vk_res_call | Cmd vk_cmd_call

section \<open>Replies\<close>

record vk_props =
  pp_vendorID :: u32
  pp_deviceType :: u32
  pp_deviceName :: string
  pp_apiVersion :: u32
  pp_maxImageDimension2D :: u32

text \<open>
  One record for every reply: the \<^verbatim>\<open>VkResult\<close>, the handle or pointer written through the
  output parameter, and the structures the query calls fill in.
\<close>

record vk_reply =
  vr_result :: int
  vr_out :: u64
  vr_count :: u32
  vr_handles :: "u64 list"
  vr_props :: vk_props
  vr_queue_flags :: "u32 list"
  vr_memory_types :: "u32 list"
  vr_size :: u64
  vr_type_bits :: u32

type_synonym vulkan = "vk_call list \<Rightarrow> vk_call \<Rightarrow> vk_reply"

definition vk_call :: "vulkan \<Rightarrow> vk_call list \<Rightarrow> vk_call \<Rightarrow> vk_reply \<times> vk_call list" where
  "vk_call V tr c = (V tr c, tr @ [c])"

text \<open>A call whose reply the code does not look at.\<close>

definition vk_tell :: "vk_call list \<Rightarrow> vk_call \<Rightarrow> vk_call list" where
  "vk_tell tr c = tr @ [c]"

lemma vk_call_eq [simp]: "fst (vk_call V tr c) = V tr c" "snd (vk_call V tr c) = tr @ [c]"
  by (simp_all add: vk_call_def)

end
