(* ===== verification/Vk_Device.thy ===== *)
theory Vk_Device
  imports Vulkan_Api
begin

text \<open>
  Vulkan device management (\<^verbatim>\<open>host-daemon/src/vk_device.c\<close>): instance creation, device and
  queue family selection, the logical device and its pools, the memory type search, one-shot
  command buffers and the teardown.  Each routine takes the driver \<open>V\<close>, the state and the calls
  made so far, and returns its result with the new state and calls.  Messages to the log and
  the requested features and priorities, which are constants, are left out of the calls.
\<close>

section \<open>State\<close>

record gravity_vk_state =
  vs_instance :: u64
  vs_physical_device :: u64
  vs_device :: u64
  vs_graphics_queue :: u64
  vs_compute_queue :: u64
  vs_transfer_queue :: u64
  vs_graphics_queue_family :: u32
  vs_compute_queue_family :: u32
  vs_transfer_queue_family :: u32
  vs_graphics_cmd_pool :: u64
  vs_compute_cmd_pool :: u64
  vs_transfer_cmd_pool :: u64
  vs_device_name :: string
  vs_properties :: vk_props
  vs_memory_types :: "u32 list"
  vs_debug_messenger :: u64
  vs_validation_enabled :: bool
  vs_active_cmd_buf :: u64
  vs_in_render_pass :: bool
  vs_pipeline_cache :: u64
  vs_descriptor_pool :: u64

definition zero_vk_state :: gravity_vk_state where
  "zero_vk_state =
     \<lparr>vs_instance = 0, vs_physical_device = 0, vs_device = 0, vs_graphics_queue = 0, vs_compute_queue = 0,
      vs_transfer_queue = 0, vs_graphics_queue_family = 0, vs_compute_queue_family = 0,
      vs_transfer_queue_family = 0, vs_graphics_cmd_pool = 0, vs_compute_cmd_pool = 0,
      vs_transfer_cmd_pool = 0, vs_device_name = [],
      vs_properties = \<lparr>pp_vendorID = 0, pp_deviceType = 0, pp_deviceName = [], pp_apiVersion = 0,
                       pp_maxImageDimension2D = 0\<rparr>,
      vs_memory_types = [], vs_debug_messenger = 0, vs_validation_enabled = False, vs_active_cmd_buf = 0,
      vs_in_render_pass = False, vs_pipeline_cache = 0, vs_descriptor_pool = 0\<rparr>"

definition VK_PHYSICAL_DEVICE_TYPE_INTEGRATED_GPU :: u32 where "VK_PHYSICAL_DEVICE_TYPE_INTEGRATED_GPU = 1"
definition VK_QUEUE_GRAPHICS_BIT :: u32 where "VK_QUEUE_GRAPHICS_BIT = 1"
definition VK_QUEUE_COMPUTE_BIT :: u32 where "VK_QUEUE_COMPUTE_BIT = 2"
definition VK_QUEUE_TRANSFER_BIT :: u32 where "VK_QUEUE_TRANSFER_BIT = 4"
definition VK_NO_INDEX :: u32 where "VK_NO_INDEX = - 1"

section \<open>Instance\<close>

definition create_instance ::
  "vulkan \<Rightarrow> gravity_vk_state \<Rightarrow> bool \<Rightarrow> vk_call list \<Rightarrow> int \<times> gravity_vk_state \<times> vk_call list" where
  "create_instance V st validation tr =
     (let (r, tr) = vk_call V tr (Setup (vkCreateInstance validation));
          st = st\<lparr>vs_instance := vr_out r\<rparr>
      in if vr_result r \<noteq> 0 then (-1, st, tr)
         else
           let (st, tr) =
             (if validation then
                let (f, tr) = vk_call V tr (Setup (vkGetInstanceProcAddr (vs_instance st)
                                                     ''vkCreateDebugUtilsMessengerEXT''))
                in if vr_out f \<noteq> 0 then
                     let (d, tr) = vk_call V tr (Setup (vkCreateDebugUtilsMessenger (vs_instance st)))
                     in (st\<lparr>vs_debug_messenger := vr_out d\<rparr>, tr)
                   else (st, tr)
              else (st, tr))
           in (0, st\<lparr>vs_validation_enabled := validation\<rparr>, tr))"

section \<open>Physical device\<close>

text \<open>The loop over the devices: the selected device, the fallback and the calls made.\<close>

fun pick_device ::
  "vulkan \<Rightarrow> u64 list \<Rightarrow> u64 \<Rightarrow> u64 \<Rightarrow> vk_call list \<Rightarrow> u64 \<times> u64 \<times> vk_call list" where
  "pick_device V [] selected fallback tr = (selected, fallback, tr)"
| "pick_device V (d # ds) selected fallback tr =
     (let (r, tr) = vk_call V tr (Setup (vkGetPhysicalDeviceProperties d));
          selected = (if pp_vendorID (vr_props r) = 0x8086 \<and>
                         pp_deviceType (vr_props r) = VK_PHYSICAL_DEVICE_TYPE_INTEGRATED_GPU
                      then d else selected);
          fallback = (if fallback = 0 then d else fallback)
      in pick_device V ds selected fallback tr)"

definition select_physical_device ::
  "vulkan \<Rightarrow> gravity_vk_state \<Rightarrow> vk_call list \<Rightarrow> int \<times> gravity_vk_state \<times> vk_call list" where
  "select_physical_device V st tr =
     (let (r, tr) = vk_call V tr (Setup (vkEnumeratePhysicalDevices (vs_instance st) None));
          device_count = vr_count r
      in if device_count = 0 then (-1, st, tr)
         else
           let (r, tr) = vk_call V tr (Setup (vkEnumeratePhysicalDevices (vs_instance st) (Some device_count)));
               devices = take (unat device_count) (vr_handles r);
               (selected, fallback, tr) = pick_device V devices 0 0 tr;
               selected = (if selected = 0 then fallback else selected);
               (p, tr) = vk_call V tr (Setup (vkGetPhysicalDeviceProperties selected));
               (mp, tr) = vk_call V tr (Setup (vkGetPhysicalDeviceMemoryProperties selected));
               tr = vk_tell tr (Setup (vkGetPhysicalDeviceFeatures selected))
           in (0, st\<lparr>vs_physical_device := selected, vs_properties := vr_props p,
                     vs_memory_types := vr_memory_types mp,
                     vs_device_name := take 255 (pp_deviceName (vr_props p))\<rparr>, tr))"

section \<open>Queue families\<close>

text \<open>One round of the search loop on the three family indices.\<close>

definition family_step :: "u32 \<Rightarrow> u32 \<Rightarrow> u32 \<times> u32 \<times> u32 \<Rightarrow> u32 \<times> u32 \<times> u32" where
  "family_step i flags = (\<lambda>(g, c, t).
     (if flags AND VK_QUEUE_GRAPHICS_BIT \<noteq> 0 \<and> g = VK_NO_INDEX then i else g,
      if flags AND VK_QUEUE_COMPUTE_BIT \<noteq> 0 \<and> flags AND VK_QUEUE_GRAPHICS_BIT = 0 \<and> c = VK_NO_INDEX
      then i else c,
      if flags AND VK_QUEUE_TRANSFER_BIT \<noteq> 0 \<and> flags AND VK_QUEUE_GRAPHICS_BIT = 0 \<and>
         flags AND VK_QUEUE_COMPUTE_BIT = 0 \<and> t = VK_NO_INDEX
      then i else t))"

fun family_loop :: "u32 list \<Rightarrow> u32 \<Rightarrow> u32 \<times> u32 \<times> u32 \<Rightarrow> u32 \<times> u32 \<times> u32" where
  "family_loop [] i gct = gct"
| "family_loop (flags # fs) i gct = family_loop fs (i + 1) (family_step i flags gct)"

definition find_queue_families ::
  "vulkan \<Rightarrow> gravity_vk_state \<Rightarrow> vk_call list \<Rightarrow> int \<times> gravity_vk_state \<times> vk_call list" where
  "find_queue_families V st tr =
     (let (r, tr) = vk_call V tr (Setup (vkGetPhysicalDeviceQueueFamilyProperties (vs_physical_device st) None));
          family_count = vr_count r;
          (r, tr) = vk_call V tr (Setup (vkGetPhysicalDeviceQueueFamilyProperties (vs_physical_device st)
                                           (Some family_count)));
          families = take (unat family_count) (vr_queue_flags r);
          (g, c, t) = family_loop families 0 (VK_NO_INDEX, VK_NO_INDEX, VK_NO_INDEX);
          c = (if c = VK_NO_INDEX then g else c);
          t = (if t = VK_NO_INDEX then g else t);
          st = st\<lparr>vs_graphics_queue_family := g, vs_compute_queue_family := c, vs_transfer_queue_family := t\<rparr>
      in if g = VK_NO_INDEX then (-1, st, tr) else (0, st, tr))"

section \<open>Logical device, pools and caches\<close>

definition unique_families :: "gravity_vk_state \<Rightarrow> u32 list" where
  "unique_families st =
     (let g = vs_graphics_queue_family st; c = vs_compute_queue_family st; t = vs_transfer_queue_family st
      in [g] @ (if c \<noteq> g then [c] else []) @ (if t \<noteq> g \<and> t \<noteq> c then [t] else []))"

definition create_logical_device ::
  "vulkan \<Rightarrow> gravity_vk_state \<Rightarrow> vk_call list \<Rightarrow> int \<times> gravity_vk_state \<times> vk_call list" where
  "create_logical_device V st tr =
     (let (r, tr) = vk_call V tr (Setup (vkCreateDevice (vs_physical_device st) (unique_families st)));
          st = st\<lparr>vs_device := vr_out r\<rparr>
      in if vr_result r \<noteq> 0 then (-1, st, tr)
         else
           let (g, tr) = vk_call V tr (Setup (vkGetDeviceQueue (vs_device st) (vs_graphics_queue_family st)));
               (c, tr) = vk_call V tr (Setup (vkGetDeviceQueue (vs_device st) (vs_compute_queue_family st)));
               (t, tr) = vk_call V tr (Setup (vkGetDeviceQueue (vs_device st) (vs_transfer_queue_family st)))
           in (0, st\<lparr>vs_graphics_queue := vr_out g, vs_compute_queue := vr_out c,
                     vs_transfer_queue := vr_out t\<rparr>, tr))"

definition create_command_pools ::
  "vulkan \<Rightarrow> gravity_vk_state \<Rightarrow> vk_call list \<Rightarrow> int \<times> gravity_vk_state \<times> vk_call list" where
  "create_command_pools V st tr =
     (let (g, tr) = vk_call V tr (Setup (vkCreateCommandPool (vs_device st) (vs_graphics_queue_family st)));
          st = st\<lparr>vs_graphics_cmd_pool := vr_out g\<rparr>
      in if vr_result g \<noteq> 0 then (-1, st, tr)
         else
           let (c, tr) = vk_call V tr (Setup (vkCreateCommandPool (vs_device st) (vs_compute_queue_family st)));
               st = st\<lparr>vs_compute_cmd_pool := vr_out c\<rparr>
           in if vr_result c \<noteq> 0 then (-1, st, tr)
              else
                let (t, tr) = vk_call V tr (Setup (vkCreateCommandPool (vs_device st) (vs_transfer_queue_family st)));
                    st = st\<lparr>vs_transfer_cmd_pool := vr_out t\<rparr>
                in if vr_result t \<noteq> 0 then (-1, st, tr) else (0, st, tr))"

definition create_pipeline_cache ::
  "vulkan \<Rightarrow> gravity_vk_state \<Rightarrow> vk_call list \<Rightarrow> int \<times> gravity_vk_state \<times> vk_call list" where
  "create_pipeline_cache V st tr =
     (let (r, tr) = vk_call V tr (Setup (vkCreatePipelineCache (vs_device st)))
      in (0, st\<lparr>vs_pipeline_cache := (if vr_result r \<noteq> 0 then 0 else vr_out r)\<rparr>, tr))"

definition create_descriptor_pool ::
  "vulkan \<Rightarrow> gravity_vk_state \<Rightarrow> vk_call list \<Rightarrow> int \<times> gravity_vk_state \<times> vk_call list" where
  "create_descriptor_pool V st tr =
     (let (r, tr) = vk_call V tr (Setup (vkCreateDescriptorPool (vs_device st)))
      in (0, st\<lparr>vs_descriptor_pool := (if vr_result r \<noteq> 0 then 0 else vr_out r)\<rparr>, tr))"

section \<open>Initialisation and teardown\<close>

text \<open>One stage after another: a stage that fails ends the initialisation with \<open>-1\<close>.\<close>

definition vk_stage ::
  "(gravity_vk_state \<Rightarrow> vk_call list \<Rightarrow> int \<times> gravity_vk_state \<times> vk_call list) \<Rightarrow>
   (gravity_vk_state \<Rightarrow> vk_call list \<Rightarrow> int \<times> gravity_vk_state \<times> vk_call list) \<Rightarrow>
   gravity_vk_state \<Rightarrow> vk_call list \<Rightarrow> int \<times> gravity_vk_state \<times> vk_call list" where
  "vk_stage stage rest st tr =
     (let (r, st, tr) = stage st tr in if r < 0 then (-1, st, tr) else rest st tr)"

definition gravity_vk_init ::
  "vulkan \<Rightarrow> gravity_vk_state \<Rightarrow> bool \<Rightarrow> vk_call list \<Rightarrow> int \<times> gravity_vk_state \<times> vk_call list" where
  "gravity_vk_init V st0 validation tr =
     vk_stage (\<lambda>st. create_instance V st validation)
     (vk_stage (select_physical_device V)
     (vk_stage (find_queue_families V)
     (vk_stage (create_logical_device V)
     (vk_stage (create_command_pools V)
     (vk_stage (create_pipeline_cache V)
     (vk_stage (create_descriptor_pool V)
     (\<lambda>st tr. (0, st\<lparr>vs_active_cmd_buf := 0, vs_in_render_pass := False\<rparr>, tr))))))))
     zero_vk_state tr"

definition gravity_vk_destroy ::
  "vulkan \<Rightarrow> gravity_vk_state \<Rightarrow> vk_call list \<Rightarrow> gravity_vk_state \<times> vk_call list" where
  "gravity_vk_destroy V st tr =
     (if vs_device st = 0 then (st, tr)
      else
        let d = vs_device st; g = vs_graphics_cmd_pool st; c = vs_compute_cmd_pool st;
            t = vs_transfer_cmd_pool st;
            tr = vk_tell tr (Setup (vkDeviceWaitIdle d));
            tr = (if vs_descriptor_pool st \<noteq> 0
                  then vk_tell tr (Setup (vkDestroyDescriptorPool d (vs_descriptor_pool st))) else tr);
            tr = (if vs_pipeline_cache st \<noteq> 0
                  then vk_tell tr (Setup (vkDestroyPipelineCache d (vs_pipeline_cache st))) else tr);
            tr = (if g \<noteq> 0 then vk_tell tr (Setup (vkDestroyCommandPool d g)) else tr);
            tr = (if c \<noteq> 0 \<and> c \<noteq> g then vk_tell tr (Setup (vkDestroyCommandPool d c)) else tr);
            tr = (if t \<noteq> 0 \<and> t \<noteq> g \<and> t \<noteq> c then vk_tell tr (Setup (vkDestroyCommandPool d t)) else tr);
            tr = vk_tell tr (Setup (vkDestroyDevice d));
            tr = (if vs_debug_messenger st \<noteq> 0 then
                    let (f, tr) = vk_call V tr (Setup (vkGetInstanceProcAddr (vs_instance st)
                                                         ''vkDestroyDebugUtilsMessengerEXT''))
                    in if vr_out f \<noteq> 0
                       then vk_tell tr (Setup (vkDestroyDebugUtilsMessenger (vs_instance st) (vs_debug_messenger st)))
                       else tr
                  else tr);
            tr = vk_tell tr (Setup (vkDestroyInstance (vs_instance st)))
        in (zero_vk_state, tr))"

section \<open>Memory types\<close>

text \<open>The search loop from index \<open>i\<close> on, over the property flags of the remaining types.\<close>

fun memory_type_loop :: "u32 list \<Rightarrow> nat \<Rightarrow> u32 \<Rightarrow> u32 \<Rightarrow> u32" where
  "memory_type_loop [] i type_filter properties = VK_NO_INDEX"
| "memory_type_loop (flags # fs) i type_filter properties =
     (if type_filter AND push_bit i 1 \<noteq> 0 \<and> flags AND properties = properties then of_nat i
      else memory_type_loop fs (Suc i) type_filter properties)"

definition gravity_vk_find_memory_type :: "gravity_vk_state \<Rightarrow> u32 \<Rightarrow> u32 \<Rightarrow> u32" where
  "gravity_vk_find_memory_type st type_filter properties =
     memory_type_loop (vs_memory_types st) 0 type_filter properties"

section \<open>One-shot command buffers\<close>

definition gravity_vk_begin_single_time_commands ::
  "vulkan \<Rightarrow> gravity_vk_state \<Rightarrow> vk_call list \<Rightarrow> u64 \<times> vk_call list" where
  "gravity_vk_begin_single_time_commands V st tr =
     (let (r, tr) = vk_call V tr (Cmd (vkAllocateCommandBuffers (vs_device st) (vs_graphics_cmd_pool st)))
      in (vr_out r, vk_tell tr (Cmd (vkBeginCommandBuffer (vr_out r)))))"

definition gravity_vk_end_single_time_commands ::
  "gravity_vk_state \<Rightarrow> u64 \<Rightarrow> vk_call list \<Rightarrow> vk_call list" where
  "gravity_vk_end_single_time_commands st cmd_buf tr =
     (let tr = vk_tell tr (Cmd (vkEndCommandBuffer cmd_buf));
          tr = vk_tell tr (Cmd (vkQueueSubmit (vs_graphics_queue st) cmd_buf 0));
          tr = vk_tell tr (Cmd (vkQueueWaitIdle (vs_graphics_queue st)))
      in vk_tell tr (Cmd (vkFreeCommandBuffers (vs_device st) (vs_graphics_cmd_pool st) cmd_buf)))"

section \<open>The memory type search\<close>

definition memory_type_fits :: "gravity_vk_state \<Rightarrow> u32 \<Rightarrow> u32 \<Rightarrow> nat \<Rightarrow> bool" where
  "memory_type_fits st type_filter properties i \<longleftrightarrow>
     i < length (vs_memory_types st) \<and> bit type_filter i \<and>
     vs_memory_types st ! i AND properties = properties"

lemma and_single_bit: "(w :: u32) AND push_bit i 1 \<noteq> 0 \<longleftrightarrow> bit w i"
  using and_exp_eq_0_iff_not_bit [of w i] by (simp add: push_bit_eq_mult)

text \<open>
  A search loop's result in terms of the elements' positions, carried over one element: the
  first position that satisfies \<open>Q\<close> among \<open>n + 1\<close> is 0 or one behind the first of the rest.
\<close>

lemma first_shift:
  assumes "\<not> Q 0"
    and "(\<forall>j<n. \<not> Q (Suc j)) \<and> R None \<or> (\<exists>j<n. Q (Suc j) \<and> (\<forall>l<j. \<not> Q (Suc l)) \<and> R (Some (Suc j)))"
  shows "(\<forall>j<Suc n. \<not> Q j) \<and> R None \<or> (\<exists>j<Suc n. Q j \<and> (\<forall>l<j. \<not> Q l) \<and> R (Some j))"
  using assms(2)
proof (elim disjE conjE exE)
  assume "\<forall>j<n. \<not> Q (Suc j)" "R None"
  then show ?thesis using assms(1) by (auto simp: less_Suc_eq_0_disj)
next
  fix j
  assume j: "j < n" "Q (Suc j)" "\<forall>l<j. \<not> Q (Suc l)" "R (Some (Suc j))"
  then have "\<forall>l<Suc j. \<not> Q l" using assms(1) by (auto simp: less_Suc_eq_0_disj)
  then show ?thesis using j by (intro disjI2 exI [of _ "Suc j"]) simp
qed

lemma memory_type_loop_cases:
  "(\<forall>j<length fs. \<not> (bit f (i + j) \<and> fs ! j AND p = p)) \<and> memory_type_loop fs i f p = VK_NO_INDEX \<or>
   (\<exists>j<length fs. (bit f (i + j) \<and> fs ! j AND p = p) \<and>
      (\<forall>l<j. \<not> (bit f (i + l) \<and> fs ! l AND p = p)) \<and> memory_type_loop fs i f p = of_nat (i + j))"
proof (induction fs arbitrary: i)
  case (Cons x fs)
  let ?Q = "\<lambda>j. bit f (i + j) \<and> (x # fs) ! j AND p = p"
  let ?R = "\<lambda>r. memory_type_loop (x # fs) i f p = (case r of None \<Rightarrow> VK_NO_INDEX | Some j \<Rightarrow> of_nat (i + j))"
  show ?case
  proof (cases "?Q 0")
    case True
    then have "memory_type_loop (x # fs) i f p = of_nat i" using and_single_bit [of f i] by simp
    then show ?thesis using True by (intro disjI2 exI [of _ 0]) simp
  next
    case False
    then have "memory_type_loop (x # fs) i f p = memory_type_loop fs (Suc i) f p"
      using and_single_bit [of f i] by auto
    then show ?thesis
      using first_shift [of ?Q "length fs" ?R] False Cons.IH [of "Suc i"] by simp
  qed
qed simp

lemma find_memory_type_cases:
  obtains "\<forall>i. \<not> memory_type_fits st f p i" "gravity_vk_find_memory_type st f p = VK_NO_INDEX"
  | i where "memory_type_fits st f p i" "\<forall>j<i. \<not> memory_type_fits st f p j"
      "gravity_vk_find_memory_type st f p = of_nat i"
  using memory_type_loop_cases [of "vs_memory_types st" f 0 p]
  by (auto simp: memory_type_fits_def gravity_vk_find_memory_type_def)

section \<open>The queue family search\<close>

text \<open>Each of the three indices is searched on its own: the first family of a kind.\<close>

fun first_loop :: "(u32 \<Rightarrow> bool) \<Rightarrow> u32 list \<Rightarrow> u32 \<Rightarrow> u32 \<Rightarrow> u32" where
  "first_loop P [] i x = x"
| "first_loop P (f # fs) i x = first_loop P fs (i + 1) (if P f \<and> x = VK_NO_INDEX then i else x)"

definition is_graphics :: "u32 \<Rightarrow> bool" where "is_graphics f \<longleftrightarrow> f AND VK_QUEUE_GRAPHICS_BIT \<noteq> 0"

definition is_compute_only :: "u32 \<Rightarrow> bool" where
  "is_compute_only f \<longleftrightarrow> f AND VK_QUEUE_COMPUTE_BIT \<noteq> 0 \<and> f AND VK_QUEUE_GRAPHICS_BIT = 0"

definition is_transfer_only :: "u32 \<Rightarrow> bool" where
  "is_transfer_only f \<longleftrightarrow> f AND VK_QUEUE_TRANSFER_BIT \<noteq> 0 \<and> f AND VK_QUEUE_GRAPHICS_BIT = 0 \<and>
     f AND VK_QUEUE_COMPUTE_BIT = 0"

lemma family_loop_eq:
  "family_loop fs i (g, c, t) =
     (first_loop is_graphics fs i g, first_loop is_compute_only fs i c, first_loop is_transfer_only fs i t)"
proof (induction fs arbitrary: i g c t)
  case (Cons f fs)
  have "family_step i f (g, c, t) =
     (if is_graphics f \<and> g = VK_NO_INDEX then i else g,
      if is_compute_only f \<and> c = VK_NO_INDEX then i else c,
      if is_transfer_only f \<and> t = VK_NO_INDEX then i else t)"
    by (simp add: family_step_def is_graphics_def is_compute_only_def is_transfer_only_def)
  then show ?case by (simp add: Cons.IH)
qed simp

lemma first_loop_found: "x \<noteq> VK_NO_INDEX \<Longrightarrow> first_loop P fs i x = x"
  by (induction fs arbitrary: i) auto

lemma of_nat_no_index: "k < 2 ^ 32 - 1 \<Longrightarrow> of_nat k \<noteq> VK_NO_INDEX"
proof
  assume k: "k < 2 ^ 32 - 1" and "of_nat k = VK_NO_INDEX"
  then have "(of_nat (Suc k) :: u32) = 0" by (simp add: VK_NO_INDEX_def)
  then have "unat (of_nat (Suc k) :: u32) = 0" by (simp only: unat_0)
  then show False using k by (simp add: unat_of_nat del: of_nat_Suc)
qed

lemma first_loop_cases:
  assumes "k + length fs < 2 ^ 32"
  shows "(\<forall>j<length fs. \<not> P (fs ! j)) \<and> first_loop P fs (of_nat k) VK_NO_INDEX = VK_NO_INDEX \<or>
     (\<exists>j<length fs. P (fs ! j) \<and> (\<forall>l<j. \<not> P (fs ! l)) \<and>
        first_loop P fs (of_nat k) VK_NO_INDEX = of_nat (k + j) \<and> of_nat (k + j) \<noteq> VK_NO_INDEX)"
  using assms
proof (induction fs arbitrary: k)
  case (Cons f fs)
  show ?case
  proof (cases "P f")
    case True
    have "of_nat k \<noteq> VK_NO_INDEX" using Cons.prems by (intro of_nat_no_index) simp
    then show ?thesis using True by (intro disjI2 exI [of _ 0]) (simp add: first_loop_found)
  next
    case False
    have n: "first_loop P (f # fs) (of_nat k) VK_NO_INDEX = first_loop P fs (of_nat (Suc k)) VK_NO_INDEX"
      using False by (simp add: add.commute)
    let ?R = "\<lambda>r. first_loop P (f # fs) (of_nat k) VK_NO_INDEX =
      (case r of None \<Rightarrow> VK_NO_INDEX | Some j \<Rightarrow> of_nat (k + j)) \<and>
      (case r of None \<Rightarrow> True | Some j \<Rightarrow> of_nat (k + j) \<noteq> VK_NO_INDEX)"
    have "Suc k + length fs < 2 ^ 32" using Cons.prems by simp
    then show ?thesis
      using first_shift [of "\<lambda>j. P ((f # fs) ! j)" "length fs" ?R] False Cons.IH [of "Suc k"]
      unfolding n by simp
  qed
qed simp

section \<open>The device search\<close>

definition intel_integrated :: "vk_props \<Rightarrow> bool" where
  "intel_integrated p \<longleftrightarrow> pp_vendorID p = 0x8086 \<and> pp_deviceType p = VK_PHYSICAL_DEVICE_TYPE_INTEGRATED_GPU"

text \<open>For a driver that reports the properties \<open>props d\<close> of device \<open>d\<close>, whenever asked.\<close>

lemma pick_device_eq:
  assumes "\<forall>tr d. vr_props (V tr (Setup (vkGetPhysicalDeviceProperties d))) = props d" "0 \<notin> set ds"
  shows "\<exists>tr'. pick_device V ds s f tr =
     (if filter (\<lambda>d. intel_integrated (props d)) ds = [] then s else last (filter (\<lambda>d. intel_integrated (props d)) ds),
      if f = 0 \<and> ds \<noteq> [] then hd ds else f, tr')"
  using assms(2)
proof (induction ds arbitrary: s f tr)
  case (Cons d ds)
  let ?s = "if intel_integrated (props d) then d else s" and ?f = "if f = 0 then d else f"
  let ?tr = "tr @ [Setup (vkGetPhysicalDeviceProperties d)]"
  have step: "pick_device V (d # ds) s f tr = pick_device V ds ?s ?f ?tr"
    using assms(1) by (simp add: vk_call_def intel_integrated_def Let_def)
  have "?f \<noteq> 0" using Cons.prems by auto
  then show ?case
    unfolding step using Cons.IH [of ?s ?f ?tr] Cons.prems by auto
qed simp

section \<open>Properties\<close>

text \<open>
  the memory type search returns the least index whose bit is set in the filter and whose
  property flags include all the requested ones, and \<^verbatim>\<open>UINT32_MAX\<close> exactly when there is none.
\<close>

lemma find_memory_type_spec:
  assumes "length (vs_memory_types st) \<le> 32"
  shows "let r = gravity_vk_find_memory_type st f p in
     (r = VK_NO_INDEX \<longleftrightarrow> (\<forall>i. \<not> memory_type_fits st f p i)) \<and>
     (r \<noteq> VK_NO_INDEX \<longrightarrow> memory_type_fits st f p (unat r) \<and>
        (\<forall>j<unat r. \<not> memory_type_fits st f p j))"
proof (cases rule: find_memory_type_cases [of st f p])
  case 1
  then show ?thesis by (simp add: Let_def)
next
  case (2 i)
  then have "i < 32" using assms by (auto simp: memory_type_fits_def)
  then have "(of_nat i :: u32) \<noteq> VK_NO_INDEX" "unat (of_nat i :: u32) = i"
    using of_nat_no_index [of i] by (simp_all add: unat_of_nat)
  then show ?thesis using 2 by (auto simp: Let_def)
qed

lemma find_memory_type_spec_witness:
  "gravity_vk_find_memory_type (zero_vk_state\<lparr>vs_memory_types := [1, 7, 6]\<rparr>) 6 6 = 1"
  using find_memory_type_spec [of "zero_vk_state\<lparr>vs_memory_types := [1, 7, 6]\<rparr>" 6 6]
  by (simp add: gravity_vk_find_memory_type_def)

text \<open>
  the queue family search succeeds exactly when some family supports graphics, and then
  the graphics index is the first such family, the compute (transfer) index is the first
  compute-only (transfer-only) family or else the graphics one; the families the device is
  created with are these, without repetition.
\<close>

lemma queue_families_spec:
  assumes "find_queue_families V st tr = (r, st', tr')"
    and "fams = take (unat (vr_count (V tr (Setup (vkGetPhysicalDeviceQueueFamilyProperties (vs_physical_device st) None)))))
           (vr_queue_flags (V (tr @ [Setup (vkGetPhysicalDeviceQueueFamilyProperties (vs_physical_device st) None)])
              (Setup (vkGetPhysicalDeviceQueueFamilyProperties (vs_physical_device st)
                 (Some (vr_count (V tr (Setup (vkGetPhysicalDeviceQueueFamilyProperties (vs_physical_device st) None)))))))))"
    and "length fams < 2 ^ 32 - 1"
  shows "(r = 0 \<longleftrightarrow> (\<exists>i<length fams. is_graphics (fams ! i))) \<and>
     (r = 0 \<longrightarrow> (let g = unat (vs_graphics_queue_family st'); c = unat (vs_compute_queue_family st');
                     t = unat (vs_transfer_queue_family st') in
        g < length fams \<and> is_graphics (fams ! g) \<and> (\<forall>i<g. \<not> is_graphics (fams ! i)) \<and>
        c < length fams \<and> (is_compute_only (fams ! c) \<or> c = g \<and> (\<forall>i<length fams. \<not> is_compute_only (fams ! i))) \<and>
        t < length fams \<and> (is_transfer_only (fams ! t) \<or> t = g \<and> (\<forall>i<length fams. \<not> is_transfer_only (fams ! i))) \<and>
        distinct (unique_families st') \<and>
        set (unique_families st') = {vs_graphics_queue_family st', vs_compute_queue_family st', vs_transfer_queue_family st'}))"
proof -
  let ?g = "first_loop is_graphics fams 0 VK_NO_INDEX"
  let ?c = "first_loop is_compute_only fams 0 VK_NO_INDEX"
  let ?t = "first_loop is_transfer_only fams 0 VK_NO_INDEX"
  have res: "r = (if ?g = VK_NO_INDEX then -1 else 0)"
    "vs_graphics_queue_family st' = ?g"
    "vs_compute_queue_family st' = (if ?c = VK_NO_INDEX then ?g else ?c)"
    "vs_transfer_queue_family st' = (if ?t = VK_NO_INDEX then ?g else ?t)"
    using assms(1) unfolding assms(2)
    by (auto simp: find_queue_families_def vk_call_def Let_def family_loop_eq split: if_splits)
  have cases: "(\<forall>j<length fams. \<not> P (fams ! j)) \<and> first_loop P fams 0 VK_NO_INDEX = VK_NO_INDEX \<or>
     (\<exists>j<length fams. P (fams ! j) \<and> (\<forall>l<j. \<not> P (fams ! l)) \<and>
        unat (first_loop P fams 0 VK_NO_INDEX) = j \<and> first_loop P fams 0 VK_NO_INDEX \<noteq> VK_NO_INDEX)" for P
    using first_loop_cases [of 0 fams P] assms(3) by (auto simp: unat_of_nat)
  have u: "distinct (unique_families st')"
    "set (unique_families st') = {vs_graphics_queue_family st', vs_compute_queue_family st', vs_transfer_queue_family st'}"
    by (auto simp: unique_families_def Let_def)
  show ?thesis
    using cases [of is_graphics] cases [of is_compute_only] cases [of is_transfer_only] u
    by (auto simp: res Let_def)
qed

text \<open>A driver with one GPU whose families are a general one and a compute-only one.\<close>

definition demo_props :: vk_props where
  "demo_props = \<lparr>pp_vendorID = 0x8086, pp_deviceType = 1, pp_deviceName = ''UHD 770'', pp_apiVersion = 0,
                 pp_maxImageDimension2D = 16384\<rparr>"

definition demo_reply :: vk_reply where
  "demo_reply = \<lparr>vr_result = 0, vr_out = 0x1000, vr_count = 2, vr_handles = [0x10, 0x20], vr_props = demo_props,
                 vr_queue_flags = [7, 6], vr_memory_types = [1, 7, 15], vr_size = 4096, vr_type_bits = 7\<rparr>"

definition demo_vulkan :: vulkan where
  "demo_vulkan tr c = demo_reply"

lemma queue_families_spec_witness:
  "vs_compute_queue_family (fst (snd (find_queue_families demo_vulkan zero_vk_state []))) = 1 \<and>
   fst (find_queue_families demo_vulkan zero_vk_state []) = 0"
proof -
  obtain r st' tr' where e: "find_queue_families demo_vulkan zero_vk_state [] = (r, st', tr')"
    by (metis prod.exhaust)
  have "(r = 0) = (\<exists>i<length [7 :: u32, 6]. is_graphics ([7, 6] ! i))"
    using queue_families_spec [OF e, of "[7, 6]"] by (simp add: demo_vulkan_def demo_reply_def)
  then have "r = 0" by (auto simp: is_graphics_def VK_QUEUE_GRAPHICS_BIT_def intro: exI [of _ 0])
  moreover have "vs_compute_queue_family st' = 1"
    using e by (auto simp: find_queue_families_def vk_call_def Let_def demo_vulkan_def demo_reply_def
        family_step_def VK_QUEUE_GRAPHICS_BIT_def VK_QUEUE_COMPUTE_BIT_def VK_QUEUE_TRANSFER_BIT_def VK_NO_INDEX_def)
  ultimately show ?thesis by (simp add: e)
qed

text \<open>
  with a driver that reports fixed properties, the device selection takes the last
  integrated Intel GPU in enumeration order if there is one, and the first device otherwise;
  without a device it fails and changes nothing.
\<close>

lemma physical_device_selection:
  assumes "\<forall>tr d. vr_props (V tr (Setup (vkGetPhysicalDeviceProperties d))) = props d"
    and "\<forall>tr n. vr_count (V tr (Setup (vkEnumeratePhysicalDevices (vs_instance st) n))) = of_nat (length ds)"
    and "\<forall>tr n. vr_handles (V tr (Setup (vkEnumeratePhysicalDevices (vs_instance st) n))) = ds"
    and "0 \<notin> set ds" "length ds < 2 ^ 32"
  shows "case select_physical_device V st tr of (r, st', tr') \<Rightarrow>
     if ds = [] then r = -1 \<and> st' = st
     else r = 0 \<and> vs_properties st' = props (vs_physical_device st') \<and>
       vs_physical_device st' = (if filter (\<lambda>d. intel_integrated (props d)) ds = [] then hd ds
                                 else last (filter (\<lambda>d. intel_integrated (props d)) ds))"
proof -
  have n: "unat (of_nat (length ds) :: u32) = length ds" using assms(5) by (simp add: unat_of_nat)
  have z: "(of_nat (length ds) :: u32) = 0 \<longleftrightarrow> ds = []"
    using unat_eq_0 [of "of_nat (length ds) :: u32"] n by simp
  let ?F = "filter (\<lambda>d. intel_integrated (props d)) ds"
  let ?tr = "tr @ [Setup (vkEnumeratePhysicalDevices (vs_instance st) None),
                   Setup (vkEnumeratePhysicalDevices (vs_instance st) (Some (of_nat (length ds))))]"
  let ?s = "if ?F = [] then hd ds else last ?F"
  show ?thesis
  proof (cases "ds = []")
    case True
    then show ?thesis using assms(2) by (simp add: select_physical_device_def vk_call_def Let_def)
  next
    case False
    obtain tr1 where p: "pick_device V ds 0 0 ?tr = (if ?F = [] then 0 else last ?F, hd ds, tr1)"
      using pick_device_eq [OF assms(1,4), of 0 0 ?tr] False by auto
    have "last ?F \<noteq> 0" if "?F \<noteq> []" using last_in_set [OF that] assms(4) by auto
    then have s: "(if (if ?F = [] then 0 else last ?F) = 0 then hd ds else (if ?F = [] then 0 else last ?F)) = ?s"
      by simp
    have "fst (select_physical_device V st tr) = 0 \<and>
        vs_physical_device (fst (snd (select_physical_device V st tr))) = ?s \<and>
        vs_properties (fst (snd (select_physical_device V st tr))) = props ?s"
      using False assms(1-3) p s z n by (simp add: select_physical_device_def vk_call_def Let_def)
    then show ?thesis using False by (simp add: split_beta)
  qed
qed

lemma physical_device_selection_witness:
  "vs_physical_device (fst (snd (select_physical_device demo_vulkan zero_vk_state []))) = 0x20"
  using physical_device_selection [of demo_vulkan "\<lambda>_. demo_props" zero_vk_state "[0x10, 0x20]" "[]"]
  by (simp add: demo_vulkan_def demo_reply_def intel_integrated_def demo_props_def zero_vk_state_def
      VK_PHYSICAL_DEVICE_TYPE_INTEGRATED_GPU_def o_def split: prod.splits)

end
