(* ===== verification/Soft_Float.thy ===== *)
theory Soft_Float
  imports Gravity_Prelude
begin

text \<open>
  The single-precision arithmetic the daemon uses (the viewport flip, the conversion of the
  anisotropy), on bit patterns: IEEE 754 binary32 with round to nearest even.  A finite number
  is an integer multiple of \<open>2 ^ -149\<close>, so sums are exact on integers and rounded once; a
  quiet NaN operand is returned as x86 does.
\<close>

type_synonym f32 = u32

definition f32_neg_bit :: "f32 \<Rightarrow> bool" where "f32_neg_bit x = bit x 31"

definition f32_exp :: "f32 \<Rightarrow> nat" where "f32_exp x = unat (drop_bit 23 x AND mask 8)"

definition f32_frac :: "f32 \<Rightarrow> nat" where "f32_frac x = unat (x AND mask 23)"

definition f32_nan :: "f32 \<Rightarrow> bool" where "f32_nan x \<longleftrightarrow> f32_exp x = 255 \<and> f32_frac x \<noteq> 0"

definition f32_inf :: "f32 \<Rightarrow> bool" where "f32_inf x \<longleftrightarrow> f32_exp x = 255 \<and> f32_frac x = 0"

text \<open>The magnitude and the value of a finite number in units of \<open>2 ^ -149\<close>.\<close>

definition f32_mag :: "f32 \<Rightarrow> nat" where
  "f32_mag x = (if f32_exp x = 0 then f32_frac x else (f32_frac x + 2 ^ 23) * 2 ^ (f32_exp x - 1))"

definition f32_int :: "f32 \<Rightarrow> int" where
  "f32_int x = (if f32_neg_bit x then - int (f32_mag x) else int (f32_mag x))"

text \<open>How many low bits a magnitude has too many for the 24-bit significand.\<close>

fun f32_shift :: "nat \<Rightarrow> nat" where
  "f32_shift n = (if n < 2 ^ 24 then 0 else Suc (f32_shift (n div 2)))"

declare f32_shift.simps [simp del]

definition f32_round_mag :: "nat \<Rightarrow> nat" where
  "f32_round_mag n =
     (let k = f32_shift n; q = n div 2 ^ k; r = n mod 2 ^ k;
          q' = (if 2 ^ k < 2 * r \<or> (2 * r = 2 ^ k \<and> odd q \<and> 0 < k) then q + 1 else q)
      in min (k * 2 ^ 23 + q') 0x7F800000)"

definition f32_sign_word :: "bool \<Rightarrow> f32" where
  "f32_sign_word s = (if s then push_bit 31 1 else 0)"

definition f32_of_int :: "bool \<Rightarrow> int \<Rightarrow> f32" where
  "f32_of_int zero_sign v =
     f32_sign_word (if v = 0 then zero_sign else v < 0) OR of_nat (f32_round_mag (nat \<bar>v\<bar>))"

definition f32_add :: "f32 \<Rightarrow> f32 \<Rightarrow> f32" where
  "f32_add x y =
     (if f32_nan x then x OR 0x00400000
      else if f32_nan y then y OR 0x00400000
      else if f32_inf x then (if f32_inf y \<and> y \<noteq> x then 0xFFC00000 else x)
      else if f32_inf y then y
      else f32_of_int (f32_neg_bit x \<and> f32_neg_bit y) (f32_int x + f32_int y))"

definition f32_uminus :: "f32 \<Rightarrow> f32" where "f32_uminus x = x XOR 0x80000000"

definition f32_of_u32 :: "u32 \<Rightarrow> f32" where
  "f32_of_u32 w = f32_of_int False (int (unat w) * 2 ^ 149)"

section \<open>Rounding exact values\<close>

lemma f32_shift_exact: "2 ^ 23 \<le> m \<Longrightarrow> m < 2 ^ 24 \<Longrightarrow> f32_shift (m * 2 ^ k) = k"
proof (induction k)
  case 0
  then show ?case by (simp add: f32_shift.simps)
next
  case (Suc k)
  have "(2 :: nat) ^ 24 \<le> m * 2 ^ Suc k"
  proof -
    have "(2 :: nat) ^ 23 * 2 \<le> m * (2 * 2 ^ k)" using Suc.prems(1) by (intro mult_mono) auto
    then show ?thesis by simp
  qed
  moreover have "m * 2 ^ Suc k div 2 = m * 2 ^ k" by simp
  ultimately show ?case using Suc by (subst f32_shift.simps) (simp del: power_Suc)
qed

lemma f32_round_small: "n < 2 ^ 24 \<Longrightarrow> f32_round_mag n = n"
  by (simp add: f32_round_mag_def f32_shift.simps)

lemma f32_round_exact:
  assumes "2 ^ 23 \<le> m" "m < 2 ^ 24" "k < 254"
  shows "f32_round_mag (m * 2 ^ k) = k * 2 ^ 23 + m"
proof -
  have "k * 2 ^ 23 + m < 0x7F800000" using assms by (simp add: power_numeral)
  then show ?thesis by (simp add: f32_round_mag_def f32_shift_exact [OF assms(1,2)] Let_def)
qed

lemma bit31: "bit (x :: u32) 31 \<longleftrightarrow> odd (unat x div 2 ^ 31)"
proof -
  have "bit (unat x) 31 = bit x 31" by (simp add: bit_unsigned_iff)
  then show ?thesis by (simp only: bit_iff_odd [of "unat x"])
qed

lemma f32_fields:
  "unat x = 2 ^ 31 * of_bool (f32_neg_bit x) + 2 ^ 23 * f32_exp x + f32_frac x"
  "f32_exp x < 256" "f32_frac x < 2 ^ 23"
proof -
  have e: "f32_exp x = unat x div 2 ^ 23 mod 2 ^ 8"
    unfolding f32_exp_def unat_and_mask unat_drop_bit_eq by (simp only: drop_bit_eq_div)
  have f: "f32_frac x = unat x mod 2 ^ 23" by (simp add: f32_frac_def unat_and_mask)
  have s: "of_bool (f32_neg_bit x) = unat x div 2 ^ 31"
  proof -
    have "unat x < 2 ^ 32" using unsigned_less [of x, where ?'a = nat] by simp
    then have "unat x div 2 ^ 31 < 2" by simp
    moreover have "f32_neg_bit x \<longleftrightarrow> odd (unat x div 2 ^ 31)"
      unfolding f32_neg_bit_def by (rule bit31)
    ultimately show ?thesis by (cases "unat x div 2 ^ 31 = 0") (auto simp: less_2_cases_iff)
  qed
  have split: "n = 2 ^ 31 * (n div 2 ^ 31) + 2 ^ 23 * (n div 2 ^ 23 mod 2 ^ 8) + n mod 2 ^ 23" for n :: nat
  proof -
    have a: "2 ^ 8 * (n div 2 ^ 23 div 2 ^ 8) + n div 2 ^ 23 mod 2 ^ 8 = n div 2 ^ 23"
      by (rule mult_div_mod_eq)
    have c: "n div 2 ^ 23 div 2 ^ 8 = n div 2 ^ 31" by (simp add: div_mult2_eq [symmetric])
    have p: "(2 :: nat) ^ 31 = 2 ^ 23 * 2 ^ 8" by simp
    have "2 ^ 23 * (2 ^ 8 * (n div 2 ^ 31) + n div 2 ^ 23 mod 2 ^ 8) + n mod 2 ^ 23 = n"
      unfolding c [symmetric] a by (rule mult_div_mod_eq)
    then have "n = 2 ^ 23 * (2 ^ 8 * (n div 2 ^ 31)) + 2 ^ 23 * (n div 2 ^ 23 mod 2 ^ 8) + n mod 2 ^ 23"
      by (simp only: distrib_left)
    then show ?thesis by (simp only: p mult.assoc)
  qed
  show "unat x = 2 ^ 31 * of_bool (f32_neg_bit x) + 2 ^ 23 * f32_exp x + f32_frac x"
    unfolding e f s by (rule split)
  show "f32_exp x < 256" "f32_frac x < 2 ^ 23" by (simp_all add: e f)
qed

text \<open>Rounding a finite number's own magnitude gives its bits back, without the sign.\<close>

lemma f32_round_mag_self:
  assumes "f32_exp x < 255"
  shows "f32_round_mag (f32_mag x) = 2 ^ 23 * f32_exp x + f32_frac x"
proof (cases "f32_exp x = 0")
  case True
  then show ?thesis using f32_fields(3) [of x] by (simp add: f32_mag_def f32_round_small)
next
  case False
  have "f32_round_mag ((f32_frac x + 2 ^ 23) * 2 ^ (f32_exp x - 1)) =
      (f32_exp x - 1) * 2 ^ 23 + (f32_frac x + 2 ^ 23)"
    using f32_fields(3) [of x] assms False by (intro f32_round_exact) auto
  moreover have "(f32_exp x - 1) * 2 ^ 23 + 2 ^ 23 = 2 ^ 23 * f32_exp x"
    using False by (cases "f32_exp x") auto
  ultimately show ?thesis using False by (simp add: f32_mag_def)
qed

lemma f32_mag_zero: "f32_exp x < 255 \<Longrightarrow> f32_mag x = 0 \<longleftrightarrow> f32_exp x = 0 \<and> f32_frac x = 0"
  by (simp add: f32_mag_def)

lemma f32_int_mag: "nat \<bar>f32_int x\<bar> = f32_mag x"
  by (simp add: f32_int_def)

lemma f32_sign_or:
  assumes "n < 2 ^ 31"
  shows "unat (f32_sign_word s OR of_nat n) = 2 ^ 31 * of_bool s + n"
proof -
  have n: "unat (of_nat n :: u32) = n" using assms by (simp add: unat_of_nat)
  have "f32_sign_word s AND of_nat n = 0"
  proof (rule bit_eqI)
    fix i
    have "\<not> bit (of_nat n :: u32) 31"
      unfolding bit31 n using assms by simp
    then show "bit (f32_sign_word s AND of_nat n) i = bit (0 :: u32) i"
      by (cases s; cases "i = 31") (simp_all only: f32_sign_word_def bit_simps if_True if_False, simp_all)
  qed
  then have "f32_sign_word s OR of_nat n = f32_sign_word s + of_nat n"
    by (simp add: disjunctive_add_eq_or)
  then show ?thesis
    using assms n by (cases s) (simp_all add: f32_sign_word_def unat_word_ariths)
qed

text \<open>Decoding and encoding are inverse on finite numbers (the sign of zero is passed along).\<close>

lemma f32_of_int_int:
  assumes "f32_exp x < 255"
  shows "f32_of_int (f32_neg_bit x) (f32_int x) = x"
proof -
  have b: "2 ^ 23 * f32_exp x + f32_frac x < 2 ^ 31"
    using assms f32_fields(3) [of x] by simp
  have s: "(if f32_int x = 0 then f32_neg_bit x else f32_int x < 0) = f32_neg_bit x"
    by (simp add: f32_int_def)
  have "unat (f32_of_int (f32_neg_bit x) (f32_int x)) = unat x"
    unfolding f32_of_int_def s f32_int_mag f32_round_mag_self [OF assms] f32_sign_or [OF b]
    using f32_fields(1) [of x] by simp
  then show ?thesis by (simp add: word_unat_eq_iff)
qed

lemma f32_uminus_int: "f32_int (f32_uminus x) = - f32_int x"
proof -
  have "f32_uminus x = x XOR push_bit 31 1" by (simp add: f32_uminus_def)
  then have b: "bit (f32_uminus x) i = (bit x i \<noteq> (i = 31))" if "i < 32" for i
    using that by (simp only: bit_simps) auto
  have "drop_bit 23 (f32_uminus x) AND mask 8 = drop_bit 23 x AND mask 8"
    by (rule bit_eqI) (auto simp: bit_simps b)
  moreover have "f32_uminus x AND mask 23 = x AND mask 23"
    by (rule bit_eqI) (auto simp: bit_simps b)
  moreover have "bit (f32_uminus x) 31 = (\<not> bit x 31)" by (simp add: b)
  ultimately show ?thesis
    by (simp add: f32_int_def f32_mag_def f32_exp_def f32_frac_def f32_neg_bit_def)
qed

section \<open>Integers below \<open>2 ^ 24\<close> are exact\<close>

lemma f32_decode:
  assumes "unat x = 2 ^ 31 * of_bool s + 2 ^ 23 * e + f" "e < 256" "f < 2 ^ 23"
  shows "f32_neg_bit x = s" "f32_exp x = e" "f32_frac x = f"
proof -
  have rest: "2 ^ 23 * e + f < 2 ^ 31" using assms(2,3) by simp
  have "unat x div 2 ^ 31 = of_bool s" using rest by (cases s) (simp_all add: assms(1) add.assoc)
  then show s: "f32_neg_bit x = s" by (simp add: f32_neg_bit_def bit31 del: power_numeral)
  have eq: "2 ^ 23 * f32_exp x + f32_frac x = 2 ^ 23 * e + f"
    using f32_fields(1) [of x] by (simp add: assms(1) s add.assoc)
  have dm: "(2 ^ 23 * n + r) div 2 ^ 23 = n" if "r < 2 ^ 23" for n r :: nat using that by simp
  show e: "f32_exp x = e"
    using arg_cong [OF eq, of "\<lambda>n. n div 2 ^ 23"] unfolding dm [OF assms(3)] dm [OF f32_fields(3)] .
  show "f32_frac x = f" using eq e by simp
qed

lemma f32_int_of_int:
  assumes "nat \<bar>v\<bar> = m * 2 ^ k" "2 ^ 23 \<le> m" "m < 2 ^ 24" "k < 253"
  shows "f32_int (f32_of_int z v) = v" "f32_exp (f32_of_int z v) < 255"
proof -
  let ?x = "f32_of_int z v"
  have "v \<noteq> 0" using assms(1,2) by auto
  then have s: "(if v = 0 then z else v < 0) = (v < 0)" by simp
  have b: "k * 2 ^ 23 + m < 2 ^ 31" using assms(3,4) by simp
  have "unat ?x = 2 ^ 31 * of_bool (v < 0) + (k * 2 ^ 23 + m)"
    unfolding f32_of_int_def s assms(1) using assms(2-4) f32_sign_or [OF b] by (simp add: f32_round_exact)
  then have "unat ?x = 2 ^ 31 * of_bool (v < 0) + 2 ^ 23 * (k + 1) + (m - 2 ^ 23)"
    using assms(2) by simp
  then have d: "f32_neg_bit ?x = (v < 0)" "f32_exp ?x = k + 1" "f32_frac ?x = m - 2 ^ 23"
    by (rule f32_decode; use assms(3,4) in simp)+
  have "f32_mag ?x = m * 2 ^ k" using assms(2) by (simp add: f32_mag_def d)
  then have "int (f32_mag ?x) = \<bar>v\<bar>" using assms(1) by (metis abs_ge_zero int_nat_eq)
  then show "f32_int ?x = v" using d(1) by (simp add: f32_int_def)
  show "f32_exp ?x < 255" using d(2) assms(4) by simp
qed

lemma normalise:
  assumes "0 < a" "a < 2 ^ 24"
  shows "\<exists>j\<le>23. 2 ^ 23 \<le> a * 2 ^ j \<and> a * 2 ^ j < (2 :: nat) ^ 24"
proof -
  let ?P = "\<lambda>j. (2 :: nat) ^ 23 \<le> a * 2 ^ j"
  let ?j = "LEAST j. ?P j"
  have w: "?P 23" using assms(1) by simp
  have j: "?P ?j" "?j \<le> 23" using LeastI [of ?P, OF w] Least_le [of ?P, OF w] by auto
  have "a * 2 ^ ?j < 2 ^ 24"
  proof (cases ?j)
    case 0
    then show ?thesis using assms(2) by simp
  next
    case (Suc i)
    then have "\<not> ?P i" using not_less_Least [of i ?P] by simp
    then show ?thesis using Suc by simp
  qed
  then show ?thesis using j by blast
qed

lemma exact_word:
  assumes "unat w < 2 ^ 24" "unat w \<noteq> 0"
  shows "f32_int (f32_of_int z (int (unat w) * 2 ^ 149)) = int (unat w) * 2 ^ 149"
    "f32_exp (f32_of_int z (int (unat w) * 2 ^ 149)) < 255"
proof -
  obtain j where j: "j \<le> 23" "2 ^ 23 \<le> unat w * 2 ^ j" "unat w * 2 ^ j < 2 ^ 24"
    using normalise [of "unat w"] assms by auto
  have "nat \<bar>int (unat w) * 2 ^ 149\<bar> = unat w * 2 ^ 149" by (simp add: nat_mult_distrib nat_power_eq abs_mult)
  also have "\<dots> = (unat w * 2 ^ j) * 2 ^ (149 - j)"
    using j(1) by (simp only: mult.assoc power_add [symmetric] le_add_diff_inverse)
  finally have v: "nat \<bar>int (unat w) * 2 ^ 149\<bar> = (unat w * 2 ^ j) * 2 ^ (149 - j)" .
  show "f32_int (f32_of_int z (int (unat w) * 2 ^ 149)) = int (unat w) * 2 ^ 149"
    "f32_exp (f32_of_int z (int (unat w) * 2 ^ 149)) < 255"
    using f32_int_of_int [OF v j(2,3)] by simp_all
qed

lemma f32_of_u32_int:
  assumes "unat w < 2 ^ 24"
  shows "f32_int (f32_of_u32 w) = int (unat w) * 2 ^ 149" "f32_exp (f32_of_u32 w) < 255"
proof -
  have "f32_int (f32_of_u32 w) = int (unat w) * 2 ^ 149 \<and> f32_exp (f32_of_u32 w) < 255"
  proof (cases "unat w = 0")
    case True
    then have "f32_of_u32 w = 0" by (simp add: f32_of_u32_def f32_of_int_def f32_sign_word_def f32_round_small)
    then show ?thesis using True by (simp add: f32_int_def f32_mag_def f32_exp_def f32_frac_def)
  next
    case False
    then show ?thesis unfolding f32_of_u32_def using exact_word [OF assms] by simp
  qed
  then show "f32_int (f32_of_u32 w) = int (unat w) * 2 ^ 149" "f32_exp (f32_of_u32 w) < 255" by auto
qed

lemma f32_finite: "f32_exp x < 255 \<Longrightarrow> \<not> f32_nan x \<and> \<not> f32_inf x"
  by (simp add: f32_nan_def f32_inf_def)

text \<open>The sum of two integers is exact while the result stays below \<open>2 ^ 24\<close>.\<close>

lemma f32_add_u32:
  assumes "unat a + unat b < 2 ^ 24"
  shows "f32_int (f32_add (f32_of_u32 a) (f32_of_u32 b)) = f32_int (f32_of_u32 a) + f32_int (f32_of_u32 b)"
proof -
  have a: "unat a < 2 ^ 24" "unat b < 2 ^ 24" using assms by auto
  note A = f32_of_u32_int [OF a(1)] and B = f32_of_u32_int [OF a(2)]
  have ab: "unat (a + b) = unat a + unat b" using assms by (subst unat_word_ariths) simp
  have "f32_int (f32_of_int z (int (unat (a + b)) * 2 ^ 149)) = int (unat (a + b)) * 2 ^ 149" for z
  proof (cases "unat (a + b) = 0")
    case True
    then show ?thesis
      by (cases z) (simp_all add: f32_of_int_def f32_sign_word_def f32_round_small f32_int_def f32_mag_def
          f32_exp_def f32_frac_def unat_and_mask)
  next
    case False
    then show ?thesis using exact_word [of "a + b" z] assms ab by simp
  qed
  moreover have "f32_int (f32_of_u32 a) + f32_int (f32_of_u32 b) = int (unat (a + b)) * 2 ^ 149"
    by (simp add: A(1) B(1) ab distrib_right)
  ultimately show ?thesis
    using f32_finite [OF A(2)] f32_finite [OF B(2)] by (simp add: f32_add_def)
qed

end
