(* ===== verification/Cmd_Processor.thy ===== *)
theory Cmd_Processor
  imports Gravity_Ring Resource_Tracker Vk_Device Soft_Float
begin

text \<open>
  The command processor (\<^verbatim>\<open>host-daemon/src/cmd_processor.c\<close>): one handler per command, from
  the decoded command structure to Vulkan calls, tracker updates and completions.  The daemon's
  state holds the Vulkan state, the tracker, the ring context, the daemon's memory (the shared
  region and the memory Vulkan maps) and the Vulkan calls made so far.  A pointer to a tracker
  entry is its index.  Log messages are left out.
\<close>

section \<open>State and access\<close>

record gravity_daemon =
  dm_vk :: gravity_vk_state
  dm_tracker :: gravity_resource_tracker
  dm_ring :: gravity_ring
  dm_mem :: mem
  dm_calls :: "vk_call list"

definition dm_call :: "vulkan \<Rightarrow> gravity_daemon \<Rightarrow> vk_call \<Rightarrow> vk_reply \<times> gravity_daemon" where
  "dm_call V d c = (V (dm_calls d) c, d\<lparr>dm_calls := dm_calls d @ [c]\<rparr>)"

definition dm_tell :: "gravity_daemon \<Rightarrow> vk_call \<Rightarrow> gravity_daemon" where
  "dm_tell d c = d\<lparr>dm_calls := dm_calls d @ [c]\<rparr>"

definition dm_entry :: "gravity_daemon \<Rightarrow> nat \<Rightarrow> gravity_resource_entry" where
  "dm_entry d i = rt_entries (dm_tracker d) i"

definition dm_update :: "nat \<Rightarrow> (gravity_resource_entry \<Rightarrow> gravity_resource_entry) \<Rightarrow> gravity_daemon \<Rightarrow> gravity_daemon" where
  "dm_update i f d = d\<lparr>dm_tracker := (dm_tracker d)\<lparr>rt_entries := (rt_entries (dm_tracker d))(i := f (dm_entry d i))\<rparr>\<rparr>"

definition dm_add :: "gravity_daemon \<Rightarrow> u32 \<Rightarrow> gravity_resource_type \<Rightarrow> nat option \<times> gravity_daemon" where
  "dm_add d handle type =
     (case gravity_resource_tracker_add (dm_tracker d) handle type of
        (r, t) \<Rightarrow> (r, d\<lparr>dm_tracker := t\<rparr>))"

definition dm_get :: "gravity_daemon \<Rightarrow> u32 \<Rightarrow> nat option" where
  "dm_get d handle = gravity_resource_tracker_get (dm_tracker d) handle"

definition dm_complete :: "gravity_daemon \<Rightarrow> u8 list \<Rightarrow> gravity_daemon" where
  "dm_complete d bs =
     (case gravity_ring_comp_write (dm_ring d) (dm_mem d) bs (of_nat (length bs)) of
        (_, m) \<Rightarrow> d\<lparr>dm_mem := m\<rparr>)"

section \<open>Buffers\<close>

definition buffer_usage_all :: u32 where
  "buffer_usage_all = 0x80 OR 0x40 OR 0x10 OR 0x20 OR 0x1 OR 0x2"

definition gravity_cmd_process_create_buffer ::
  "vulkan \<Rightarrow> gravity_cmd_create_buffer \<Rightarrow> gravity_daemon \<Rightarrow> gravity_daemon" where
  "gravity_cmd_process_create_buffer V cmd d =
     (let dev = vs_device (dm_vk d);
          (b, d) = dm_call V d (Res (vkCreateBuffer dev (cb_size cmd) buffer_usage_all));
          buffer = vr_out b
      in if vr_result b \<noteq> 0 then d
         else
           let (req, d) = dm_call V d (Res (vkGetBufferMemoryRequirements dev buffer));
               mem_type = gravity_vk_find_memory_type (dm_vk d) (vr_type_bits req)
                            (gravity_translate_storage_mode (cb_storage_mode cmd));
               mem_type = (if mem_type = VK_NO_INDEX
                 then gravity_vk_find_memory_type (dm_vk d) (vr_type_bits req)
                        (VK_MEMORY_PROPERTY_HOST_VISIBLE_BIT OR VK_MEMORY_PROPERTY_HOST_COHERENT_BIT)
                 else mem_type);
               (a, d) = dm_call V d (Res (vkAllocateMemory dev (vr_size req) mem_type));
               memory = vr_out a
           in if vr_result a \<noteq> 0 then dm_tell d (Res (vkDestroyBuffer dev buffer))
              else
                let d = dm_tell d (Res (vkBindBufferMemory dev buffer memory));
                    (e, d) = dm_add d (cb_handle cmd) GRAVITY_RES_BUFFER
                in case e of
                     None \<Rightarrow> dm_tell (dm_tell d (Res (vkFreeMemory dev memory))) (Res (vkDestroyBuffer dev buffer))
                   | Some i \<Rightarrow>
                       let d = dm_update i (put_res64 buffer_mapped 0 \<circ> put_res64 buffer_size (cb_size cmd) \<circ>
                                 put_res64 buffer_memory memory \<circ> put_res64 buffer_buffer buffer) d;
                           d = (if cb_storage_mode cmd = gravity_storage_mode_val GRAVITY_STORAGE_SHARED \<or>
                                   cb_storage_mode cmd = gravity_storage_mode_val GRAVITY_STORAGE_MANAGED
                                then let (p, d) = dm_call V d (Res (vkMapMemory dev memory (cb_size cmd)))
                                     in dm_update i (put_res64 buffer_mapped (vr_out p)) d
                                else d);
                           mapped = get_res64 (dm_entry d i) buffer_mapped
                       in if 0 < cb_data_offset cmd \<and> 0 < cb_data_size cmd \<and> mapped \<noteq> 0
                          then case gravity_ring_data_ptr (dm_ring d) (dm_mem d) (cb_data_offset cmd) of
                                 None \<Rightarrow> d
                               | Some src \<Rightarrow>
                                   d\<lparr>dm_mem := wr (dm_mem d) (unat mapped)
                                       (rd (dm_mem d) src (unat (cb_data_size cmd)))\<rparr>
                          else d)"

section \<open>Textures\<close>

definition VK_IMAGE_LAYOUT_UNDEFINED :: u32 where "VK_IMAGE_LAYOUT_UNDEFINED = 0"
definition VK_IMAGE_LAYOUT_COLOR_ATTACHMENT_OPTIMAL :: u32 where "VK_IMAGE_LAYOUT_COLOR_ATTACHMENT_OPTIMAL = 2"
definition VK_IMAGE_CREATE_CUBE_COMPATIBLE_BIT :: u32 where "VK_IMAGE_CREATE_CUBE_COMPATIBLE_BIT = 0x10"

definition at_least_one :: "u32 \<Rightarrow> u32" where "at_least_one n = (if 0 < n then n else 1)"

text \<open>\<^verbatim>\<open>VK_SAMPLE_COUNT_n_BIT\<close> is \<open>n\<close>.\<close>

definition texture_samples :: "u32 \<Rightarrow> u32" where
  "texture_samples n =
     (if 1 < n then if n \<le> 2 then 2 else if n \<le> 4 then 4 else if n \<le> 8 then 8 else 16 else 1)"

definition texture_image_info :: "gravity_cmd_create_texture \<Rightarrow> u32 \<Rightarrow> vk_image_info" where
  "texture_image_info cmd vk_format =
     (let layers = at_least_one (ct_array_length cmd);
          cube = (ct_texture_type cmd = gravity_texture_type_val GRAVITY_TEXTURE_TYPE_CUBE \<or>
                  ct_texture_type cmd = gravity_texture_type_val GRAVITY_TEXTURE_TYPE_CUBE_ARRAY)
      in \<lparr>ii_flags = (if cube then VK_IMAGE_CREATE_CUBE_COMPATIBLE_BIT else 0),
          ii_type = gravity_translate_texture_type (ct_texture_type cmd),
          ii_format = vk_format,
          ii_width = at_least_one (ct_width cmd),
          ii_height = at_least_one (ct_height cmd),
          ii_depth = at_least_one (ct_depth cmd),
          ii_mip_levels = at_least_one (ct_mipmap_levels cmd),
          ii_array_layers = (if cube then layers * 6 else layers),
          ii_samples = texture_samples (ct_sample_count cmd),
          ii_usage = gravity_translate_texture_usage (ct_usage cmd) (ct_pixel_format cmd)\<rparr>)"

definition gravity_cmd_process_create_texture ::
  "vulkan \<Rightarrow> gravity_cmd_create_texture \<Rightarrow> gravity_daemon \<Rightarrow> gravity_daemon" where
  "gravity_cmd_process_create_texture V cmd d =
     (let vk_format = gravity_metal_to_vk_pixel_format (ct_pixel_format cmd)
      in if vk_format = gravity_vk_format_val GVK_FORMAT_UNDEFINED then d
         else
           let dev = vs_device (dm_vk d);
               info = texture_image_info cmd vk_format;
               (im, d) = dm_call V d (Res (vkCreateImage dev info));
               image = vr_out im
           in if vr_result im \<noteq> 0 then d
              else
                let (req, d) = dm_call V d (Res (vkGetImageMemoryRequirements dev image));
                    mem_type = gravity_vk_find_memory_type (dm_vk d) (vr_type_bits req)
                                 (gravity_translate_storage_mode (ct_storage_mode cmd));
                    mem_type = (if mem_type = VK_NO_INDEX
                      then gravity_vk_find_memory_type (dm_vk d) (vr_type_bits req)
                             VK_MEMORY_PROPERTY_DEVICE_LOCAL_BIT
                      else mem_type);
                    (a, d) = dm_call V d (Res (vkAllocateMemory dev (vr_size req) mem_type));
                    memory = vr_out a
                in if vr_result a \<noteq> 0 then dm_tell d (Res (vkDestroyImage dev image))
                   else
                     let d = dm_tell d (Res (vkBindImageMemory dev image memory));
                         view = \<lparr>iv_image = image,
                                 iv_type = gravity_translate_image_view_type (ct_texture_type cmd),
                                 iv_format = vk_format, iv_aspect = gravity_get_aspect_flags vk_format,
                                 iv_level_count = ii_mip_levels info, iv_layer_count = ii_array_layers info\<rparr>;
                         (v, d) = dm_call V d (Res (vkCreateImageView dev view));
                         image_view = vr_out v
                     in if vr_result v \<noteq> 0
                        then dm_tell (dm_tell d (Res (vkFreeMemory dev memory))) (Res (vkDestroyImage dev image))
                        else
                          let (e, d) = dm_add d (ct_handle cmd) GRAVITY_RES_TEXTURE
                          in case e of
                               None \<Rightarrow> dm_tell (dm_tell (dm_tell d (Res (vkDestroyImageView dev image_view)))
                                         (Res (vkFreeMemory dev memory))) (Res (vkDestroyImage dev image))
                             | Some i \<Rightarrow>
                                 dm_update i (put_res32 texture_current_layout VK_IMAGE_LAYOUT_UNDEFINED \<circ>
                                   put_res32 texture_format vk_format \<circ>
                                   put_res32 texture_array_layers (ii_array_layers info) \<circ>
                                   put_res32 texture_mip_levels (ii_mip_levels info) \<circ>
                                   put_res32 texture_depth (ct_depth cmd) \<circ>
                                   put_res32 texture_height (ct_height cmd) \<circ>
                                   put_res32 texture_width (ct_width cmd) \<circ>
                                   put_res64 texture_memory memory \<circ>
                                   put_res64 texture_image_view image_view \<circ>
                                   put_res64 texture_image image) d)"

section \<open>Samplers, shaders, depth-stencil states and pipelines\<close>

definition sampler_info :: "gravity_cmd_create_sampler \<Rightarrow> vk_sampler_info" where
  "sampler_info cmd =
     \<lparr>si_mag_filter = gravity_to_vk_filter (cs_mag_filter cmd),
      si_min_filter = gravity_to_vk_filter (cs_min_filter cmd),
      si_mipmap_mode = gravity_to_vk_mipmap_mode (cs_mip_filter cmd),
      si_address_u = gravity_to_vk_address_mode (cs_address_mode_s cmd),
      si_address_v = gravity_to_vk_address_mode (cs_address_mode_t cmd),
      si_address_w = gravity_to_vk_address_mode (cs_address_mode_r cmd),
      si_anisotropy_enable = (1 < cs_max_anisotropy cmd),
      si_max_anisotropy = f32_of_u32 (cs_max_anisotropy cmd),
      si_compare_enable = (cs_compare_function cmd \<noteq> gravity_compare_function_val GRAVITY_COMPARE_NEVER),
      si_compare_op = gravity_to_vk_compare_op (cs_compare_function cmd),
      si_min_lod = cs_lod_min_clamp cmd,
      si_max_lod = cs_lod_max_clamp cmd\<rparr>"

definition gravity_cmd_process_create_sampler ::
  "vulkan \<Rightarrow> gravity_cmd_create_sampler \<Rightarrow> gravity_daemon \<Rightarrow> gravity_daemon" where
  "gravity_cmd_process_create_sampler V cmd d =
     (let dev = vs_device (dm_vk d);
          (s, d) = dm_call V d (Res (vkCreateSampler dev (sampler_info cmd)))
      in if vr_result s \<noteq> 0 then d
         else
           let (e, d) = dm_add d (cs_handle cmd) GRAVITY_RES_SAMPLER
           in case e of
                None \<Rightarrow> dm_tell d (Res (vkDestroySampler dev (vr_out s)))
              | Some i \<Rightarrow> dm_update i (put_res64 sampler_sampler (vr_out s)) d)"

definition gravity_cmd_process_create_shader ::
  "gravity_cmd_create_shader \<Rightarrow> gravity_daemon \<Rightarrow> gravity_daemon" where
  "gravity_cmd_process_create_shader cmd d =
     (let (e, d) = dm_add d (csh_handle cmd) GRAVITY_RES_SHADER
      in case e of
           None \<Rightarrow> d
         | Some i \<Rightarrow> dm_update i (put_res32 shader_shader_type (csh_shader_type cmd) \<circ> put_res64 shader_module 0) d)"

text \<open>The 24 bytes of a packed stencil description, at the offset of a union member.\<close>

definition put_stencil :: "res_field \<Rightarrow> gravity_stencil_desc \<Rightarrow> gravity_resource_entry \<Rightarrow> gravity_resource_entry" where
  "put_stencil f s e =
     e\<lparr>re_union := wr (re_union e) (res_off f)
         (concat (map (le_bytes 4) [sd_stencil_compare s, sd_stencil_fail_op s, sd_depth_fail_op s,
                                    sd_depth_stencil_pass_op s, sd_read_mask s, sd_write_mask s]))\<rparr>"

definition gravity_cmd_process_create_depth_stencil ::
  "gravity_cmd_create_depth_stencil \<Rightarrow> gravity_daemon \<Rightarrow> gravity_daemon" where
  "gravity_cmd_process_create_depth_stencil cmd d =
     (let (e, d) = dm_add d (cds_handle cmd) GRAVITY_RES_DEPTH_STENCIL
      in case e of
           None \<Rightarrow> d
         | Some i \<Rightarrow>
             dm_update i (put_stencil ds_back_face (cds_back_face_stencil cmd) \<circ>
               put_stencil ds_front_face (cds_front_face_stencil cmd) \<circ>
               put_resb ds_depth_write_enabled (cds_depth_write_enabled cmd \<noteq> 0) \<circ>
               put_res32 ds_depth_compare (cds_depth_compare cmd)) d)"

definition gravity_cmd_process_create_render_pipeline ::
  "gravity_cmd_create_render_pipeline \<Rightarrow> gravity_daemon \<Rightarrow> gravity_daemon" where
  "gravity_cmd_process_create_render_pipeline cmd d =
     (let (e, d) = dm_add d (crp_handle cmd) GRAVITY_RES_RENDER_PIPELINE
      in case e of
           None \<Rightarrow> d
         | Some i \<Rightarrow>
             dm_update i (put_res64 pipeline_desc_set_layout 0 \<circ> put_res64 pipeline_layout 0 \<circ>
               put_res64 pipeline_pipeline 0) d)"

section \<open>Command buffers\<close>

definition gravity_cmd_process_cmdbuf_create ::
  "vulkan \<Rightarrow> gravity_cmd_cmdbuf_create \<Rightarrow> gravity_daemon \<Rightarrow> gravity_daemon" where
  "gravity_cmd_process_cmdbuf_create V cmd d =
     (let dev = vs_device (dm_vk d); pool = vs_graphics_cmd_pool (dm_vk d);
          (c, d) = dm_call V d (Cmd (vkAllocateCommandBuffers dev pool));
          cmd_buf = vr_out c
      in if vr_result c \<noteq> 0 then d
         else
           let (f, d) = dm_call V d (Res (vkCreateFence dev));
               fence = vr_out f
           in if vr_result f \<noteq> 0 then dm_tell d (Cmd (vkFreeCommandBuffers dev pool cmd_buf))
              else
                let d = dm_tell d (Cmd (vkBeginCommandBuffer cmd_buf));
                    (e, d) = dm_add d (cbc_handle cmd) GRAVITY_RES_CMDBUF
                in case e of
                     None \<Rightarrow> dm_tell (dm_tell d (Res (vkDestroyFence dev fence)))
                               (Cmd (vkFreeCommandBuffers dev pool cmd_buf))
                   | Some i \<Rightarrow>
                       dm_update i (put_resb cmdbuf_in_render_pass False \<circ> put_resb cmdbuf_recording True \<circ>
                         put_res64 cmdbuf_fence fence \<circ> put_res64 cmdbuf_cmd_buf cmd_buf) d)"

definition completed_bytes :: "gravity_cmd_cmdbuf_commit \<Rightarrow> u8 list" where
  "completed_bytes cmd = gravity_cmd_cmdbuf_completed_bytes
     \<lparr>comp_hdr = gravity_cmd_init (gravity_cmd_op_val GRAVITY_CMD_CMDBUF_COMPLETED) 32
                   (hdr_sequence (cbm_hdr cmd)),
      comp_handle = cbm_handle cmd, comp_status = 0, comp_gpu_time_ns = 0\<rparr>"

definition gravity_cmd_process_cmdbuf_commit ::
  "gravity_cmd_cmdbuf_commit \<Rightarrow> gravity_daemon \<Rightarrow> gravity_daemon" where
  "gravity_cmd_process_cmdbuf_commit cmd d =
     (case dm_get d (cbm_handle cmd) of
        None \<Rightarrow> d
      | Some i \<Rightarrow>
          if re_type (dm_entry d i) \<noteq> GRAVITY_RES_CMDBUF then d
          else
            let dev = vs_device (dm_vk d); queue = vs_graphics_queue (dm_vk d);
                cmd_buf = get_res64 (dm_entry d i) cmdbuf_cmd_buf;
                fence = get_res64 (dm_entry d i) cmdbuf_fence;
                d = dm_tell d (Cmd (vkEndCommandBuffer cmd_buf));
                d = dm_update i (put_resb cmdbuf_recording False) d;
                d = dm_tell d (Cmd (vkQueueSubmit queue cmd_buf fence));
                d = dm_tell d (Cmd (vkWaitForFences dev fence));
                d = dm_complete d (completed_bytes cmd);
                d = dm_tell d (Cmd (vkResetFences dev fence))
            in dm_tell d (Cmd (vkResetCommandBuffer cmd_buf)))"

section \<open>Render commands\<close>

definition GRAVITY_MAX_COLOR_ATTACHMENTS :: nat where "GRAVITY_MAX_COLOR_ATTACHMENTS = 8"

text \<open>One round of the attachment loop: the attachment's description and, if the texture is not
  in the attachment layout yet, a barrier recorded into the command buffer of entry \<open>cb\<close>.\<close>

definition color_step ::
  "nat \<Rightarrow> gravity_color_attachment_action \<Rightarrow> gravity_daemon \<Rightarrow> vk_color_attachment \<times> gravity_daemon" where
  "color_step cb ca d =
     (let tex = dm_get d (caa_texture ca);
          att = \<lparr>ka_image_view = (case tex of Some t \<Rightarrow> get_res64 (dm_entry d t) texture_image_view | None \<Rightarrow> 0),
                 ka_load_op = gravity_to_vk_load_op (caa_load_action ca),
                 ka_store_op = gravity_to_vk_store_op (caa_store_action ca),
                 ka_clear = caa_clear_color ca\<rparr>
      in case tex of
           None \<Rightarrow> (att, d)
         | Some t \<Rightarrow>
             if get_res32 (dm_entry d t) texture_current_layout \<noteq> VK_IMAGE_LAYOUT_COLOR_ATTACHMENT_OPTIMAL then
               let barrier = \<lparr>ib_old_layout = get_res32 (dm_entry d t) texture_current_layout,
                              ib_new_layout = VK_IMAGE_LAYOUT_COLOR_ATTACHMENT_OPTIMAL,
                              ib_image = get_res64 (dm_entry d t) texture_image,
                              ib_aspect = VK_IMAGE_ASPECT_COLOR_BIT,
                              ib_base_level = caa_level ca, ib_base_layer = caa_slice ca\<rparr>;
                   d = dm_tell d (Cmd (vkCmdPipelineBarrier (get_res64 (dm_entry d cb) cmdbuf_cmd_buf) barrier))
               in (att, dm_update t (put_res32 texture_current_layout VK_IMAGE_LAYOUT_COLOR_ATTACHMENT_OPTIMAL) d)
             else (att, d))"

fun color_loop ::
  "nat \<Rightarrow> gravity_color_attachment_action list \<Rightarrow> gravity_daemon \<Rightarrow> vk_color_attachment list \<times> gravity_daemon" where
  "color_loop cb [] d = ([], d)"
| "color_loop cb (ca # cas) d =
     (let (att, d) = color_step cb ca d; (atts, d) = color_loop cb cas d in (att # atts, d))"

text \<open>
  \<open>None\<close>: the loop writes behind the array of eight attachments, which is undefined behaviour.
\<close>

definition process_render_begin ::
  "gravity_cmd_render_begin \<Rightarrow> gravity_daemon \<Rightarrow> gravity_daemon option" where
  "process_render_begin cmd d =
     (case dm_get d (rb_cmdbuf cmd) of
        None \<Rightarrow> Some d
      | Some cb \<Rightarrow>
          if GRAVITY_MAX_COLOR_ATTACHMENTS < unat (rb_num_color_attachments cmd) then None
          else
            let (atts, d) = color_loop cb (take (unat (rb_num_color_attachments cmd)) (rb_color_attachments cmd)) d;
                da = rb_depth_attachment cmd;
                depth = (if daa_texture da \<noteq> GRAVITY_INVALID_HANDLE
                  then case dm_get d (daa_texture da) of
                         None \<Rightarrow> None
                       | Some t \<Rightarrow> Some \<lparr>kd_image_view = get_res64 (dm_entry d t) texture_image_view,
                                         kd_load_op = gravity_to_vk_load_op (daa_load_action da),
                                         kd_store_op = gravity_to_vk_store_op (daa_store_action da),
                                         kd_clear_depth = daa_clear_depth da\<rparr>
                  else None);
                info = \<lparr>ri_area = (rb_render_area_x cmd, rb_render_area_y cmd,
                                   rb_render_area_width cmd, rb_render_area_height cmd),
                        ri_color = atts, ri_depth = depth\<rparr>;
                d = dm_tell d (Cmd (vkCmdBeginRendering (get_res64 (dm_entry d cb) cmdbuf_cmd_buf) info))
            in Some (dm_update cb (put_resb cmdbuf_in_render_pass True) d))"

definition process_render_end :: "gravity_cmd_render_end \<Rightarrow> gravity_daemon \<Rightarrow> gravity_daemon" where
  "process_render_end cmd d =
     (case dm_get d (re_cmdbuf cmd) of
        None \<Rightarrow> d
      | Some cb \<Rightarrow>
          if get_resb (dm_entry d cb) cmdbuf_in_render_pass
          then dm_update cb (put_resb cmdbuf_in_render_pass False)
                 (dm_tell d (Cmd (vkCmdEndRendering (get_res64 (dm_entry d cb) cmdbuf_cmd_buf))))
          else d)"

definition process_set_viewport :: "gravity_cmd_render_set_viewport \<Rightarrow> gravity_daemon \<Rightarrow> gravity_daemon" where
  "process_set_viewport cmd d =
     (case dm_get d (svp_cmdbuf cmd) of
        None \<Rightarrow> d
      | Some cb \<Rightarrow>
          let v = svp_viewport cmd
          in dm_tell d (Cmd (vkCmdSetViewport (get_res64 (dm_entry d cb) cmdbuf_cmd_buf)
               [vp_x v, f32_add (vp_y v) (vp_height v), vp_width v, f32_uminus (vp_height v), vp_znear v, vp_zfar v])))"

definition process_set_scissor :: "gravity_cmd_render_set_scissor \<Rightarrow> gravity_daemon \<Rightarrow> gravity_daemon" where
  "process_set_scissor cmd d =
     (case dm_get d (ssc_cmdbuf cmd) of
        None \<Rightarrow> d
      | Some cb \<Rightarrow>
          let r = ssc_rect cmd
          in dm_tell d (Cmd (vkCmdSetScissor (get_res64 (dm_entry d cb) cmdbuf_cmd_buf)
               [sr_x r, sr_y r, sr_width r, sr_height r])))"

definition process_set_vertex_buffer ::
  "gravity_cmd_render_set_vertex_buffer \<Rightarrow> gravity_daemon \<Rightarrow> gravity_daemon" where
  "process_set_vertex_buffer cmd d =
     (case (dm_get d (svb_cmdbuf cmd), dm_get d (svb_buffer cmd)) of
        (Some cb, Some b) \<Rightarrow>
          dm_tell d (Cmd (vkCmdBindVertexBuffers (get_res64 (dm_entry d cb) cmdbuf_cmd_buf) (svb_index cmd)
            (get_res64 (dm_entry d b) buffer_buffer) (ucast (svb_offset cmd))))
      | _ \<Rightarrow> d)"

definition process_draw :: "gravity_cmd_render_draw \<Rightarrow> gravity_daemon \<Rightarrow> gravity_daemon" where
  "process_draw cmd d =
     (case dm_get d (drw_cmdbuf cmd) of
        None \<Rightarrow> d
      | Some cb \<Rightarrow> dm_tell d (Cmd (vkCmdDraw (get_res64 (dm_entry d cb) cmdbuf_cmd_buf)
                     (drw_vertex_count cmd) 1 (drw_vertex_start cmd) 0)))"

definition process_draw_indexed :: "gravity_cmd_render_draw_indexed \<Rightarrow> gravity_daemon \<Rightarrow> gravity_daemon" where
  "process_draw_indexed cmd d =
     (case (dm_get d (rdx_cmdbuf cmd), dm_get d (rdx_index_buffer cmd)) of
        (Some cb, Some b) \<Rightarrow>
          let d = dm_tell d (Cmd (vkCmdBindIndexBuffer (get_res64 (dm_entry d cb) cmdbuf_cmd_buf)
                    (get_res64 (dm_entry d b) buffer_buffer) (ucast (rdx_index_buffer_offset cmd))
                    (gravity_to_vk_index_type (rdx_index_type cmd))))
          in dm_tell d (Cmd (vkCmdDrawIndexed (get_res64 (dm_entry d cb) cmdbuf_cmd_buf) (rdx_index_count cmd)))
      | _ \<Rightarrow> d)"

definition process_draw_instanced :: "gravity_cmd_render_draw_instanced \<Rightarrow> gravity_daemon \<Rightarrow> gravity_daemon" where
  "process_draw_instanced cmd d =
     (case dm_get d (rdi_cmdbuf cmd) of
        None \<Rightarrow> d
      | Some cb \<Rightarrow> dm_tell d (Cmd (vkCmdDraw (get_res64 (dm_entry d cb) cmdbuf_cmd_buf)
                     (rdi_vertex_count cmd) (rdi_instance_count cmd) (rdi_vertex_start cmd) (rdi_base_instance cmd))))"

text \<open>The command data starts at address 0 of the daemon's read buffer.\<close>

definition gravity_cmd_process_render ::
  "gravity_cmd_header \<Rightarrow> mem \<Rightarrow> gravity_daemon \<Rightarrow> gravity_daemon option" where
  "gravity_cmd_process_render hdr buf d =
     (let op = hdr_opcode hdr
      in if op = gravity_cmd_op_val GRAVITY_CMD_RENDER_BEGIN
         then process_render_begin (gravity_cmd_render_begin_at buf 0) d
         else if op = gravity_cmd_op_val GRAVITY_CMD_RENDER_END
         then Some (process_render_end (gravity_cmd_render_end_at buf 0) d)
         else if op = gravity_cmd_op_val GRAVITY_CMD_RENDER_SET_VIEWPORT
         then Some (process_set_viewport (gravity_cmd_render_set_viewport_at buf 0) d)
         else if op = gravity_cmd_op_val GRAVITY_CMD_RENDER_SET_SCISSOR
         then Some (process_set_scissor (gravity_cmd_render_set_scissor_at buf 0) d)
         else if op = gravity_cmd_op_val GRAVITY_CMD_RENDER_SET_VERTEX_BUFFER
         then Some (process_set_vertex_buffer (gravity_cmd_render_set_vertex_buffer_at buf 0) d)
         else if op = gravity_cmd_op_val GRAVITY_CMD_RENDER_DRAW
         then Some (process_draw (gravity_cmd_render_draw_at buf 0) d)
         else if op = gravity_cmd_op_val GRAVITY_CMD_RENDER_DRAW_INDEXED
         then Some (process_draw_indexed (gravity_cmd_render_draw_indexed_at buf 0) d)
         else if op = gravity_cmd_op_val GRAVITY_CMD_RENDER_DRAW_INSTANCED
         then Some (process_draw_instanced (gravity_cmd_render_draw_instanced_at buf 0) d)
         else Some d)"

section \<open>Stubs\<close>

text \<open>These handlers only write a message to the log.\<close>

definition gravity_cmd_process_compute :: "gravity_cmd_header \<Rightarrow> gravity_daemon \<Rightarrow> gravity_daemon" where
  "gravity_cmd_process_compute hdr d = d"

definition gravity_cmd_process_blit :: "gravity_cmd_header \<Rightarrow> gravity_daemon \<Rightarrow> gravity_daemon" where
  "gravity_cmd_process_blit hdr d = d"

definition gravity_cmd_process_present :: "gravity_cmd_present \<Rightarrow> gravity_daemon \<Rightarrow> gravity_daemon" where
  "gravity_cmd_process_present cmd d = d"

definition gravity_cmd_process_resize_display :: "gravity_cmd_resize_display \<Rightarrow> gravity_daemon \<Rightarrow> gravity_daemon" where
  "gravity_cmd_process_resize_display cmd d = d"

end
