(* ===== verification/Tracker_Contract.thy ===== *)
theory Tracker_Contract
  imports Resource_Tracker
begin

text \<open>
  What clients of the resource tracker rely on: a finite map from handles to entries.  The
  locale \<open>handle_map\<close> states that contract, its client lemmas refine any admissible run to a
  set of handles, and the interpretation shows where the tracker meets it: as long as fewer
  than 4096 handles are live and no removed handle sits on another's probe path.  The
  theorems at the end show that neither condition can be dropped.
\<close>

section \<open>Findable handles\<close>

definition trk_strong :: "gravity_resource_tracker \<Rightarrow> bool" where
  "trk_strong t \<longleftrightarrow> trk_ok t \<and>
     (\<forall>i\<in>live t. gravity_resource_tracker_get t (re_handle (rt_entries t i)) = Some i)"

lemma strong_ok: "trk_strong t \<Longrightarrow> trk_ok t"
  by (simp add: trk_strong_def)

lemma strong_get:
  "trk_strong t \<Longrightarrow>
     gravity_resource_tracker_get t h = Some i \<longleftrightarrow> i \<in> live t \<and> re_handle (rt_entries t i) = h"
  using get_live [of t h i] by (auto simp: trk_strong_def)

lemma strong_get_None:
  "trk_strong t \<Longrightarrow>
     gravity_resource_tracker_get t h = None \<longleftrightarrow> (\<forall>i\<in>live t. re_handle (rt_entries t i) \<noteq> h)"
  by (metis option.exhaust_sel option.distinct(1) strong_get)

lemma strong_reaches:
  assumes "trk_strong t" "j \<in> live t"
  obtains s where "reaches t (re_handle (rt_entries t j)) s" "unat (rt_hash_table t s) = j"
    "re_handle (rt_entries t j) \<noteq> 0"
proof -
  have "gravity_resource_tracker_get t (re_handle (rt_entries t j)) = Some j"
    using assms by (simp add: trk_strong_def)
  then show thesis using that by (auto simp: get_Some)
qed

lemma init_strong [simp]: "trk_strong (gravity_resource_tracker_init t)"
  by (simp add: trk_strong_def)

text \<open>A slot and the entry it points to are the same in two states.\<close>

definition same_slot :: "gravity_resource_tracker \<Rightarrow> gravity_resource_tracker \<Rightarrow> nat \<Rightarrow> bool" where
  "same_slot t t' s \<longleftrightarrow> rt_hash_table t' s = rt_hash_table t s \<and>
     rt_entries t' (unat (rt_hash_table t s)) = rt_entries t (unat (rt_hash_table t s))"

lemma same_slot_hit: "same_slot t t' s \<Longrightarrow> hit t' h s = hit t h s"
  by (simp add: same_slot_def hit_def)

lemma same_slot_passed: "same_slot t t' s \<Longrightarrow> passed t' h s = passed t h s"
  by (simp add: passed_def same_slot_hit) (simp add: same_slot_def)

lemma reaches_cong:
  assumes "reaches t h s"
    and "\<And>q r. q < 4096 \<Longrightarrow> s = pslot h q \<Longrightarrow> r \<le> q \<Longrightarrow> rt_hash_table t (pslot h r) \<noteq> UINT32_MAX \<Longrightarrow>
           (\<forall>r'<r. passed t h (pslot h r')) \<Longrightarrow> same_slot t t' (pslot h r)"
  shows "reaches t' h s"
proof -
  obtain q where q: "q < 4096" "s = pslot h q" "hit t h s" "\<forall>r<q. passed t h (pslot h r)"
    using assms(1) by (auto simp: reaches_def)
  have same: "same_slot t t' (pslot h r)" if "r \<le> q" for r
  proof (rule assms(2) [OF q(1,2) that])
    show "rt_hash_table t (pslot h r) \<noteq> UINT32_MAX"
      using q that by (cases "r = q") (auto simp: hit_def passed_def)
    show "\<forall>r'<r. passed t h (pslot h r')" using q(4) that by auto
  qed
  have "hit t' h s" using same [of q] q by (simp add: same_slot_hit)
  moreover have "\<forall>r<q. passed t' h (pslot h r)"
    using same_slot_passed [OF same] q(4) by (meson less_imp_le)
  ultimately show ?thesis using q unfolding reaches_def by blast
qed

section \<open>Adding to a table with room\<close>

lemma empty_slot_exists:
  assumes "trk_ok t" "unat (rt_entry_count t) < 4096"
  shows "\<exists>s<4096. rt_hash_table t s = UINT32_MAX"
proof (rule ccontr)
  obtain fl where fl: "trk_inv t fl" using assms(1) by (auto simp: trk_ok_def)
  assume "\<not> (\<exists>s<4096. rt_hash_table t s = UINT32_MAX)"
  then have ne: "rt_hash_table t s \<noteq> UINT32_MAX" if "s < 4096" for s using that by blast
  have sub: "(\<lambda>s. unat (rt_hash_table t s)) ` {..<4096} \<subseteq> live t"
    using trk_invD(4) [OF fl] ne by auto
  have "{s. s < 4096 \<and> rt_hash_table t s \<noteq> UINT32_MAX} = {..<4096}" using ne by auto
  then have "inj_on (rt_hash_table t) {..<4096}" using trk_invD(5) [OF fl] by simp
  then have "inj_on (\<lambda>s. unat (rt_hash_table t s)) {..<4096}"
    by (simp add: inj_on_def word_unat_eq_iff)
  then have "4096 \<le> card (live t)" using card_inj_on_le [OF _ sub] by simp
  then show False using assms trk_count by simp
qed

lemma room_free_list:
  assumes "trk_inv t fl" "unat (rt_entry_count t) < 4096"
  obtains i fl' where "fl = i # fl'"
proof (cases rule: free_head_cases [OF assms(1)])
  case 1
  have "trk_ok t" using assms(1) by (auto simp: trk_ok_def)
  then show thesis using 1 assms(2) trk_count [of t] by simp
qed (rule that)

lemma add_room:
  assumes t: "trk_strong t" and room: "unat (rt_entry_count t) < 4096"
    and h: "h \<noteq> 0" "gravity_resource_tracker_get t h = None"
  shows "\<exists>i t'. gravity_resource_tracker_add t h ty = (Some i, t') \<and> trk_strong t' \<and>
           i \<notin> live t \<and> live t' = insert i (live t) \<and> rt_entries t' = (rt_entries t)(i := new_entry h ty)"
proof -
  obtain fl0 where "trk_inv t fl0" using t by (auto simp: trk_strong_def trk_ok_def)
  then obtain i fl where fl: "trk_inv t (i # fl)" using room_free_list [OF _ room] by metis
  let ?t = "snd (gravity_resource_tracker_add t h ty)"
  note add = add_taken [OF fl h] and inv = add_inv(1) [OF fl h, of ty] add_inv(2) [OF fl h, of ty] add_inv(3) [OF fl h]
  have i: "i < 65536" "(of_nat i :: u32) \<noteq> UINT32_MAX" "unat (of_nat i :: u32) = i"
    using trk_invD(1) [OF fl] of_nat_max unat_small by auto
  have ent: "rt_entries ?t = (rt_entries t)(i := new_entry h ty)" by (simp add: add)
  obtain q where q: "q < 4096" "rt_hash_table t (pslot h q) = UINT32_MAX"
      "\<forall>r<q. rt_hash_table t (pslot h r) \<noteq> UINT32_MAX"
      "rt_hash_table ?t = (rt_hash_table t)(pslot h q := of_nat i)"
    using empty_slot_exists [OF strong_ok [OF t] room]
    by (cases rule: probe_insert_cases [of "rt_hash_table t" "of_nat i" h]) (auto simp: add)
  have same: "same_slot t ?t s" if "rt_hash_table t s \<noteq> UINT32_MAX" "s < 4096" for s
  proof -
    have "unat (rt_hash_table t s) \<in> live t" using trk_invD(4) [OF fl] that by simp
    then show ?thesis using that q(2) inv(3) by (auto simp: same_slot_def q(4) ent)
  qed
  have new: "reaches ?t h (pslot h q)"
  proof -
    have "hit ?t h (pslot h q)" using i by (simp add: hit_def q(4) ent)
    moreover have "passed ?t h (pslot h r)" if "r < q" for r
    proof -
      have ne: "rt_hash_table t (pslot h r) \<noteq> UINT32_MAX" using q(3) that by simp
      then have "unat (rt_hash_table t (pslot h r)) \<in> live t" using trk_invD(4) [OF fl] by simp
      then have "\<not> hit t h (pslot h r)" using h(2) t by (auto simp: hit_def strong_get_None)
      then show ?thesis using same_slot_passed [OF same [OF ne]] ne by (simp add: passed_def)
    qed
    ultimately show ?thesis using q(1) unfolding reaches_def by blast
  qed
  have "gravity_resource_tracker_get ?t (re_handle (rt_entries ?t j)) = Some j" if "j \<in> live ?t" for j
  proof (cases "j = i")
    case True
    then show ?thesis using new h(1) i by (auto simp: get_Some ent q(4))
  next
    case False
    then have j: "j \<in> live t" "rt_entries ?t j = rt_entries t j" using that inv(2) ent by auto
    obtain s where s: "reaches t (re_handle (rt_entries t j)) s" "unat (rt_hash_table t s) = j"
        "re_handle (rt_entries t j) \<noteq> 0"
      by (rule strong_reaches [OF t j(1)])
    have "reaches ?t (re_handle (rt_entries t j)) s"
      using s(1) by (rule reaches_cong) (rule same, simp_all)
    moreover have "rt_hash_table ?t s = rt_hash_table t s"
      using same [of s] reaches_slot [OF s(1)] by (simp add: same_slot_def)
    ultimately show ?thesis using s(2,3) j(2) by (auto simp: get_Some)
  qed
  then have "trk_strong ?t" using inv(1) by (auto simp: trk_strong_def trk_ok_def)
  then show ?thesis using inv(2,3) ent add by auto
qed

section \<open>Removing: displaced handles\<close>

text \<open>The probe path of \<open>h\<close> passes slot \<open>s\<close> before it reaches \<open>h\<close>.\<close>

definition displaced :: "gravity_resource_tracker \<Rightarrow> u32 \<Rightarrow> nat \<Rightarrow> bool" where
  "displaced t h s \<longleftrightarrow> (\<exists>q<4096. reaches t h (pslot h q) \<and> (\<exists>r<q. pslot h r = s))"

definition clear_of :: "gravity_resource_tracker \<Rightarrow> u32 \<Rightarrow> bool" where
  "clear_of t h \<longleftrightarrow>
     (\<forall>s. reaches t h s \<longrightarrow> (\<forall>j\<in>live t. \<not> displaced t (re_handle (rt_entries t j)) s))"

lemma remove_same_slot:
  assumes "trk_inv t fl" "h \<noteq> 0" "reaches t h s" "s' < 4096" "s' \<noteq> s"
    and "rt_hash_table t s' \<noteq> UINT32_MAX"
  shows "same_slot t (gravity_resource_tracker_remove t h) s'"
proof -
  have "rt_hash_table t s' \<noteq> rt_hash_table t s"
    using inj_onD [OF trk_invD(5) [OF assms(1)], of s' s] reaches_slot [OF assms(3)] assms(4-6) by auto
  then have "unat (rt_hash_table t s') \<noteq> unat (rt_hash_table t s)" by (metis word_unat_eq_iff)
  then show ?thesis
    using assms(5) by (simp add: same_slot_def remove_found [OF assms(2,3)] Let_def)
qed

lemma remove_entries:
  assumes "h \<noteq> 0" "reaches t h s" "j \<noteq> unat (rt_hash_table t s)"
  shows "rt_entries (gravity_resource_tracker_remove t h) j = rt_entries t j"
  using assms by (simp add: remove_found Let_def)

lemma remove_strong:
  assumes t: "trk_strong t" and c: "clear_of t h"
  shows "trk_strong (gravity_resource_tracker_remove t h)"
proof (cases "gravity_resource_tracker_get t h")
  case (Some i)
  then obtain s where h: "h \<noteq> 0" and s: "reaches t h s" and i: "i = unat (rt_hash_table t s)"
    by (auto simp: get_Some)
  obtain fl where fl: "trk_inv t fl" using t by (auto simp: trk_strong_def trk_ok_def)
  let ?t = "gravity_resource_tracker_remove t h"
  note inv = remove_inv [OF fl h s]
  have "gravity_resource_tracker_get ?t (re_handle (rt_entries ?t j)) = Some j" if "j \<in> live ?t" for j
  proof -
    have j: "j \<in> live t" "j \<noteq> unat (rt_hash_table t s)" using that inv(2) by auto
    let ?h = "re_handle (rt_entries t j)"
    obtain sj where sj: "reaches t ?h sj" "unat (rt_hash_table t sj) = j" "?h \<noteq> 0"
      by (rule strong_reaches [OF t j(1)])
    have ns: "\<not> displaced t ?h s" using c s j(1) by (auto simp: clear_of_def)
    have "same_slot t ?t (pslot ?h r)"
      if q: "q < 4096" "sj = pslot ?h q" "r \<le> q" "rt_hash_table t (pslot ?h r) \<noteq> UINT32_MAX" for q r
    proof (rule remove_same_slot [OF fl h s])
      show "pslot ?h r \<noteq> s"
        using ns sj(1,2) j(2) q(1-3) unfolding displaced_def by (metis le_neq_implies_less)
    qed (use q in simp_all)
    then have r: "reaches ?t ?h sj" by (intro reaches_cong [OF sj(1)]) blast
    have "sj \<noteq> s" using sj(2) j(2) by blast
    then have "rt_hash_table ?t sj = rt_hash_table t sj" by (simp add: remove_found [OF h s] Let_def)
    then show ?thesis using r sj(2,3) remove_entries [OF h s j(2)] by (auto simp: get_Some)
  qed
  then show ?thesis using inv(1) by (auto simp: trk_strong_def trk_ok_def)
qed (use t in \<open>simp add: remove_nothing\<close>)

text \<open>A displaced handle stays live and can no longer be found.\<close>

lemma remove_loses:
  assumes t: "trk_strong t" and s: "reaches t h s" and h: "h \<noteq> 0"
    and j: "j \<in> live t" and d: "displaced t (re_handle (rt_entries t j)) s"
  shows "j \<in> live (gravity_resource_tracker_remove t h) \<and>
         rt_entries (gravity_resource_tracker_remove t h) j = rt_entries t j \<and>
         gravity_resource_tracker_get (gravity_resource_tracker_remove t h) (re_handle (rt_entries t j)) = None"
proof -
  obtain fl where fl: "trk_inv t fl" using t by (auto simp: trk_strong_def trk_ok_def)
  let ?t = "gravity_resource_tracker_remove t h" and ?h = "re_handle (rt_entries t j)"
  obtain q r where q: "q < 4096" "reaches t ?h (pslot ?h q)" "r < q" "pslot ?h r = s"
    using d by (auto simp: displaced_def)
  have before: "passed t ?h (pslot ?h p)" if "p < q" for p
  proof -
    obtain q' where "q' < 4096" "pslot ?h q = pslot ?h q'" "\<forall>p<q'. passed t ?h (pslot ?h p)"
      using q(2) by (auto simp: reaches_def)
    then show ?thesis using that q(1) by (simp add: pslot_inj)
  qed
  have ji: "j \<noteq> unat (rt_hash_table t s)"
  proof
    assume "j = unat (rt_hash_table t s)"
    then have "hit t ?h s" using reaches_slot [OF s] j by (auto simp: hit_def live_def)
    then show False using before [OF q(3)] q(4) by (simp add: passed_def)
  qed
  have empty: "rt_hash_table ?t s = UINT32_MAX" by (simp add: remove_found [OF h s] Let_def)
  have "\<not> reaches ?t ?h s'" for s'
  proof
    assume "reaches ?t ?h s'"
    then obtain p where p: "p < 4096" "s' = pslot ?h p" "hit ?t ?h s'" "\<forall>r<p. passed ?t ?h (pslot ?h r)"
      by (auto simp: reaches_def)
    have "\<not> r < p" using p(4) empty q(4) by (auto simp: passed_def)
    moreover have "p \<noteq> r" using p(2,3) empty q(4) by (auto simp: hit_def)
    ultimately have pr: "p < r" by simp
    then have pass: "passed t ?h s'" using before [of p] q(3) p(2) by simp
    have "s' \<noteq> s" using pr p(1,2) q pslot_inj [of p r ?h] by auto
    then have "same_slot t ?t s'"
      using pass p(2) by (intro remove_same_slot [OF fl h s]) (auto simp: passed_def)
    then show False using p(3) pass by (simp add: same_slot_hit passed_def)
  qed
  then have "gravity_resource_tracker_get ?t ?h \<noteq> Some i" for i unfolding get_Some by blast
  then have "gravity_resource_tracker_get ?t ?h = None" by (metis not_None_eq)
  then show ?thesis using remove_inv(2) [OF fl h s] j ji remove_entries [OF h s ji] by simp
qed

lemma remove_strong_iff:
  assumes "trk_strong t"
  shows "trk_strong (gravity_resource_tracker_remove t h) \<longleftrightarrow> h = 0 \<or> clear_of t h"
proof
  assume r: "trk_strong (gravity_resource_tracker_remove t h)"
  show "h = 0 \<or> clear_of t h"
  proof (rule ccontr)
    assume "\<not> (h = 0 \<or> clear_of t h)"
    then obtain s j where "h \<noteq> 0" "reaches t h s" "j \<in> live t" "displaced t (re_handle (rt_entries t j)) s"
      by (auto simp: clear_of_def)
    then show False
      using remove_loses [OF assms, of h s j] r by (auto simp: strong_get_None)
  qed
next
  have "gravity_resource_tracker_remove t 0 = t"
    by (simp add: gravity_resource_tracker_remove_def GRAVITY_INVALID_HANDLE_def)
  moreover assume "h = 0 \<or> clear_of t h"
  ultimately show "trk_strong (gravity_resource_tracker_remove t h)"
    using remove_strong [OF assms] assms by metis
qed

section \<open>The contract\<close>

datatype 'ty table_op = TAdd u32 'ty | TRemove u32

text \<open>A run of operations, with whether each addition was accepted.\<close>

fun run_table ::
  "('s \<Rightarrow> u32 \<Rightarrow> 'ty \<Rightarrow> nat option \<times> 's) \<Rightarrow> ('s \<Rightarrow> u32 \<Rightarrow> 's) \<Rightarrow> 's \<Rightarrow> 'ty table_op list \<Rightarrow> 's \<times> bool list" where
  "run_table ins del s [] = (s, [])"
| "run_table ins del s (TAdd h ty # ops) =
     (case ins s h ty of (r, s') \<Rightarrow>
        (case run_table ins del s' ops of (t, log) \<Rightarrow> (t, (r \<noteq> None) # log)))"
| "run_table ins del s (TRemove h # ops) = run_table ins del (del s h) ops"

text \<open>The same run on a set of handles.\<close>

fun spec_table :: "u32 set \<Rightarrow> 'ty table_op list \<Rightarrow> u32 set \<times> bool list" where
  "spec_table S [] = (S, [])"
| "spec_table S (TAdd h ty # ops) =
     (let ok = (h \<noteq> 0 \<and> h \<notin> S)
      in case spec_table (if ok then insert h S else S) ops of (T, log) \<Rightarrow> (T, ok # log))"
| "spec_table S (TRemove h # ops) = spec_table (S - {h}) ops"

fun admissible ::
  "('s \<Rightarrow> bool) \<Rightarrow> ('s \<Rightarrow> u32 \<Rightarrow> bool) \<Rightarrow> ('s \<Rightarrow> u32 \<Rightarrow> 'ty \<Rightarrow> nat option \<times> 's) \<Rightarrow> ('s \<Rightarrow> u32 \<Rightarrow> 's) \<Rightarrow>
     's \<Rightarrow> 'ty table_op list \<Rightarrow> bool" where
  "admissible room clr ins del s [] = True"
| "admissible room clr ins del s (TAdd h ty # ops) =
     (room s \<and> admissible room clr ins del (snd (ins s h ty)) ops)"
| "admissible room clr ins del s (TRemove h # ops) =
     (clr s h \<and> admissible room clr ins del (del s h) ops)"

locale handle_map =
  fixes inv :: "'s \<Rightarrow> bool" and look :: "'s \<Rightarrow> u32 \<Rightarrow> nat option"
    and ins :: "'s \<Rightarrow> u32 \<Rightarrow> 'ty \<Rightarrow> nat option \<times> 's" and del :: "'s \<Rightarrow> u32 \<Rightarrow> 's"
    and room :: "'s \<Rightarrow> bool" and clr :: "'s \<Rightarrow> u32 \<Rightarrow> bool"
  assumes ins_new: "inv s \<Longrightarrow> room s \<Longrightarrow> h \<noteq> 0 \<Longrightarrow> look s h = None \<Longrightarrow>
      \<exists>i s'. ins s h ty = (Some i, s') \<and> inv s' \<and> look s' = (look s)(h \<mapsto> i)"
    and ins_old: "inv s \<Longrightarrow> h = 0 \<or> look s h \<noteq> None \<Longrightarrow> ins s h ty = (None, s)"
    and del_law: "inv s \<Longrightarrow> clr s h \<Longrightarrow> inv (del s h) \<and> look (del s h) = (look s)(h := None)"
begin

lemma run_refines:
  assumes "inv s" "admissible room clr ins del s ops" "run_table ins del s ops = (t, log)"
  shows "inv t \<and> spec_table (dom (look s)) ops = (dom (look t), log)"
  using assms
proof (induction ops arbitrary: s log)
  case (Cons op ops)
  show ?case
  proof (cases op)
    case (TAdd h ty)
    obtain r s' where i: "ins s h ty = (r, s')" by force
    have l: "inv s' \<and> (r \<noteq> None) = (h \<noteq> 0 \<and> h \<notin> dom (look s)) \<and>
        dom (look s') = (if h \<noteq> 0 \<and> h \<notin> dom (look s) then insert h (dom (look s)) else dom (look s))"
    proof (cases "h = 0 \<or> look s h \<noteq> None")
      case True
      then show ?thesis using ins_old [OF Cons.prems(1) True, of ty] i Cons.prems(1) by auto
    next
      case False
      then show ?thesis using ins_new [OF Cons.prems(1), of h ty] i Cons.prems(2) TAdd by auto
    qed
    obtain log' where r: "run_table ins del s' ops = (t, log')" "log = (r \<noteq> None) # log'"
      using Cons.prems(3) TAdd i by (auto split: prod.splits)
    have "admissible room clr ins del s' ops" using Cons.prems(2) TAdd i by simp
    then have "inv t \<and> spec_table (dom (look s')) ops = (dom (look t), log')"
      using Cons.IH r(1) l by blast
    then show ?thesis using l r(2) by (simp add: TAdd Let_def)
  next
    case (TRemove h)
    then have "inv (del s h)" "dom (look (del s h)) = dom (look s) - {h}"
      using del_law [of s h] Cons.prems(1,2) by auto
    then show ?thesis using Cons.IH [of "del s h" log] Cons.prems TRemove by simp
  qed
qed simp

end

definition trk_room :: "gravity_resource_tracker \<Rightarrow> bool" where
  "trk_room t \<longleftrightarrow> unat (rt_entry_count t) < 4096"

lemma add_look:
  assumes t: "trk_strong t" and "trk_room t" "h \<noteq> 0" "gravity_resource_tracker_get t h = None"
  shows "\<exists>i t'. gravity_resource_tracker_add t h ty = (Some i, t') \<and> trk_strong t' \<and>
     gravity_resource_tracker_get t' = (gravity_resource_tracker_get t)(h \<mapsto> i)"
proof -
  obtain i t' where a: "gravity_resource_tracker_add t h ty = (Some i, t')" "trk_strong t'" "i \<notin> live t"
    "live t' = insert i (live t)" "rt_entries t' = (rt_entries t)(i := new_entry h ty)"
    using add_room [OF t _ assms(3,4), of ty] assms(2) by (auto simp: trk_room_def)
  have nh: "\<forall>j\<in>live t. re_handle (rt_entries t j) \<noteq> h" using assms(4) t by (simp add: strong_get_None)
  have "gravity_resource_tracker_get t' g = ((gravity_resource_tracker_get t)(h \<mapsto> i)) g" for g
  proof (cases "g = h")
    case True
    then show ?thesis using a by (simp add: strong_get)
  next
    case False
    have "gravity_resource_tracker_get t' g = Some j \<longleftrightarrow> gravity_resource_tracker_get t g = Some j" for j
      using False a nh by (auto simp: strong_get [OF a(2)] strong_get [OF t])
    then show ?thesis using False by (metis fun_upd_other not_None_eq)
  qed
  then show ?thesis using a by (auto simp: fun_eq_iff)
qed

lemma remove_look:
  assumes t: "trk_strong t" and c: "clear_of t h"
  shows "gravity_resource_tracker_get (gravity_resource_tracker_remove t h) =
           (gravity_resource_tracker_get t)(h := None)"
proof (cases "gravity_resource_tracker_get t h")
  case (Some i)
  then obtain s where h: "h \<noteq> 0" and s: "reaches t h s" and i: "i = unat (rt_hash_table t s)"
    by (auto simp: get_Some)
  obtain fl where fl: "trk_inv t fl" using t by (auto simp: trk_strong_def trk_ok_def)
  let ?t = "gravity_resource_tracker_remove t h"
  have st: "trk_strong ?t" by (rule remove_strong [OF t c])
  have l: "live ?t = live t - {i}" using remove_inv(2) [OF fl h s] i by simp
  have e: "rt_entries ?t j = rt_entries t j" if "j \<noteq> i" for j
    using remove_entries [OF h s] that i by simp
  have "gravity_resource_tracker_get ?t g = Some j \<longleftrightarrow> g \<noteq> h \<and> gravity_resource_tracker_get t g = Some j"
    for g j
    using Some l e by (auto simp: strong_get [OF st] strong_get [OF t]) (metis Some option.inject strong_get t)+
  then show ?thesis by (intro ext) (metis fun_upd_apply not_None_eq)
qed (simp add: remove_nothing fun_upd_idem)

interpretation trk: handle_map trk_strong gravity_resource_tracker_get gravity_resource_tracker_add
    gravity_resource_tracker_remove trk_room clear_of
proof (unfold_locales, goal_cases)
  case (1 s h ty)
  then show ?case by (rule add_look)
next
  case (2 s h ty)
  then show ?case using add_refused by blast
next
  case (3 s h)
  then show ?case using remove_strong remove_look by blast
qed

section \<open>Concrete tables\<close>

lemma clear_sole:
  assumes "\<forall>j\<in>live t. re_handle (rt_entries t j) = h"
  shows "clear_of t h"
proof -
  have "\<not> displaced t h s" if "reaches t h s" for s
  proof
    assume "displaced t h s"
    then obtain q r where q: "q < 4096" "reaches t h (pslot h q)" "r < q" "pslot h r = s"
      by (auto simp: displaced_def)
    have "pslot h q = pslot h r" using reaches_unique [OF q(2) that] q(4) by simp
    then have "q = r" using pslot_inj [of q r h] q(1,3) by simp
    then show False using q(3) by simp
  qed
  then show ?thesis using assms by (auto simp: clear_of_def)
qed

text \<open>A table whose 4096 hash slots all hold a live entry.\<close>

definition full_tracker :: gravity_resource_tracker where
  "full_tracker =
     \<lparr>rt_entries = (\<lambda>i. if i < 4096 then new_entry (of_nat i + 1) GRAVITY_RES_BUFFER
                       else zero_entry\<lparr>re_ref_count := (if i < 65535 then of_nat i + 1 else UINT32_MAX)\<rparr>),
      rt_hash_table = of_nat, rt_entry_count = 4096, rt_free_head = 4096\<rparr>"

lemma full_chain:
  assumes "4096 \<le> i" "i \<le> 65535"
  shows "free_chain (rt_entries full_tracker) (of_nat i) [i..<65536]"
  using assms
proof (induction "65535 - i" arbitrary: i)
  case 0
  then have "i = 65535" by simp
  then show ?case by (simp add: upt_conv_Cons full_tracker_def zero_entry_def)
next
  case (Suc n)
  then have "free_chain (rt_entries full_tracker) (of_nat (Suc i)) [Suc i..<65536]"
    by (intro Suc.hyps(1)) auto
  then show ?case
    using Suc by (subst upt_conv_Cons) (auto simp: full_tracker_def zero_entry_def add.commute)
qed

lemma full_live: "live full_tracker = {..<4096}"
  by (auto simp: live_def full_tracker_def zero_entry_def)

lemma full_inj: "inj_on (rt_hash_table full_tracker) {s. s < 4096 \<and> rt_hash_table full_tracker s \<noteq> UINT32_MAX}"
proof (rule inj_onI)
  have small: "unat (of_nat s :: u32) = s" if "s < 4096" for s using that by (simp add: unat_of_nat)
  fix x y
  assume "x \<in> {s. s < 4096 \<and> rt_hash_table full_tracker s \<noteq> UINT32_MAX}"
    "y \<in> {s. s < 4096 \<and> rt_hash_table full_tracker s \<noteq> UINT32_MAX}"
    "rt_hash_table full_tracker x = rt_hash_table full_tracker y"
  then have "x < 4096" "y < 4096" "unat (of_nat x :: u32) = unat (of_nat y :: u32)"
    by (simp_all add: full_tracker_def)
  then show "x = y" by (simp only: small)
qed

lemma full_handle:
  assumes "i < 4096"
  shows "unat (re_handle (rt_entries full_tracker i)) = Suc i"
proof -
  have "re_handle (rt_entries full_tracker i) = of_nat (Suc i)"
    using assms by (simp add: full_tracker_def add.commute)
  then show ?thesis using assms by (simp add: unat_of_nat del: of_nat_Suc)
qed

lemma full_ok: "trk_ok full_tracker"
  unfolding trk_ok_def trk_inv_def full_live
proof (intro exI [of _ "[4096..<65536]"] conjI)
  have "rt_free_head full_tracker = of_nat 4096" by (simp add: full_tracker_def)
  then show "free_chain (rt_entries full_tracker) (rt_free_head full_tracker) [4096..<65536]"
    using full_chain [of 4096] by (simp only:)
  show "distinct [4096..<65536 :: nat]" by (rule distinct_upt)
  show "set [4096..<65536] = {..<65536} - {..<4096 :: nat}" unfolding set_upt by (rule set_eqI) auto
  show "\<forall>s<4096. rt_hash_table full_tracker s \<noteq> UINT32_MAX \<longrightarrow>
      unat (rt_hash_table full_tracker s) \<in> {..<4096}"
    by (simp add: full_tracker_def unat_of_nat)
  show "\<forall>i\<in>{..<4096}. re_handle (rt_entries full_tracker i) \<noteq> 0"
    using full_handle by (metis lessThan_iff nat.distinct(1) unat_0)
  show "rt_entry_count full_tracker = of_nat (card {..<4096 :: nat})" by (simp add: full_tracker_def)
qed (rule full_inj)

section \<open>Properties\<close>

text \<open>
  C19: after any sequence of additions and removals on an initialised tracker, whatever the
  handles, the count is the number of live entries, a lookup returns an index below 65536 of a
  live entry with the handle asked for, and the free list visits each free entry once.
\<close>

theorem tracker_always_safe:
  "let t = fst (run_table gravity_resource_tracker_add gravity_resource_tracker_remove
                  (gravity_resource_tracker_init t0) ops)
   in unat (gravity_resource_tracker_count t) = card (live t) \<and>
      (case gravity_resource_tracker_get t h of None \<Rightarrow> True
       | Some i \<Rightarrow> i < 65536 \<and> re_in_use (rt_entries t i) \<and> re_handle (rt_entries t i) = h) \<and>
      (\<exists>fl. free_chain (rt_entries t) (rt_free_head t) fl \<and> distinct fl \<and> set fl = {..<65536} - live t)"
proof -
  have step: "trk_ok (fst (run_table gravity_resource_tracker_add gravity_resource_tracker_remove t ops))"
    if "trk_ok t" for t
    using that
  proof (induction ops arbitrary: t)
    case (Cons op ops)
    then show ?case
      by (cases op) (simp_all add: case_prod_beta add_ok remove_ok)
  qed simp
  let ?t = "fst (run_table gravity_resource_tracker_add gravity_resource_tracker_remove
                  (gravity_resource_tracker_init t0) ops)"
  have ok: "trk_ok ?t" by (rule step) simp
  have "case gravity_resource_tracker_get ?t h of None \<Rightarrow> True
       | Some i \<Rightarrow> i < 65536 \<and> re_in_use (rt_entries ?t i) \<and> re_handle (rt_entries ?t i) = h"
    using get_live [OF ok, of h] by (auto simp: live_def split: option.split)
  moreover have "\<exists>fl. free_chain (rt_entries ?t) (rt_free_head ?t) fl \<and> distinct fl \<and> set fl = {..<65536} - live ?t"
    using ok unfolding trk_ok_def trk_inv_def by blast
  ultimately show ?thesis
    using trk_count [OF ok] by (simp add: Let_def gravity_resource_tracker_count_def)
qed

text \<open>
  C12: while at most 4096 handles are live and no handle is removed from another's probe path,
  the tracker is a finite map: a run of additions and removals accepts exactly the fresh
  non-zero handles and ends with exactly the handles the set-level run ends with.
\<close>

theorem tracker_refines_handle_set:
  assumes "admissible trk_room clear_of gravity_resource_tracker_add gravity_resource_tracker_remove
             (gravity_resource_tracker_init t0) ops"
    and "run_table gravity_resource_tracker_add gravity_resource_tracker_remove
           (gravity_resource_tracker_init t0) ops = (t, log)"
  shows "spec_table {} ops = (dom (gravity_resource_tracker_get t), log)"
proof -
  have "gravity_resource_tracker_get (gravity_resource_tracker_init t0) h = None" for h
    by (simp add: strong_get_None)
  then have "dom (gravity_resource_tracker_get (gravity_resource_tracker_init t0)) = {}" by auto
  then show ?thesis using trk.run_refines [OF _ assms] by simp
qed

theorem tracker_refines_handle_set_witness:
  "\<exists>t. spec_table {} [TAdd 3 GRAVITY_RES_BUFFER, TRemove 3, TAdd 3 GRAVITY_RES_TEXTURE] =
     (dom (gravity_resource_tracker_get t), [True, True])"
proof -
  let ?i = "gravity_resource_tracker_init zero_tracker"
  let ?ops = "[TAdd 3 GRAVITY_RES_BUFFER, TRemove 3, TAdd 3 GRAVITY_RES_TEXTURE]"
  have "\<exists>i t'. gravity_resource_tracker_add ?i 3 GRAVITY_RES_BUFFER = (Some i, t') \<and> trk_strong t' \<and>
           live t' = insert i (live ?i) \<and> rt_entries t' = (rt_entries ?i)(i := new_entry 3 GRAVITY_RES_BUFFER)"
    using add_room [of ?i 3 GRAVITY_RES_BUFFER] by (auto simp: init_entries strong_get_None)
  then obtain i t' where a: "gravity_resource_tracker_add ?i 3 GRAVITY_RES_BUFFER = (Some i, t')" "trk_strong t'"
    "live t' = {i}" "re_handle (rt_entries t' i) = 3" by auto
  have c: "clear_of t' 3" using a by (intro clear_sole) simp
  have s: "trk_strong (gravity_resource_tracker_remove t' 3)" by (rule remove_strong [OF a(2) c])
  have "gravity_resource_tracker_get t' 3 = Some i" using a by (simp add: strong_get)
  then have "live (gravity_resource_tracker_remove t' 3) = {}"
    using a remove_inv(2) by (fastforce simp: get_Some trk_strong_def trk_ok_def)
  then have z: "unat (rt_entry_count (gravity_resource_tracker_remove t' 3)) = 0"
    using trk_count [OF strong_ok [OF s]] by simp
  have adm: "admissible trk_room clear_of gravity_resource_tracker_add gravity_resource_tracker_remove ?i ?ops"
    using c z by (simp add: a(1) trk_room_def init_entries)
  obtain t log where r: "run_table gravity_resource_tracker_add gravity_resource_tracker_remove ?i ?ops = (t, log)"
    by force
  show ?thesis using tracker_refines_handle_set [OF adm r] by (intro exI [of _ t]) simp
qed

text \<open>
  C25: removing a handle keeps every other live handle findable exactly when no other handle's
  probe path passes the freed slot: the routine does not move displaced entries.
\<close>

theorem tracker_remove_exact:
  assumes "trk_strong t"
  shows "trk_strong (gravity_resource_tracker_remove t h) \<longleftrightarrow> h = 0 \<or> clear_of t h"
  using assms by (rule remove_strong_iff)

lemma hash_3_96: "hash_handle 3 = 581" "hash_handle 96 = 581"
  by (simp_all add: hash_handle_def Let_def)

text \<open>Both handles are added to a fresh tracker: they take slots 581 and 582.\<close>

definition two_adds :: gravity_resource_tracker where
  "two_adds = snd (gravity_resource_tracker_add
     (snd (gravity_resource_tracker_add (gravity_resource_tracker_init zero_tracker) 3 GRAVITY_RES_BUFFER))
     96 GRAVITY_RES_TEXTURE)"

lemma two_adds_eq:
  "rt_entries two_adds = (rt_entries (gravity_resource_tracker_init zero_tracker))
     (0 := new_entry 3 GRAVITY_RES_BUFFER, 1 := new_entry 96 GRAVITY_RES_TEXTURE)"
  "rt_hash_table two_adds = (rt_hash_table (gravity_resource_tracker_init zero_tracker))(581 := 0, 582 := 1)"
  "rt_free_head two_adds = 2" "rt_entry_count two_adds = 2"
proof -
  let ?t0 = "gravity_resource_tracker_init zero_tracker"
  let ?t1 = "?t0\<lparr>rt_free_head := 1, rt_entries := (rt_entries ?t0)(0 := new_entry 3 GRAVITY_RES_BUFFER),
     rt_hash_table := (rt_hash_table ?t0)(581 := 0), rt_entry_count := 1\<rparr>"
  note ev = gravity_resource_tracker_add_def gravity_resource_tracker_get_def Let_def
    GRAVITY_INVALID_HANDLE_def hash_3_96 init_entries probe_handle.simps [of _ _ _ 0]
    probe_handle.simps [of _ _ _ "Suc 0"] probe_insert.simps [of _ _ _ 0] probe_insert.simps [of _ _ _ "Suc 0"]
  have 1: "gravity_resource_tracker_add ?t0 3 GRAVITY_RES_BUFFER = (Some 0, ?t1)"
    by (simp add: ev new_entry_def)
  have 2: "two_adds = ?t1\<lparr>rt_free_head := 2,
      rt_entries := (rt_entries ?t1)(1 := new_entry 96 GRAVITY_RES_TEXTURE),
      rt_hash_table := (rt_hash_table ?t1)(582 := 1), rt_entry_count := 2\<rparr>"
    unfolding two_adds_def 1 by (simp add: ev) (simp add: new_entry_def)
  show "rt_entries two_adds = (rt_entries ?t0)(0 := new_entry 3 GRAVITY_RES_BUFFER, 1 := new_entry 96 GRAVITY_RES_TEXTURE)"
    "rt_hash_table two_adds = (rt_hash_table ?t0)(581 := 0, 582 := 1)"
    "rt_free_head two_adds = 2" "rt_entry_count two_adds = 2"
    by (simp_all add: 2)
qed

text \<open>
  handles 3 and 96 hash to the same slot.  After both are added and 3 is removed, 96 is
  still a live entry but the lookup no longer finds it, and a second addition of 96 is accepted
  although a duplicate must be refused.
\<close>

lemma tracker_loses_colliding_handle:
  "let t = gravity_resource_tracker_remove two_adds 3
   in (\<exists>i\<in>live t. re_handle (rt_entries t i) = 96) \<and>
      gravity_resource_tracker_get t 96 = None \<and>
      fst (gravity_resource_tracker_add t 96 GRAVITY_RES_BUFFER) \<noteq> None"
proof -
  let ?t = "gravity_resource_tracker_remove two_adds 3"
  have "probe_handle two_adds 3 581 0 = Some 581"
    by (subst probe_handle.simps) (simp add: two_adds_eq)
  then have t: "rt_entries ?t 1 = new_entry 96 GRAVITY_RES_TEXTURE" "rt_hash_table ?t 581 = UINT32_MAX"
    "rt_free_head ?t = 0"
    by (simp_all add: gravity_resource_tracker_remove_def GRAVITY_INVALID_HANDLE_def hash_3_96 Let_def two_adds_eq)
  have "1 \<in> live ?t" using t(1) by (simp add: live_def)
  moreover have g: "gravity_resource_tracker_get ?t 96 = None"
    using t(2) by (simp add: gravity_resource_tracker_get_def hash_3_96 probe_handle.simps [of _ _ _ 0])
  moreover have "fst (gravity_resource_tracker_add ?t 96 GRAVITY_RES_BUFFER) \<noteq> None"
    using g t(3) by (simp add: gravity_resource_tracker_add_def GRAVITY_INVALID_HANDLE_def Let_def)
  ultimately show ?thesis using t(1) by (auto simp: Let_def intro!: bexI [of _ 1])
qed

lemma two_adds_strong: "trk_strong two_adds"
proof -
  let ?t0 = "gravity_resource_tracker_init zero_tracker"
  obtain i t1 where 1: "gravity_resource_tracker_add ?t0 3 GRAVITY_RES_BUFFER = (Some i, t1)" "trk_strong t1"
      "live t1 = {i}" "rt_entries t1 = (rt_entries ?t0)(i := new_entry 3 GRAVITY_RES_BUFFER)"
    using add_room [of ?t0 3 GRAVITY_RES_BUFFER] by (auto simp: init_entries strong_get_None)
  have "unat (rt_entry_count t1) < 4096" using trk_count [OF strong_ok [OF 1(2)]] 1(3) by simp
  moreover have "gravity_resource_tracker_get t1 96 = None" using 1(2-4) by (simp add: strong_get_None)
  ultimately obtain j t2 where "gravity_resource_tracker_add t1 96 GRAVITY_RES_TEXTURE = (Some j, t2)" "trk_strong t2"
    using add_room [OF 1(2), of 96 GRAVITY_RES_TEXTURE] by auto
  then show ?thesis by (simp add: two_adds_def 1(1))
qed

theorem tracker_remove_exact_witness: "\<not> clear_of two_adds 3"
proof -
  have "\<not> trk_strong (gravity_resource_tracker_remove two_adds 3)"
    using tracker_loses_colliding_handle strong_get_None [of "gravity_resource_tracker_remove two_adds 3" 96]
    by (auto simp: Let_def)
  then show ?thesis using tracker_remove_exact [OF two_adds_strong, of 3] by simp
qed

text \<open>
  once all 4096 hash slots are taken (the entry array has 65536), adding a fresh handle
  still succeeds, but the handle cannot be looked up afterwards, so it cannot be removed either.
\<close>

lemma tracker_full_table_leaks:
  assumes "trk_ok t" "\<forall>s<4096. rt_hash_table t s \<noteq> UINT32_MAX" "h \<noteq> 0"
    and "gravity_resource_tracker_get t h = None" "rt_free_head t \<noteq> UINT32_MAX"
  shows "case gravity_resource_tracker_add t h ty of (r, t') \<Rightarrow>
           r \<noteq> None \<and> card (live t') = card (live t) + 1 \<and>
           gravity_resource_tracker_get t' h = None \<and> gravity_resource_tracker_remove t' h = t'"
proof -
  obtain fl where fl: "trk_inv t fl" using assms(1) by (auto simp: trk_ok_def)
  obtain i fl' where "fl = i # fl'"
    using free_head_cases [OF fl] assms(5) by metis
  then have fl: "trk_inv t (i # fl')" using fl by simp
  let ?t = "snd (gravity_resource_tracker_add t h ty)"
  note inv = add_inv(1) [OF fl assms(3,4), of ty] add_inv(2) [OF fl assms(3,4), of ty] add_inv(3) [OF fl assms(3,4)]
  have e: "rt_entries ?t = (rt_entries t)(i := new_entry h ty)" "rt_hash_table ?t = rt_hash_table t"
    using assms(2) by (auto simp: add_taken [OF fl assms(3,4)]
        intro: probe_insert_cases [of "rt_hash_table t" "of_nat i" h])
  have same: "same_slot ?t t s" if "s < 4096" for s
  proof -
    have "unat (rt_hash_table t s) \<in> live t" using trk_invD(4) [OF fl that] assms(2) that by blast
    then show ?thesis using inv(3) by (auto simp: same_slot_def e)
  qed
  have "\<not> reaches ?t h s" for s
  proof
    assume "reaches ?t h s"
    then have "reaches t h s" by (rule reaches_cong) (simp add: same)
    then show False using assms(3,4) by (metis get_Some option.distinct(1))
  qed
  then have "gravity_resource_tracker_get ?t h = None" by (metis get_Some not_None_eq)
  moreover have "card (live ?t) = card (live t) + 1" using inv(2,3) by simp
  ultimately show ?thesis
    using add_taken [OF fl assms(3,4), of ty] by (auto simp: remove_nothing)
qed

lemma tracker_full_table_leaks_witness:
  "gravity_resource_tracker_get (snd (gravity_resource_tracker_add full_tracker 5000 GRAVITY_RES_BUFFER)) 5000 = None"
proof -
  have slots: "\<forall>s<4096. rt_hash_table full_tracker s \<noteq> UINT32_MAX"
    using of_nat_max by (simp add: full_tracker_def)
  have none: "gravity_resource_tracker_get full_tracker 5000 = None"
  proof (rule ccontr)
    assume "gravity_resource_tracker_get full_tracker 5000 \<noteq> None"
    then obtain i where "gravity_resource_tracker_get full_tracker 5000 = Some i" by blast
    then have i: "i < 4096" "re_handle (rt_entries full_tracker i) = 5000"
      using get_live [OF full_ok] full_live by auto
    then have "Suc i = 5000" using full_handle [OF i(1)] i(2) by simp
    then show False using i(1) by simp
  qed
  show ?thesis
    using tracker_full_table_leaks [OF full_ok slots _ none, of GRAVITY_RES_BUFFER]
    by (auto simp: full_tracker_def split: prod.splits)
qed

text \<open>
  \<^verbatim>\<open>gravity_resource_tracker_destroy\<close> reports nothing when no resource is live, and
  otherwise the number of live resources followed by the handle and type of each of them.
\<close>

lemma tracker_destroy_reports_leaks:
  assumes "trk_ok t"
  shows "case fst (gravity_resource_tracker_destroy t) of
     None \<Rightarrow> live t = {}
   | Some (n, l) \<Rightarrow> unat n = card (live t) \<and> length l = card (live t) \<and>
       set l = (\<lambda>i. (re_handle (rt_entries t i), re_type (rt_entries t i))) ` live t"
proof -
  have l: "set (filter (\<lambda>i. re_in_use (rt_entries t i)) [0..<65536]) = live t"
    by (auto simp: live_def)
  have "length (filter (\<lambda>i. re_in_use (rt_entries t i)) [0..<65536]) = card (live t)"
    unfolding l [symmetric] by (rule distinct_card [symmetric]) (rule distinct_filter, rule distinct_upt)
  moreover have "0 < rt_entry_count t \<longleftrightarrow> live t \<noteq> {}"
    using trk_count [OF assms] by (simp add: word_less_nat_alt card_gt_0_iff)
  ultimately show ?thesis
    using trk_count [OF assms] l
    by (simp add: gravity_resource_tracker_destroy_def del: set_filter)
qed

lemma tracker_destroy_reports_leaks_witness:
  "fst (gravity_resource_tracker_destroy (gravity_resource_tracker_init zero_tracker)) = None"
  using tracker_destroy_reports_leaks [OF init_ok [of zero_tracker]]
  by (simp add: gravity_resource_tracker_destroy_def init_entries)

end
