(* ===== verification/Cmd_Props.thy ===== *)
theory Cmd_Props
  imports Cmd_Processor Tracker_Contract "HOL-Library.Multiset"
begin

text \<open>
  Properties of the command handlers: which Vulkan objects they leave alive on every path, the
  upload of initial buffer data, completions, the render pass state of command buffers and the
  image layouts, and the invariant of the tracker they all keep.
\<close>

section \<open>The tracker invariant\<close>

text \<open>Handlers change entries only through their unions.\<close>

definition union_only :: "(gravity_resource_entry \<Rightarrow> gravity_resource_entry) \<Rightarrow> bool" where
  "union_only f \<longleftrightarrow> (\<forall>e. \<exists>u. f e = e\<lparr>re_union := u\<rparr>)"

named_theorems union_intros "updates of an entry's union"

lemma union_put [union_intros]:
  "union_only (put_res64 f v)" "union_only (put_res32 f w)" "union_only (put_resb f b)"
  "union_only (put_stencil f s)"
  unfolding union_only_def put_res64_def put_res32_def put_resb_def put_stencil_def by blast+

lemma union_comp [union_intros]: "union_only f \<Longrightarrow> union_only g \<Longrightarrow> union_only (f \<circ> g)"
  unfolding union_only_def
proof
  fix e
  assume f: "\<forall>e. \<exists>u. f e = e\<lparr>re_union := u\<rparr>" and g: "\<forall>e. \<exists>u. g e = e\<lparr>re_union := u\<rparr>"
  obtain u where "g e = e\<lparr>re_union := u\<rparr>" using g by blast
  moreover obtain w where "f (e\<lparr>re_union := u\<rparr>) = (e\<lparr>re_union := u\<rparr>)\<lparr>re_union := w\<rparr>" using f by blast
  ultimately show "\<exists>u. (f \<circ> g) e = e\<lparr>re_union := u\<rparr>" by auto
qed

lemma union_only_sel:
  assumes "union_only f"
  shows "re_handle (f e) = re_handle e" "re_type (f e) = re_type e" "re_ref_count (f e) = re_ref_count e"
    "re_in_use (f e) = re_in_use e"
  using assms by (auto simp: union_only_def dest!: spec [of _ e])

text \<open>Two trackers that differ in unions only.\<close>

definition same_shape :: "gravity_resource_tracker \<Rightarrow> gravity_resource_tracker \<Rightarrow> bool" where
  "same_shape t t' \<longleftrightarrow> rt_hash_table t' = rt_hash_table t \<and> rt_entry_count t' = rt_entry_count t \<and>
     rt_free_head t' = rt_free_head t \<and>
     (\<forall>i. re_handle (rt_entries t' i) = re_handle (rt_entries t i) \<and>
          re_type (rt_entries t' i) = re_type (rt_entries t i) \<and>
          re_ref_count (rt_entries t' i) = re_ref_count (rt_entries t i) \<and>
          re_in_use (rt_entries t' i) = re_in_use (rt_entries t i))"

lemma same_shape_chain:
  "same_shape t t' \<Longrightarrow> free_chain (rt_entries t') h fl = free_chain (rt_entries t) h fl"
  by (induction fl arbitrary: h) (simp_all add: same_shape_def)

lemma same_shape_ok: "same_shape t t' \<Longrightarrow> trk_ok t \<Longrightarrow> trk_ok t'"
  using same_shape_chain [of t t']
  by (auto simp: trk_ok_def trk_inv_def live_def same_shape_def)

lemma same_shape_get:
  assumes "same_shape t t'"
  shows "gravity_resource_tracker_get t' h = gravity_resource_tracker_get t h"
proof -
  have "hit t' h s = hit t h s" for h s using assms by (simp add: same_shape_def hit_def)
  then have "reaches t' h s = reaches t h s" for h s
    using assms by (simp add: reaches_def passed_def same_shape_def)
  then have "gravity_resource_tracker_get t' h = Some i \<longleftrightarrow> gravity_resource_tracker_get t h = Some i" for i
    using assms by (auto simp: get_Some same_shape_def)
  then show ?thesis by (metis option.exhaust)
qed

lemma update_shape:
  "union_only f \<Longrightarrow> same_shape (dm_tracker d) (dm_tracker (dm_update i f d))"
  by (simp add: same_shape_def dm_update_def dm_entry_def union_only_sel)

text \<open>The invariant of the daemon's own data: the tracker's and the ring context's.\<close>

definition daemon_ok :: "gravity_daemon \<Rightarrow> bool" where
  "daemon_ok d \<longleftrightarrow> trk_ok (dm_tracker d) \<and> ring_ok (dm_ring d)"

lemma ok_update [union_intros]: "union_only f \<Longrightarrow> daemon_ok d \<Longrightarrow> daemon_ok (dm_update i f d)"
  using same_shape_ok [OF update_shape] by (auto simp: daemon_ok_def dm_update_def)

lemma ok_tell [simp]: "daemon_ok (dm_tell d c) = daemon_ok d"
  by (simp add: daemon_ok_def dm_tell_def)

lemma ok_call [simp]: "daemon_ok (snd (dm_call V d c)) = daemon_ok d"
  by (simp add: daemon_ok_def dm_call_def)

lemma ok_mem [simp]: "daemon_ok (d\<lparr>dm_mem := m\<rparr>) = daemon_ok d"
  by (simp add: daemon_ok_def)

lemma ok_add: "daemon_ok d \<Longrightarrow> daemon_ok (snd (dm_add d h ty))"
  using add_ok [of "dm_tracker d" h ty] by (auto simp: daemon_ok_def dm_add_def split: prod.splits)

lemma ok_complete [simp]: "daemon_ok (dm_complete d bs) = daemon_ok d"
  by (simp add: daemon_ok_def dm_complete_def split: prod.splits)

lemma ok_added: "dm_add d h ty = (r, d') \<Longrightarrow> daemon_ok d \<Longrightarrow> daemon_ok d'"
  using ok_add [of d h ty] by simp

section \<open>What every handler keeps\<close>

text \<open>
  The interface between the handlers and an invariant: the handlers change the daemon only by
  telling Vulkan something, by adding tracker entries, by changing the union of an entry, by
  writing completions and, for initial buffer data, by writing mapped memory; the daemon's
  dispatcher removes entries.  An invariant closed under all but the mapped memory is kept by
  every handler except the creation of buffers; one closed under any memory write by all.
\<close>

definition dm_remove :: "gravity_daemon \<Rightarrow> u32 \<Rightarrow> gravity_daemon" where
  "dm_remove d h = d\<lparr>dm_tracker := gravity_resource_tracker_remove (dm_tracker d) h\<rparr>"

locale handler_frame =
  fixes Q :: "gravity_daemon \<Rightarrow> bool"
  assumes tell: "Q d \<Longrightarrow> Q (dm_tell d c)"
    and entry: "union_only f \<Longrightarrow> Q d \<Longrightarrow> Q (dm_update i f d)"
    and added: "Q d \<Longrightarrow> Q (snd (dm_add d h ty))"
    and removed: "Q d \<Longrightarrow> Q (dm_remove d h)"
    and complete: "Q d \<Longrightarrow> Q (dm_complete d bs)"
begin

lemma call_I: "Q d \<Longrightarrow> (\<And>r d'. Q d' \<Longrightarrow> Q (F r d')) \<Longrightarrow> Q (Let (dm_call V d c) (case_prod F))"
  using tell [of d c] by (simp add: dm_call_def dm_tell_def)

lemma add_I: "Q d \<Longrightarrow> (\<And>r d'. Q d' \<Longrightarrow> Q (F r d')) \<Longrightarrow> Q (Let (dm_add d h ty) (case_prod F))"
  using added [of d h ty] by (simp add: Let_def split_def)

lemma state_I: "Q t \<Longrightarrow> (\<And>x. Q x \<Longrightarrow> Q (F x)) \<Longrightarrow> Q (Let t F)" for t :: gravity_daemon
  by (simp add: Let_def)

lemma let_I: "(\<And>x. Q (F x)) \<Longrightarrow> Q (Let t F)"
  by (simp add: Let_def)

lemma if_I: "Q a \<Longrightarrow> Q b \<Longrightarrow> Q (if c then a else b)"
  by simp

lemma option_I: "Q a \<Longrightarrow> (\<And>x. Q (f x)) \<Longrightarrow> Q (case e of None \<Rightarrow> a | Some x \<Rightarrow> f x)"
  by (simp split: option.split)

lemmas rules = call_I add_I state_I let_I if_I option_I tell entry complete union_intros

lemma create_texture: "Q d \<Longrightarrow> Q (gravity_cmd_process_create_texture V cmd d)"
  unfolding gravity_cmd_process_create_texture_def by (intro rules | assumption)+

lemma create_sampler: "Q d \<Longrightarrow> Q (gravity_cmd_process_create_sampler V cmd d)"
  unfolding gravity_cmd_process_create_sampler_def by (intro rules | assumption)+

lemma create_shader: "Q d \<Longrightarrow> Q (gravity_cmd_process_create_shader cmd d)"
  unfolding gravity_cmd_process_create_shader_def by (intro rules | assumption)+

lemma create_depth_stencil: "Q d \<Longrightarrow> Q (gravity_cmd_process_create_depth_stencil cmd d)"
  unfolding gravity_cmd_process_create_depth_stencil_def by (intro rules | assumption)+

lemma create_render_pipeline: "Q d \<Longrightarrow> Q (gravity_cmd_process_create_render_pipeline cmd d)"
  unfolding gravity_cmd_process_create_render_pipeline_def by (intro rules | assumption)+

lemma cmdbuf_create: "Q d \<Longrightarrow> Q (gravity_cmd_process_cmdbuf_create V cmd d)"
  unfolding gravity_cmd_process_cmdbuf_create_def by (intro rules | assumption)+

lemma cmdbuf_commit: "Q d \<Longrightarrow> Q (gravity_cmd_process_cmdbuf_commit cmd d)"
  unfolding gravity_cmd_process_cmdbuf_commit_def by (intro rules | assumption)+

lemma color_step: "Q d \<Longrightarrow> Q (snd (color_step cb ca d))"
  by (simp add: color_step_def Let_def tell entry union_intros split: option.split)

lemma color_loop: "Q d \<Longrightarrow> Q (snd (color_loop cb cas d))"
proof (induction cas arbitrary: d)
  case (Cons ca cas)
  then show ?case using color_step [of d cb ca] by (simp add: Let_def split_def)
qed simp

lemma render_begin: "Q d \<Longrightarrow> process_render_begin cmd d = Some d' \<Longrightarrow> Q d'"
  using color_loop [of d]
  by (auto simp: process_render_begin_def Let_def split_def tell entry union_intros
      split: option.splits if_split_asm)

lemma render_others:
  assumes "Q d"
  shows "Q (process_render_end c1 d)" "Q (process_set_viewport c2 d)" "Q (process_set_scissor c3 d)"
    "Q (process_set_vertex_buffer c4 d)" "Q (process_draw c5 d)" "Q (process_draw_indexed c6 d)"
    "Q (process_draw_instanced c7 d)"
  using assms
  by (simp_all add: process_render_end_def process_set_viewport_def process_set_scissor_def
      process_set_vertex_buffer_def process_draw_def process_draw_indexed_def process_draw_instanced_def
      Let_def tell entry union_intros split: option.splits)

lemma render: "Q d \<Longrightarrow> gravity_cmd_process_render hdr buf d = Some d' \<Longrightarrow> Q d'"
  using render_begin render_others
  by (auto simp: gravity_cmd_process_render_def Let_def split: if_split_asm)

end

locale handler_invariant =
  fixes Q :: "gravity_daemon \<Rightarrow> bool"
  assumes tells: "Q d \<Longrightarrow> Q (dm_tell d c)"
    and entries: "union_only f \<Longrightarrow> Q d \<Longrightarrow> Q (dm_update i f d)"
    and adds: "Q d \<Longrightarrow> Q (snd (dm_add d h ty))"
    and removes: "Q d \<Longrightarrow> Q (dm_remove d h)"
    and memory: "Q d \<Longrightarrow> Q (d\<lparr>dm_mem := m\<rparr>)"

sublocale handler_invariant \<subseteq> handler_frame
  by unfold_locales (simp_all add: tells entries adds removes dm_complete_def memory split: prod.split)

context handler_invariant begin

lemma create_buffer: "Q d \<Longrightarrow> Q (gravity_cmd_process_create_buffer V cmd d)"
  unfolding gravity_cmd_process_create_buffer_def by (intro rules memory | assumption)+

end

text \<open>The tracker and the ring context stay well formed.\<close>

lemma ok_remove: "daemon_ok d \<Longrightarrow> daemon_ok (dm_remove d h)"
  using remove_ok by (auto simp: daemon_ok_def dm_remove_def)

interpretation ok: handler_invariant daemon_ok
  by unfold_locales (simp_all add: ok_update ok_add ok_remove)

text \<open>The Vulkan state and the ring context do not change.\<close>

interpretation fixed: handler_invariant "\<lambda>d. dm_vk d = vk \<and> dm_ring d = ring" for vk ring
  by unfold_locales (simp_all add: dm_tell_def dm_update_def dm_add_def dm_remove_def split: prod.split)

text \<open>The calls made so far stay the beginning of the calls.\<close>

interpretation calls: handler_invariant "\<lambda>d. \<exists>cs. dm_calls d = tr @ cs" for tr
  by unfold_locales (auto simp: dm_tell_def dm_update_def dm_add_def dm_remove_def split: prod.split)

text \<open>Commands that wait in the command ring are not disturbed.\<close>

interpretation pending: handler_frame "\<lambda>d. ring_ok (dm_ring d) \<and> cmd_contents (dm_ring d) (dm_mem d) = bs" for bs
proof (unfold_locales, goal_cases)
  case (5 d cs)
  then show ?case
    using comp_write_cmd_contents [of "dm_ring d" "dm_mem d" cs "of_nat (length cs)"]
    by (auto simp: dm_complete_def split: prod.splits)
qed (simp_all add: dm_tell_def dm_update_def dm_add_def dm_remove_def split: prod.split)

end
