(* ===== verification/Protocol_Props.thy ===== *)
theory Protocol_Props
  imports Gravity_Protocol
begin

text \<open>
  Properties of the wire protocol (\<^verbatim>\<open>gravity_protocol.h\<close>, \<^verbatim>\<open>gravity_protocol.c\<close>): the messages
  the program itself builds survive the trip through memory, the validation rule, and the
  command name table.
\<close>

section \<open>Encoding and decoding\<close>

lemma take_drop_append:
  "length xs = n \<Longrightarrow> n \<le> k \<Longrightarrow> drop k (xs @ ys) = drop (k - n) ys"
  "length xs = n \<Longrightarrow> take n (xs @ ys) = xs"
  by simp_all

lemma length_hello [simp]:
  "length (hello_reserved s) = 4 \<Longrightarrow> length (gravity_cmd_hello_bytes s) = 44"
  "length (hresp_reserved t) = 4 \<Longrightarrow> length (gravity_cmd_hello_response_bytes t) = 56"
  "length (gravity_cmd_cmdbuf_completed_bytes c) = 32"
  by (simp_all add: gravity_cmd_hello_bytes_def gravity_cmd_hello_response_bytes_def
      gravity_cmd_cmdbuf_completed_bytes_def length_concat o_def sum_list_triv)

lemma length_4E:
  assumes "length xs = 4"
  obtains a b c d where "xs = [a, b, c, d]"
  using assms by (auto simp: numeral_eq_Suc length_Suc_conv)

lemma header_front:
  "gravity_cmd_header_at (list_mem (gravity_cmd_header_bytes h @ bs)) 0 = h"
  using header_of_append [of "gravity_cmd_header_bytes h" bs] header_of_bytes [of h]
  unfolding header_of_def by simp

lemma decode_completed:
  "gravity_cmd_cmdbuf_completed_at (list_mem (gravity_cmd_cmdbuf_completed_bytes s)) 0 = s"
  by (cases s) (simp add: gravity_cmd_cmdbuf_completed_at_def gravity_cmd_cmdbuf_completed_bytes_def
      header_front list_mem_ld le_word_le_bytes)

lemma decode_hello:
  assumes "length (hello_reserved s) = 4"
  shows "gravity_cmd_hello_at (list_mem (gravity_cmd_hello_bytes s)) 0 = s"
proof -
  obtain a b c d where r: "hello_reserved s = [a, b, c, d]" using assms by (rule length_4E)
  have i: "[0..<4] = [0, 1, 2, 3]" by (simp add: upt_rec)
  show ?thesis
    using r by (cases s) (simp add: gravity_cmd_hello_at_def gravity_cmd_hello_bytes_def
        header_front list_mem_ld le_word_le_bytes i)
qed

lemma decode_hello_response:
  assumes "length (hresp_reserved s) = 4"
  shows "gravity_cmd_hello_response_at (list_mem (gravity_cmd_hello_response_bytes s)) 0 = s"
proof -
  obtain a b c d where r: "hresp_reserved s = [a, b, c, d]" using assms by (rule length_4E)
  have i: "[0..<4] = [0, 1, 2, 3]" by (simp add: upt_rec)
  show ?thesis
    using r by (cases s) (simp add: gravity_cmd_hello_response_at_def gravity_cmd_hello_response_bytes_def
        header_front list_mem_ld le_word_le_bytes i)
qed

lemma encode_header: "gravity_cmd_header_bytes (gravity_cmd_header_at m a) = rd m a 16"
proof -
  have b: "le_bytes 2 (ld16 m x) = rd m x 2" "le_bytes 4 (ld32 m x) = rd m x 4" for x
    using le_bytes_le_word [of "rd m x 2", where ?'a = 16] le_bytes_le_word [of "rd m x 4", where ?'a = 32]
    by (simp_all add: ld16_def ld32_def)
  have n: "(16 :: nat) = 2 + (2 + (4 + (4 + 4)))" by simp
  show ?thesis
    unfolding gravity_cmd_header_bytes_def gravity_cmd_header_at_def gravity_cmd_header.select_convs b n rd_append
    by (simp add: numeral_eq_Suc)
qed

text \<open>
  the packed layouts are faithful: decoding the bytes of a greeting, a greeting's answer or a
  completion gives the structure back, and encoding a decoded header gives its sixteen bytes.
\<close>

lemma wire_roundtrip:
  assumes "length (hello_reserved s) = 4" "length (hresp_reserved t) = 4"
  shows "gravity_cmd_hello_at (list_mem (gravity_cmd_hello_bytes s)) 0 = s \<and>
     gravity_cmd_hello_response_at (list_mem (gravity_cmd_hello_response_bytes t)) 0 = t \<and>
     gravity_cmd_cmdbuf_completed_at (list_mem (gravity_cmd_cmdbuf_completed_bytes c)) 0 = c \<and>
     gravity_cmd_header_bytes (gravity_cmd_header_at m a) = rd m a 16"
  using assms by (simp add: decode_hello decode_hello_response decode_completed encode_header)

definition demo_hello :: gravity_cmd_hello where
  "demo_hello = \<lparr>hello_hdr = gravity_cmd_init (gravity_cmd_op_val GRAVITY_CMD_HELLO) 44 1,
     hello_magic = GRAVITY_PROTOCOL_MAGIC, hello_version_major = 1, hello_version_minor = 0,
     hello_guest_features = 3, hello_reserved = [0, 0, 0, 0]\<rparr>"

definition demo_response :: gravity_cmd_hello_response where
  "demo_response = \<lparr>hresp_hdr = gravity_cmd_init (gravity_cmd_op_val GRAVITY_CMD_HELLO) 56 1,
     hresp_magic = GRAVITY_PROTOCOL_MAGIC, hresp_version_major = 1, hresp_version_minor = 0,
     hresp_host_features = 3, hresp_max_texture_size = 1, hresp_max_buffer_size = 2,
     hresp_max_threads_per_group = 3, hresp_reserved = [0, 0, 0, 0]\<rparr>"

lemma wire_roundtrip_witness:
  "hello_guest_features (gravity_cmd_hello_at (list_mem (gravity_cmd_hello_bytes demo_hello)) 0) = 3"
  using wire_roundtrip [of demo_hello demo_response] by (simp add: demo_hello_def demo_response_def)

section \<open>Validation and names\<close>

text \<open>
  validation accepts a command exactly when its size is at least a header and at most what is
  available and its opcode is below \<^verbatim>\<open>GRAVITY_CMD_MAX\<close>; every opcode of the protocol is
  accepted, and so are unassigned values between the groups, such as \<open>0x00FF\<close>.
\<close>

lemma validate_spec:
  "(gravity_cmd_validate (Some h) avail = 0 \<longleftrightarrow>
      16 \<le> unat (hdr_size h) \<and> unat (hdr_size h) \<le> unat avail \<and> unat (hdr_opcode h) < 0xB02) \<and>
   gravity_cmd_validate (Some h) avail \<in> {0, -1} \<and> gravity_cmd_validate None avail = -1 \<and>
   (gravity_cmd_validate (Some (gravity_cmd_init (gravity_cmd_op_val op) 16 s)) 16 = 0 \<longleftrightarrow> op \<noteq> GRAVITY_CMD_MAX) \<and>
   0x00FF \<notin> range gravity_cmd_op_val \<and>
   gravity_cmd_validate (Some (gravity_cmd_init 0x00FF 16 s)) 16 = 0"
proof -
  have ops: "unat (gravity_cmd_op_val op) < 0xB02 \<longleftrightarrow> op \<noteq> GRAVITY_CMD_MAX" by (cases op) simp_all
  have gap: "gravity_cmd_op_val op \<noteq> 0x00FF" for op by (cases op) simp_all
  show ?thesis
    unfolding validate_zero_iff using ops gap
    by (auto simp: gravity_cmd_init_def gravity_cmd_validate_def dest: sym)
qed

lemma names_distinct: "distinct (map fst cmd_names)" "distinct (map snd cmd_names)" "''UNKNOWN'' \<notin> set (map snd cmd_names)"
  by code_simp+

lemma cmd_name_eq: "gravity_cmd_name v = (case map_of cmd_names v of Some n \<Rightarrow> n | None \<Rightarrow> ''UNKNOWN'')"
proof -
  have "map_option snd (find (\<lambda>e. fst e = v) es) = map_of es v" for es :: "(u16 \<times> string) list"
    by (induction es) auto
  from this [of cmd_names, symmetric] show ?thesis
    unfolding gravity_cmd_name_def by (cases "find (\<lambda>e. fst e = v) cmd_names") auto
qed

lemma named_opcodes:
  "map fst cmd_names = [
     0x0, 0x1, 0x2, 0x3, 0x4, 0x100, 0x101, 0x200, 0x201, 0x210, 0x211, 0x220, 0x221, 0x300,
     0x301, 0x400, 0x401, 0x410, 0x411, 0x420, 0x421, 0x500, 0x501, 0x502, 0x503, 0x600,
     0x601, 0x610, 0x611, 0x612, 0x613, 0x614, 0x615, 0x616, 0x620, 0x621, 0x622, 0x623,
     0x624, 0x625, 0x626, 0x627, 0x628, 0x640, 0x641, 0x642, 0x643, 0x644, 0x700, 0x701,
     0x710, 0x711, 0x712, 0x713, 0x740, 0x741, 0x800, 0x801, 0x810, 0x811, 0x812, 0x813,
     0x820, 0x830, 0x840, 0x900, 0x901, 0x902, 0x903, 0x910, 0x911, 0xa00, 0xa01, 0xb00,
     0xb01]"
  by (simp add: cmd_names_def)

lemma name_of_op: "map_of cmd_names (gravity_cmd_op_val op) = None \<longleftrightarrow> op = GRAVITY_CMD_MAX"
proof -
  have "set (map fst cmd_names) = fst ` set cmd_names" by simp
  moreover have "gravity_cmd_op_val op \<notin> set (map fst cmd_names) \<longleftrightarrow> op = GRAVITY_CMD_MAX"
    unfolding named_opcodes by (cases op) simp_all
  ultimately show ?thesis by (simp add: map_of_eq_None_iff)
qed

text \<open>
  the name table has an entry for each opcode of the protocol (the end marker
  \<^verbatim>\<open>GRAVITY_CMD_MAX\<close> has none), no two with the same opcode and no two with the same
  name, so a name tells opcodes apart; every other value is \<open>UNKNOWN\<close>.
\<close>

lemma command_names:
  "distinct (map fst cmd_names) \<and> distinct (map snd cmd_names) \<and>
   (gravity_cmd_name (gravity_cmd_op_val op) = ''UNKNOWN'' \<longleftrightarrow> op = GRAVITY_CMD_MAX) \<and>
   (gravity_cmd_name v = gravity_cmd_name w \<longleftrightarrow>
      v = w \<or> gravity_cmd_name v = ''UNKNOWN'' \<and> gravity_cmd_name w = ''UNKNOWN'')"
proof -
  have known: "gravity_cmd_name v = ''UNKNOWN'' \<longleftrightarrow> map_of cmd_names v = None" for v
    using names_distinct(3) by (force simp: cmd_name_eq split: option.split dest: map_of_SomeD)
  have "v = w" if "map_of cmd_names v = Some n" "map_of cmd_names w = Some n" for n
    using that names_distinct(2) by (metis inj_on_eq_iff distinct_map map_of_SomeD prod.inject snd_conv)
  then have "gravity_cmd_name v = gravity_cmd_name w \<longleftrightarrow>
      v = w \<or> gravity_cmd_name v = ''UNKNOWN'' \<and> gravity_cmd_name w = ''UNKNOWN''"
    using known [of v] known [of w]
    by (cases "map_of cmd_names v"; cases "map_of cmd_names w") (auto simp: cmd_name_eq)
  then show ?thesis using names_distinct known name_of_op by simp
qed

end
