(* ===== verification/Render_Props.thy ===== *)
theory Render_Props
  imports Gpu_Objects Protocol_Props
begin

text \<open>
  Properties of command buffers and render commands: what a commit tells Vulkan and the guest,
  the render pass state, the image layouts of attachments, the viewport, and commands that name
  handles the daemon does not know.
\<close>

section \<open>Lookups and the daemon's memory\<close>

lemma get_update [simp]: "union_only f \<Longrightarrow> dm_get (dm_update i f d) h = dm_get d h"
  using same_shape_get [OF update_shape] by (simp add: dm_get_def)

lemma get_tell [simp]: "dm_get (dm_tell d c) h = dm_get d h"
  by (simp add: dm_get_def)

lemma entry_tell [simp]: "dm_entry (dm_tell d c) i = dm_entry d i"
  by (simp add: dm_entry_def)

lemma tell_calls: "dm_calls (dm_tell d c) = dm_calls d @ [c]"
  by (simp add: dm_tell_def)

lemma complete_sel [simp]:
  "dm_tracker (dm_complete d bs) = dm_tracker d" "dm_calls (dm_complete d bs) = dm_calls d"
  "dm_ring (dm_complete d bs) = dm_ring d" "dm_entry (dm_complete d bs) i = dm_entry d i"
  by (simp_all add: dm_complete_def dm_entry_def split: prod.split)

lemma complete_contents:
  assumes "ring_ok (dm_ring d)" "length bs < 2 ^ 32"
  shows "comp_contents (dm_ring d) (dm_mem (dm_complete d bs)) =
     comp_contents (dm_ring d) (dm_mem d) @
       (if length (comp_contents (dm_ring d) (dm_mem d)) + length bs < unat (rg_comp_ring_size (dm_ring d))
        then bs else [])"
proof -
  let ?n = "of_nat (length bs) :: u32"
  have n: "unat ?n = length bs" using assms(2) by (simp add: unat_of_nat)
  have m: "dm_mem (dm_complete d bs) = snd (gravity_ring_comp_write (dm_ring d) (dm_mem d) bs ?n)"
    by (simp add: dm_complete_def split: prod.split)
  show ?thesis
  proof (cases "fst (gravity_ring_comp_write (dm_ring d) (dm_mem d) bs ?n) = 0")
    case True
    then show ?thesis
      using comp_write_contents [OF assms(1) True] comp_write_zero_iff [OF assms(1), of "dm_mem d" bs ?n] n
      by (simp add: m)
  next
    case False
    then show ?thesis
      using comp_write_fail [OF False] comp_write_zero_iff [OF assms(1), of "dm_mem d" bs ?n] n
      by (simp add: m)
  qed
qed

section \<open>Commit\<close>

lemma length_completed [simp]: "length (completed_bytes cmd) = 32"
  by (simp add: completed_bytes_def)

lemma commit_eq:
  assumes "dm_get d (cbm_handle cmd) = Some i" "re_type (dm_entry d i) = GRAVITY_RES_CMDBUF"
  shows "gravity_cmd_process_cmdbuf_commit cmd d =
    (let cb = get_res64 (dm_entry d i) cmdbuf_cmd_buf; fence = get_res64 (dm_entry d i) cmdbuf_fence;
         dev = vs_device (dm_vk d);
         d1 = dm_tell d (Cmd (vkEndCommandBuffer cb));
         d2 = dm_tell (dm_update i (put_resb cmdbuf_recording False) d1) (Cmd (vkQueueSubmit (vs_graphics_queue (dm_vk d)) cb fence));
         d3 = dm_complete (dm_tell d2 (Cmd (vkWaitForFences dev fence))) (completed_bytes cmd)
     in dm_tell (dm_tell d3 (Cmd (vkResetFences dev fence))) (Cmd (vkResetCommandBuffer cb)))"
  using assms by (simp add: gravity_cmd_process_cmdbuf_commit_def Let_def)

lemma commit_effect:
  assumes ok: "daemon_ok d" and i: "dm_get d (cbm_handle cmd) = Some i" "re_type (dm_entry d i) = GRAVITY_RES_CMDBUF"
  defines "d' \<equiv> gravity_cmd_process_cmdbuf_commit cmd d"
    and "cb \<equiv> get_res64 (dm_entry d i) cmdbuf_cmd_buf" and "fence \<equiv> get_res64 (dm_entry d i) cmdbuf_fence"
  shows "dm_calls d' = dm_calls d @
      [Cmd (vkEndCommandBuffer cb), Cmd (vkQueueSubmit (vs_graphics_queue (dm_vk d)) cb fence),
       Cmd (vkWaitForFences (vs_device (dm_vk d)) fence),
       Cmd (vkResetFences (vs_device (dm_vk d)) fence), Cmd (vkResetCommandBuffer cb)]"
    and "dm_entry d' = (dm_entry d)(i := put_resb cmdbuf_recording False (dm_entry d i))"
    and "comp_contents (dm_ring d) (dm_mem d') = comp_contents (dm_ring d) (dm_mem d) @
      (if length (comp_contents (dm_ring d) (dm_mem d)) + 32 < unat (rg_comp_ring_size (dm_ring d))
       then completed_bytes cmd else [])"
proof -
  have ring: "ring_ok (dm_ring d)" using ok by (simp add: daemon_ok_def)
  show "dm_calls d' = dm_calls d @
      [Cmd (vkEndCommandBuffer cb), Cmd (vkQueueSubmit (vs_graphics_queue (dm_vk d)) cb fence),
       Cmd (vkWaitForFences (vs_device (dm_vk d)) fence),
       Cmd (vkResetFences (vs_device (dm_vk d)) fence), Cmd (vkResetCommandBuffer cb)]"
    "dm_entry d' = (dm_entry d)(i := put_resb cmdbuf_recording False (dm_entry d i))"
    by (simp_all add: d'_def commit_eq [OF i] cb_def fence_def Let_def tell_calls fun_eq_iff union_simps)
  show "comp_contents (dm_ring d) (dm_mem d') = comp_contents (dm_ring d) (dm_mem d) @
      (if length (comp_contents (dm_ring d) (dm_mem d)) + 32 < unat (rg_comp_ring_size (dm_ring d))
       then completed_bytes cmd else [])"
    using complete_contents [where bs = "completed_bytes cmd" and
        d = "dm_tell (dm_tell (dm_update i (put_resb cmdbuf_recording False) (dm_tell d (Cmd (vkEndCommandBuffer cb))))
               (Cmd (vkQueueSubmit (vs_graphics_queue (dm_vk d)) cb fence))) (Cmd (vkWaitForFences (vs_device (dm_vk d)) fence))"] ring
    by (simp add: d'_def commit_eq [OF i] cb_def fence_def Let_def)
qed

text \<open>
  C22: committing a known command buffer ends it, submits it, waits for its fence and only then
  writes the completion, before fence and buffer are reset; the recording flag is cleared, the
  render pass flag and all other entries keep their values.  The completion is lost without a
  trace when the ring has no room for its 32 bytes.  Any other handle changes nothing.
\<close>

theorem commit_spec:
  assumes "daemon_ok d"
  shows "let d' = gravity_cmd_process_cmdbuf_commit cmd d in
    case dm_get d (cbm_handle cmd) of
      None \<Rightarrow> d' = d
    | Some i \<Rightarrow>
        if re_type (dm_entry d i) = GRAVITY_RES_CMDBUF then
          let cb = get_res64 (dm_entry d i) cmdbuf_cmd_buf; fence = get_res64 (dm_entry d i) cmdbuf_fence
          in dm_calls d' = dm_calls d @
               [Cmd (vkEndCommandBuffer cb), Cmd (vkQueueSubmit (vs_graphics_queue (dm_vk d)) cb fence),
                Cmd (vkWaitForFences (vs_device (dm_vk d)) fence),
                Cmd (vkResetFences (vs_device (dm_vk d)) fence), Cmd (vkResetCommandBuffer cb)] \<and>
             \<not> get_resb (dm_entry d' i) cmdbuf_recording \<and>
             get_resb (dm_entry d' i) cmdbuf_in_render_pass = get_resb (dm_entry d i) cmdbuf_in_render_pass \<and>
             (\<forall>j. j \<noteq> i \<longrightarrow> dm_entry d' j = dm_entry d j) \<and>
             comp_contents (dm_ring d) (dm_mem d') = comp_contents (dm_ring d) (dm_mem d) @
               (if length (comp_contents (dm_ring d) (dm_mem d)) + 32 < unat (rg_comp_ring_size (dm_ring d))
                then completed_bytes cmd else [])
        else d' = d"
proof (cases "dm_get d (cbm_handle cmd)")
  case (Some i)
  then show ?thesis
    by (cases "re_type (dm_entry d i) = GRAVITY_RES_CMDBUF")
      (simp_all add: commit_effect [OF assms Some] Let_def union_simps,
        simp add: gravity_cmd_process_cmdbuf_commit_def)
qed (simp add: gravity_cmd_process_cmdbuf_commit_def)

text \<open>A command buffer at entry 0, for the handle 5, in an otherwise empty tracker.\<close>

definition demo_with_cmdbuf :: gravity_daemon where
  "demo_with_cmdbuf = gravity_cmd_process_cmdbuf_create demo_vulkan
     \<lparr>cbc_hdr = gravity_cmd_init (gravity_cmd_op_val GRAVITY_CMD_CMDBUF_CREATE) 20 1,
      cbc_handle = 5\<rparr> (demo_daemon demo_mem)"

theorem commit_spec_witness:
  "daemon_ok demo_with_cmdbuf \<and>
   gravity_cmd_process_cmdbuf_commit \<lparr>cbm_hdr = gravity_cmd_init 0 20 9, cbm_handle = 0\<rparr>
     demo_with_cmdbuf = demo_with_cmdbuf"
proof -
  have ok: "daemon_ok demo_with_cmdbuf"
    unfolding demo_with_cmdbuf_def by (rule ok.cmdbuf_create) simp
  then show ?thesis
    using commit_spec [OF ok, of "\<lparr>cbm_hdr = gravity_cmd_init 0 20 9, cbm_handle = 0\<rparr>"]
    by (simp add: Let_def dm_get_def gravity_resource_tracker_get_def GRAVITY_INVALID_HANDLE_def)
qed

text \<open>
  C21: the guest learns of a commit: with room in an empty completion ring, the next
  \<^verbatim>\<open>gravity_ring_comp_read\<close> into a buffer of at least 32 bytes returns 32 and the
  completion with the commit's sequence number and handle and status 0, and empties the ring.
\<close>

theorem completion_reaches_guest:
  assumes "daemon_ok d" "dm_get d (cbm_handle cmd) = Some i" "re_type (dm_entry d i) = GRAVITY_RES_CMDBUF"
    and "comp_contents (dm_ring d) (dm_mem d) = []" "32 < unat (rg_comp_ring_size (dm_ring d))" "32 \<le> unat n"
  shows "\<exists>buf' m'. gravity_ring_comp_read (dm_ring d) (dm_mem (gravity_cmd_process_cmdbuf_commit cmd d)) buf n
       = (32, buf', m') \<and>
     gravity_cmd_cmdbuf_completed_at buf' 0 =
       \<lparr>comp_hdr = gravity_cmd_init (gravity_cmd_op_val GRAVITY_CMD_CMDBUF_COMPLETED) 32 (hdr_sequence (cbm_hdr cmd)),
        comp_handle = cbm_handle cmd, comp_status = 0, comp_gpu_time_ns = 0\<rparr> \<and>
     comp_contents (dm_ring d) m' = []"
proof -
  let ?d = "gravity_cmd_process_cmdbuf_commit cmd d" and ?bs = "completed_bytes cmd"
  have ok: "ring_ok (dm_ring d)" using assms(1) by (simp add: daemon_ok_def)
  have c: "comp_contents (dm_ring d) (dm_mem ?d) = ?bs @ []"
    using commit_effect(3) [OF assms(1-3)] assms(4,5) by simp
  have fr: "framed (min (unat n) (2 ^ 31 - 1)) ?bs"
    using assms(6) by (simp add: framed_def completed_bytes_def gravity_cmd_cmdbuf_completed_bytes_def
        header_of_append gravity_cmd_init_def)
  obtain m' where m': "gravity_ring_comp_read (dm_ring d) (dm_mem ?d) buf n = (32, wr buf 0 ?bs, m')"
    "comp_contents (dm_ring d) m' = []"
    using comp_read_front [OF ok c fr, of buf] by auto
  have "gravity_cmd_header_at (wr buf 0 ?bs) 0 = gravity_cmd_header_at (list_mem ?bs) 0"
    by (rule header_at_cong) (simp add: wr_def list_mem_def)
  then have "gravity_cmd_cmdbuf_completed_at (wr buf 0 ?bs) 0 = gravity_cmd_cmdbuf_completed_at (list_mem ?bs) 0"
    unfolding gravity_cmd_cmdbuf_completed_at_def
    by (simp add: wr_def list_mem_def cong: ld32_cong2 ld64_cong2)
  then show ?thesis using m' decode_completed by (simp add: completed_bytes_def)
qed

lemma demo_cmdbuf:
  obtains i where "dm_get demo_with_cmdbuf 5 = Some i" "re_type (dm_entry demo_with_cmdbuf i) = GRAVITY_RES_CMDBUF"
    "dm_ring demo_with_cmdbuf = demo_ring" "dm_mem demo_with_cmdbuf = demo_mem" "daemon_ok demo_with_cmdbuf"
proof -
  let ?t = "gravity_resource_tracker_init zero_tracker"
  have none: "fst (gravity_resource_tracker_add ?t 5 GRAVITY_RES_CMDBUF) \<noteq> None"
    using demo_room [of 5 GRAVITY_RES_CMDBUF] by auto
  have room: "gravity_resource_tracker_get t 5 = Some i"
    if "gravity_resource_tracker_add ?t 5 GRAVITY_RES_CMDBUF = (Some i, t)" for i t
    using add_room [of ?t 5 GRAVITY_RES_CMDBUF] that
    by (auto simp: init_entries strong_get_None strong_get)
  have "outcome (\<lambda>d. (\<exists>i. dm_get d 5 = Some i \<and> re_type (dm_entry d i) = GRAVITY_RES_CMDBUF) \<and>
      dm_ring d = demo_ring \<and> dm_mem d = demo_mem) demo_with_cmdbuf"
    unfolding demo_with_cmdbuf_def gravity_cmd_process_cmdbuf_create_def
    by (intro outcome_rules) (use none in \<open>simp_all add: outcome_def demo_vulkan_def demo_reply_def
        union_intros union_simps dm_get_def [symmetric] del: comp_apply\<close>,
       simp_all add: dm_get_def room dm_entry_def union_simps)
  moreover have "daemon_ok demo_with_cmdbuf"
    unfolding demo_with_cmdbuf_def by (rule ok.cmdbuf_create) simp
  ultimately show thesis using that by (auto simp: outcome_def)
qed

theorem completion_reaches_guest_witness:
  "\<exists>buf' m'. gravity_ring_comp_read demo_ring
       (dm_mem (gravity_cmd_process_cmdbuf_commit \<lparr>cbm_hdr = gravity_cmd_init 0 20 9, cbm_handle = 5\<rparr> demo_with_cmdbuf))
       (\<lambda>_. 0) 64 = (32, buf', m') \<and> comp_handle (gravity_cmd_cmdbuf_completed_at buf' 0) = 5"
proof (rule demo_cmdbuf)
  fix i
  assume i: "dm_get demo_with_cmdbuf 5 = Some i" "re_type (dm_entry demo_with_cmdbuf i) = GRAVITY_RES_CMDBUF"
    "dm_ring demo_with_cmdbuf = demo_ring" "dm_mem demo_with_cmdbuf = demo_mem" "daemon_ok demo_with_cmdbuf"
  show ?thesis
    using completion_reaches_guest [OF i(5), of "\<lparr>cbm_hdr = gravity_cmd_init 0 20 9, cbm_handle = 5\<rparr>" i 64 "\<lambda>_. 0"]
      i demo_attach by auto
qed

section \<open>Attachments and layouts\<close>

definition attached :: "nat \<Rightarrow> gravity_daemon \<Rightarrow> bool" where
  "attached t d \<longleftrightarrow> get_res32 (dm_entry d t) texture_current_layout = VK_IMAGE_LAYOUT_COLOR_ATTACHMENT_OPTIMAL"

text \<open>The entries the attachments name.\<close>

definition named :: "gravity_color_attachment_action list \<Rightarrow> gravity_daemon \<Rightarrow> nat set" where
  "named cas d = {t. \<exists>ca\<in>set cas. dm_get d (caa_texture ca) = Some t}"

lemma named_simps [simp]:
  "named [] d = {}"
  "named (ca # cas) d = (case dm_get d (caa_texture ca) of None \<Rightarrow> {} | Some t \<Rightarrow> {t}) \<union> named cas d"
  by (auto simp: named_def split: option.splits)

lemma named_finite [simp]: "finite (named cas d)"
  by (induction cas) (simp_all split: option.split)

text \<open>
  One round, as far as lookups, layouts, the command buffer's handle and the calls go: a named
  texture that is not attached yet gets one barrier.
\<close>

lemma color_step_effect:
  defines "d' cb ca d \<equiv> snd (color_step cb ca d)"
  shows "dm_get (d' cb ca d) h = dm_get d h"
    and "attached t (d' cb ca d) \<longleftrightarrow> attached t d \<or> dm_get d (caa_texture ca) = Some t"
    and "get_res64 (dm_entry (d' cb ca d) i) cmdbuf_cmd_buf = get_res64 (dm_entry d i) cmdbuf_cmd_buf"
    and "\<exists>bs. dm_calls (d' cb ca d) = dm_calls d @ bs \<and>
      length bs = card (case dm_get d (caa_texture ca) of None \<Rightarrow> {} | Some t \<Rightarrow> {t} - {t. attached t d}) \<and>
      (\<forall>c\<in>set bs. \<exists>b. c = Cmd (vkCmdPipelineBarrier (get_res64 (dm_entry d cb) cmdbuf_cmd_buf) b))"
  by (auto simp: d'_def color_step_def Let_def attached_def union_intros union_simps tell_calls insert_Diff_if
      split: option.splits)

lemma color_loop_effect:
  defines "d' cb cas d \<equiv> snd (color_loop cb cas d)"
  shows "dm_get (d' cb cas d) h = dm_get d h"
    and "attached t (d' cb cas d) \<longleftrightarrow> attached t d \<or> t \<in> named cas d"
    and "get_res64 (dm_entry (d' cb cas d) i) cmdbuf_cmd_buf = get_res64 (dm_entry d i) cmdbuf_cmd_buf"
    and "\<exists>bs. dm_calls (d' cb cas d) = dm_calls d @ bs \<and> length bs = card (named cas d - {t. attached t d}) \<and>
      (\<forall>c\<in>set bs. \<exists>b. c = Cmd (vkCmdPipelineBarrier (get_res64 (dm_entry d cb) cmdbuf_cmd_buf) b))"
proof -
  have "dm_get (d' cb cas d) h = dm_get d h \<and>
      (attached t (d' cb cas d) \<longleftrightarrow> attached t d \<or> t \<in> named cas d) \<and>
      get_res64 (dm_entry (d' cb cas d) i) cmdbuf_cmd_buf = get_res64 (dm_entry d i) cmdbuf_cmd_buf \<and>
      (\<exists>bs. dm_calls (d' cb cas d) = dm_calls d @ bs \<and> length bs = card (named cas d - {t. attached t d}) \<and>
        (\<forall>c\<in>set bs. \<exists>b. c = Cmd (vkCmdPipelineBarrier (get_res64 (dm_entry d cb) cmdbuf_cmd_buf) b)))"
    for h t i
  proof (induction cas arbitrary: d h t i)
    case (Cons ca cas)
    let ?e = "snd (color_step cb ca d)"
    have d': "d' cb (ca # cas) d = d' cb cas ?e" by (simp add: d'_def Let_def split: prod.split)
    note step = color_step_effect [where cb = cb and ca = ca and d = d]
    have nm: "named cas ?e = named cas d" by (simp add: named_def step(1))
    let ?t = "case dm_get d (caa_texture ca) of None \<Rightarrow> {} | Some t \<Rightarrow> {t} - {t. attached t d}"
    have set: "named (ca # cas) d - {t. attached t d} = ?t \<union> (named cas ?e - {t. attached t ?e})"
      and dis: "?t \<inter> (named cas ?e - {t. attached t ?e}) = {}"
      by (auto simp: nm step(2) split: option.splits)
    have fin: "finite ?t" by (simp split: option.split)
    obtain bs where bs: "dm_calls ?e = dm_calls d @ bs" "length bs = card ?t"
      "\<forall>c\<in>set bs. \<exists>b. c = Cmd (vkCmdPipelineBarrier (get_res64 (dm_entry d cb) cmdbuf_cmd_buf) b)"
      using step(4) by blast
    obtain cs where cs: "dm_calls (d' cb cas ?e) = dm_calls ?e @ cs"
      "length cs = card (named cas ?e - {t. attached t ?e})"
      "\<forall>c\<in>set cs. \<exists>b. c = Cmd (vkCmdPipelineBarrier (get_res64 (dm_entry ?e cb) cmdbuf_cmd_buf) b)"
      using Cons.IH [of ?e] by blast
    have "length (bs @ cs) = card (named (ca # cas) d - {t. attached t d})"
      unfolding set using bs(2) cs(2) fin dis by (subst card_Un_disjoint) auto
    moreover have "\<forall>c\<in>set (bs @ cs). \<exists>b. c = Cmd (vkCmdPipelineBarrier (get_res64 (dm_entry d cb) cmdbuf_cmd_buf) b)"
      using bs(3) cs(3) by (auto simp: step(3))
    moreover have "dm_calls (d' cb (ca # cas) d) = dm_calls d @ (bs @ cs)" by (simp add: d' cs(1) bs(1))
    moreover have "dm_get (d' cb (ca # cas) d) h = dm_get d h" using Cons.IH [of ?e] by (simp add: d' step(1))
    moreover have "attached t (d' cb (ca # cas) d) \<longleftrightarrow> attached t d \<or> t \<in> named (ca # cas) d"
      using Cons.IH [of ?e] by (auto simp: d' nm step(2) split: option.splits)
    moreover have "get_res64 (dm_entry (d' cb (ca # cas) d) i) cmdbuf_cmd_buf = get_res64 (dm_entry d i) cmdbuf_cmd_buf"
      using Cons.IH [of ?e] by (simp add: d' step(3))
    ultimately show ?case by blast
  qed (simp add: d'_def)
  then show "dm_get (d' cb cas d) h = dm_get d h"
    "attached t (d' cb cas d) \<longleftrightarrow> attached t d \<or> t \<in> named cas d"
    "get_res64 (dm_entry (d' cb cas d) i) cmdbuf_cmd_buf = get_res64 (dm_entry d i) cmdbuf_cmd_buf"
    "\<exists>bs. dm_calls (d' cb cas d) = dm_calls d @ bs \<and> length bs = card (named cas d - {t. attached t d}) \<and>
      (\<forall>c\<in>set bs. \<exists>b. c = Cmd (vkCmdPipelineBarrier (get_res64 (dm_entry d cb) cmdbuf_cmd_buf) b))"
    by blast+
qed

text \<open>
  C29: a render pass on a known command buffer with at most eight attachments first transitions
  every named texture that is not in the attachment layout, with one barrier for each such
  texture, however often it is named, then begins rendering with all the attachments, and leaves
  all the named textures in that layout; above eight the handler writes behind its array.
\<close>

theorem render_begin_layouts:
  "case dm_get d (rb_cmdbuf cmd) of
     None \<Rightarrow> process_render_begin cmd d = Some d
   | Some cb \<Rightarrow>
       let cas = take (unat (rb_num_color_attachments cmd)) (rb_color_attachments cmd);
           buf = get_res64 (dm_entry d cb) cmdbuf_cmd_buf
       in case process_render_begin cmd d of
            None \<Rightarrow> 8 < unat (rb_num_color_attachments cmd)
          | Some d' \<Rightarrow> unat (rb_num_color_attachments cmd) \<le> 8 \<and>
              (\<exists>barriers info. dm_calls d' = dm_calls d @ barriers @ [Cmd (vkCmdBeginRendering buf info)] \<and>
                 length barriers = card (named cas d - {t. attached t d}) \<and>
                 (\<forall>c\<in>set barriers. \<exists>b. c = Cmd (vkCmdPipelineBarrier buf b)) \<and>
                 length (ri_color info) = length cas) \<and>
              (\<forall>t\<in>named cas d. attached t d') \<and> get_resb (dm_entry d' cb) cmdbuf_in_render_pass"
proof (cases "dm_get d (rb_cmdbuf cmd)")
  case (Some cb)
  let ?n = "unat (rb_num_color_attachments cmd)"
  let ?cas = "take ?n (rb_color_attachments cmd)"
  let ?e = "snd (color_loop cb ?cas d)" and ?atts = "fst (color_loop cb ?cas d)"
  note loop = color_loop_effect [where cb = cb and cas = ?cas and d = d]
  have len: "length (fst (color_loop cb cas d)) = length cas" for cas d
    by (induction cas arbitrary: d) (simp_all add: Let_def split: prod.split, metis fst_conv)
  show ?thesis
  proof (cases "?n \<le> 8")
    case True
    obtain info d' where d': "process_render_begin cmd d = Some d'"
      "d' = dm_update cb (put_resb cmdbuf_in_render_pass True)
         (dm_tell ?e (Cmd (vkCmdBeginRendering (get_res64 (dm_entry ?e cb) cmdbuf_cmd_buf) info)))"
      "ri_color info = ?atts"
      using Some True
      by (simp add: process_render_begin_def GRAVITY_MAX_COLOR_ATTACHMENTS_def Let_def split_def)
    obtain bs where bs: "dm_calls ?e = dm_calls d @ bs" "length bs = card (named ?cas d - {t. attached t d})"
      "\<forall>c\<in>set bs. \<exists>b. c = Cmd (vkCmdPipelineBarrier (get_res64 (dm_entry d cb) cmdbuf_cmd_buf) b)"
      using loop(4) by blast
    have c: "dm_calls d' = dm_calls d @ bs @ [Cmd (vkCmdBeginRendering (get_res64 (dm_entry d cb) cmdbuf_cmd_buf) info)]"
      by (simp add: d'(2) tell_calls bs(1) loop(3))
    have t: "\<forall>t\<in>named ?cas d. attached t d'"
      using loop(2) by (auto simp: d'(2) attached_def union_simps)
    have p: "get_resb (dm_entry d' cb) cmdbuf_in_render_pass" by (simp add: d'(2) union_simps)
    show ?thesis
      unfolding Some option.case Let_def d'(1)
      using True bs(2,3) c t p d'(3) len by metis
  qed (simp add: Some process_render_begin_def GRAVITY_MAX_COLOR_ATTACHMENTS_def Let_def)
qed (simp add: process_render_begin_def)

text \<open>A \<^verbatim>\<open>RENDER_BEGIN\<close> on the command buffer 5 that announces \<open>n\<close> attachments and names none.\<close>

definition demo_begin :: "u32 \<Rightarrow> gravity_cmd_render_begin" where
  "demo_begin n = (gravity_cmd_render_begin_at (\<lambda>_. 0) 0)\<lparr>rb_cmdbuf := 5, rb_num_color_attachments := n\<rparr>"

theorem render_begin_layouts_witness:
  "process_render_begin (demo_begin 9) demo_with_cmdbuf = None \<and>
   process_render_begin (demo_begin 0) demo_with_cmdbuf \<noteq> None"
proof (rule demo_cmdbuf)
  fix i
  assume i: "dm_get demo_with_cmdbuf 5 = Some i"
  show ?thesis
    using render_begin_layouts [of "demo_begin 9" demo_with_cmdbuf]
      render_begin_layouts [of "demo_begin 0" demo_with_cmdbuf] i
    by (auto simp: demo_begin_def Let_def split: option.splits)
qed

section \<open>The render pass flag\<close>

text \<open>Begin and end commands, in the order the daemon processes them.\<close>

datatype pass_op = Pass_Begin gravity_cmd_render_begin | Pass_End gravity_cmd_render_end

fun run_passes :: "pass_op list \<Rightarrow> gravity_daemon \<Rightarrow> gravity_daemon option" where
  "run_passes [] d = Some d"
| "run_passes (Pass_Begin c # ops) d =
     (case process_render_begin c d of None \<Rightarrow> None | Some d' \<Rightarrow> run_passes ops d')"
| "run_passes (Pass_End c # ops) d = run_passes ops (process_render_end c d)"

definition is_begin :: "u64 \<Rightarrow> vk_call \<Rightarrow> bool" where
  "is_begin buf c \<longleftrightarrow> (\<exists>info. c = Cmd (vkCmdBeginRendering buf info))"

definition is_end :: "u64 \<Rightarrow> vk_call \<Rightarrow> bool" where
  "is_end buf c \<longleftrightarrow> c = Cmd (vkCmdEndRendering buf)"

lemma begin_not_end [simp]:
  "\<not> is_end b (Cmd (vkCmdBeginRendering b' info))" "\<not> is_begin b (Cmd (vkCmdEndRendering b'))"
  "\<not> is_end b (Cmd (vkCmdPipelineBarrier b' x))" "\<not> is_begin b (Cmd (vkCmdPipelineBarrier b' x))"
  "is_begin b (Cmd (vkCmdBeginRendering b' info)) \<longleftrightarrow> b = b'" "is_end b (Cmd (vkCmdEndRendering b')) \<longleftrightarrow> b = b'"
  by (auto simp: is_begin_def is_end_def)

text \<open>Rendering has begun and not ended, according to the calls.\<close>

definition open_calls :: "u64 \<Rightarrow> vk_call list \<Rightarrow> bool" where
  "open_calls buf cs = foldl (\<lambda>b c. if is_begin buf c then True else if is_end buf c then False else b) False cs"

lemma open_calls_snoc [simp]:
  "open_calls buf (cs @ [c]) = (if is_begin buf c then True else if is_end buf c then False else open_calls buf cs)"
  by (simp add: open_calls_def)

lemma open_calls_barriers:
  "(\<forall>c\<in>set bs. \<exists>b' x. c = Cmd (vkCmdPipelineBarrier b' x)) \<Longrightarrow> open_calls buf (cs @ bs) = open_calls buf cs"
proof (induction bs rule: rev_induct)
  case (snoc c bs)
  then have "open_calls buf ((cs @ bs) @ [c]) = open_calls buf cs"
    by (auto simp only: open_calls_snoc) auto
  then show ?case by simp
qed simp

text \<open>The entries of command buffers hold different Vulkan command buffers, and each one's flag
  says what the calls say.\<close>

definition pass_flags_ok :: "nat set \<Rightarrow> gravity_daemon \<Rightarrow> bool" where
  "pass_flags_ok B d \<longleftrightarrow> inj_on (\<lambda>i. get_res64 (dm_entry d i) cmdbuf_cmd_buf) B \<and>
     (\<forall>i\<in>B. get_resb (dm_entry d i) cmdbuf_in_render_pass \<longleftrightarrow>
             open_calls (get_res64 (dm_entry d i) cmdbuf_cmd_buf) (dm_calls d))"

lemma color_step_flag:
  "get_resb (dm_entry (snd (color_step cb ca d)) i) cmdbuf_in_render_pass = get_resb (dm_entry d i) cmdbuf_in_render_pass"
  by (auto simp: color_step_def Let_def union_simps split: option.splits)

lemma color_loop_flag:
  "get_resb (dm_entry (snd (color_loop cb cas d)) i) cmdbuf_in_render_pass = get_resb (dm_entry d i) cmdbuf_in_render_pass"
  by (induction cas arbitrary: d) (simp_all add: Let_def color_step_flag split_def)

primrec pass_handle :: "pass_op \<Rightarrow> u32" where
  "pass_handle (Pass_Begin c) = rb_cmdbuf c"
| "pass_handle (Pass_End c) = re_cmdbuf c"

lemma flags_step:
  assumes ok: "pass_flags_ok B d" and cb: "cb \<in> B"
    and buf: "\<And>i. get_res64 (dm_entry d' i) cmdbuf_cmd_buf = get_res64 (dm_entry d i) cmdbuf_cmd_buf"
    and flag: "\<And>i. get_resb (dm_entry d' i) cmdbuf_in_render_pass =
      (if i = cb then v else get_resb (dm_entry d i) cmdbuf_in_render_pass)"
    and calls: "\<And>b. open_calls b (dm_calls d') =
      (if b = get_res64 (dm_entry d cb) cmdbuf_cmd_buf then v else open_calls b (dm_calls d))"
  shows "pass_flags_ok B d'"
proof -
  have "get_res64 (dm_entry d i) cmdbuf_cmd_buf = get_res64 (dm_entry d cb) cmdbuf_cmd_buf \<longleftrightarrow> i = cb"
    if "i \<in> B" for i
    using ok cb that by (auto simp: pass_flags_ok_def inj_on_def)
  then show ?thesis using ok unfolding pass_flags_ok_def buf flag calls by auto
qed

lemma begin_flags:
  assumes "pass_flags_ok B d" "process_render_begin cmd d = Some d'"
    and "\<forall>cb. dm_get d (rb_cmdbuf cmd) = Some cb \<longrightarrow> cb \<in> B"
  shows "pass_flags_ok B d' \<and> (\<forall>h. dm_get d' h = dm_get d h)"
proof (cases "dm_get d (rb_cmdbuf cmd)")
  case (Some cb)
  then have B: "cb \<in> B" using assms(3) by simp
  let ?cas = "take (unat (rb_num_color_attachments cmd)) (rb_color_attachments cmd)"
  let ?e = "snd (color_loop cb ?cas d)"
  note loop = color_loop_effect [where cb = cb and cas = ?cas and d = d]
  let ?buf = "get_res64 (dm_entry d cb) cmdbuf_cmd_buf"
  obtain info where d': "d' = dm_update cb (put_resb cmdbuf_in_render_pass True)
         (dm_tell ?e (Cmd (vkCmdBeginRendering ?buf info)))"
    using Some assms(2) by (auto simp: process_render_begin_def Let_def split_def loop(3) split: if_splits)
  obtain bs where bs: "dm_calls ?e = dm_calls d @ bs"
    "\<forall>c\<in>set bs. \<exists>b. c = Cmd (vkCmdPipelineBarrier ?buf b)"
    using loop(4) by blast
  have o: "open_calls b (dm_calls ?e) = open_calls b (dm_calls d)" for b
    unfolding bs(1) by (rule open_calls_barriers) (use bs(2) in blast)
  have "pass_flags_ok B d'"
    by (rule flags_step [OF assms(1) B, of _ True])
      (simp_all add: d' union_simps loop(3) color_loop_flag tell_calls o)
  moreover have "dm_get d' h = dm_get d h" for h by (simp add: d' loop(1) union_intros)
  ultimately show ?thesis by blast
qed (use assms(1,2) in \<open>simp add: process_render_begin_def\<close>)

lemma end_flags:
  assumes "pass_flags_ok B d" "\<forall>cb. dm_get d (re_cmdbuf cmd) = Some cb \<longrightarrow> cb \<in> B"
  shows "pass_flags_ok B (process_render_end cmd d) \<and> (\<forall>h. dm_get (process_render_end cmd d) h = dm_get d h)"
proof (cases "dm_get d (re_cmdbuf cmd)")
  case (Some cb)
  let ?d = "process_render_end cmd d"
  have "pass_flags_ok B ?d" if "get_resb (dm_entry d cb) cmdbuf_in_render_pass"
    by (rule flags_step [OF assms(1), of cb _ False])
      (use assms(2) Some that in \<open>simp_all add: process_render_end_def union_simps tell_calls\<close>)
  then show ?thesis
    using assms(1) Some by (simp add: process_render_end_def union_intros)
qed (use assms(1) in \<open>simp add: process_render_end_def\<close>)

text \<open>
  whatever sequence of begin and end commands the daemon processes for command buffers with
  distinct Vulkan handles, the flag of each entry says whether the calls made so far leave its
  command buffer inside a render pass; in particular rendering is ended only where it was begun.
\<close>

lemma render_pass_flags:
  assumes "pass_flags_ok B d" "run_passes ops d = Some d'"
    and "\<forall>op\<in>set ops. \<forall>cb. dm_get d (pass_handle op) = Some cb \<longrightarrow> cb \<in> B"
  shows "pass_flags_ok B d'"
  using assms
proof (induction ops arbitrary: d)
  case (Cons op ops)
  show ?case
  proof (cases op)
    case (Pass_Begin c)
    then obtain e where e: "process_render_begin c d = Some e" "run_passes ops e = Some d'"
      using Cons.prems(2) by (auto split: option.splits)
    show ?thesis
      using begin_flags [OF Cons.prems(1) e(1)] Cons.prems(3) Pass_Begin e(2) by (intro Cons.IH [of e]) auto
  next
    case (Pass_End c)
    then show ?thesis
      using end_flags [OF Cons.prems(1), of c] Cons.prems by (intro Cons.IH [of "process_render_end c d"]) auto
  qed
qed simp

lemma demo_flags:
  assumes "dm_get demo_with_cmdbuf 5 = Some i"
  shows "pass_flags_ok {i} demo_with_cmdbuf"
proof -
  let ?t = "gravity_resource_tracker_init zero_tracker"
  obtain k t where t: "gravity_resource_tracker_add ?t 5 GRAVITY_RES_CMDBUF = (Some k, t)"
    "gravity_resource_tracker_get t 5 = Some k"
    using add_room [of ?t 5 GRAVITY_RES_CMDBUF] by (auto simp: init_entries strong_get_None strong_get)
  have e: "demo_with_cmdbuf = dm_update k (put_resb cmdbuf_in_render_pass False \<circ> put_resb cmdbuf_recording True \<circ>
       put_res64 cmdbuf_fence 0x1000 \<circ> put_res64 cmdbuf_cmd_buf 0x1000)
     ((demo_daemon demo_mem)\<lparr>dm_tracker := t, dm_calls := [Cmd (vkAllocateCommandBuffers 0 0), Res (vkCreateFence 0),
        Cmd (vkBeginCommandBuffer 0x1000)]\<rparr>)"
    by (simp add: demo_with_cmdbuf_def gravity_cmd_process_cmdbuf_create_def dm_call_def dm_tell_def dm_add_def
        t(1) demo_vulkan_def demo_reply_def zero_vk_state_def demo_daemon_def)
  have "dm_get demo_with_cmdbuf 5 = Some k" by (simp add: e union_intros) (simp add: dm_get_def t(2))
  then have "i = k" using assms by simp
  then show ?thesis
    by (simp add: pass_flags_ok_def e union_simps open_calls_def is_begin_def is_end_def)
qed

lemma render_pass_flags_witness:
  "\<exists>i d'. run_passes [Pass_End \<lparr>re_hdr = gravity_cmd_init 0 20 9, re_cmdbuf = 5\<rparr>] demo_with_cmdbuf = Some d' \<and>
     dm_get demo_with_cmdbuf 5 = Some i \<and> pass_flags_ok {i} d'"
proof (rule demo_cmdbuf)
  fix i
  assume i: "dm_get demo_with_cmdbuf 5 = Some i"
  then show ?thesis
    using render_pass_flags [OF demo_flags [OF i], of "[Pass_End \<lparr>re_hdr = gravity_cmd_init 0 20 9, re_cmdbuf = 5\<rparr>]"]
    by simp
qed

section \<open>Viewports and unknown handles\<close>

text \<open>
  for integer coordinates whose sum stays below \<open>2 ^ 24\<close> the viewport is flipped exactly:
  Vulkan gets the bottom edge \<open>y + height\<close> as origin and minus the height, so that the edges
  of the rectangle are the guest's, and the other members are passed on as they are.
\<close>

lemma viewport_flip:
  assumes "dm_get d (svp_cmdbuf cmd) = Some cb" "unat y + unat h < 2 ^ 24"
    and "vp_y (svp_viewport cmd) = f32_of_u32 y" "vp_height (svp_viewport cmd) = f32_of_u32 h"
  shows "\<exists>ty th. dm_calls (process_set_viewport cmd d) = dm_calls d @
      [Cmd (vkCmdSetViewport (get_res64 (dm_entry d cb) cmdbuf_cmd_buf)
         [vp_x (svp_viewport cmd), ty, vp_width (svp_viewport cmd), th, vp_znear (svp_viewport cmd), vp_zfar (svp_viewport cmd)])] \<and>
     f32_int ty = int (unat y + unat h) * 2 ^ 149 \<and> f32_int th = - int (unat h) * 2 ^ 149 \<and>
     f32_int ty + f32_int th = f32_int (vp_y (svp_viewport cmd))"
proof -
  have "unat y < 2 ^ 24" "unat h < 2 ^ 24" using assms(2) by auto
  note ints = f32_of_u32_int(1) [OF this(1)] f32_of_u32_int(1) [OF this(2)]
  show ?thesis
    using assms(1) by (intro exI [of _ "f32_add (f32_of_u32 y) (f32_of_u32 h)"] exI [of _ "f32_uminus (f32_of_u32 h)"])
      (simp add: process_set_viewport_def Let_def tell_calls assms(3,4) f32_add_u32 [OF assms(2)] f32_uminus_int ints
        algebra_simps)
qed

lemma viewport_flip_witness:
  "\<exists>ty th. dm_calls (process_set_viewport \<lparr>svp_hdr = gravity_cmd_init 0 44 9, svp_cmdbuf = 5, svp_viewport =
       \<lparr>vp_x = 0, vp_y = f32_of_u32 10, vp_width = f32_of_u32 640, vp_height = f32_of_u32 480, vp_znear = 0, vp_zfar = 0\<rparr>\<rparr>
       demo_with_cmdbuf) = dm_calls demo_with_cmdbuf @
         [Cmd (vkCmdSetViewport (get_res64 (dm_entry demo_with_cmdbuf (the (dm_get demo_with_cmdbuf 5))) cmdbuf_cmd_buf)
           [0, ty, f32_of_u32 640, th, 0, 0])] \<and>
     f32_int ty = 490 * 2 ^ 149 \<and> f32_int th = - 480 * 2 ^ 149"
proof (rule demo_cmdbuf)
  fix i
  assume i: "dm_get demo_with_cmdbuf 5 = Some i"
  then show ?thesis
    using viewport_flip [of demo_with_cmdbuf "\<lparr>svp_hdr = gravity_cmd_init 0 44 9, svp_cmdbuf = 5, svp_viewport =
       \<lparr>vp_x = 0, vp_y = f32_of_u32 10, vp_width = f32_of_u32 640, vp_height = f32_of_u32 480, vp_znear = 0, vp_zfar = 0\<rparr>\<rparr>"
       i 10 480] by auto
qed

text \<open>
  a render command whose command buffer handle is unknown changes nothing, whatever the
  command, and neither does a draw or a binding that names an unknown buffer.
\<close>

lemma unknown_handles_ignored:
  "(dm_get d (ld32 buf 16) = None \<longrightarrow> gravity_cmd_process_render hdr buf d = Some d) \<and>
   (dm_get d (svb_buffer vb) = None \<longrightarrow> process_set_vertex_buffer vb d = d) \<and>
   (dm_get d (rdx_index_buffer dx) = None \<longrightarrow> process_draw_indexed dx d = d)"
proof (intro conjI impI)
  assume "dm_get d (ld32 buf 16) = None"
  then show "gravity_cmd_process_render hdr buf d = Some d"
    by (simp add: gravity_cmd_process_render_def Let_def process_render_begin_def process_render_end_def
        process_set_viewport_def process_set_scissor_def process_set_vertex_buffer_def process_draw_def
        process_draw_indexed_def process_draw_instanced_def gravity_cmd_render_begin_at_def
        gravity_cmd_render_end_at_def gravity_cmd_render_set_viewport_at_def gravity_cmd_render_set_scissor_at_def
        gravity_cmd_render_set_vertex_buffer_at_def gravity_cmd_render_draw_at_def
        gravity_cmd_render_draw_indexed_at_def gravity_cmd_render_draw_instanced_at_def)
qed (simp_all add: process_set_vertex_buffer_def process_draw_indexed_def split: option.split)

lemma unknown_handles_ignored_witness:
  "gravity_cmd_process_render (gravity_cmd_init (gravity_cmd_op_val GRAVITY_CMD_RENDER_DRAW) 36 1) (\<lambda>_. 0)
     (demo_daemon demo_mem) = Some (demo_daemon demo_mem)"
  using unknown_handles_ignored [of "demo_daemon demo_mem" "\<lambda>_. 0"]
  by (simp add: dm_get_def strong_get_None)

end
