(* ===== verification/Host_Os.thy ===== *)
theory Host_Os
  imports Gravity_Prelude
begin

text \<open>
  The POSIX calls the daemon and the device make for their shared memory.  The operating system
  is a parameter, a function from the calls made so far and the present call to its result: a
  file descriptor (negative: failure), a status (negative: failure) or a mapping's address
  (\<^verbatim>\<open>MAP_FAILED\<close> is -1).
\<close>

datatype os_call =
    shm_open string bool
  | fchmod int
  | ftruncate int u64
  | mmap int u64
  | munmap int u64
  | close_fd int

type_synonym os = "os_call list \<Rightarrow> os_call \<Rightarrow> int"

definition MAP_FAILED :: int where "MAP_FAILED = -1"

section \<open>What a sequence of calls leaves open\<close>

text \<open>The open file descriptors and the mapped addresses after the calls.\<close>

fun os_effect :: "int \<Rightarrow> os_call \<Rightarrow> int list \<times> int list \<Rightarrow> int list \<times> int list" where
  "os_effect r (shm_open path creat) (fds, maps) = (if 0 \<le> r then (r # fds, maps) else (fds, maps))"
| "os_effect r (close_fd fd) (fds, maps) = (remove1 fd fds, maps)"
| "os_effect r (mmap fd sz) (fds, maps) = (if r \<noteq> MAP_FAILED then (fds, r # maps) else (fds, maps))"
| "os_effect r (munmap a sz) (fds, maps) = (fds, remove1 a maps)"
| "os_effect r (fchmod fd) (fds, maps) = (fds, maps)"
| "os_effect r (ftruncate fd sz) (fds, maps) = (fds, maps)"

fun os_open_rev :: "os \<Rightarrow> os_call list \<Rightarrow> int list \<times> int list" where
  "os_open_rev os [] = ([], [])"
| "os_open_rev os (c # cs) = os_effect (os (rev cs) c) c (os_open_rev os cs)"

definition os_open :: "os \<Rightarrow> os_call list \<Rightarrow> int list \<times> int list" where
  "os_open os cs = os_open_rev os (rev cs)"

lemma os_open_snoc [simp]: "os_open os (cs @ [c]) = os_effect (os cs c) c (os_open os cs)"
  by (simp add: os_open_def)

section \<open>What is assumed of the calls\<close>

text \<open>The documented behaviour of \<^verbatim>\<open>mmap\<close> without a hint: failure or an address other than null.\<close>

definition maps_positive :: "os \<Rightarrow> bool" where
  "maps_positive os \<longleftrightarrow> (\<forall>tr fd sz. os tr (mmap fd sz) = MAP_FAILED \<or> 0 < os tr (mmap fd sz))"

lemma mmap_positive: "maps_positive os \<Longrightarrow> os tr (mmap fd sz) \<noteq> MAP_FAILED \<Longrightarrow> 0 < os tr (mmap fd sz)"
  by (auto simp: maps_positive_def)

text \<open>A system on which every call succeeds.\<close>

definition demo_os :: os where
  "demo_os tr c = (case c of mmap fd sz \<Rightarrow> 0x1000 | _ \<Rightarrow> 3)"

lemma demo_os_positive: "maps_positive demo_os"
  by (simp add: demo_os_def maps_positive_def)

end
