(* ===== verification/Daemon.thy ===== *)
theory Daemon
  imports Render_Props Host_Os
begin

text \<open>
  The daemon's main program (\<^verbatim>\<open>host-daemon/src/main.c\<close>): configuration and options, the
  shared memory, the dispatch of commands, the command loop with its 64 KiB buffer, and the
  order of start and shutdown.  The loop is modelled by its iterations: a run is a list of
  iterations, each preceded by whatever the guest does to the shared memory, and ends with the
  list when the signal handler clears \<^verbatim>\<open>g_running\<close>.  \<open>None\<close> is the undefined behaviour of a
  render pass with more than eight attachments.
\<close>

section \<open>Configuration\<close>

record gravity_config =
  cfg_shmem_path :: string
  cfg_shmem_size :: u64
  cfg_verbose :: bool
  cfg_trace_commands :: bool
  cfg_validation :: bool

definition config_defaults :: gravity_config where
  "config_defaults = \<lparr>cfg_shmem_path = ''/gravity-gpu'', cfg_shmem_size = 512 * 1024 * 1024,
     cfg_verbose = False, cfg_trace_commands = False, cfg_validation = False\<rparr>"

text \<open>\<^verbatim>\<open>atol\<close>: blanks, an optional sign, decimal digits up to the first other character.\<close>

fun digits_value :: "string \<Rightarrow> int \<Rightarrow> int" where
  "digits_value [] acc = acc"
| "digits_value (c # cs) acc =
     (if 48 \<le> (of_char c :: int) \<and> (of_char c :: int) \<le> 57 then digits_value cs (acc * 10 + (of_char c - 48)) else acc)"

definition atol :: "string \<Rightarrow> int" where
  "atol s = (case dropWhile (\<lambda>c. c \<in> {CHR 0x20, CHR 0x09, CHR 0x0A, CHR 0x0B, CHR 0x0C, CHR 0x0D}) s of
     CHR ''-'' # cs \<Rightarrow> - digits_value cs 0
   | CHR ''+'' # cs \<Rightarrow> digits_value cs 0
   | cs \<Rightarrow> digits_value cs 0)"

text \<open>
  The option loop over what \<^verbatim>\<open>getopt_long\<close> returns: option letters with their arguments.
  \<open>Inl\<close> is an exit with that status.
\<close>

fun parse_options :: "(char \<times> string) list \<Rightarrow> gravity_config \<Rightarrow> int + gravity_config" where
  "parse_options [] cfg = Inr cfg"
| "parse_options ((opt, optarg) # opts) cfg =
     (if opt = CHR ''s'' then parse_options opts (cfg\<lparr>cfg_shmem_path := optarg\<rparr>)
      else if opt = CHR ''m'' then parse_options opts (cfg\<lparr>cfg_shmem_size := of_int (atol optarg) * 1024 * 1024\<rparr>)
      else if opt = CHR ''v'' then parse_options opts (cfg\<lparr>cfg_verbose := True\<rparr>)
      else if opt = CHR ''t'' then parse_options opts (cfg\<lparr>cfg_trace_commands := True\<rparr>)
      else if opt = CHR ''d'' then parse_options opts (cfg\<lparr>cfg_validation := True\<rparr>)
      else if opt = CHR ''h'' then Inl 0
      else Inl 1)"

section \<open>Shared memory\<close>

text \<open>The mapping's address, 0 for \<^verbatim>\<open>NULL\<close>.\<close>

definition open_shared_memory :: "os \<Rightarrow> gravity_config \<Rightarrow> os_call list \<Rightarrow> int \<times> os_call list" where
  "open_shared_memory os cfg tr =
     (let path = cfg_shmem_path cfg; sz = cfg_shmem_size cfg;
          fd1 = os tr (shm_open path False);
          tr1 = tr @ [shm_open path False];
          fd = (if fd1 < 0 then os tr1 (shm_open path True) else fd1);
          tr2 = (if fd1 < 0 then tr1 @ [shm_open path True] else tr1)
      in if fd < 0 then (0, tr2)
         else
           let tr3 = (if fd1 < 0 then tr2 @ [fchmod fd] else tr2);
               resized = os tr3 (ftruncate fd sz);
               tr4 = tr3 @ [ftruncate fd sz]
           in if resized < 0 then (0, tr4 @ [close_fd fd])
              else
                let ptr = os tr4 (mmap fd sz);
                    tr5 = tr4 @ [mmap fd sz, close_fd fd]
                in if ptr = MAP_FAILED then (0, tr5) else (ptr, tr5))"

section \<open>Dispatch\<close>

definition hello_answer :: "gravity_cmd_header \<Rightarrow> gravity_cmd_hello_response" where
  "hello_answer hdr =
     \<lparr>hresp_hdr = gravity_cmd_init (gravity_cmd_op_val GRAVITY_CMD_HELLO) 56 (hdr_sequence hdr),
      hresp_magic = GRAVITY_PROTOCOL_MAGIC,
      hresp_version_major = GRAVITY_PROTOCOL_VERSION_MAJOR,
      hresp_version_minor = GRAVITY_PROTOCOL_VERSION_MINOR,
      hresp_host_features = GRAVITY_FEAT_RING_BUFFER OR GRAVITY_FEAT_SHADER_MSL OR GRAVITY_FEAT_COMPUTE OR
        GRAVITY_FEAT_BLIT OR GRAVITY_FEAT_DISPLAY,
      hresp_max_texture_size = 16384,
      hresp_max_buffer_size = 256 * 1024 * 1024,
      hresp_max_threads_per_group = 1024,
      hresp_reserved = [0, 0, 0, 0]\<rparr>"

definition pong_bytes :: "gravity_cmd_header \<Rightarrow> u8 list" where
  "pong_bytes hdr =
     gravity_cmd_header_bytes (gravity_cmd_init (gravity_cmd_op_val GRAVITY_CMD_PONG) 16 (hdr_sequence hdr))"

definition render_ops :: "gravity_cmd_op list" where
  "render_ops =
     [GRAVITY_CMD_RENDER_BEGIN, GRAVITY_CMD_RENDER_END, GRAVITY_CMD_RENDER_SET_PIPELINE,
      GRAVITY_CMD_RENDER_SET_VERTEX_BUFFER, GRAVITY_CMD_RENDER_SET_FRAGMENT_BUFFER,
      GRAVITY_CMD_RENDER_SET_FRAGMENT_TEXTURE, GRAVITY_CMD_RENDER_SET_FRAGMENT_SAMPLER,
      GRAVITY_CMD_RENDER_SET_VIEWPORT, GRAVITY_CMD_RENDER_SET_SCISSOR, GRAVITY_CMD_RENDER_SET_CULL_MODE,
      GRAVITY_CMD_RENDER_SET_DEPTH_STENCIL, GRAVITY_CMD_RENDER_SET_DEPTH_BIAS,
      GRAVITY_CMD_RENDER_SET_BLEND_COLOR, GRAVITY_CMD_RENDER_DRAW, GRAVITY_CMD_RENDER_DRAW_INDEXED,
      GRAVITY_CMD_RENDER_DRAW_INSTANCED]"

definition compute_ops :: "gravity_cmd_op list" where
  "compute_ops =
     [GRAVITY_CMD_COMPUTE_BEGIN, GRAVITY_CMD_COMPUTE_END, GRAVITY_CMD_COMPUTE_SET_PIPELINE,
      GRAVITY_CMD_COMPUTE_SET_BUFFER, GRAVITY_CMD_COMPUTE_DISPATCH]"

definition blit_ops :: "gravity_cmd_op list" where
  "blit_ops =
     [GRAVITY_CMD_BLIT_BEGIN, GRAVITY_CMD_BLIT_END, GRAVITY_CMD_BLIT_COPY_BUFFER, GRAVITY_CMD_BLIT_COPY_TEXTURE,
      GRAVITY_CMD_BLIT_COPY_BUF_TO_TEX, GRAVITY_CMD_BLIT_GENERATE_MIPMAPS]"

text \<open>
  The last cases of \<^verbatim>\<open>process_command\<close>: blits and the display go to handlers that only write to
  the log; a goodbye, a no-operation and an opcode the switch does not know change nothing.
\<close>

definition process_others :: "gravity_cmd_header \<Rightarrow> mem \<Rightarrow> gravity_daemon \<Rightarrow> gravity_daemon" where
  "process_others hdr buf d =
     (let op = hdr_opcode hdr
      in if op \<in> gravity_cmd_op_val ` set blit_ops then gravity_cmd_process_blit hdr d
         else if op = gravity_cmd_op_val GRAVITY_CMD_PRESENT then gravity_cmd_process_present (gravity_cmd_present_at buf 0) d
         else if op = gravity_cmd_op_val GRAVITY_CMD_RESIZE_DISPLAY
         then gravity_cmd_process_resize_display (gravity_cmd_resize_display_at buf 0) d
         else d)"

text \<open>The switch of \<^verbatim>\<open>process_command\<close>; \<open>buf\<close> is the loop's buffer, with the command at its front.\<close>

definition process_command ::
  "vulkan \<Rightarrow> gravity_cmd_header \<Rightarrow> mem \<Rightarrow> gravity_daemon \<Rightarrow> gravity_daemon option" where
  "process_command V hdr buf d =
     (let op = hdr_opcode hdr; is = (\<lambda>c. op = gravity_cmd_op_val c)
      in if is GRAVITY_CMD_HELLO
         then Some (dm_complete d (gravity_cmd_hello_response_bytes (hello_answer hdr)))
         else if is GRAVITY_CMD_PING then Some (dm_complete d (pong_bytes hdr))
         else if is GRAVITY_CMD_CREATE_BUFFER
         then Some (gravity_cmd_process_create_buffer V (gravity_cmd_create_buffer_at buf 0) d)
         else if is GRAVITY_CMD_DESTROY_BUFFER
         then Some (dm_remove d (db_handle (gravity_cmd_destroy_buffer_at buf 0)))
         else if is GRAVITY_CMD_CREATE_TEXTURE
         then Some (gravity_cmd_process_create_texture V (gravity_cmd_create_texture_at buf 0) d)
         else if is GRAVITY_CMD_DESTROY_TEXTURE
         then Some (dm_remove d (dt_handle (gravity_cmd_destroy_texture_at buf 0)))
         else if is GRAVITY_CMD_CREATE_SAMPLER
         then Some (gravity_cmd_process_create_sampler V (gravity_cmd_create_sampler_at buf 0) d)
         else if is GRAVITY_CMD_DESTROY_SAMPLER
         then Some (dm_remove d (ds_handle (gravity_cmd_destroy_sampler_at buf 0)))
         else if is GRAVITY_CMD_CREATE_SHADER
         then Some (gravity_cmd_process_create_shader (gravity_cmd_create_shader_at buf 0) d)
         else if is GRAVITY_CMD_CREATE_RENDER_PIPELINE
         then Some (gravity_cmd_process_create_render_pipeline (gravity_cmd_create_render_pipeline_at buf 0) d)
         else if is GRAVITY_CMD_CREATE_DEPTH_STENCIL
         then Some (gravity_cmd_process_create_depth_stencil (gravity_cmd_create_depth_stencil_at buf 0) d)
         else if is GRAVITY_CMD_CMDBUF_CREATE
         then Some (gravity_cmd_process_cmdbuf_create V (gravity_cmd_cmdbuf_create_at buf 0) d)
         else if is GRAVITY_CMD_CMDBUF_COMMIT
         then Some (gravity_cmd_process_cmdbuf_commit (gravity_cmd_cmdbuf_commit_at buf 0) d)
         else if op \<in> gravity_cmd_op_val ` set render_ops then gravity_cmd_process_render hdr buf d
         else if op \<in> gravity_cmd_op_val ` set compute_ops then Some (gravity_cmd_process_compute hdr d)
         else Some (process_others hdr buf d))"

section \<open>The command loop\<close>

definition CMD_BUF_SIZE :: u32 where "CMD_BUF_SIZE = 64 * 1024"

record loop_state =
  lp_daemon :: gravity_daemon
  lp_buf :: mem
  lp_total :: u64

definition dm_consume :: "gravity_daemon \<Rightarrow> u32 \<Rightarrow> gravity_daemon" where
  "dm_consume d sz = d\<lparr>dm_mem := gravity_ring_cmd_consume (dm_ring d) (dm_mem d) sz\<rparr>"

definition loop_step :: "vulkan \<Rightarrow> loop_state \<Rightarrow> loop_state option" where
  "loop_step V s =
     (let d = lp_daemon s
      in case gravity_ring_cmd_peek (dm_ring d) (dm_mem d) (lp_buf s) CMD_BUF_SIZE of
           (False, buf) \<Rightarrow> Some (s\<lparr>lp_buf := buf\<rparr>)
         | (True, buf) \<Rightarrow>
             let hdr = gravity_cmd_header_at buf 0
             in if gravity_cmd_validate (Some hdr) (ucast CMD_BUF_SIZE) < 0
                then Some (s\<lparr>lp_buf := buf, lp_daemon := dm_consume d 16\<rparr>)
                else case process_command V hdr buf d of
                       None \<Rightarrow> None
                     | Some d' \<Rightarrow> Some (s\<lparr>lp_buf := buf, lp_daemon := dm_consume d' (hdr_size hdr),
                                          lp_total := lp_total s + 1\<rparr>))"

text \<open>The guest's part between two iterations, as a function on the shared memory.\<close>

definition guest_acts :: "(mem \<Rightarrow> mem) \<Rightarrow> loop_state \<Rightarrow> loop_state" where
  "guest_acts g s = s\<lparr>lp_daemon := (lp_daemon s)\<lparr>dm_mem := g (dm_mem (lp_daemon s))\<rparr>\<rparr>"

fun command_loop :: "vulkan \<Rightarrow> (mem \<Rightarrow> mem) list \<Rightarrow> loop_state \<Rightarrow> loop_state option" where
  "command_loop V [] s = Some s"
| "command_loop V (g # gs) s =
     (case loop_step V (guest_acts g s) of None \<Rightarrow> None | Some s' \<Rightarrow> command_loop V gs s')"

section \<open>Start and shutdown\<close>

text \<open>
  \<^verbatim>\<open>main\<close> up to the loop: \<open>m\<close> is the content of the shared memory object once mapped, \<open>buf\<close>
  the loop's uninitialised buffer, \<open>vk\<close> and \<open>tk\<close> the uninitialised structures on the stack.
  \<open>None\<close>: \<^verbatim>\<open>gravity_ring_init_host\<close> does not return.  The result is an exit status or the state
  the loop starts in with the mapping, and the calls made.
\<close>

definition gravityd_start ::
  "os \<Rightarrow> vulkan \<Rightarrow> gravity_config \<Rightarrow> mem \<Rightarrow> mem \<Rightarrow> gravity_vk_state \<Rightarrow> gravity_resource_tracker \<Rightarrow>
     ((int + int \<times> loop_state) \<times> os_call list) option" where
  "gravityd_start os V cfg m buf vk tk =
     (case open_shared_memory os cfg [] of
        (shmem, tr) \<Rightarrow>
          if shmem = 0 then Some (Inl 1, tr) else
          case gravity_ring_init_host m (nat shmem) (ucast (cfg_shmem_size cfg)) (4 * 1024 * 1024) (256 * 1024) of
            None \<Rightarrow> None
          | Some (r, m1) \<Rightarrow>
              if r < 0 then Some (Inl 1, tr @ [munmap shmem (cfg_shmem_size cfg)])
              else case gravity_ring_attach m1 (nat shmem) of
                     None \<Rightarrow> Some (Inl 1, tr @ [munmap shmem (cfg_shmem_size cfg)])
                   | Some ring \<Rightarrow>
                       case gravity_vk_init V vk (cfg_validation cfg) [] of
                         (vr, vks, vcalls) \<Rightarrow>
                           if vr < 0 then Some (Inl 1, tr @ [munmap shmem (cfg_shmem_size cfg)])
                           else Some (Inr (shmem, \<lparr>lp_daemon = \<lparr>dm_vk = vks, dm_tracker = gravity_resource_tracker_init tk,
                                                       dm_ring = ring, dm_mem = m1, dm_calls = vcalls\<rparr>,
                                           lp_buf = buf, lp_total = 0\<rparr>), tr))"

text \<open>The cleanup behind the loop: the tracker's leak report, and the remaining calls.\<close>

definition gravityd_stop ::
  "vulkan \<Rightarrow> gravity_config \<Rightarrow> int \<Rightarrow> loop_state \<Rightarrow> os_call list \<Rightarrow>
     (u32 \<times> (u32 \<times> gravity_resource_type) list) option \<times> gravity_daemon \<times> os_call list" where
  "gravityd_stop V cfg shmem s tr =
     (let d = lp_daemon s in
      case gravity_resource_tracker_destroy (dm_tracker d) of
        (report, tk) \<Rightarrow>
          case gravity_vk_destroy V (dm_vk d) (dm_calls d) of
            (vks, calls) \<Rightarrow>
              (report, d\<lparr>dm_tracker := tk, dm_vk := vks, dm_calls := calls\<rparr>,
               tr @ [munmap shmem (cfg_shmem_size cfg)]))"

end
