(* ===== verification/Daemon_Props.thy ===== *)
theory Daemon_Props
  imports Daemon
begin

text \<open>
  Properties of the daemon as a whole: what every run keeps whatever the guest writes, that a
  well-behaved guest's commands are processed one by one in order, how greetings are answered,
  what destroying a resource leaves behind, which commands make the loop wait forever or lose
  the framing, and the paths of start and shutdown.
\<close>

section \<open>Invariants of the dispatcher and of runs\<close>

context handler_frame begin

lemma process_command_frame:
  assumes "Q d" "process_command V hdr buf d = Some d'"
    and "hdr_opcode hdr \<noteq> gravity_cmd_op_val GRAVITY_CMD_CREATE_BUFFER"
  shows "Q d'"
  using assms render [OF assms(1), of hdr buf d']
  by (auto simp: process_command_def process_others_def Let_def complete removed create_texture create_sampler create_shader
      create_render_pipeline create_depth_stencil cmdbuf_create cmdbuf_commit gravity_cmd_process_compute_def
      gravity_cmd_process_blit_def gravity_cmd_process_present_def gravity_cmd_process_resize_display_def
      simp del: gravity_cmd_op_val.simps split: if_split_asm)

end

context handler_invariant begin

lemma process_command:
  assumes "Q d" "process_command V hdr buf d = Some d'"
  shows "Q d'"
proof (cases "hdr_opcode hdr = gravity_cmd_op_val GRAVITY_CMD_CREATE_BUFFER")
  case True
  then have "d' = gravity_cmd_process_create_buffer V (gravity_cmd_create_buffer_at buf 0) d"
    using assms(2) by (simp add: process_command_def process_others_def Let_def)
  then show ?thesis using create_buffer [OF assms(1)] by simp
next
  case False
  then show ?thesis using process_command_frame [OF assms] by simp
qed

lemma consume: "Q d \<Longrightarrow> Q (dm_consume d sz)"
  by (simp add: dm_consume_def memory)

lemma loop_step: "Q (lp_daemon s) \<Longrightarrow> loop_step V s = Some s' \<Longrightarrow> Q (lp_daemon s')"
  by (auto simp: loop_step_def Let_def consume dest: process_command split: prod.splits bool.splits if_splits option.splits)

lemma command_loop: "Q (lp_daemon s) \<Longrightarrow> command_loop V gs s = Some s' \<Longrightarrow> Q (lp_daemon s')"
proof (induction gs arbitrary: s)
  case (Cons g gs)
  then obtain s1 where s1: "loop_step V (guest_acts g s) = Some s1" "command_loop V gs s1 = Some s'"
    by (auto split: option.splits)
  have "Q (lp_daemon (guest_acts g s))" using Cons.prems(1) by (simp add: guest_acts_def memory)
  then show ?case using Cons.IH [OF loop_step [OF _ s1(1)] s1(2)] by simp
qed simp

end

text \<open>
  C5: whatever the guest writes to the shared memory between the iterations, and whatever the
  driver answers, a run of the loop keeps the tracker's and the ring context's invariants, the
  Vulkan state and the ring context themselves, and never takes back a Vulkan call.
\<close>

theorem daemon_invariant:
  assumes "daemon_ok (lp_daemon s)" "command_loop V gs s = Some s'"
  shows "daemon_ok (lp_daemon s') \<and> dm_vk (lp_daemon s') = dm_vk (lp_daemon s) \<and>
     dm_ring (lp_daemon s') = dm_ring (lp_daemon s) \<and>
     (\<exists>cs. dm_calls (lp_daemon s') = dm_calls (lp_daemon s) @ cs)"
  using ok.command_loop [OF assms] fixed.command_loop [OF conjI [OF refl refl] assms(2)]
    calls.command_loop [OF _ assms(2), where tr = "dm_calls (lp_daemon s)"] by auto

text \<open>A loop about to start, on the small demonstration ring.\<close>

definition demo_loop :: "mem \<Rightarrow> loop_state" where
  "demo_loop m = \<lparr>lp_daemon = demo_daemon m, lp_buf = (\<lambda>_. 0), lp_total = 0\<rparr>"

lemma demo_loop_sel [simp]:
  "lp_daemon (demo_loop m) = demo_daemon m" "lp_buf (demo_loop m) = (\<lambda>_. 0)" "lp_total (demo_loop m) = 0"
  by (simp_all add: demo_loop_def)

section \<open>Commands are processed in order\<close>

definition proper_command :: "u8 list \<Rightarrow> bool" where
  "proper_command c \<longleftrightarrow> framed 65536 c \<and> unat (hdr_opcode (header_of c)) < 0xB02"

lemma buf_size [simp]: "unat CMD_BUF_SIZE = 65536" "unat (ucast CMD_BUF_SIZE :: u64) = 65536"
  by (simp_all add: CMD_BUF_SIZE_def)

lemma validate_neg: "gravity_cmd_validate (Some h) avail < 0 \<longleftrightarrow> gravity_cmd_validate (Some h) avail \<noteq> 0"
  by (simp add: gravity_cmd_validate_def)

lemma proper_valid:
  "proper_command c \<Longrightarrow> gravity_cmd_validate (Some (header_of c)) (ucast CMD_BUF_SIZE) = 0"
  by (simp add: validate_zero_iff proper_command_def framed_def)

text \<open>One iteration on a ring with a proper command at its front.\<close>

lemma loop_step_proper:
  assumes ok: "ring_ok (dm_ring (lp_daemon s))" and c: "proper_command c"
    and bs: "cmd_contents (dm_ring (lp_daemon s)) (dm_mem (lp_daemon s)) = c @ rest"
  shows "loop_step V s =
     (case process_command V (header_of c) (wr (lp_buf s) 0 c) (lp_daemon s) of
        None \<Rightarrow> None
      | Some d \<Rightarrow> Some (s\<lparr>lp_buf := wr (lp_buf s) 0 c, lp_daemon := dm_consume d (hdr_size (header_of c)),
                          lp_total := lp_total s + 1\<rparr>))"
proof -
  have fr: "framed (unat CMD_BUF_SIZE) c" using c by (simp add: proper_command_def)
  show ?thesis
    using proper_valid [OF c]
    by (simp add: loop_step_def Let_def cmd_peek_front [OF ok bs fr] split: option.split)
qed

lemma guest_idle [simp]: "guest_acts id s = s" "guest_acts (\<lambda>m. m) s = s"
  by (simp_all add: guest_acts_def)

text \<open>The commands of a list, each handled with itself at the front of the buffer.\<close>

fun process_all ::
  "vulkan \<Rightarrow> u8 list list \<Rightarrow> mem \<Rightarrow> gravity_daemon \<Rightarrow> (mem \<times> gravity_daemon) option" where
  "process_all V [] buf d = Some (buf, d)"
| "process_all V (c # cs) buf d =
     (case process_command V (header_of c) (wr buf 0 c) d of
        None \<Rightarrow> None
      | Some d' \<Rightarrow> process_all V cs (wr buf 0 c) (dm_consume d' (hdr_size (header_of c))))"

text \<open>Commands whose processing leaves the queue of commands as it is.\<close>

definition keeps_queue :: "vulkan \<Rightarrow> gravity_ring \<Rightarrow> u8 list \<Rightarrow> bool" where
  "keeps_queue V ring c \<longleftrightarrow> (\<forall>buf d d'. dm_ring d = ring \<longrightarrow>
     process_command V (header_of c) (wr buf 0 c) d = Some d' \<longrightarrow>
     dm_ring d' = ring \<and> cmd_contents ring (dm_mem d') = cmd_contents ring (dm_mem d))"

lemma keeps_queueI:
  assumes "ring_ok ring" "hdr_opcode (header_of c) \<noteq> gravity_cmd_op_val GRAVITY_CMD_CREATE_BUFFER"
  shows "keeps_queue V ring c"
  unfolding keeps_queue_def
proof (intro allI impI)
  fix buf d d'
  assume d: "dm_ring d = ring" "process_command V (header_of c) (wr buf 0 c) d = Some d'"
  have ring: "dm_ring d' = ring"
    using fixed.process_command [where vk = "dm_vk d" and ring = ring, OF _ d(2)] d(1) by simp
  show "dm_ring d' = ring \<and> cmd_contents ring (dm_mem d') = cmd_contents ring (dm_mem d)"
    using pending.process_command_frame [where bs = "cmd_contents ring (dm_mem d)", OF _ d(2) assms(2)] assms(1) d(1) ring by simp
qed

lemma loop_processes_if:
  assumes "ring_ok (dm_ring (lp_daemon s))" "list_all proper_command cs"
    and "list_all (keeps_queue V (dm_ring (lp_daemon s))) cs"
    and "cmd_contents (dm_ring (lp_daemon s)) (dm_mem (lp_daemon s)) = concat cs @ rest"
  shows "(case process_all V cs (lp_buf s) (lp_daemon s) of
      None \<Rightarrow> command_loop V (replicate (length cs) (\<lambda>m. m)) s = None
    | Some (buf, d) \<Rightarrow>
        command_loop V (replicate (length cs) (\<lambda>m. m)) s =
          Some (s\<lparr>lp_buf := buf, lp_daemon := d, lp_total := lp_total s + of_nat (length cs)\<rparr>) \<and>
        cmd_contents (dm_ring d) (dm_mem d) = rest)"
  using assms
proof (induction cs arbitrary: s)
  case (Cons c cs)
  let ?d = "lp_daemon s" and ?buf = "wr (lp_buf s) 0 c"
  have bs: "cmd_contents (dm_ring ?d) (dm_mem ?d) = c @ (concat cs @ rest)" using Cons.prems(4) by simp
  have c: "proper_command c" "keeps_queue V (dm_ring ?d) c" using Cons.prems(2,3) by simp_all
  note step = loop_step_proper [OF Cons.prems(1) c(1) bs, of V]
  show ?case
  proof (cases "process_command V (header_of c) ?buf ?d")
    case None
    then show ?thesis by (simp add: step)
  next
    case (Some d)
    have q: "dm_ring d = dm_ring ?d" "cmd_contents (dm_ring d) (dm_mem d) = c @ (concat cs @ rest)"
      using c(2) [unfolded keeps_queue_def, rule_format, OF refl Some] bs by simp_all
    let ?s = "s\<lparr>lp_buf := ?buf, lp_daemon := dm_consume d (hdr_size (header_of c)), lp_total := lp_total s + 1\<rparr>"
    have fr: "framed (unat CMD_BUF_SIZE) c" using c(1) by (simp add: proper_command_def)
    have ring: "dm_ring (lp_daemon ?s) = dm_ring ?d"
      and left: "cmd_contents (dm_ring (lp_daemon ?s)) (dm_mem (lp_daemon ?s)) = concat cs @ rest"
      using q Cons.prems(1) cmd_peek_front(3) [of "dm_ring d" "dm_mem d" c, OF _ _ fr] by (simp_all add: dm_consume_def)
    have "list_all proper_command cs" "list_all (keeps_queue V (dm_ring ?d)) cs" using Cons.prems(2,3) by simp_all
    note ih = Cons.IH [OF Cons.prems(1) [folded ring] this(1) this(2) [folded ring] left]
    show ?thesis using ih by (auto simp: step Some add.assoc split: option.splits)
  qed
qed simp

lemma loop_processes:
  assumes "ring_ok (dm_ring (lp_daemon s))" "list_all proper_command cs"
    and "\<forall>c\<in>set cs. hdr_opcode (header_of c) \<noteq> gravity_cmd_op_val GRAVITY_CMD_CREATE_BUFFER"
    and "cmd_contents (dm_ring (lp_daemon s)) (dm_mem (lp_daemon s)) = concat cs @ rest"
  shows "(case process_all V cs (lp_buf s) (lp_daemon s) of
      None \<Rightarrow> command_loop V (replicate (length cs) (\<lambda>m. m)) s = None
    | Some (buf, d) \<Rightarrow>
        command_loop V (replicate (length cs) (\<lambda>m. m)) s =
          Some (s\<lparr>lp_buf := buf, lp_daemon := d, lp_total := lp_total s + of_nat (length cs)\<rparr>) \<and>
        cmd_contents (dm_ring d) (dm_mem d) = rest)"
  by (rule loop_processes_if [OF assms(1,2) _ assms(4)])
    (use assms(1,3) in \<open>auto simp: list_all_iff intro: keeps_queueI\<close>)

text \<open>A ring that holds the ping with sequence number 1.\<close>

definition demo_pinged :: mem where
  "demo_pinged = snd (gravity_ring_cmd_write demo_ring demo_mem (demo_ping 1) 16)"

lemma demo_pinged_contents [simp]:
  "cmd_contents demo_ring demo_pinged = demo_ping 1" "comp_contents demo_ring demo_pinged = []"
proof -
  have u: "unat (16 :: u32) = 16" by simp
  have z: "fst (gravity_ring_cmd_write demo_ring demo_mem (demo_ping 1) 16) = 0"
    using cmd_write_zero_iff [OF demo_ok, of demo_mem "demo_ping 1" 16] demo_attach by simp
  show "cmd_contents demo_ring demo_pinged = demo_ping 1"
    using cmd_write_contents [OF demo_ok z] demo_attach by (simp add: demo_pinged_def)
  show "comp_contents demo_ring demo_pinged = []"
    using cmd_write_comp_contents [OF demo_ok, of demo_mem "demo_ping 1" 16] demo_attach
    by (simp add: demo_pinged_def)
qed

lemma demo_ping_header [simp]: "header_of (demo_ping s) = gravity_cmd_init (gravity_cmd_op_val GRAVITY_CMD_PING) 16 s"
  by (simp add: demo_ping_def)

lemma demo_ping_proper [simp]: "proper_command (demo_ping s)"
  unfolding proper_command_def demo_ping_header by (simp add: gravity_cmd_init_def)

lemma process_ping:
  "hdr_opcode hdr = gravity_cmd_op_val GRAVITY_CMD_PING \<Longrightarrow>
     process_command V hdr buf d = Some (dm_complete d (pong_bytes hdr))"
  by (simp add: process_command_def process_others_def Let_def)

lemma process_hello:
  "hdr_opcode hdr = gravity_cmd_op_val GRAVITY_CMD_HELLO \<Longrightarrow>
     process_command V hdr buf d = Some (dm_complete d (gravity_cmd_hello_response_bytes (hello_answer hdr)))"
  by (simp add: process_command_def process_others_def Let_def)

theorem daemon_invariant_witness:
  "\<exists>s'. command_loop demo_vulkan [\<lambda>m. m] (demo_loop demo_pinged) = Some s' \<and> daemon_ok (lp_daemon s')"
proof -
  have "\<exists>s'. command_loop demo_vulkan [\<lambda>m. m] (demo_loop demo_pinged) = Some s'"
    using loop_step_proper [of "demo_loop demo_pinged" "demo_ping 1" "[]" demo_vulkan]
    by (simp add: process_ping gravity_cmd_init_def)
  then obtain s' where s': "command_loop demo_vulkan [\<lambda>m. m] (demo_loop demo_pinged) = Some s'" by blast
  show ?thesis using daemon_invariant [OF _ s'] s' by simp
qed



section \<open>Answers\<close>

lemma answer_reaches_guest:
  assumes ok: "ring_ok (dm_ring (lp_daemon s))" and c: "proper_command c"
    and bs: "cmd_contents (dm_ring (lp_daemon s)) (dm_mem (lp_daemon s)) = c @ rest"
    and answer: "\<And>buf. process_command V (header_of c) buf (lp_daemon s) = Some (dm_complete (lp_daemon s) a)"
    and room: "comp_contents (dm_ring (lp_daemon s)) (dm_mem (lp_daemon s)) = []"
      "length a < unat (rg_comp_ring_size (dm_ring (lp_daemon s)))"
    and fr: "framed (min (unat n) (2 ^ 31 - 1)) a"
  shows "\<exists>s' m'. loop_step V s = Some s' \<and>
     cmd_contents (dm_ring (lp_daemon s')) (dm_mem (lp_daemon s')) = rest \<and>
     gravity_ring_comp_read (dm_ring (lp_daemon s)) (dm_mem (lp_daemon s')) out n = (int (length a), wr out 0 a, m') \<and>
     comp_contents (dm_ring (lp_daemon s)) m' = []"
proof -
  let ?d = "lp_daemon s"
  have len: "length a < 2 ^ 32"
    using room(2) unsigned_less [of "rg_comp_ring_size (dm_ring ?d)", where ?'a = nat] by simp
  let ?d' = "dm_consume (dm_complete ?d a) (hdr_size (header_of c))"
  have "comp_contents (dm_ring ?d) (dm_mem (dm_complete ?d a)) = a @ []"
    using complete_contents [OF ok len] room by simp
  then have "comp_contents (dm_ring ?d) (dm_mem ?d') = a @ []"
    using cmd_consume_comp_contents [OF ok] by (simp add: dm_consume_def)
  then obtain m' where m': "gravity_ring_comp_read (dm_ring ?d) (dm_mem ?d') out n = (int (length a), wr out 0 a, m')"
    "comp_contents (dm_ring ?d) m' = []"
    using comp_read_front [OF ok _ fr] by blast
  have q: "ring_ok (dm_ring (dm_complete ?d a)) \<and>
      cmd_contents (dm_ring (dm_complete ?d a)) (dm_mem (dm_complete ?d a)) = c @ rest"
    by (rule pending.complete) (use ok bs in simp)
  have frc: "framed (unat CMD_BUF_SIZE) c" using c by (simp add: proper_command_def)
  have "cmd_contents (dm_ring ?d') (dm_mem ?d') = rest"
    using cmd_peek_front(3) [OF conjunct1 [OF q] conjunct2 [OF q] frc] by (simp add: dm_consume_def)
  then show ?thesis
    using m' loop_step_proper [OF ok c bs, of V] by (simp add: answer)
qed

lemma hello_framed: "framed n (gravity_cmd_hello_response_bytes (hello_answer hdr)) \<longleftrightarrow> 56 \<le> n"
  by (simp add: framed_def hello_answer_def gravity_cmd_hello_response_bytes_def header_of_append
      gravity_cmd_init_def length_concat o_def)

lemma pong_framed: "framed n (pong_bytes hdr) \<longleftrightarrow> 16 \<le> n"
  by (simp add: framed_def pong_bytes_def gravity_cmd_init_def)

text \<open>
  a greeting at the front of the command ring is answered within one iteration: with room in
  an empty completion ring the guest then reads 56 bytes that decode to the daemon's protocol
  version, features and limits with the greeting's sequence number, and a ping is answered by a
  pong with its sequence number.
\<close>

lemma greetings_answered:
  assumes "ring_ok (dm_ring (lp_daemon s))" "proper_command c"
    and "cmd_contents (dm_ring (lp_daemon s)) (dm_mem (lp_daemon s)) = c @ rest"
    and "comp_contents (dm_ring (lp_daemon s)) (dm_mem (lp_daemon s)) = []"
    and "56 < unat (rg_comp_ring_size (dm_ring (lp_daemon s)))" "56 \<le> unat n"
  shows "(hdr_opcode (header_of c) = gravity_cmd_op_val GRAVITY_CMD_HELLO \<longrightarrow>
      (\<exists>s' out' m'. loop_step V s = Some s' \<and>
         cmd_contents (dm_ring (lp_daemon s')) (dm_mem (lp_daemon s')) = rest \<and>
         gravity_ring_comp_read (dm_ring (lp_daemon s)) (dm_mem (lp_daemon s')) out n = (56, out', m') \<and>
         gravity_cmd_hello_response_at (list_mem (rd out' 0 56)) 0 = hello_answer (header_of c))) \<and>
     (hdr_opcode (header_of c) = gravity_cmd_op_val GRAVITY_CMD_PING \<longrightarrow>
      (\<exists>s' out' m'. loop_step V s = Some s' \<and>
         cmd_contents (dm_ring (lp_daemon s')) (dm_mem (lp_daemon s')) = rest \<and>
         gravity_ring_comp_read (dm_ring (lp_daemon s)) (dm_mem (lp_daemon s')) out n = (16, out', m') \<and>
         gravity_cmd_header_at out' 0 =
           gravity_cmd_init (gravity_cmd_op_val GRAVITY_CMD_PONG) 16 (hdr_sequence (header_of c))))"
proof (intro conjI impI)
  assume op: "hdr_opcode (header_of c) = gravity_cmd_op_val GRAVITY_CMD_HELLO"
  let ?a = "gravity_cmd_hello_response_bytes (hello_answer (header_of c))"
  have l: "length ?a = 56" by (simp add: hello_answer_def)
  have "rd (wr out 0 ?a) 0 56 = ?a" using l by (intro rd_wr_same) simp
  then show "\<exists>s' out' m'. loop_step V s = Some s' \<and>
         cmd_contents (dm_ring (lp_daemon s')) (dm_mem (lp_daemon s')) = rest \<and>
         gravity_ring_comp_read (dm_ring (lp_daemon s)) (dm_mem (lp_daemon s')) out n = (56, out', m') \<and>
         gravity_cmd_hello_response_at (list_mem (rd out' 0 56)) 0 = hello_answer (header_of c)"
    using answer_reaches_guest [OF assms(1-3) process_hello [OF op] assms(4), where n = n and out = out and V = V] assms(5,6) l
      decode_hello_response [of "hello_answer (header_of c)"]
    by (auto simp: hello_framed) (simp add: hello_answer_def)
next
  assume op: "hdr_opcode (header_of c) = gravity_cmd_op_val GRAVITY_CMD_PING"
  let ?a = "pong_bytes (header_of c)"
  have l: "length ?a = 16" by (simp add: pong_bytes_def)
  have "gravity_cmd_header_at (wr out 0 ?a) 0 =
      gravity_cmd_init (gravity_cmd_op_val GRAVITY_CMD_PONG) 16 (hdr_sequence (header_of c))"
    using header_at_wr [of ?a out] by (simp add: l) (simp add: pong_bytes_def)
  then show "\<exists>s' out' m'. loop_step V s = Some s' \<and>
         cmd_contents (dm_ring (lp_daemon s')) (dm_mem (lp_daemon s')) = rest \<and>
         gravity_ring_comp_read (dm_ring (lp_daemon s)) (dm_mem (lp_daemon s')) out n = (16, out', m') \<and>
         gravity_cmd_header_at out' 0 =
           gravity_cmd_init (gravity_cmd_op_val GRAVITY_CMD_PONG) 16 (hdr_sequence (header_of c))"
    using answer_reaches_guest [OF assms(1-3) process_ping [OF op] assms(4), where n = n and out = out and V = V] assms(5,6) l
    by (auto simp: pong_framed)
qed

lemma greetings_answered_witness:
  "\<exists>s' out' m'. loop_step demo_vulkan (demo_loop demo_pinged) = Some s' \<and>
     gravity_ring_comp_read demo_ring (dm_mem (lp_daemon s')) (\<lambda>_. 0) 64 = (16, out', m') \<and>
     gravity_cmd_header_at out' 0 = gravity_cmd_init (gravity_cmd_op_val GRAVITY_CMD_PONG) 16 1"
  using greetings_answered [of "demo_loop demo_pinged" "demo_ping 1" "[]" 64 demo_vulkan "\<lambda>_. 0"]
  by (auto simp: gravity_cmd_init_def)

section \<open>Commands the loop cannot digest\<close>

lemma header_of_front: "16 \<le> length bs \<Longrightarrow> 16 \<le> n \<Longrightarrow> gravity_cmd_header_at (wr buf 0 (take n bs)) 0 = header_of bs"
  using header_at_wr [of "take n bs" buf] header_of_take [of n bs] by simp

lemma loop_step_stalls:
  assumes "ring_ok (dm_ring (lp_daemon s))"
    and "bs = cmd_contents (dm_ring (lp_daemon s)) (dm_mem (lp_daemon s))"
    and "16 \<le> length bs" "65536 < unat (hdr_size (header_of bs))"
  shows "loop_step V s = Some (s\<lparr>lp_buf := wr (lp_buf s) 0 (take 16 bs)\<rparr>)"
  using cmd_peek_eq [OF assms(1), of CMD_BUF_SIZE "dm_mem (lp_daemon s)" "lp_buf s"] assms(2-4)
  by (simp add: loop_step_def Let_def peek_ready_def)

definition appends :: "gravity_ring \<Rightarrow> (mem \<Rightarrow> mem) \<Rightarrow> bool" where
  "appends ring g \<longleftrightarrow> (\<forall>m. \<exists>more. cmd_contents ring (g m) = cmd_contents ring m @ more)"

text \<open>
  C33: a command larger than the loop's 64 KiB buffer, which \<^verbatim>\<open>gravity_ring_cmd_write\<close> accepts
  up to half of the 4 MiB ring, stalls the daemon for good: however many iterations run and
  whatever the guest appends, no command is processed, no Vulkan call made, no byte consumed;
  the memory changes by the guest's hand only.
\<close>

theorem oversized_command_stalls:
  assumes "ring_ok (dm_ring (lp_daemon s))"
    and "16 \<le> length (cmd_contents (dm_ring (lp_daemon s)) (dm_mem (lp_daemon s)))"
    and "65536 < unat (hdr_size (header_of (cmd_contents (dm_ring (lp_daemon s)) (dm_mem (lp_daemon s)))))"
    and "\<forall>g\<in>set gs. appends (dm_ring (lp_daemon s)) g"
  shows "\<exists>buf. command_loop V gs s = Some (s\<lparr>lp_buf := buf,
      lp_daemon := (lp_daemon s)\<lparr>dm_mem := fold (\<lambda>g m. g m) gs (dm_mem (lp_daemon s))\<rparr>\<rparr>)"
  using assms
proof (induction gs arbitrary: s)
  case Nil
  then show ?case by (auto intro!: exI [of _ "lp_buf s"])
next
  case (Cons g gs)
  let ?bs = "cmd_contents (dm_ring (lp_daemon s)) (dm_mem (lp_daemon s))"
  obtain more where more: "cmd_contents (dm_ring (lp_daemon s)) (g (dm_mem (lp_daemon s))) = ?bs @ more"
    using Cons.prems(4) unfolding appends_def by (meson list.set_intros(1))
  have h: "header_of (?bs @ more) = header_of ?bs" using Cons.prems(2) by (simp add: header_of_append)
  let ?s = "guest_acts g s"
  have stall: "loop_step V ?s = Some (?s\<lparr>lp_buf := wr (lp_buf ?s) 0 (take 16 (?bs @ more))\<rparr>)"
    using Cons.prems(1-3) by (intro loop_step_stalls) (simp_all add: guest_acts_def more h)
  show ?case
    using Cons.IH [of "?s\<lparr>lp_buf := wr (lp_buf ?s) 0 (take 16 (?bs @ more))\<rparr>"] Cons.prems
    by (simp add: stall) (simp add: guest_acts_def more h)
qed

text \<open>Memory whose command ring starts with the header \<open>h\<close>.\<close>

lemma demo_written:
  assumes "length bs = 16"
  shows "cmd_contents demo_ring (snd (gravity_ring_cmd_write demo_ring demo_mem bs 16)) = bs"
proof -
  have u: "unat (16 :: u32) = 16" by simp
  have "fst (gravity_ring_cmd_write demo_ring demo_mem bs 16) = 0"
    using cmd_write_zero_iff [OF demo_ok, of demo_mem bs 16] demo_attach by simp
  then show ?thesis using cmd_write_contents [OF demo_ok, of demo_mem bs 16] demo_attach assms by simp
qed

lemma demo_idle [simp]:
  "(demo_daemon m)\<lparr>dm_mem := m\<rparr> = demo_daemon m"
  "(demo_loop m)\<lparr>lp_buf := b, lp_daemon := demo_daemon m\<rparr> = (demo_loop m)\<lparr>lp_buf := b\<rparr>"
  by (simp_all add: demo_daemon_def demo_loop_def)

theorem oversized_command_stalls_witness:
  "let m = snd (gravity_ring_cmd_write demo_ring demo_mem (gravity_cmd_header_bytes (gravity_cmd_init 0 70000 1)) 16)
   in \<exists>buf. command_loop demo_vulkan [\<lambda>m. m, \<lambda>m. m] (demo_loop m) = Some ((demo_loop m)\<lparr>lp_buf := buf\<rparr>)"
  using oversized_command_stalls [of "demo_loop (snd (gravity_ring_cmd_write demo_ring demo_mem
      (gravity_cmd_header_bytes (gravity_cmd_init 0 70000 1)) 16))" "[\<lambda>m. m, \<lambda>m. m]" demo_vulkan]
    demo_written [of "gravity_cmd_header_bytes (gravity_cmd_init 0 70000 1)"]
  by (simp add: Let_def gravity_cmd_init_def appends_def del: command_loop.simps)

lemma loop_step_invalid:
  assumes "ring_ok (dm_ring (lp_daemon s))"
    and "bs = cmd_contents (dm_ring (lp_daemon s)) (dm_mem (lp_daemon s))" "peek_ready bs CMD_BUF_SIZE"
    and "unat (hdr_size (header_of bs)) < 16 \<or> 0xB02 \<le> unat (hdr_opcode (header_of bs))"
  shows "\<exists>s'. loop_step V s = Some s' \<and> lp_daemon s' = dm_consume (lp_daemon s) 16 \<and> lp_total s' = lp_total s \<and>
     cmd_contents (dm_ring (lp_daemon s)) (dm_mem (lp_daemon s')) = drop 16 bs"
proof -
  let ?n = "max 16 (unat (hdr_size (header_of bs)))"
  have len: "16 \<le> length bs" using assms(3) by (simp add: peek_ready_def)
  have h: "gravity_cmd_header_at (wr (lp_buf s) 0 (take ?n bs)) 0 = header_of bs"
    by (rule header_of_front [OF len]) simp
  have v: "gravity_cmd_validate (Some (header_of bs)) (ucast CMD_BUF_SIZE) < 0"
    using assms(4) by (auto simp: validate_neg validate_zero_iff)
  have "loop_step V s = Some (s\<lparr>lp_buf := wr (lp_buf s) 0 (take ?n bs), lp_daemon := dm_consume (lp_daemon s) 16\<rparr>)"
    using cmd_peek_eq [OF assms(1), of CMD_BUF_SIZE "dm_mem (lp_daemon s)" "lp_buf s"] assms(2,3) len h v
    by (simp add: loop_step_def Let_def)
  moreover have "cmd_contents (dm_ring (lp_daemon s)) (dm_mem (dm_consume (lp_daemon s) 16)) = drop 16 bs"
    using cmd_consume_contents [OF assms(1), of 16 "dm_mem (lp_daemon s)"] assms(2) len by (simp add: dm_consume_def)
  ultimately show ?thesis by simp
qed

text \<open>
  C34: a command with an invalid header (a size below 16, or an opcode from \<^verbatim>\<open>GRAVITY_CMD_MAX\<close>
  on) is not processed, but only its 16 header bytes are skipped: what the loop takes for the
  next header is the rest of the same command.
\<close>

theorem invalid_command_desynchronises:
  assumes "ring_ok (dm_ring (lp_daemon s))"
    and "bs = cmd_contents (dm_ring (lp_daemon s)) (dm_mem (lp_daemon s))" "peek_ready bs CMD_BUF_SIZE"
    and "unat (hdr_size (header_of bs)) < 16 \<or> 0xB02 \<le> unat (hdr_opcode (header_of bs))"
  shows "\<exists>s'. loop_step V s = Some s' \<and> lp_daemon s' = dm_consume (lp_daemon s) 16 \<and> lp_total s' = lp_total s \<and>
     cmd_contents (dm_ring (lp_daemon s)) (dm_mem (lp_daemon s')) = drop 16 bs"
  using loop_step_invalid [OF assms] by blast

theorem invalid_command_desynchronises_witness:
  "let m = snd (gravity_ring_cmd_write demo_ring demo_mem (gravity_cmd_header_bytes (gravity_cmd_init 0xFFFF 16 1)) 16)
   in \<exists>s'. loop_step demo_vulkan (demo_loop m) = Some s' \<and> cmd_contents demo_ring (dm_mem (lp_daemon s')) = []"
  using invalid_command_desynchronises [of "demo_loop (snd (gravity_ring_cmd_write demo_ring demo_mem
      (gravity_cmd_header_bytes (gravity_cmd_init 0xFFFF 16 1)) 16))" _ demo_vulkan, OF _ refl]
    demo_written [of "gravity_cmd_header_bytes (gravity_cmd_init 0xFFFF 16 1)"]
  by (auto simp: Let_def peek_ready_def gravity_cmd_init_def)

section \<open>Destroying resources\<close>

definition destroy_ops :: "gravity_cmd_op list" where
  "destroy_ops = [GRAVITY_CMD_DESTROY_BUFFER, GRAVITY_CMD_DESTROY_TEXTURE, GRAVITY_CMD_DESTROY_SAMPLER]"

lemma process_destroy:
  "hdr_opcode hdr \<in> gravity_cmd_op_val ` set destroy_ops \<Longrightarrow>
     process_command V hdr buf d = Some (dm_remove d (ld32 buf 16))"
  by (auto simp: destroy_ops_def process_command_def process_others_def Let_def gravity_cmd_destroy_buffer_at_def
      gravity_cmd_destroy_texture_at_def gravity_cmd_destroy_sampler_at_def)

text \<open>
  C35: a destroy command for a known handle frees the tracker's entry and only that: no Vulkan call
  is made, so every object the entry held stays alive with no entry left that names it, and the
  entry goes whatever its type, also when a buffer is destroyed through a texture's handle.
\<close>

theorem destroy_leaves_objects:
  assumes "daemon_ok d" "hdr_opcode hdr \<in> gravity_cmd_op_val ` set destroy_ops"
    and "dm_get d (ld32 buf 16) = Some i"
  shows "\<exists>d'. process_command V hdr buf d = Some d' \<and> i \<in> live (dm_tracker d) \<and>
     live (dm_tracker d') = live (dm_tracker d) - {i} \<and>
     dm_calls d' = dm_calls d \<and> alive V (dm_calls d') = alive V (dm_calls d)"
proof -
  obtain fl s where t: "trk_inv (dm_tracker d) fl" and s: "ld32 buf 16 \<noteq> 0"
      "reaches (dm_tracker d) (ld32 buf 16) s" "i = unat (rt_hash_table (dm_tracker d) s)"
    using assms(1,3) by (auto simp: daemon_ok_def trk_ok_def dm_get_def get_Some)
  have "i \<in> live (dm_tracker d)"
    using get_live [of "dm_tracker d"] assms(1,3) by (auto simp: daemon_ok_def dm_get_def)
  then show ?thesis
    using remove_inv(2) [OF t s(1,2)] s(3) by (simp add: process_destroy [OF assms(2)] dm_remove_def)
qed

theorem destroy_leaves_objects_witness:
  "\<exists>d'. process_command demo_vulkan (gravity_cmd_init (gravity_cmd_op_val GRAVITY_CMD_DESTROY_TEXTURE) 20 2)
      (st32 (\<lambda>_. 0) 16 5) demo_with_cmdbuf = Some d' \<and>
    alive demo_vulkan (dm_calls d') = alive demo_vulkan (dm_calls demo_with_cmdbuf)"
proof (rule demo_cmdbuf)
  fix i
  assume i: "dm_get demo_with_cmdbuf 5 = Some i" "daemon_ok demo_with_cmdbuf"
  have "ld32 (st32 (\<lambda>_. 0) 16 5) 16 = 5" by (simp add: mem_simps)
  then show ?thesis
    using destroy_leaves_objects [OF i(2), of "gravity_cmd_init (gravity_cmd_op_val GRAVITY_CMD_DESTROY_TEXTURE) 20 2"
        "st32 (\<lambda>_. 0) 16 5" i demo_vulkan] i(1)
    by (auto simp: gravity_cmd_init_def destroy_ops_def)
qed

end
