(* ===== verification/Spsc_Messages.thy ===== *)
theory Spsc_Messages
  imports Comp_Spsc Daemon_Props
begin

text \<open>
  The command ring under concurrency, command by command: the guest's routine and the daemon's
  loop (\<^verbatim>\<open>command_loop\<close> of \<^verbatim>\<open>host-daemon/src/main.c\<close>) in the steps of \<open>Ring_Spsc\<close>, the guest
  writing whole valid commands.  However the steps interleave, the loop gets every command whole
  and once, in order.
\<close>

section \<open>The daemon's loop in steps\<close>

text \<open>What the loop consumes of a command it has in its buffer: all of it, or the header if it is not valid.\<close>

definition loop_consumes :: "mem \<Rightarrow> u32" where
  "loop_consumes buf =
     (let hdr = gravity_cmd_header_at buf 0
      in if gravity_cmd_validate (Some hdr) (ucast CMD_BUF_SIZE) < 0 then 16 else hdr_size hdr)"

text \<open>
  The guest's steps, with a proper command whenever it begins to write; the daemon's steps inside
  \<^verbatim>\<open>gravity_ring_cmd_peek\<close>; and the loop's consumption of the command it has.
\<close>

inductive loop_ring_step :: "gravity_ring \<Rightarrow> spsc \<Rightarrow> spsc \<Rightarrow> bool" for ring :: gravity_ring where
  guest:
    "spsc_step ring CMD_BUF_SIZE s s' \<Longrightarrow> sp_cons s' = sp_cons s \<Longrightarrow>
     sp_prod s = P_Idle \<longrightarrow> (\<exists>src tail. sp_prod s' = P_Copy src tail 0 \<and> proper_command src) \<Longrightarrow>
     loop_ring_step ring s s'"
| peek:
    "spsc_step ring CMD_BUF_SIZE s s' \<Longrightarrow> sp_prod s' = sp_prod s \<Longrightarrow> \<not> (\<exists>sz buf. sp_cons s = C_Have sz buf) \<Longrightarrow>
     loop_ring_step ring s s'"
| loop:
    "sp_cons s = C_Have sz buf \<Longrightarrow>
     loop_ring_step ring s (s\<lparr>sp_mem := gravity_ring_cmd_consume ring (sp_mem s) (loop_consumes buf), sp_cons := C_Idle,
                              sp_got := sp_got s @ rd buf 0 (unat (loop_consumes buf))\<rparr>)"

section \<open>The invariant\<close>

text \<open>\<open>sent\<close> are the commands published, the first \<open>k\<close> of them consumed.\<close>

definition size_known :: "spsc \<Rightarrow> bool" where
  "size_known s \<longleftrightarrow> (case sp_cons s of
     C_Body head sz i buf \<Rightarrow> 16 \<le> i \<and> sz = hdr_size (gravity_cmd_header_at buf 0)
   | C_Have sz buf \<Rightarrow> sz = hdr_size (gravity_cmd_header_at buf 0)
   | _ \<Rightarrow> True)"

definition commands_inv :: "gravity_ring \<Rightarrow> u8 list list \<Rightarrow> nat \<Rightarrow> spsc \<Rightarrow> bool" where
  "commands_inv ring sent k s \<longleftrightarrow> spsc_inv ring s \<and> size_known s \<and> list_all proper_command sent \<and> k \<le> length sent \<and>
     sp_sent s = concat sent \<and> sp_got s = concat (take k sent) \<and>
     (\<forall>src tail i. sp_prod s = P_Copy src tail i \<longrightarrow> proper_command src)"

lemma commands_contents:
  assumes "commands_inv ring sent k s"
  shows "cmd_contents ring (sp_mem s) = concat (drop k sent)"
proof -
  have "concat (take k sent) @ concat (drop k sent) = concat sent" by (simp flip: concat_append)
  then show ?thesis using assms by (auto simp: commands_inv_def spsc_inv_def)
qed

text \<open>A command in the daemon's buffer is the next one, whole, and the loop consumes exactly it.\<close>

lemma have_next:
  assumes "commands_inv ring sent k s" "sp_cons s = C_Have sz buf"
  shows "k < length sent" "rd buf 0 (unat sz) = sent ! k" "loop_consumes buf = sz"
    "gravity_cmd_header_at buf 0 = header_of (sent ! k)" "proper_command (sent ! k)"
proof -
  let ?cs = "cmd_contents ring (sp_mem s)"
  have c: "copied ring (sp_mem s) buf (max 16 (unat sz))" and sz: "sz = hdr_size (gravity_cmd_header_at buf 0)"
    using assms by (auto simp: commands_inv_def spsc_inv_def consumer_inv_def size_known_def)
  have "16 \<le> length (concat (drop k sent))" using c commands_contents [OF assms(1)] by (simp add: copied_def)
  then show k: "k < length sent" by (cases "k < length sent") auto
  then have cs: "?cs = sent ! k @ concat (drop (Suc k) sent)"
    using commands_contents [OF assms(1)] by (simp flip: Cons_nth_drop_Suc)
  show p: "proper_command (sent ! k)" using assms(1) k by (auto simp: commands_inv_def list_all_length)
  then have len: "16 \<le> length (sent ! k)" "unat (hdr_size (header_of (sent ! k))) = length (sent ! k)"
    by (auto simp: proper_command_def framed_def)
  have "gravity_cmd_header_at buf 0 = header_of ?cs"
    unfolding header_of_def using c by (intro header_at_cong) (auto simp: copied_def list_mem_def)
  then show h: "gravity_cmd_header_at buf 0 = header_of (sent ! k)" using len(1) by (simp add: cs header_of_append)
  show "rd buf 0 (unat sz) = sent ! k"
    using copied_rd [OF c, of "unat sz"] by (simp add: cs sz h len(2))
  show "loop_consumes buf = sz"
    using proper_valid [OF p] by (simp add: loop_consumes_def h sz)
qed

lemma guest_step_commands:
  assumes ok: "ring_ok ring" and inv: "commands_inv ring sent k s"
    and step: "spsc_step ring CMD_BUF_SIZE s s'" "sp_cons s' = sp_cons s"
    and begins: "sp_prod s = P_Idle \<longrightarrow> (\<exists>src tail. sp_prod s' = P_Copy src tail 0 \<and> proper_command src)"
  obtains "commands_inv ring sent k s'" "sp_got s' = sp_got s" "sp_prod s = P_Idle"
  | "commands_inv ring sent k s'" "sp_got s' = sp_got s"
      "\<exists>src tail i. sp_prod s = P_Copy src tail i \<and> sp_prod s' = P_Copy src tail (Suc i)"
  | src tail where "commands_inv ring (sent @ [src]) k s'" "sp_got s' = sp_got s"
      "sp_prod s = P_Copy src tail (length src)" "sp_prod s' = P_Idle"
proof -
  have "spsc_inv ring s'" using spsc_step_inv [OF ok _ step(1)] inv by (simp add: commands_inv_def)
  moreover have "size_known s'" using inv step(2) by (simp add: commands_inv_def size_known_def)
  ultimately have k: "commands_inv ring sent k s'"
    if "sp_sent s' = sp_sent s" "sp_got s' = sp_got s" "\<forall>src tail i. sp_prod s' = P_Copy src tail i \<longrightarrow> proper_command src"
    using that inv by (simp add: commands_inv_def)
  show thesis
    using step(1)
  proof (cases rule: spsc_step.cases)
    case (write_begin src)
    then show ?thesis using k begins by (intro that(1)) auto
  next
    case (write_byte src tail i)
    then show ?thesis using k inv by (intro that(2)) (auto simp: commands_inv_def)
  next
    case (write_publish src tail)
    then have "commands_inv ring (sent @ [src]) k s'"
      using \<open>spsc_inv ring s'\<close> \<open>size_known s'\<close> inv by (auto simp: commands_inv_def)
    then show ?thesis using write_publish by (intro that(3)) auto
  qed (use step(2) in auto)
qed

lemma peek_step_commands:
  assumes ok: "ring_ok ring" and inv: "commands_inv ring sent k s"
    and step: "spsc_step ring CMD_BUF_SIZE s s'" "sp_prod s' = sp_prod s" "\<not> (\<exists>sz buf. sp_cons s = C_Have sz buf)"
  shows "commands_inv ring sent k s'"
proof -
  have "spsc_inv ring s'" using spsc_step_inv [OF ok _ step(1)] inv by (simp add: commands_inv_def)
  then have k: "commands_inv ring sent k s'" if "sp_sent s' = sp_sent s" "sp_got s' = sp_got s" "size_known s'"
    using that inv step(2) by (simp add: commands_inv_def)
  have known: "size_known s" using inv by (simp add: commands_inv_def)
  show ?thesis
    using step(1)
  proof (cases rule: spsc_step.cases)
    case (peek_body_byte head sz i buf)
    have "gravity_cmd_header_at (buf(i := sp_mem s (ring_byte ring head i))) 0 = gravity_cmd_header_at buf 0"
      using known peek_body_byte(2) by (intro header_at_cong) (simp add: size_known_def)
    then show ?thesis using k known peek_body_byte by (simp add: size_known_def)
  qed (use k known step(2,3) in \<open>auto simp: size_known_def\<close>)
qed

lemma consume_commands:
  assumes ok: "ring_ok ring" and inv: "commands_inv ring sent k s" and c: "sp_cons s = C_Have sz buf"
  shows "commands_inv ring sent (Suc k) (s\<lparr>sp_mem := gravity_ring_cmd_consume ring (sp_mem s) sz, sp_cons := C_Idle,
    sp_got := sp_got s @ rd buf 0 (unat sz)\<rparr>)" (is "commands_inv ring sent (Suc k) ?s")
proof -
  have "spsc_step ring CMD_BUF_SIZE s ?s" using spsc_step.consume [OF c, of sz ring CMD_BUF_SIZE] by simp
  then have "spsc_inv ring ?s" using spsc_step_inv [OF ok, of CMD_BUF_SIZE s ?s] inv by (simp add: commands_inv_def)
  then show ?thesis
    using inv have_next(1,2) [OF inv c] by (simp add: commands_inv_def size_known_def take_Suc_conv_app_nth)
qed

lemma loop_ring_step_commands:
  assumes ok: "ring_ok ring" and inv: "commands_inv ring sent k s" and step: "loop_ring_step ring s s'"
  shows "\<exists>sent' k'. commands_inv ring sent' k' s'"
  using step
proof cases
  case guest
  then show ?thesis by (elim guest_step_commands [OF ok inv]) blast+
next
  case peek
  then show ?thesis using peek_step_commands [OF ok inv] by blast
next
  case (loop sz buf)
  then show ?thesis using consume_commands [OF ok inv loop(2)] have_next(3) [OF inv loop(2)] by auto
qed

text \<open>
  Whatever the interleaving of the guest's stores, the daemon's loads and the updates of the
  indices, if the guest writes whole valid commands then the loop has consumed exactly the first
  of the commands published, each one whole and in order; a command it has in its buffer is the
  next one, and it will consume exactly that one.
\<close>

lemma concurrent_commands_whole:
  assumes "ring_ok ring" "cmd_contents ring m = []" "(loop_ring_step ring)\<^sup>*\<^sup>* (spsc_start m) s"
  shows "\<exists>sent k. list_all proper_command sent \<and> k \<le> length sent \<and>
     sp_sent s = concat sent \<and> sp_got s = concat (take k sent) \<and>
     cmd_contents ring (sp_mem s) = concat (drop k sent) \<and>
     (case sp_cons s of
        C_Have sz buf \<Rightarrow> k < length sent \<and> rd buf 0 (unat sz) = sent ! k \<and> loop_consumes buf = sz
      | _ \<Rightarrow> True)"
proof -
  have "commands_inv ring [] 0 (spsc_start m)"
    using assms(2) by (simp add: commands_inv_def spsc_inv_def producer_inv_def consumer_inv_def size_known_def spsc_start_def)
  with assms(3) have "\<exists>sent k. commands_inv ring sent k s"
    by (induction rule: rtranclp_induct) (blast intro: loop_ring_step_commands [OF assms(1)])+
  then obtain sent k where inv: "commands_inv ring sent k s" by blast
  then show ?thesis
    using commands_contents [OF inv] have_next [OF inv]
    by (intro exI [of _ sent] exI [of _ k]) (auto simp: commands_inv_def split: consumer.split)
qed

text \<open>The guest's routine, uninterrupted, is such a run.\<close>

lemma guest_write_run:
  assumes "sp_prod s = P_Idle" "proper_command c"
    and "fst (gravity_ring_cmd_write ring (sp_mem s) c (of_nat (length c))) = 0"
  shows "(loop_ring_step ring)\<^sup>*\<^sup>* s (s\<lparr>sp_mem := snd (gravity_ring_cmd_write ring (sp_mem s) c (of_nat (length c))),
      sp_sent := sp_sent s @ c\<rparr>)"
proof -
  have c: "c \<noteq> []" "length c < 2 ^ 32" using assms(2) by (auto simp: proper_command_def framed_def)
  show ?thesis
  proof (rule write_run [OF _ _ _ assms(1) c(2) assms(3)])
    show "loop_ring_step ring s (s\<lparr>sp_prod := P_Copy c (get_hdr (sp_mem s) (rg_header ring) rh_cmd_tail) 0\<rparr>)"
      if "length c \<le> unat (rg_cmd_ring_size ring div 2)" "length c \<le> unat (gravity_ring_cmd_space ring (sp_mem s))"
      by (rule guest [OF write_begin [OF assms(1) c(1) that]]) (use assms(2) in auto)
  qed (auto intro!: guest write_byte write_publish)
qed

lemma concurrent_commands_whole_witness:
  "\<exists>s. (loop_ring_step demo_ring)\<^sup>*\<^sup>* (spsc_start demo_mem) s \<and>
     (\<exists>sent. list_all proper_command sent \<and> concat sent = demo_ping 1) \<and> cmd_contents demo_ring (sp_mem s) = demo_ping 1"
proof -
  have z: "fst (gravity_ring_cmd_write demo_ring demo_mem (demo_ping 1) (of_nat (length (demo_ping 1)))) = 0"
    using cmd_write_zero_iff [OF demo_ok, of demo_mem "demo_ping 1" 16] demo_attach by simp
  define s where "s = spsc_start demo_mem\<lparr>sp_mem := snd (gravity_ring_cmd_write demo_ring demo_mem (demo_ping 1) 16),
     sp_sent := demo_ping 1\<rparr>"
  have run: "(loop_ring_step demo_ring)\<^sup>*\<^sup>* (spsc_start demo_mem) s"
    using guest_write_run [of "spsc_start demo_mem" "demo_ping 1" demo_ring] z by (simp add: spsc_start_def s_def)
  obtain sent k where "list_all proper_command sent" "sp_sent s = concat sent" "sp_got s = concat (take k sent)"
    "cmd_contents demo_ring (sp_mem s) = concat (drop k sent)"
    using concurrent_commands_whole [OF demo_ok _ run] demo_attach by auto
  moreover have "concat (take k sent) @ concat (drop k sent) = concat sent" by (simp flip: concat_append)
  moreover have "sp_sent s = demo_ping 1" "sp_got s = []" by (simp_all add: s_def spsc_start_def)
  ultimately show ?thesis using run by (metis append_Nil)
qed

end
