(* ===== verification/Daemon_Life.thy ===== *)
theory Daemon_Life
  imports Daemon_Props
begin

text \<open>
  Start and shutdown of the daemon: what is open on every exit path, the state the loop starts
  in, and the release of the mapping behind the loop.
\<close>

lemma open_shared_memory_opens:
  assumes "maps_positive os"
  shows "case open_shared_memory os cfg [] of (p, tr) \<Rightarrow>
     p = 0 \<and> os_open os tr = ([], []) \<or> 0 < p \<and> os_open os tr = ([], [p])"
  unfolding open_shared_memory_def Let_def split_def fst_conv snd_conv
  by (simp add: os_open_def mmap_positive [OF assms])

lemma demo_vk_init: "fst (gravity_vk_init demo_vulkan zero_vk_state False []) = 0"
  by (simp add: gravity_vk_init_def vk_stage_def create_instance_def select_physical_device_def find_queue_families_def
      create_logical_device_def create_command_pools_def create_pipeline_cache_def create_descriptor_pool_def
      family_step_def unique_families_def demo_props_def VK_PHYSICAL_DEVICE_TYPE_INTEGRATED_GPU_def
      VK_QUEUE_GRAPHICS_BIT_def VK_QUEUE_COMPUTE_BIT_def VK_QUEUE_TRANSFER_BIT_def VK_NO_INDEX_def
      vk_call_def vk_tell_def demo_vulkan_def demo_reply_def Let_def)

text \<open>
  C23: starting the daemon always returns: either with exit status 1 and neither a file
  descriptor nor a mapping left open, or in a state for the loop with only the mapping open,
  well-formed empty rings of 4 MiB and 256 KiB and an empty tracker; the shutdown behind the
  loop then releases the mapping, however the run went.  (Assumed of \<^verbatim>\<open>mmap\<close>: it answers
  \<^verbatim>\<open>MAP_FAILED\<close> or a positive address.)
\<close>

theorem daemon_start_stop:
  assumes "maps_positive os"
  shows "\<exists>r tr. gravityd_start os V cfg m buf vk tk = Some (r, tr) \<and>
    (case r of
       Inl status \<Rightarrow> status = 1 \<and> os_open os tr = ([], [])
     | Inr (shmem, s) \<Rightarrow> os_open os tr = ([], [shmem]) \<and> daemon_ok (lp_daemon s) \<and> live (dm_tracker (lp_daemon s)) = {} \<and>
         rg_cmd_ring_size (dm_ring (lp_daemon s)) = 0x400000 \<and> rg_comp_ring_size (dm_ring (lp_daemon s)) = 0x40000 \<and>
         cmd_contents (dm_ring (lp_daemon s)) (dm_mem (lp_daemon s)) = [] \<and>
         comp_contents (dm_ring (lp_daemon s)) (dm_mem (lp_daemon s)) = [] \<and>
         (\<forall>s'. os_open os (snd (snd (gravityd_stop V cfg shmem s' tr))) = ([], [])))"
proof -
  obtain p tr where o: "open_shared_memory os cfg [] = (p, tr)" by fastforce
  then have open_cases: "p = 0 \<and> os_open os tr = ([], []) \<or> 0 < p \<and> os_open os tr = ([], [p])"
    using open_shared_memory_opens [OF assms, of cfg] by simp
  have stop: "os_open os (snd (snd (gravityd_stop V cfg p s' tr))) = ([], [])" if "0 < p" for s'
    using that open_cases by (simp add: gravityd_stop_def Let_def split: prod.split)
  let ?tot = "ucast (cfg_shmem_size cfg) :: u32"
  show ?thesis
  proof (cases "p = 0 \<or> unat ?tot \<le> 64 + 0x400000 + 0x40000")
    case True
    then show ?thesis
      using open_cases init_host_small [of ?tot m "nat p"] by (auto simp: gravityd_start_def o)
  next
    case False
    let ?ring = "init_ring (nat p) ?tot 0x400000 0x40000"
    obtain m' where m': "gravity_ring_init_host m (nat p) ?tot (4 * 1024 * 1024) (256 * 1024) = Some (0, m')"
      "gravity_ring_attach m' (nat p) = Some ?ring"
      "cmd_contents ?ring m' = []" "comp_contents ?ring m' = []"
      using init_host_large [of ?tot m "nat p"] False by auto
    have ring: "ring_ok ?ring" by (rule init_ring_ok [OF default_ring_sizes])
    have sz: "rg_cmd_ring_size ?ring = 0x400000" "rg_comp_ring_size ?ring = 0x40000"
      by (simp_all add: init_ring_def)
    obtain vr vks vcalls where vk: "gravity_vk_init V vk (cfg_validation cfg) [] = (vr, vks, vcalls)"
      by (metis prod_cases3)
    show ?thesis
      using False open_cases m' ring sz stop
      by (auto simp: gravityd_start_def o vk daemon_ok_def)
  qed
qed

theorem daemon_start_stop_witness:
  "\<exists>s tr. gravityd_start demo_os demo_vulkan config_defaults (\<lambda>_. 0) (\<lambda>_. 0) zero_vk_state zero_tracker =
       Some (Inr (0x1000, s), tr) \<and> daemon_ok (lp_daemon s) \<and> os_open demo_os tr = ([], [0x1000])"
proof -
  have mm: "maps_positive demo_os" by (rule demo_os_positive)
  have o: "open_shared_memory demo_os config_defaults [] =
      (0x1000, [shm_open ''/gravity-gpu'' False, ftruncate 3 0x20000000, mmap 3 0x20000000, close_fd 3])"
    by (simp add: open_shared_memory_def demo_os_def Let_def MAP_FAILED_def config_defaults_def)
  have cfg: "cfg_shmem_size config_defaults = 0x20000000" "\<not> cfg_validation config_defaults"
    by (simp_all add: config_defaults_def)
  obtain vks vcalls where v: "gravity_vk_init demo_vulkan zero_vk_state False [] = (0, vks, vcalls)"
    using demo_vk_init by (metis prod.collapse)
  note start = daemon_start_stop [where os = demo_os and V = demo_vulkan and cfg = config_defaults and m = "\<lambda>_. 0"
      and buf = "\<lambda>_. 0" and vk = zero_vk_state and tk = zero_tracker, OF mm]
  obtain r tr where r: "gravityd_start demo_os demo_vulkan config_defaults (\<lambda>_. 0) (\<lambda>_. 0) zero_vk_state zero_tracker = Some (r, tr)"
    using start by blast
  have "\<exists>s. r = Inr (0x1000, s)"
    using r init_host_large [where tot = "0x20000000" and m = "\<lambda>_. 0" and base = "0x1000"]
    by (auto simp: gravityd_start_def o v cfg)
  then show ?thesis using start r by auto
qed

end
