(* ===== verification/Packed_Layout.thy ===== *)
theory Packed_Layout
  imports Gravity_Protocol
begin

text \<open>
  Packed little-endian layouts.  The locale \<open>packed\<close> is the contract of a structure's decoder and
  encoder: a memory holds the encoding of a value at an address exactly when decoding there gives
  the value.  Round trips, the locality of the decoder and arrays of structures follow once and
  for all; the members are laid out by the interpretations on the scalars.
\<close>

section \<open>Bytes held by a memory\<close>

definition holds :: "mem \<Rightarrow> nat \<Rightarrow> u8 list \<Rightarrow> bool" where
  "holds m a bs \<longleftrightarrow> rd m a (length bs) = bs"

named_theorems layout_simps "when a memory holds the encoding of a member"

lemma holds_append [layout_simps]: "holds m a (xs @ ys) \<longleftrightarrow> holds m a xs \<and> holds m (a + length xs) ys"
  by (auto simp: holds_def rd_append)

lemma holds_Nil [simp]: "holds m a []"
  by (simp add: holds_def rd_def)

lemma holds_Cons [layout_simps]: "holds m a (b # bs) \<longleftrightarrow> m a = b \<and> holds m (a + 1) bs"
  using holds_append [of m a "[b]" bs] by (simp add: holds_def rd_def)

lemma holds_rd: "holds m a (rd m a n)"
  by (simp add: holds_def)

lemma holds_bytes: "length bs = n \<Longrightarrow> holds m a bs \<longleftrightarrow> rd m a n = bs"
  by (auto simp: holds_def)

lemma holds_wr: "holds (wr m a bs) a bs"
  by (simp add: holds_def rd_wr_same)

lemma holds_cong: "(\<And>i. i < length bs \<Longrightarrow> m (a + i) = m' (b + i)) \<Longrightarrow> holds m a bs \<longleftrightarrow> holds m' b bs"
  unfolding holds_def using rd_cong2 [of "length bs" m a m' b] by simp

section \<open>The contract\<close>

locale packed =
  fixes dec :: "mem \<Rightarrow> nat \<Rightarrow> 'a" and enc :: "'a \<Rightarrow> u8 list" and width :: nat and valid :: "'a \<Rightarrow> bool"
  assumes width: "valid s \<Longrightarrow> length (enc s) = width"
    and decoded: "valid (dec m a)"
    and wire: "valid s \<Longrightarrow> holds m a (enc s) \<longleftrightarrow> dec m a = s"
begin

lemma dec_wr: "valid s \<Longrightarrow> dec (wr m a (enc s)) a = s"
  using holds_wr wire by blast

lemma enc_dec: "enc (dec m a) = rd m a width"
  using wire [of "dec m a" m a] decoded [of m a] width [of "dec m a"] by (simp add: holds_def)

lemma local: "(\<And>i. i < width \<Longrightarrow> m (a + i) = m' (b + i)) \<Longrightarrow> dec m a = dec m' b"
  using holds_cong [of "enc (dec m a)" m a m' b] wire [of "dec m a"] decoded [of m a] width [of "dec m a"] by auto

lemma enc_inj: "valid s \<Longrightarrow> valid t \<Longrightarrow> enc s = enc t \<Longrightarrow> s = t"
  by (metis dec_wr)

lemma dec_front: "valid s \<Longrightarrow> dec (list_mem (enc s @ bs)) 0 = s"
proof -
  assume s: "valid s"
  have "rd (list_mem (enc s @ bs)) 0 (length (enc s)) = enc s"
    by (rule nth_equalityI) (simp_all add: list_mem_def nth_append)
  then show ?thesis using wire [OF s, of "list_mem (enc s @ bs)" 0] by (simp add: holds_def)
qed

lemma array_length: "list_all valid xs \<Longrightarrow> length (concat (map enc xs)) = width * length xs"
  by (induction xs) (simp_all add: width)

lemma array_wire:
  "list_all valid xs \<Longrightarrow> length xs = n \<Longrightarrow>
     holds m a (concat (map enc xs)) \<longleftrightarrow> map (\<lambda>i. dec m (a + width * i)) [0..<n] = xs"
proof (induction xs arbitrary: a n)
  case (Cons x xs)
  then obtain k where n: "n = Suc k" "length xs = k" by (cases n) auto
  have "map (\<lambda>i. dec m (a + width * i)) [0..<Suc k] = dec m a # map (\<lambda>i. dec m (a + width + width * i)) [0..<k]"
    by (simp add: upt_conv_Cons map_Suc_upt [symmetric] o_def add.assoc del: upt_Suc)
  then show ?case
    using Cons.IH [of k "a + width"] Cons.prems n by (simp add: holds_append wire width del: upt_Suc)
qed simp

lemma array_decoded: "list_all valid (map (\<lambda>i. dec m (f i)) is)"
  by (simp add: list_all_iff decoded)

end

lemma list_all_triv [layout_simps]: "list_all (\<lambda>_. True) xs"
  by (simp add: list_all_iff)

section \<open>Scalars and the header\<close>

interpretation w16: packed ld16 "le_bytes 2" 2 "\<lambda>_. True"
proof (unfold_locales, goal_cases)
  case (3 s m a)
  then show ?case
    using le_word_le_bytes [of 2 s] le_bytes_le_word [of "rd m a 2", where ?'a = 16]
    by (auto simp: holds_def ld16_def)
qed simp_all

interpretation w32: packed ld32 "le_bytes 4" 4 "\<lambda>_. True"
proof (unfold_locales, goal_cases)
  case (3 s m a)
  then show ?case
    using le_word_le_bytes [of 4 s] le_bytes_le_word [of "rd m a 4", where ?'a = 32]
    by (auto simp: holds_def ld32_def)
qed simp_all

interpretation w64: packed ld64 "le_bytes 8" 8 "\<lambda>_. True"
proof (unfold_locales, goal_cases)
  case (3 s m a)
  then show ?case
    using le_word_le_bytes [of 8 s] le_bytes_le_word [of "rd m a 8", where ?'a = 64]
    by (auto simp: holds_def ld64_def)
qed simp_all

lemmas scalar_wire [layout_simps] = w16.wire [OF TrueI] w32.wire [OF TrueI] w64.wire [OF TrueI]

lemma scalar_array [layout_simps]:
  "length xs = n \<Longrightarrow> holds m a (concat (map (le_bytes 4) xs)) \<longleftrightarrow> map (\<lambda>i. ld32 m (a + 4 * i)) [0..<n] = xs"
  "length (concat (map (le_bytes 4) xs)) = 4 * length xs" for xs :: "u32 list"
  by (rule w32.array_wire) (simp_all add: w32.array_length list_all_iff)

interpretation header: packed gravity_cmd_header_at gravity_cmd_header_bytes 16 "\<lambda>_. True"
proof (unfold_locales, goal_cases)
  case (3 s m a)
  then show ?case
    by (cases s) (auto simp: gravity_cmd_header_at_def gravity_cmd_header_bytes_def layout_simps add.assoc
        simp del: add_2_eq_Suc')
qed simp_all

lemmas header_wire [layout_simps] = header.wire [OF TrueI]

end
