(* ===== verification/Protocol_Structs.thy ===== *)
theory Protocol_Structs
  imports Packed_Layout
begin

text \<open>
  The structures of \<^verbatim>\<open>gravity_protocol.h\<close> that are declared for the guest but have no handler in
  the daemon yet (pipelines of the compute and blit encoders, fences, uploads, the remaining
  render state), as records with their packed decoders, and the encoder of every structure.
\<close>

section \<open>Structures without a handler\<close>

record gravity_cmd_destroy_shader =
  dsh_hdr :: "gravity_cmd_header"
  dsh_handle :: "u32"

definition gravity_cmd_destroy_shader_at :: "mem \<Rightarrow> nat \<Rightarrow> gravity_cmd_destroy_shader" where
  "gravity_cmd_destroy_shader_at m a = \<lparr>
     dsh_hdr = gravity_cmd_header_at m a,
     dsh_handle = ld32 m (a + 16)\<rparr>"

record gravity_cmd_destroy_render_pipeline =
  drp_hdr :: "gravity_cmd_header"
  drp_handle :: "u32"

definition gravity_cmd_destroy_render_pipeline_at :: "mem \<Rightarrow> nat \<Rightarrow> gravity_cmd_destroy_render_pipeline" where
  "gravity_cmd_destroy_render_pipeline_at m a = \<lparr>
     drp_hdr = gravity_cmd_header_at m a,
     drp_handle = ld32 m (a + 16)\<rparr>"

record gravity_cmd_create_compute_pipeline =
  ccp_hdr :: "gravity_cmd_header"
  ccp_handle :: "u32"
  ccp_compute_shader :: "u32"
  ccp_thread_group_size_x :: "u32"
  ccp_thread_group_size_y :: "u32"
  ccp_thread_group_size_z :: "u32"
  ccp_reserved :: "u32"

definition gravity_cmd_create_compute_pipeline_at :: "mem \<Rightarrow> nat \<Rightarrow> gravity_cmd_create_compute_pipeline" where
  "gravity_cmd_create_compute_pipeline_at m a = \<lparr>
     ccp_hdr = gravity_cmd_header_at m a,
     ccp_handle = ld32 m (a + 16),
     ccp_compute_shader = ld32 m (a + 20),
     ccp_thread_group_size_x = ld32 m (a + 24),
     ccp_thread_group_size_y = ld32 m (a + 28),
     ccp_thread_group_size_z = ld32 m (a + 32),
     ccp_reserved = ld32 m (a + 36)\<rparr>"

record gravity_cmd_render_set_pipeline =
  spl_hdr :: "gravity_cmd_header"
  spl_cmdbuf :: "u32"
  spl_pipeline :: "u32"

definition gravity_cmd_render_set_pipeline_at :: "mem \<Rightarrow> nat \<Rightarrow> gravity_cmd_render_set_pipeline" where
  "gravity_cmd_render_set_pipeline_at m a = \<lparr>
     spl_hdr = gravity_cmd_header_at m a,
     spl_cmdbuf = ld32 m (a + 16),
     spl_pipeline = ld32 m (a + 20)\<rparr>"

record gravity_cmd_render_set_fragment_buffer =
  sfb_hdr :: "gravity_cmd_header"
  sfb_cmdbuf :: "u32"
  sfb_buffer :: "u32"
  sfb_offset :: "u32"
  sfb_index :: "u32"

definition gravity_cmd_render_set_fragment_buffer_at :: "mem \<Rightarrow> nat \<Rightarrow> gravity_cmd_render_set_fragment_buffer" where
  "gravity_cmd_render_set_fragment_buffer_at m a = \<lparr>
     sfb_hdr = gravity_cmd_header_at m a,
     sfb_cmdbuf = ld32 m (a + 16),
     sfb_buffer = ld32 m (a + 20),
     sfb_offset = ld32 m (a + 24),
     sfb_index = ld32 m (a + 28)\<rparr>"

record gravity_cmd_render_set_fragment_texture =
  sft_hdr :: "gravity_cmd_header"
  sft_cmdbuf :: "u32"
  sft_texture :: "u32"
  sft_index :: "u32"

definition gravity_cmd_render_set_fragment_texture_at :: "mem \<Rightarrow> nat \<Rightarrow> gravity_cmd_render_set_fragment_texture" where
  "gravity_cmd_render_set_fragment_texture_at m a = \<lparr>
     sft_hdr = gravity_cmd_header_at m a,
     sft_cmdbuf = ld32 m (a + 16),
     sft_texture = ld32 m (a + 20),
     sft_index = ld32 m (a + 24)\<rparr>"

record gravity_cmd_render_set_fragment_sampler =
  sfs_hdr :: "gravity_cmd_header"
  sfs_cmdbuf :: "u32"
  sfs_sampler :: "u32"
  sfs_index :: "u32"

definition gravity_cmd_render_set_fragment_sampler_at :: "mem \<Rightarrow> nat \<Rightarrow> gravity_cmd_render_set_fragment_sampler" where
  "gravity_cmd_render_set_fragment_sampler_at m a = \<lparr>
     sfs_hdr = gravity_cmd_header_at m a,
     sfs_cmdbuf = ld32 m (a + 16),
     sfs_sampler = ld32 m (a + 20),
     sfs_index = ld32 m (a + 24)\<rparr>"

record gravity_cmd_render_set_cull_mode =
  scm_hdr :: "gravity_cmd_header"
  scm_cmdbuf :: "u32"
  scm_cull_mode :: "u32"

definition gravity_cmd_render_set_cull_mode_at :: "mem \<Rightarrow> nat \<Rightarrow> gravity_cmd_render_set_cull_mode" where
  "gravity_cmd_render_set_cull_mode_at m a = \<lparr>
     scm_hdr = gravity_cmd_header_at m a,
     scm_cmdbuf = ld32 m (a + 16),
     scm_cull_mode = ld32 m (a + 20)\<rparr>"

record gravity_cmd_render_set_depth_stencil =
  sds_hdr :: "gravity_cmd_header"
  sds_cmdbuf :: "u32"
  sds_depth_stencil_state :: "u32"

definition gravity_cmd_render_set_depth_stencil_at :: "mem \<Rightarrow> nat \<Rightarrow> gravity_cmd_render_set_depth_stencil" where
  "gravity_cmd_render_set_depth_stencil_at m a = \<lparr>
     sds_hdr = gravity_cmd_header_at m a,
     sds_cmdbuf = ld32 m (a + 16),
     sds_depth_stencil_state = ld32 m (a + 20)\<rparr>"

record gravity_cmd_render_set_depth_bias =
  sdb_hdr :: "gravity_cmd_header"
  sdb_cmdbuf :: "u32"
  sdb_depth_bias :: "u32"
  sdb_slope_scale :: "u32"
  sdb_clamp :: "u32"

definition gravity_cmd_render_set_depth_bias_at :: "mem \<Rightarrow> nat \<Rightarrow> gravity_cmd_render_set_depth_bias" where
  "gravity_cmd_render_set_depth_bias_at m a = \<lparr>
     sdb_hdr = gravity_cmd_header_at m a,
     sdb_cmdbuf = ld32 m (a + 16),
     sdb_depth_bias = ld32 m (a + 20),
     sdb_slope_scale = ld32 m (a + 24),
     sdb_clamp = ld32 m (a + 28)\<rparr>"

record gravity_cmd_render_set_blend_color =
  sbc_hdr :: "gravity_cmd_header"
  sbc_cmdbuf :: "u32"
  sbc_color :: "u32 list"

definition gravity_cmd_render_set_blend_color_at :: "mem \<Rightarrow> nat \<Rightarrow> gravity_cmd_render_set_blend_color" where
  "gravity_cmd_render_set_blend_color_at m a = \<lparr>
     sbc_hdr = gravity_cmd_header_at m a,
     sbc_cmdbuf = ld32 m (a + 16),
     sbc_color = map (\<lambda>i. ld32 m (a + 20 + 4 * i)) [0..<4]\<rparr>"

record gravity_cmd_compute_begin =
  cpb_hdr :: "gravity_cmd_header"
  cpb_cmdbuf :: "u32"

definition gravity_cmd_compute_begin_at :: "mem \<Rightarrow> nat \<Rightarrow> gravity_cmd_compute_begin" where
  "gravity_cmd_compute_begin_at m a = \<lparr>
     cpb_hdr = gravity_cmd_header_at m a,
     cpb_cmdbuf = ld32 m (a + 16)\<rparr>"

record gravity_cmd_compute_end =
  cpe_hdr :: "gravity_cmd_header"
  cpe_cmdbuf :: "u32"

definition gravity_cmd_compute_end_at :: "mem \<Rightarrow> nat \<Rightarrow> gravity_cmd_compute_end" where
  "gravity_cmd_compute_end_at m a = \<lparr>
     cpe_hdr = gravity_cmd_header_at m a,
     cpe_cmdbuf = ld32 m (a + 16)\<rparr>"

record gravity_cmd_compute_set_pipeline =
  csp_hdr :: "gravity_cmd_header"
  csp_cmdbuf :: "u32"
  csp_pipeline :: "u32"

definition gravity_cmd_compute_set_pipeline_at :: "mem \<Rightarrow> nat \<Rightarrow> gravity_cmd_compute_set_pipeline" where
  "gravity_cmd_compute_set_pipeline_at m a = \<lparr>
     csp_hdr = gravity_cmd_header_at m a,
     csp_cmdbuf = ld32 m (a + 16),
     csp_pipeline = ld32 m (a + 20)\<rparr>"

record gravity_cmd_compute_set_buffer =
  csb_hdr :: "gravity_cmd_header"
  csb_cmdbuf :: "u32"
  csb_buffer :: "u32"
  csb_offset :: "u32"
  csb_index :: "u32"

definition gravity_cmd_compute_set_buffer_at :: "mem \<Rightarrow> nat \<Rightarrow> gravity_cmd_compute_set_buffer" where
  "gravity_cmd_compute_set_buffer_at m a = \<lparr>
     csb_hdr = gravity_cmd_header_at m a,
     csb_cmdbuf = ld32 m (a + 16),
     csb_buffer = ld32 m (a + 20),
     csb_offset = ld32 m (a + 24),
     csb_index = ld32 m (a + 28)\<rparr>"

record gravity_cmd_compute_dispatch =
  cdp_hdr :: "gravity_cmd_header"
  cdp_cmdbuf :: "u32"
  cdp_threadgroups_x :: "u32"
  cdp_threadgroups_y :: "u32"
  cdp_threadgroups_z :: "u32"
  cdp_threads_per_group_x :: "u32"
  cdp_threads_per_group_y :: "u32"
  cdp_threads_per_group_z :: "u32"

definition gravity_cmd_compute_dispatch_at :: "mem \<Rightarrow> nat \<Rightarrow> gravity_cmd_compute_dispatch" where
  "gravity_cmd_compute_dispatch_at m a = \<lparr>
     cdp_hdr = gravity_cmd_header_at m a,
     cdp_cmdbuf = ld32 m (a + 16),
     cdp_threadgroups_x = ld32 m (a + 20),
     cdp_threadgroups_y = ld32 m (a + 24),
     cdp_threadgroups_z = ld32 m (a + 28),
     cdp_threads_per_group_x = ld32 m (a + 32),
     cdp_threads_per_group_y = ld32 m (a + 36),
     cdp_threads_per_group_z = ld32 m (a + 40)\<rparr>"

record gravity_origin =
  org_x :: "u32"
  org_y :: "u32"
  org_z :: "u32"

definition gravity_origin_at :: "mem \<Rightarrow> nat \<Rightarrow> gravity_origin" where
  "gravity_origin_at m a = \<lparr>
     org_x = ld32 m a,
     org_y = ld32 m (a + 4),
     org_z = ld32 m (a + 8)\<rparr>"

record gravity_size =
  gsz_width :: "u32"
  gsz_height :: "u32"
  gsz_depth :: "u32"

definition gravity_size_at :: "mem \<Rightarrow> nat \<Rightarrow> gravity_size" where
  "gravity_size_at m a = \<lparr>
     gsz_width = ld32 m a,
     gsz_height = ld32 m (a + 4),
     gsz_depth = ld32 m (a + 8)\<rparr>"

record gravity_cmd_blit_copy_buffer =
  bcb_hdr :: "gravity_cmd_header"
  bcb_cmdbuf :: "u32"
  bcb_src_buffer :: "u32"
  bcb_src_offset :: "u64"
  bcb_dst_buffer :: "u32"
  bcb_dst_offset :: "u64"
  bcb_size :: "u64"

definition gravity_cmd_blit_copy_buffer_at :: "mem \<Rightarrow> nat \<Rightarrow> gravity_cmd_blit_copy_buffer" where
  "gravity_cmd_blit_copy_buffer_at m a = \<lparr>
     bcb_hdr = gravity_cmd_header_at m a,
     bcb_cmdbuf = ld32 m (a + 16),
     bcb_src_buffer = ld32 m (a + 20),
     bcb_src_offset = ld64 m (a + 24),
     bcb_dst_buffer = ld32 m (a + 32),
     bcb_dst_offset = ld64 m (a + 36),
     bcb_size = ld64 m (a + 44)\<rparr>"

record gravity_cmd_blit_copy_texture =
  bct_hdr :: "gravity_cmd_header"
  bct_cmdbuf :: "u32"
  bct_src_texture :: "u32"
  bct_src_slice :: "u32"
  bct_src_level :: "u32"
  bct_src_origin :: "gravity_origin"
  bct_src_size :: "gravity_size"
  bct_dst_texture :: "u32"
  bct_dst_slice :: "u32"
  bct_dst_level :: "u32"
  bct_dst_origin :: "gravity_origin"

definition gravity_cmd_blit_copy_texture_at :: "mem \<Rightarrow> nat \<Rightarrow> gravity_cmd_blit_copy_texture" where
  "gravity_cmd_blit_copy_texture_at m a = \<lparr>
     bct_hdr = gravity_cmd_header_at m a,
     bct_cmdbuf = ld32 m (a + 16),
     bct_src_texture = ld32 m (a + 20),
     bct_src_slice = ld32 m (a + 24),
     bct_src_level = ld32 m (a + 28),
     bct_src_origin = gravity_origin_at m (a + 32),
     bct_src_size = gravity_size_at m (a + 44),
     bct_dst_texture = ld32 m (a + 56),
     bct_dst_slice = ld32 m (a + 60),
     bct_dst_level = ld32 m (a + 64),
     bct_dst_origin = gravity_origin_at m (a + 68)\<rparr>"

record gravity_cmd_blit_copy_buf_to_tex =
  bbt_hdr :: "gravity_cmd_header"
  bbt_cmdbuf :: "u32"
  bbt_src_buffer :: "u32"
  bbt_src_offset :: "u64"
  bbt_src_bytes_per_row :: "u32"
  bbt_src_bytes_per_image :: "u32"
  bbt_src_size :: "gravity_size"
  bbt_dst_texture :: "u32"
  bbt_dst_slice :: "u32"
  bbt_dst_level :: "u32"
  bbt_dst_origin :: "gravity_origin"

definition gravity_cmd_blit_copy_buf_to_tex_at :: "mem \<Rightarrow> nat \<Rightarrow> gravity_cmd_blit_copy_buf_to_tex" where
  "gravity_cmd_blit_copy_buf_to_tex_at m a = \<lparr>
     bbt_hdr = gravity_cmd_header_at m a,
     bbt_cmdbuf = ld32 m (a + 16),
     bbt_src_buffer = ld32 m (a + 20),
     bbt_src_offset = ld64 m (a + 24),
     bbt_src_bytes_per_row = ld32 m (a + 32),
     bbt_src_bytes_per_image = ld32 m (a + 36),
     bbt_src_size = gravity_size_at m (a + 40),
     bbt_dst_texture = ld32 m (a + 52),
     bbt_dst_slice = ld32 m (a + 56),
     bbt_dst_level = ld32 m (a + 60),
     bbt_dst_origin = gravity_origin_at m (a + 64)\<rparr>"

record gravity_cmd_blit_generate_mipmaps =
  bgm_hdr :: "gravity_cmd_header"
  bgm_cmdbuf :: "u32"
  bgm_texture :: "u32"

definition gravity_cmd_blit_generate_mipmaps_at :: "mem \<Rightarrow> nat \<Rightarrow> gravity_cmd_blit_generate_mipmaps" where
  "gravity_cmd_blit_generate_mipmaps_at m a = \<lparr>
     bgm_hdr = gravity_cmd_header_at m a,
     bgm_cmdbuf = ld32 m (a + 16),
     bgm_texture = ld32 m (a + 20)\<rparr>"

record gravity_cmd_create_fence =
  cf_hdr :: "gravity_cmd_header"
  cf_handle :: "u32"

definition gravity_cmd_create_fence_at :: "mem \<Rightarrow> nat \<Rightarrow> gravity_cmd_create_fence" where
  "gravity_cmd_create_fence_at m a = \<lparr>
     cf_hdr = gravity_cmd_header_at m a,
     cf_handle = ld32 m (a + 16)\<rparr>"

record gravity_cmd_wait_fence =
  wf_hdr :: "gravity_cmd_header"
  wf_fence :: "u32"
  wf_timeout_ns :: "u64"

definition gravity_cmd_wait_fence_at :: "mem \<Rightarrow> nat \<Rightarrow> gravity_cmd_wait_fence" where
  "gravity_cmd_wait_fence_at m a = \<lparr>
     wf_hdr = gravity_cmd_header_at m a,
     wf_fence = ld32 m (a + 16),
     wf_timeout_ns = ld64 m (a + 20)\<rparr>"

record gravity_cmd_upload_data =
  ud_hdr :: "gravity_cmd_header"
  ud_target :: "u32"
  ud_target_offset :: "u64"
  ud_data_offset :: "u64"
  ud_data_size :: "u32"
  ud_reserved :: "u32"

definition gravity_cmd_upload_data_at :: "mem \<Rightarrow> nat \<Rightarrow> gravity_cmd_upload_data" where
  "gravity_cmd_upload_data_at m a = \<lparr>
     ud_hdr = gravity_cmd_header_at m a,
     ud_target = ld32 m (a + 16),
     ud_target_offset = ld64 m (a + 20),
     ud_data_offset = ld64 m (a + 28),
     ud_data_size = ld32 m (a + 36),
     ud_reserved = ld32 m (a + 40)\<rparr>"

section \<open>Encoders\<close>

definition gravity_cmd_create_buffer_bytes :: "gravity_cmd_create_buffer \<Rightarrow> u8 list" where
  "gravity_cmd_create_buffer_bytes s =
     gravity_cmd_header_bytes (cb_hdr s) @
     le_bytes 4 (cb_handle s) @
     le_bytes 8 (cb_size s) @
     le_bytes 4 (cb_storage_mode s) @
     le_bytes 4 (cb_usage s) @
     le_bytes 8 (cb_data_offset s) @
     le_bytes 4 (cb_data_size s) @
     le_bytes 4 (cb_reserved s)"

definition gravity_cmd_destroy_buffer_bytes :: "gravity_cmd_destroy_buffer \<Rightarrow> u8 list" where
  "gravity_cmd_destroy_buffer_bytes s =
     gravity_cmd_header_bytes (db_hdr s) @
     le_bytes 4 (db_handle s)"

definition gravity_cmd_create_texture_bytes :: "gravity_cmd_create_texture \<Rightarrow> u8 list" where
  "gravity_cmd_create_texture_bytes s =
     gravity_cmd_header_bytes (ct_hdr s) @
     le_bytes 4 (ct_handle s) @
     le_bytes 4 (ct_texture_type s) @
     le_bytes 4 (ct_pixel_format s) @
     le_bytes 4 (ct_width s) @
     le_bytes 4 (ct_height s) @
     le_bytes 4 (ct_depth s) @
     le_bytes 4 (ct_mipmap_levels s) @
     le_bytes 4 (ct_array_length s) @
     le_bytes 4 (ct_sample_count s) @
     le_bytes 4 (ct_storage_mode s) @
     le_bytes 4 (ct_usage s) @
     le_bytes 8 (ct_data_offset s) @
     le_bytes 4 (ct_data_size s) @
     le_bytes 4 (ct_reserved s)"

definition gravity_cmd_destroy_texture_bytes :: "gravity_cmd_destroy_texture \<Rightarrow> u8 list" where
  "gravity_cmd_destroy_texture_bytes s =
     gravity_cmd_header_bytes (dt_hdr s) @
     le_bytes 4 (dt_handle s)"

definition gravity_cmd_create_sampler_bytes :: "gravity_cmd_create_sampler \<Rightarrow> u8 list" where
  "gravity_cmd_create_sampler_bytes s =
     gravity_cmd_header_bytes (cs_hdr s) @
     le_bytes 4 (cs_handle s) @
     le_bytes 4 (cs_min_filter s) @
     le_bytes 4 (cs_mag_filter s) @
     le_bytes 4 (cs_mip_filter s) @
     le_bytes 4 (cs_address_mode_s s) @
     le_bytes 4 (cs_address_mode_t s) @
     le_bytes 4 (cs_address_mode_r s) @
     le_bytes 4 (cs_lod_min_clamp s) @
     le_bytes 4 (cs_lod_max_clamp s) @
     le_bytes 4 (cs_max_anisotropy s) @
     le_bytes 4 (cs_compare_function s) @
     le_bytes 4 (cs_reserved s)"

definition gravity_cmd_destroy_sampler_bytes :: "gravity_cmd_destroy_sampler \<Rightarrow> u8 list" where
  "gravity_cmd_destroy_sampler_bytes s =
     gravity_cmd_header_bytes (ds_hdr s) @
     le_bytes 4 (ds_handle s)"

definition gravity_cmd_create_shader_bytes :: "gravity_cmd_create_shader \<Rightarrow> u8 list" where
  "gravity_cmd_create_shader_bytes s =
     gravity_cmd_header_bytes (csh_hdr s) @
     le_bytes 4 (csh_handle s) @
     le_bytes 4 (csh_shader_type s) @
     le_bytes 4 (csh_source_type s) @
     le_bytes 8 (csh_source_offset s) @
     le_bytes 4 (csh_source_size s) @
     csh_entry_point s @
     le_bytes 4 (csh_reserved s)"

definition gravity_cmd_destroy_shader_bytes :: "gravity_cmd_destroy_shader \<Rightarrow> u8 list" where
  "gravity_cmd_destroy_shader_bytes s =
     gravity_cmd_header_bytes (dsh_hdr s) @
     le_bytes 4 (dsh_handle s)"

definition gravity_vertex_attribute_desc_bytes :: "gravity_vertex_attribute_desc \<Rightarrow> u8 list" where
  "gravity_vertex_attribute_desc_bytes s =
     le_bytes 4 (va_format s) @
     le_bytes 4 (va_offset s) @
     le_bytes 4 (va_buffer_index s) @
     le_bytes 4 (va_reserved s)"

definition gravity_vertex_buffer_layout_desc_bytes :: "gravity_vertex_buffer_layout_desc \<Rightarrow> u8 list" where
  "gravity_vertex_buffer_layout_desc_bytes s =
     le_bytes 4 (vbl_stride s) @
     le_bytes 4 (vbl_step_function s) @
     le_bytes 4 (vbl_step_rate s) @
     le_bytes 4 (vbl_reserved s)"

definition gravity_color_attachment_desc_bytes :: "gravity_color_attachment_desc \<Rightarrow> u8 list" where
  "gravity_color_attachment_desc_bytes s =
     le_bytes 4 (cad_pixel_format s) @
     [cad_blending_enabled s] @
     [cad_write_mask s] @
     cad_reserved s @
     le_bytes 4 (cad_rgb_blend_operation s) @
     le_bytes 4 (cad_alpha_blend_operation s) @
     le_bytes 4 (cad_src_rgb_blend_factor s) @
     le_bytes 4 (cad_dst_rgb_blend_factor s) @
     le_bytes 4 (cad_src_alpha_blend_factor s) @
     le_bytes 4 (cad_dst_alpha_blend_factor s)"

definition gravity_stencil_desc_bytes :: "gravity_stencil_desc \<Rightarrow> u8 list" where
  "gravity_stencil_desc_bytes s =
     le_bytes 4 (sd_stencil_compare s) @
     le_bytes 4 (sd_stencil_fail_op s) @
     le_bytes 4 (sd_depth_fail_op s) @
     le_bytes 4 (sd_depth_stencil_pass_op s) @
     le_bytes 4 (sd_read_mask s) @
     le_bytes 4 (sd_write_mask s)"

definition gravity_cmd_create_render_pipeline_bytes :: "gravity_cmd_create_render_pipeline \<Rightarrow> u8 list" where
  "gravity_cmd_create_render_pipeline_bytes s =
     gravity_cmd_header_bytes (crp_hdr s) @
     le_bytes 4 (crp_handle s) @
     le_bytes 4 (crp_vertex_shader s) @
     le_bytes 4 (crp_fragment_shader s) @
     le_bytes 4 (crp_num_vertex_attributes s) @
     concat (map gravity_vertex_attribute_desc_bytes (crp_vertex_attributes s)) @
     le_bytes 4 (crp_num_vertex_buffer_layouts s) @
     concat (map gravity_vertex_buffer_layout_desc_bytes (crp_vertex_buffer_layouts s)) @
     le_bytes 4 (crp_num_color_attachments s) @
     concat (map gravity_color_attachment_desc_bytes (crp_color_attachments s)) @
     le_bytes 4 (crp_depth_attachment_format s) @
     le_bytes 4 (crp_stencil_attachment_format s) @
     le_bytes 4 (crp_sample_count s) @
     [crp_alpha_to_coverage_enabled s] @
     [crp_alpha_to_one_enabled s] @
     [crp_rasterization_enabled s] @
     [crp_reserved_pad s] @
     le_bytes 4 (crp_reserved s)"

definition gravity_cmd_destroy_render_pipeline_bytes :: "gravity_cmd_destroy_render_pipeline \<Rightarrow> u8 list" where
  "gravity_cmd_destroy_render_pipeline_bytes s =
     gravity_cmd_header_bytes (drp_hdr s) @
     le_bytes 4 (drp_handle s)"

definition gravity_cmd_create_compute_pipeline_bytes :: "gravity_cmd_create_compute_pipeline \<Rightarrow> u8 list" where
  "gravity_cmd_create_compute_pipeline_bytes s =
     gravity_cmd_header_bytes (ccp_hdr s) @
     le_bytes 4 (ccp_handle s) @
     le_bytes 4 (ccp_compute_shader s) @
     le_bytes 4 (ccp_thread_group_size_x s) @
     le_bytes 4 (ccp_thread_group_size_y s) @
     le_bytes 4 (ccp_thread_group_size_z s) @
     le_bytes 4 (ccp_reserved s)"

definition gravity_cmd_create_depth_stencil_bytes :: "gravity_cmd_create_depth_stencil \<Rightarrow> u8 list" where
  "gravity_cmd_create_depth_stencil_bytes s =
     gravity_cmd_header_bytes (cds_hdr s) @
     le_bytes 4 (cds_handle s) @
     le_bytes 4 (cds_depth_compare s) @
     [cds_depth_write_enabled s] @
     cds_reserved_pad s @
     gravity_stencil_desc_bytes (cds_front_face_stencil s) @
     gravity_stencil_desc_bytes (cds_back_face_stencil s)"

definition gravity_color_attachment_action_bytes :: "gravity_color_attachment_action \<Rightarrow> u8 list" where
  "gravity_color_attachment_action_bytes s =
     le_bytes 4 (caa_texture s) @
     le_bytes 4 (caa_level s) @
     le_bytes 4 (caa_slice s) @
     le_bytes 4 (caa_load_action s) @
     le_bytes 4 (caa_store_action s) @
     concat (map (le_bytes 4) (caa_clear_color s))"

definition gravity_depth_attachment_action_bytes :: "gravity_depth_attachment_action \<Rightarrow> u8 list" where
  "gravity_depth_attachment_action_bytes s =
     le_bytes 4 (daa_texture s) @
     le_bytes 4 (daa_level s) @
     le_bytes 4 (daa_slice s) @
     le_bytes 4 (daa_load_action s) @
     le_bytes 4 (daa_store_action s) @
     le_bytes 4 (daa_clear_depth s) @
     le_bytes 4 (daa_reserved s)"

definition gravity_stencil_attachment_action_bytes :: "gravity_stencil_attachment_action \<Rightarrow> u8 list" where
  "gravity_stencil_attachment_action_bytes s =
     le_bytes 4 (saa_texture s) @
     le_bytes 4 (saa_level s) @
     le_bytes 4 (saa_slice s) @
     le_bytes 4 (saa_load_action s) @
     le_bytes 4 (saa_store_action s) @
     le_bytes 4 (saa_clear_stencil s) @
     le_bytes 4 (saa_reserved s)"

definition gravity_cmd_render_begin_bytes :: "gravity_cmd_render_begin \<Rightarrow> u8 list" where
  "gravity_cmd_render_begin_bytes s =
     gravity_cmd_header_bytes (rb_hdr s) @
     le_bytes 4 (rb_cmdbuf s) @
     le_bytes 4 (rb_num_color_attachments s) @
     concat (map gravity_color_attachment_action_bytes (rb_color_attachments s)) @
     gravity_depth_attachment_action_bytes (rb_depth_attachment s) @
     gravity_stencil_attachment_action_bytes (rb_stencil_attachment s) @
     le_bytes 4 (rb_render_area_x s) @
     le_bytes 4 (rb_render_area_y s) @
     le_bytes 4 (rb_render_area_width s) @
     le_bytes 4 (rb_render_area_height s)"

definition gravity_cmd_render_end_bytes :: "gravity_cmd_render_end \<Rightarrow> u8 list" where
  "gravity_cmd_render_end_bytes s =
     gravity_cmd_header_bytes (re_hdr s) @
     le_bytes 4 (re_cmdbuf s)"

definition gravity_viewport_bytes :: "gravity_viewport \<Rightarrow> u8 list" where
  "gravity_viewport_bytes s =
     le_bytes 4 (vp_x s) @
     le_bytes 4 (vp_y s) @
     le_bytes 4 (vp_width s) @
     le_bytes 4 (vp_height s) @
     le_bytes 4 (vp_znear s) @
     le_bytes 4 (vp_zfar s)"

definition gravity_scissor_rect_bytes :: "gravity_scissor_rect \<Rightarrow> u8 list" where
  "gravity_scissor_rect_bytes s =
     le_bytes 4 (sr_x s) @
     le_bytes 4 (sr_y s) @
     le_bytes 4 (sr_width s) @
     le_bytes 4 (sr_height s)"

definition gravity_cmd_render_set_pipeline_bytes :: "gravity_cmd_render_set_pipeline \<Rightarrow> u8 list" where
  "gravity_cmd_render_set_pipeline_bytes s =
     gravity_cmd_header_bytes (spl_hdr s) @
     le_bytes 4 (spl_cmdbuf s) @
     le_bytes 4 (spl_pipeline s)"

definition gravity_cmd_render_set_vertex_buffer_bytes :: "gravity_cmd_render_set_vertex_buffer \<Rightarrow> u8 list" where
  "gravity_cmd_render_set_vertex_buffer_bytes s =
     gravity_cmd_header_bytes (svb_hdr s) @
     le_bytes 4 (svb_cmdbuf s) @
     le_bytes 4 (svb_buffer s) @
     le_bytes 4 (svb_offset s) @
     le_bytes 4 (svb_index s)"

definition gravity_cmd_render_set_fragment_buffer_bytes :: "gravity_cmd_render_set_fragment_buffer \<Rightarrow> u8 list" where
  "gravity_cmd_render_set_fragment_buffer_bytes s =
     gravity_cmd_header_bytes (sfb_hdr s) @
     le_bytes 4 (sfb_cmdbuf s) @
     le_bytes 4 (sfb_buffer s) @
     le_bytes 4 (sfb_offset s) @
     le_bytes 4 (sfb_index s)"

definition gravity_cmd_render_set_fragment_texture_bytes :: "gravity_cmd_render_set_fragment_texture \<Rightarrow> u8 list" where
  "gravity_cmd_render_set_fragment_texture_bytes s =
     gravity_cmd_header_bytes (sft_hdr s) @
     le_bytes 4 (sft_cmdbuf s) @
     le_bytes 4 (sft_texture s) @
     le_bytes 4 (sft_index s)"

definition gravity_cmd_render_set_fragment_sampler_bytes :: "gravity_cmd_render_set_fragment_sampler \<Rightarrow> u8 list" where
  "gravity_cmd_render_set_fragment_sampler_bytes s =
     gravity_cmd_header_bytes (sfs_hdr s) @
     le_bytes 4 (sfs_cmdbuf s) @
     le_bytes 4 (sfs_sampler s) @
     le_bytes 4 (sfs_index s)"

definition gravity_cmd_render_set_viewport_bytes :: "gravity_cmd_render_set_viewport \<Rightarrow> u8 list" where
  "gravity_cmd_render_set_viewport_bytes s =
     gravity_cmd_header_bytes (svp_hdr s) @
     le_bytes 4 (svp_cmdbuf s) @
     gravity_viewport_bytes (svp_viewport s)"

definition gravity_cmd_render_set_scissor_bytes :: "gravity_cmd_render_set_scissor \<Rightarrow> u8 list" where
  "gravity_cmd_render_set_scissor_bytes s =
     gravity_cmd_header_bytes (ssc_hdr s) @
     le_bytes 4 (ssc_cmdbuf s) @
     gravity_scissor_rect_bytes (ssc_rect s)"

definition gravity_cmd_render_set_cull_mode_bytes :: "gravity_cmd_render_set_cull_mode \<Rightarrow> u8 list" where
  "gravity_cmd_render_set_cull_mode_bytes s =
     gravity_cmd_header_bytes (scm_hdr s) @
     le_bytes 4 (scm_cmdbuf s) @
     le_bytes 4 (scm_cull_mode s)"

definition gravity_cmd_render_set_depth_stencil_bytes :: "gravity_cmd_render_set_depth_stencil \<Rightarrow> u8 list" where
  "gravity_cmd_render_set_depth_stencil_bytes s =
     gravity_cmd_header_bytes (sds_hdr s) @
     le_bytes 4 (sds_cmdbuf s) @
     le_bytes 4 (sds_depth_stencil_state s)"

definition gravity_cmd_render_set_depth_bias_bytes :: "gravity_cmd_render_set_depth_bias \<Rightarrow> u8 list" where
  "gravity_cmd_render_set_depth_bias_bytes s =
     gravity_cmd_header_bytes (sdb_hdr s) @
     le_bytes 4 (sdb_cmdbuf s) @
     le_bytes 4 (sdb_depth_bias s) @
     le_bytes 4 (sdb_slope_scale s) @
     le_bytes 4 (sdb_clamp s)"

definition gravity_cmd_render_set_blend_color_bytes :: "gravity_cmd_render_set_blend_color \<Rightarrow> u8 list" where
  "gravity_cmd_render_set_blend_color_bytes s =
     gravity_cmd_header_bytes (sbc_hdr s) @
     le_bytes 4 (sbc_cmdbuf s) @
     concat (map (le_bytes 4) (sbc_color s))"

definition gravity_cmd_render_draw_bytes :: "gravity_cmd_render_draw \<Rightarrow> u8 list" where
  "gravity_cmd_render_draw_bytes s =
     gravity_cmd_header_bytes (drw_hdr s) @
     le_bytes 4 (drw_cmdbuf s) @
     le_bytes 4 (drw_primitive_type s) @
     le_bytes 4 (drw_vertex_start s) @
     le_bytes 4 (drw_vertex_count s) @
     le_bytes 4 (drw_reserved s)"

definition gravity_cmd_render_draw_indexed_bytes :: "gravity_cmd_render_draw_indexed \<Rightarrow> u8 list" where
  "gravity_cmd_render_draw_indexed_bytes s =
     gravity_cmd_header_bytes (rdx_hdr s) @
     le_bytes 4 (rdx_cmdbuf s) @
     le_bytes 4 (rdx_primitive_type s) @
     le_bytes 4 (rdx_index_count s) @
     le_bytes 4 (rdx_index_type s) @
     le_bytes 4 (rdx_index_buffer s) @
     le_bytes 4 (rdx_index_buffer_offset s) @
     le_bytes 4 (rdx_reserved s)"

definition gravity_cmd_render_draw_instanced_bytes :: "gravity_cmd_render_draw_instanced \<Rightarrow> u8 list" where
  "gravity_cmd_render_draw_instanced_bytes s =
     gravity_cmd_header_bytes (rdi_hdr s) @
     le_bytes 4 (rdi_cmdbuf s) @
     le_bytes 4 (rdi_primitive_type s) @
     le_bytes 4 (rdi_vertex_start s) @
     le_bytes 4 (rdi_vertex_count s) @
     le_bytes 4 (rdi_instance_count s) @
     le_bytes 4 (rdi_base_instance s) @
     le_bytes 4 (rdi_reserved s)"

definition gravity_cmd_compute_begin_bytes :: "gravity_cmd_compute_begin \<Rightarrow> u8 list" where
  "gravity_cmd_compute_begin_bytes s =
     gravity_cmd_header_bytes (cpb_hdr s) @
     le_bytes 4 (cpb_cmdbuf s)"

definition gravity_cmd_compute_end_bytes :: "gravity_cmd_compute_end \<Rightarrow> u8 list" where
  "gravity_cmd_compute_end_bytes s =
     gravity_cmd_header_bytes (cpe_hdr s) @
     le_bytes 4 (cpe_cmdbuf s)"

definition gravity_cmd_compute_set_pipeline_bytes :: "gravity_cmd_compute_set_pipeline \<Rightarrow> u8 list" where
  "gravity_cmd_compute_set_pipeline_bytes s =
     gravity_cmd_header_bytes (csp_hdr s) @
     le_bytes 4 (csp_cmdbuf s) @
     le_bytes 4 (csp_pipeline s)"

definition gravity_cmd_compute_set_buffer_bytes :: "gravity_cmd_compute_set_buffer \<Rightarrow> u8 list" where
  "gravity_cmd_compute_set_buffer_bytes s =
     gravity_cmd_header_bytes (csb_hdr s) @
     le_bytes 4 (csb_cmdbuf s) @
     le_bytes 4 (csb_buffer s) @
     le_bytes 4 (csb_offset s) @
     le_bytes 4 (csb_index s)"

definition gravity_cmd_compute_dispatch_bytes :: "gravity_cmd_compute_dispatch \<Rightarrow> u8 list" where
  "gravity_cmd_compute_dispatch_bytes s =
     gravity_cmd_header_bytes (cdp_hdr s) @
     le_bytes 4 (cdp_cmdbuf s) @
     le_bytes 4 (cdp_threadgroups_x s) @
     le_bytes 4 (cdp_threadgroups_y s) @
     le_bytes 4 (cdp_threadgroups_z s) @
     le_bytes 4 (cdp_threads_per_group_x s) @
     le_bytes 4 (cdp_threads_per_group_y s) @
     le_bytes 4 (cdp_threads_per_group_z s)"

definition gravity_origin_bytes :: "gravity_origin \<Rightarrow> u8 list" where
  "gravity_origin_bytes s =
     le_bytes 4 (org_x s) @
     le_bytes 4 (org_y s) @
     le_bytes 4 (org_z s)"

definition gravity_size_bytes :: "gravity_size \<Rightarrow> u8 list" where
  "gravity_size_bytes s =
     le_bytes 4 (gsz_width s) @
     le_bytes 4 (gsz_height s) @
     le_bytes 4 (gsz_depth s)"

definition gravity_cmd_blit_copy_buffer_bytes :: "gravity_cmd_blit_copy_buffer \<Rightarrow> u8 list" where
  "gravity_cmd_blit_copy_buffer_bytes s =
     gravity_cmd_header_bytes (bcb_hdr s) @
     le_bytes 4 (bcb_cmdbuf s) @
     le_bytes 4 (bcb_src_buffer s) @
     le_bytes 8 (bcb_src_offset s) @
     le_bytes 4 (bcb_dst_buffer s) @
     le_bytes 8 (bcb_dst_offset s) @
     le_bytes 8 (bcb_size s)"

definition gravity_cmd_blit_copy_texture_bytes :: "gravity_cmd_blit_copy_texture \<Rightarrow> u8 list" where
  "gravity_cmd_blit_copy_texture_bytes s =
     gravity_cmd_header_bytes (bct_hdr s) @
     le_bytes 4 (bct_cmdbuf s) @
     le_bytes 4 (bct_src_texture s) @
     le_bytes 4 (bct_src_slice s) @
     le_bytes 4 (bct_src_level s) @
     gravity_origin_bytes (bct_src_origin s) @
     gravity_size_bytes (bct_src_size s) @
     le_bytes 4 (bct_dst_texture s) @
     le_bytes 4 (bct_dst_slice s) @
     le_bytes 4 (bct_dst_level s) @
     gravity_origin_bytes (bct_dst_origin s)"

definition gravity_cmd_blit_copy_buf_to_tex_bytes :: "gravity_cmd_blit_copy_buf_to_tex \<Rightarrow> u8 list" where
  "gravity_cmd_blit_copy_buf_to_tex_bytes s =
     gravity_cmd_header_bytes (bbt_hdr s) @
     le_bytes 4 (bbt_cmdbuf s) @
     le_bytes 4 (bbt_src_buffer s) @
     le_bytes 8 (bbt_src_offset s) @
     le_bytes 4 (bbt_src_bytes_per_row s) @
     le_bytes 4 (bbt_src_bytes_per_image s) @
     gravity_size_bytes (bbt_src_size s) @
     le_bytes 4 (bbt_dst_texture s) @
     le_bytes 4 (bbt_dst_slice s) @
     le_bytes 4 (bbt_dst_level s) @
     gravity_origin_bytes (bbt_dst_origin s)"

definition gravity_cmd_blit_generate_mipmaps_bytes :: "gravity_cmd_blit_generate_mipmaps \<Rightarrow> u8 list" where
  "gravity_cmd_blit_generate_mipmaps_bytes s =
     gravity_cmd_header_bytes (bgm_hdr s) @
     le_bytes 4 (bgm_cmdbuf s) @
     le_bytes 4 (bgm_texture s)"

definition gravity_cmd_create_fence_bytes :: "gravity_cmd_create_fence \<Rightarrow> u8 list" where
  "gravity_cmd_create_fence_bytes s =
     gravity_cmd_header_bytes (cf_hdr s) @
     le_bytes 4 (cf_handle s)"

definition gravity_cmd_wait_fence_bytes :: "gravity_cmd_wait_fence \<Rightarrow> u8 list" where
  "gravity_cmd_wait_fence_bytes s =
     gravity_cmd_header_bytes (wf_hdr s) @
     le_bytes 4 (wf_fence s) @
     le_bytes 8 (wf_timeout_ns s)"

definition gravity_cmd_upload_data_bytes :: "gravity_cmd_upload_data \<Rightarrow> u8 list" where
  "gravity_cmd_upload_data_bytes s =
     gravity_cmd_header_bytes (ud_hdr s) @
     le_bytes 4 (ud_target s) @
     le_bytes 8 (ud_target_offset s) @
     le_bytes 8 (ud_data_offset s) @
     le_bytes 4 (ud_data_size s) @
     le_bytes 4 (ud_reserved s)"

definition gravity_cmd_present_bytes :: "gravity_cmd_present \<Rightarrow> u8 list" where
  "gravity_cmd_present_bytes s =
     gravity_cmd_header_bytes (pr_hdr s) @
     le_bytes 4 (pr_texture s) @
     le_bytes 4 (pr_reserved s)"

definition gravity_cmd_resize_display_bytes :: "gravity_cmd_resize_display \<Rightarrow> u8 list" where
  "gravity_cmd_resize_display_bytes s =
     gravity_cmd_header_bytes (rsz_hdr s) @
     le_bytes 4 (rsz_width s) @
     le_bytes 4 (rsz_height s) @
     le_bytes 4 (rsz_pixel_format s) @
     le_bytes 4 (rsz_reserved s)"

definition gravity_cmd_cmdbuf_create_bytes :: "gravity_cmd_cmdbuf_create \<Rightarrow> u8 list" where
  "gravity_cmd_cmdbuf_create_bytes s =
     gravity_cmd_header_bytes (cbc_hdr s) @
     le_bytes 4 (cbc_handle s)"

definition gravity_cmd_cmdbuf_commit_bytes :: "gravity_cmd_cmdbuf_commit \<Rightarrow> u8 list" where
  "gravity_cmd_cmdbuf_commit_bytes s =
     gravity_cmd_header_bytes (cbm_hdr s) @
     le_bytes 4 (cbm_handle s)"

end
