(* ===== verification/Protocol_Layout.thy ===== *)
theory Protocol_Layout
  imports Protocol_Structs Protocol_Props
begin

text \<open>
  The contract \<open>packed\<close> for every structure of the protocol: its decoder, its encoder and its
  size fit together.  \<open>..._ok\<close> says that the array members have the length their declaration gives.
\<close>

named_theorems layout "encodings in memory, their sizes, and decoded values"

declare layout_simps [layout] add.assoc [layout]

declare add_2_eq_Suc' [simp del] upt_Suc [simp del] One_nat_def [simp del]

definition gravity_cmd_hello_ok :: "gravity_cmd_hello \<Rightarrow> bool" where
  "gravity_cmd_hello_ok s \<longleftrightarrow> length (hello_reserved s) = 4"

interpretation hello: packed gravity_cmd_hello_at gravity_cmd_hello_bytes 44 gravity_cmd_hello_ok
  by unfold_locales
    (auto simp: gravity_cmd_hello_at_def gravity_cmd_hello_bytes_def gravity_cmd_hello_ok_def layout intro: gravity_cmd_hello.equality)

definition gravity_cmd_hello_response_ok :: "gravity_cmd_hello_response \<Rightarrow> bool" where
  "gravity_cmd_hello_response_ok s \<longleftrightarrow> length (hresp_reserved s) = 4"

interpretation hello_response: packed gravity_cmd_hello_response_at gravity_cmd_hello_response_bytes 56 gravity_cmd_hello_response_ok
  by unfold_locales
    (auto simp: gravity_cmd_hello_response_at_def gravity_cmd_hello_response_bytes_def gravity_cmd_hello_response_ok_def layout intro: gravity_cmd_hello_response.equality)

interpretation create_buffer: packed gravity_cmd_create_buffer_at gravity_cmd_create_buffer_bytes 52 "\<lambda>_. True"
  by unfold_locales
    (auto simp: gravity_cmd_create_buffer_at_def gravity_cmd_create_buffer_bytes_def layout intro: gravity_cmd_create_buffer.equality)

interpretation destroy_buffer: packed gravity_cmd_destroy_buffer_at gravity_cmd_destroy_buffer_bytes 20 "\<lambda>_. True"
  by unfold_locales
    (auto simp: gravity_cmd_destroy_buffer_at_def gravity_cmd_destroy_buffer_bytes_def layout intro: gravity_cmd_destroy_buffer.equality)

interpretation create_texture: packed gravity_cmd_create_texture_at gravity_cmd_create_texture_bytes 76 "\<lambda>_. True"
  by unfold_locales
    (auto simp: gravity_cmd_create_texture_at_def gravity_cmd_create_texture_bytes_def layout intro: gravity_cmd_create_texture.equality)

interpretation destroy_texture: packed gravity_cmd_destroy_texture_at gravity_cmd_destroy_texture_bytes 20 "\<lambda>_. True"
  by unfold_locales
    (auto simp: gravity_cmd_destroy_texture_at_def gravity_cmd_destroy_texture_bytes_def layout intro: gravity_cmd_destroy_texture.equality)

interpretation create_sampler: packed gravity_cmd_create_sampler_at gravity_cmd_create_sampler_bytes 64 "\<lambda>_. True"
  by unfold_locales
    (auto simp: gravity_cmd_create_sampler_at_def gravity_cmd_create_sampler_bytes_def layout intro: gravity_cmd_create_sampler.equality)

interpretation destroy_sampler: packed gravity_cmd_destroy_sampler_at gravity_cmd_destroy_sampler_bytes 20 "\<lambda>_. True"
  by unfold_locales
    (auto simp: gravity_cmd_destroy_sampler_at_def gravity_cmd_destroy_sampler_bytes_def layout intro: gravity_cmd_destroy_sampler.equality)

definition gravity_cmd_create_shader_ok :: "gravity_cmd_create_shader \<Rightarrow> bool" where
  "gravity_cmd_create_shader_ok s \<longleftrightarrow> length (csh_entry_point s) = 64"

interpretation create_shader: packed gravity_cmd_create_shader_at gravity_cmd_create_shader_bytes 108 gravity_cmd_create_shader_ok
proof (unfold_locales, goal_cases)
  case (3 s m a)
  then show ?case
    using holds_bytes [of "csh_entry_point s" 64 m "a + 40"]
    by (auto simp: gravity_cmd_create_shader_at_def gravity_cmd_create_shader_bytes_def gravity_cmd_create_shader_ok_def layout intro: gravity_cmd_create_shader.equality)
qed (simp_all add: gravity_cmd_create_shader_at_def gravity_cmd_create_shader_bytes_def gravity_cmd_create_shader_ok_def layout)

interpretation destroy_shader: packed gravity_cmd_destroy_shader_at gravity_cmd_destroy_shader_bytes 20 "\<lambda>_. True"
  by unfold_locales
    (auto simp: gravity_cmd_destroy_shader_at_def gravity_cmd_destroy_shader_bytes_def layout intro: gravity_cmd_destroy_shader.equality)

interpretation vertex_attribute_desc: packed gravity_vertex_attribute_desc_at gravity_vertex_attribute_desc_bytes 16 "\<lambda>_. True"
  by unfold_locales
    (auto simp: gravity_vertex_attribute_desc_at_def gravity_vertex_attribute_desc_bytes_def layout intro: gravity_vertex_attribute_desc.equality)

lemmas vertex_attribute_desc_layout [layout] = vertex_attribute_desc.wire [OF TrueI] vertex_attribute_desc.width [OF TrueI]

interpretation vertex_buffer_layout_desc: packed gravity_vertex_buffer_layout_desc_at gravity_vertex_buffer_layout_desc_bytes 16 "\<lambda>_. True"
  by unfold_locales
    (auto simp: gravity_vertex_buffer_layout_desc_at_def gravity_vertex_buffer_layout_desc_bytes_def layout intro: gravity_vertex_buffer_layout_desc.equality)

lemmas vertex_buffer_layout_desc_layout [layout] = vertex_buffer_layout_desc.wire [OF TrueI] vertex_buffer_layout_desc.width [OF TrueI]

definition gravity_color_attachment_desc_ok :: "gravity_color_attachment_desc \<Rightarrow> bool" where
  "gravity_color_attachment_desc_ok s \<longleftrightarrow> length (cad_reserved s) = 2"

interpretation color_attachment_desc: packed gravity_color_attachment_desc_at gravity_color_attachment_desc_bytes 32 gravity_color_attachment_desc_ok
proof (unfold_locales, goal_cases)
  case (3 s m a)
  then show ?case
    using holds_bytes [of "cad_reserved s" 2 m "a + 6"]
    by (auto simp: gravity_color_attachment_desc_at_def gravity_color_attachment_desc_bytes_def gravity_color_attachment_desc_ok_def layout intro: gravity_color_attachment_desc.equality)
qed (simp_all add: gravity_color_attachment_desc_at_def gravity_color_attachment_desc_bytes_def gravity_color_attachment_desc_ok_def layout)

lemmas color_attachment_desc_layout [layout] = color_attachment_desc.wire color_attachment_desc.width color_attachment_desc.decoded

interpretation stencil_desc: packed gravity_stencil_desc_at gravity_stencil_desc_bytes 24 "\<lambda>_. True"
  by unfold_locales
    (auto simp: gravity_stencil_desc_at_def gravity_stencil_desc_bytes_def layout intro: gravity_stencil_desc.equality)

lemmas stencil_desc_layout [layout] = stencil_desc.wire [OF TrueI] stencil_desc.width [OF TrueI]

definition gravity_cmd_create_render_pipeline_ok :: "gravity_cmd_create_render_pipeline \<Rightarrow> bool" where
  "gravity_cmd_create_render_pipeline_ok s \<longleftrightarrow> length (crp_vertex_attributes s) = 31 \<and> length (crp_vertex_buffer_layouts s) = 31 \<and> length (crp_color_attachments s) = 8 \<and> list_all gravity_color_attachment_desc_ok (crp_color_attachments s)"

interpretation create_render_pipeline: packed gravity_cmd_create_render_pipeline_at gravity_cmd_create_render_pipeline_bytes 1308 gravity_cmd_create_render_pipeline_ok
  by unfold_locales
    (auto simp: gravity_cmd_create_render_pipeline_at_def gravity_cmd_create_render_pipeline_bytes_def gravity_cmd_create_render_pipeline_ok_def vertex_attribute_desc.array_length vertex_attribute_desc.array_decoded vertex_buffer_layout_desc.array_length vertex_buffer_layout_desc.array_decoded color_attachment_desc.array_length color_attachment_desc.array_decoded vertex_attribute_desc.array_wire vertex_buffer_layout_desc.array_wire color_attachment_desc.array_wire layout intro: gravity_cmd_create_render_pipeline.equality)

interpretation destroy_render_pipeline: packed gravity_cmd_destroy_render_pipeline_at gravity_cmd_destroy_render_pipeline_bytes 20 "\<lambda>_. True"
  by unfold_locales
    (auto simp: gravity_cmd_destroy_render_pipeline_at_def gravity_cmd_destroy_render_pipeline_bytes_def layout intro: gravity_cmd_destroy_render_pipeline.equality)

interpretation create_compute_pipeline: packed gravity_cmd_create_compute_pipeline_at gravity_cmd_create_compute_pipeline_bytes 40 "\<lambda>_. True"
  by unfold_locales
    (auto simp: gravity_cmd_create_compute_pipeline_at_def gravity_cmd_create_compute_pipeline_bytes_def layout intro: gravity_cmd_create_compute_pipeline.equality)

definition gravity_cmd_create_depth_stencil_ok :: "gravity_cmd_create_depth_stencil \<Rightarrow> bool" where
  "gravity_cmd_create_depth_stencil_ok s \<longleftrightarrow> length (cds_reserved_pad s) = 3"

interpretation create_depth_stencil: packed gravity_cmd_create_depth_stencil_at gravity_cmd_create_depth_stencil_bytes 76 gravity_cmd_create_depth_stencil_ok
proof (unfold_locales, goal_cases)
  case (3 s m a)
  then show ?case
    using holds_bytes [of "cds_reserved_pad s" 3 m "a + 25"]
    by (auto simp: gravity_cmd_create_depth_stencil_at_def gravity_cmd_create_depth_stencil_bytes_def gravity_cmd_create_depth_stencil_ok_def layout intro: gravity_cmd_create_depth_stencil.equality)
qed (simp_all add: gravity_cmd_create_depth_stencil_at_def gravity_cmd_create_depth_stencil_bytes_def gravity_cmd_create_depth_stencil_ok_def layout)

definition gravity_color_attachment_action_ok :: "gravity_color_attachment_action \<Rightarrow> bool" where
  "gravity_color_attachment_action_ok s \<longleftrightarrow> length (caa_clear_color s) = 4"

interpretation color_attachment_action: packed gravity_color_attachment_action_at gravity_color_attachment_action_bytes 36 gravity_color_attachment_action_ok
  by unfold_locales
    (auto simp: gravity_color_attachment_action_at_def gravity_color_attachment_action_bytes_def gravity_color_attachment_action_ok_def layout intro: gravity_color_attachment_action.equality)

lemmas color_attachment_action_layout [layout] = color_attachment_action.wire color_attachment_action.width color_attachment_action.decoded

interpretation depth_attachment_action: packed gravity_depth_attachment_action_at gravity_depth_attachment_action_bytes 28 "\<lambda>_. True"
  by unfold_locales
    (auto simp: gravity_depth_attachment_action_at_def gravity_depth_attachment_action_bytes_def layout intro: gravity_depth_attachment_action.equality)

lemmas depth_attachment_action_layout [layout] = depth_attachment_action.wire [OF TrueI] depth_attachment_action.width [OF TrueI]

interpretation stencil_attachment_action: packed gravity_stencil_attachment_action_at gravity_stencil_attachment_action_bytes 28 "\<lambda>_. True"
  by unfold_locales
    (auto simp: gravity_stencil_attachment_action_at_def gravity_stencil_attachment_action_bytes_def layout intro: gravity_stencil_attachment_action.equality)

lemmas stencil_attachment_action_layout [layout] = stencil_attachment_action.wire [OF TrueI] stencil_attachment_action.width [OF TrueI]

definition gravity_cmd_render_begin_ok :: "gravity_cmd_render_begin \<Rightarrow> bool" where
  "gravity_cmd_render_begin_ok s \<longleftrightarrow> length (rb_color_attachments s) = 8 \<and> list_all gravity_color_attachment_action_ok (rb_color_attachments s)"

interpretation render_begin: packed gravity_cmd_render_begin_at gravity_cmd_render_begin_bytes 384 gravity_cmd_render_begin_ok
  by unfold_locales
    (auto simp: gravity_cmd_render_begin_at_def gravity_cmd_render_begin_bytes_def gravity_cmd_render_begin_ok_def color_attachment_action.array_length color_attachment_action.array_decoded color_attachment_action.array_wire layout intro: gravity_cmd_render_begin.equality)

interpretation render_end: packed gravity_cmd_render_end_at gravity_cmd_render_end_bytes 20 "\<lambda>_. True"
  by unfold_locales
    (auto simp: gravity_cmd_render_end_at_def gravity_cmd_render_end_bytes_def layout intro: gravity_cmd_render_end.equality)

interpretation viewport: packed gravity_viewport_at gravity_viewport_bytes 24 "\<lambda>_. True"
  by unfold_locales
    (auto simp: gravity_viewport_at_def gravity_viewport_bytes_def layout intro: gravity_viewport.equality)

lemmas viewport_layout [layout] = viewport.wire [OF TrueI] viewport.width [OF TrueI]

interpretation scissor_rect: packed gravity_scissor_rect_at gravity_scissor_rect_bytes 16 "\<lambda>_. True"
  by unfold_locales
    (auto simp: gravity_scissor_rect_at_def gravity_scissor_rect_bytes_def layout intro: gravity_scissor_rect.equality)

lemmas scissor_rect_layout [layout] = scissor_rect.wire [OF TrueI] scissor_rect.width [OF TrueI]

interpretation render_set_pipeline: packed gravity_cmd_render_set_pipeline_at gravity_cmd_render_set_pipeline_bytes 24 "\<lambda>_. True"
  by unfold_locales
    (auto simp: gravity_cmd_render_set_pipeline_at_def gravity_cmd_render_set_pipeline_bytes_def layout intro: gravity_cmd_render_set_pipeline.equality)

interpretation render_set_vertex_buffer: packed gravity_cmd_render_set_vertex_buffer_at gravity_cmd_render_set_vertex_buffer_bytes 32 "\<lambda>_. True"
  by unfold_locales
    (auto simp: gravity_cmd_render_set_vertex_buffer_at_def gravity_cmd_render_set_vertex_buffer_bytes_def layout intro: gravity_cmd_render_set_vertex_buffer.equality)

interpretation render_set_fragment_buffer: packed gravity_cmd_render_set_fragment_buffer_at gravity_cmd_render_set_fragment_buffer_bytes 32 "\<lambda>_. True"
  by unfold_locales
    (auto simp: gravity_cmd_render_set_fragment_buffer_at_def gravity_cmd_render_set_fragment_buffer_bytes_def layout intro: gravity_cmd_render_set_fragment_buffer.equality)

interpretation render_set_fragment_texture: packed gravity_cmd_render_set_fragment_texture_at gravity_cmd_render_set_fragment_texture_bytes 28 "\<lambda>_. True"
  by unfold_locales
    (auto simp: gravity_cmd_render_set_fragment_texture_at_def gravity_cmd_render_set_fragment_texture_bytes_def layout intro: gravity_cmd_render_set_fragment_texture.equality)

interpretation render_set_fragment_sampler: packed gravity_cmd_render_set_fragment_sampler_at gravity_cmd_render_set_fragment_sampler_bytes 28 "\<lambda>_. True"
  by unfold_locales
    (auto simp: gravity_cmd_render_set_fragment_sampler_at_def gravity_cmd_render_set_fragment_sampler_bytes_def layout intro: gravity_cmd_render_set_fragment_sampler.equality)

interpretation render_set_viewport: packed gravity_cmd_render_set_viewport_at gravity_cmd_render_set_viewport_bytes 44 "\<lambda>_. True"
  by unfold_locales
    (auto simp: gravity_cmd_render_set_viewport_at_def gravity_cmd_render_set_viewport_bytes_def layout intro: gravity_cmd_render_set_viewport.equality)

interpretation render_set_scissor: packed gravity_cmd_render_set_scissor_at gravity_cmd_render_set_scissor_bytes 36 "\<lambda>_. True"
  by unfold_locales
    (auto simp: gravity_cmd_render_set_scissor_at_def gravity_cmd_render_set_scissor_bytes_def layout intro: gravity_cmd_render_set_scissor.equality)

interpretation render_set_cull_mode: packed gravity_cmd_render_set_cull_mode_at gravity_cmd_render_set_cull_mode_bytes 24 "\<lambda>_. True"
  by unfold_locales
    (auto simp: gravity_cmd_render_set_cull_mode_at_def gravity_cmd_render_set_cull_mode_bytes_def layout intro: gravity_cmd_render_set_cull_mode.equality)

interpretation render_set_depth_stencil: packed gravity_cmd_render_set_depth_stencil_at gravity_cmd_render_set_depth_stencil_bytes 24 "\<lambda>_. True"
  by unfold_locales
    (auto simp: gravity_cmd_render_set_depth_stencil_at_def gravity_cmd_render_set_depth_stencil_bytes_def layout intro: gravity_cmd_render_set_depth_stencil.equality)

interpretation render_set_depth_bias: packed gravity_cmd_render_set_depth_bias_at gravity_cmd_render_set_depth_bias_bytes 32 "\<lambda>_. True"
  by unfold_locales
    (auto simp: gravity_cmd_render_set_depth_bias_at_def gravity_cmd_render_set_depth_bias_bytes_def layout intro: gravity_cmd_render_set_depth_bias.equality)

definition gravity_cmd_render_set_blend_color_ok :: "gravity_cmd_render_set_blend_color \<Rightarrow> bool" where
  "gravity_cmd_render_set_blend_color_ok s \<longleftrightarrow> length (sbc_color s) = 4"

interpretation render_set_blend_color: packed gravity_cmd_render_set_blend_color_at gravity_cmd_render_set_blend_color_bytes 36 gravity_cmd_render_set_blend_color_ok
  by unfold_locales
    (auto simp: gravity_cmd_render_set_blend_color_at_def gravity_cmd_render_set_blend_color_bytes_def gravity_cmd_render_set_blend_color_ok_def layout intro: gravity_cmd_render_set_blend_color.equality)

interpretation render_draw: packed gravity_cmd_render_draw_at gravity_cmd_render_draw_bytes 36 "\<lambda>_. True"
  by unfold_locales
    (auto simp: gravity_cmd_render_draw_at_def gravity_cmd_render_draw_bytes_def layout intro: gravity_cmd_render_draw.equality)

interpretation render_draw_indexed: packed gravity_cmd_render_draw_indexed_at gravity_cmd_render_draw_indexed_bytes 44 "\<lambda>_. True"
  by unfold_locales
    (auto simp: gravity_cmd_render_draw_indexed_at_def gravity_cmd_render_draw_indexed_bytes_def layout intro: gravity_cmd_render_draw_indexed.equality)

interpretation render_draw_instanced: packed gravity_cmd_render_draw_instanced_at gravity_cmd_render_draw_instanced_bytes 44 "\<lambda>_. True"
  by unfold_locales
    (auto simp: gravity_cmd_render_draw_instanced_at_def gravity_cmd_render_draw_instanced_bytes_def layout intro: gravity_cmd_render_draw_instanced.equality)

interpretation compute_begin: packed gravity_cmd_compute_begin_at gravity_cmd_compute_begin_bytes 20 "\<lambda>_. True"
  by unfold_locales
    (auto simp: gravity_cmd_compute_begin_at_def gravity_cmd_compute_begin_bytes_def layout intro: gravity_cmd_compute_begin.equality)

interpretation compute_end: packed gravity_cmd_compute_end_at gravity_cmd_compute_end_bytes 20 "\<lambda>_. True"
  by unfold_locales
    (auto simp: gravity_cmd_compute_end_at_def gravity_cmd_compute_end_bytes_def layout intro: gravity_cmd_compute_end.equality)

interpretation compute_set_pipeline: packed gravity_cmd_compute_set_pipeline_at gravity_cmd_compute_set_pipeline_bytes 24 "\<lambda>_. True"
  by unfold_locales
    (auto simp: gravity_cmd_compute_set_pipeline_at_def gravity_cmd_compute_set_pipeline_bytes_def layout intro: gravity_cmd_compute_set_pipeline.equality)

interpretation compute_set_buffer: packed gravity_cmd_compute_set_buffer_at gravity_cmd_compute_set_buffer_bytes 32 "\<lambda>_. True"
  by unfold_locales
    (auto simp: gravity_cmd_compute_set_buffer_at_def gravity_cmd_compute_set_buffer_bytes_def layout intro: gravity_cmd_compute_set_buffer.equality)

interpretation compute_dispatch: packed gravity_cmd_compute_dispatch_at gravity_cmd_compute_dispatch_bytes 44 "\<lambda>_. True"
  by unfold_locales
    (auto simp: gravity_cmd_compute_dispatch_at_def gravity_cmd_compute_dispatch_bytes_def layout intro: gravity_cmd_compute_dispatch.equality)

interpretation origin: packed gravity_origin_at gravity_origin_bytes 12 "\<lambda>_. True"
  by unfold_locales
    (auto simp: gravity_origin_at_def gravity_origin_bytes_def layout intro: gravity_origin.equality)

lemmas origin_layout [layout] = origin.wire [OF TrueI] origin.width [OF TrueI]

interpretation size: packed gravity_size_at gravity_size_bytes 12 "\<lambda>_. True"
  by unfold_locales
    (auto simp: gravity_size_at_def gravity_size_bytes_def layout intro: gravity_size.equality)

lemmas size_layout [layout] = size.wire [OF TrueI] size.width [OF TrueI]

interpretation blit_copy_buffer: packed gravity_cmd_blit_copy_buffer_at gravity_cmd_blit_copy_buffer_bytes 52 "\<lambda>_. True"
  by unfold_locales
    (auto simp: gravity_cmd_blit_copy_buffer_at_def gravity_cmd_blit_copy_buffer_bytes_def layout intro: gravity_cmd_blit_copy_buffer.equality)

interpretation blit_copy_texture: packed gravity_cmd_blit_copy_texture_at gravity_cmd_blit_copy_texture_bytes 80 "\<lambda>_. True"
  by unfold_locales
    (auto simp: gravity_cmd_blit_copy_texture_at_def gravity_cmd_blit_copy_texture_bytes_def layout intro: gravity_cmd_blit_copy_texture.equality)

interpretation blit_copy_buf_to_tex: packed gravity_cmd_blit_copy_buf_to_tex_at gravity_cmd_blit_copy_buf_to_tex_bytes 76 "\<lambda>_. True"
  by unfold_locales
    (auto simp: gravity_cmd_blit_copy_buf_to_tex_at_def gravity_cmd_blit_copy_buf_to_tex_bytes_def layout intro: gravity_cmd_blit_copy_buf_to_tex.equality)

interpretation blit_generate_mipmaps: packed gravity_cmd_blit_generate_mipmaps_at gravity_cmd_blit_generate_mipmaps_bytes 24 "\<lambda>_. True"
  by unfold_locales
    (auto simp: gravity_cmd_blit_generate_mipmaps_at_def gravity_cmd_blit_generate_mipmaps_bytes_def layout intro: gravity_cmd_blit_generate_mipmaps.equality)

interpretation create_fence: packed gravity_cmd_create_fence_at gravity_cmd_create_fence_bytes 20 "\<lambda>_. True"
  by unfold_locales
    (auto simp: gravity_cmd_create_fence_at_def gravity_cmd_create_fence_bytes_def layout intro: gravity_cmd_create_fence.equality)

interpretation wait_fence: packed gravity_cmd_wait_fence_at gravity_cmd_wait_fence_bytes 28 "\<lambda>_. True"
  by unfold_locales
    (auto simp: gravity_cmd_wait_fence_at_def gravity_cmd_wait_fence_bytes_def layout intro: gravity_cmd_wait_fence.equality)

interpretation upload_data: packed gravity_cmd_upload_data_at gravity_cmd_upload_data_bytes 44 "\<lambda>_. True"
  by unfold_locales
    (auto simp: gravity_cmd_upload_data_at_def gravity_cmd_upload_data_bytes_def layout intro: gravity_cmd_upload_data.equality)

interpretation present: packed gravity_cmd_present_at gravity_cmd_present_bytes 24 "\<lambda>_. True"
  by unfold_locales
    (auto simp: gravity_cmd_present_at_def gravity_cmd_present_bytes_def layout intro: gravity_cmd_present.equality)

interpretation resize_display: packed gravity_cmd_resize_display_at gravity_cmd_resize_display_bytes 32 "\<lambda>_. True"
  by unfold_locales
    (auto simp: gravity_cmd_resize_display_at_def gravity_cmd_resize_display_bytes_def layout intro: gravity_cmd_resize_display.equality)

interpretation cmdbuf_create: packed gravity_cmd_cmdbuf_create_at gravity_cmd_cmdbuf_create_bytes 20 "\<lambda>_. True"
  by unfold_locales
    (auto simp: gravity_cmd_cmdbuf_create_at_def gravity_cmd_cmdbuf_create_bytes_def layout intro: gravity_cmd_cmdbuf_create.equality)

interpretation cmdbuf_commit: packed gravity_cmd_cmdbuf_commit_at gravity_cmd_cmdbuf_commit_bytes 20 "\<lambda>_. True"
  by unfold_locales
    (auto simp: gravity_cmd_cmdbuf_commit_at_def gravity_cmd_cmdbuf_commit_bytes_def layout intro: gravity_cmd_cmdbuf_commit.equality)

interpretation cmdbuf_completed: packed gravity_cmd_cmdbuf_completed_at gravity_cmd_cmdbuf_completed_bytes 32 "\<lambda>_. True"
  by unfold_locales
    (auto simp: gravity_cmd_cmdbuf_completed_at_def gravity_cmd_cmdbuf_completed_bytes_def layout intro: gravity_cmd_cmdbuf_completed.equality)

declare add_2_eq_Suc' [simp] upt_Suc [simp] One_nat_def [simp]

section \<open>Round trips\<close>

text \<open>
  The packed layouts lose nothing and overlap nowhere: whatever structure of the protocol is
  stored anywhere in memory, decoding it there gives it back, for the messages of the handshake,
  the largest creation commands with their nested arrays, the render pass, and the commands that
  carry offsets into the data region.  Structures with arrays need the declared lengths.
\<close>

lemma structures_roundtrip:
  assumes "gravity_cmd_hello_ok h" "gravity_cmd_hello_response_ok r" "gravity_cmd_create_shader_ok sh"
    and "gravity_cmd_create_render_pipeline_ok p" "gravity_cmd_create_depth_stencil_ok ds"
    and "gravity_cmd_render_begin_ok b"
  shows "gravity_cmd_hello_at (wr m a (gravity_cmd_hello_bytes h)) a = h \<and>
     gravity_cmd_hello_response_at (wr m a (gravity_cmd_hello_response_bytes r)) a = r \<and>
     gravity_cmd_cmdbuf_completed_at (wr m a (gravity_cmd_cmdbuf_completed_bytes c)) a = c \<and>
     gravity_cmd_create_buffer_at (wr m a (gravity_cmd_create_buffer_bytes cb)) a = cb \<and>
     gravity_cmd_create_texture_at (wr m a (gravity_cmd_create_texture_bytes t)) a = t \<and>
     gravity_cmd_create_shader_at (wr m a (gravity_cmd_create_shader_bytes sh)) a = sh \<and>
     gravity_cmd_create_render_pipeline_at (wr m a (gravity_cmd_create_render_pipeline_bytes p)) a = p \<and>
     gravity_cmd_create_depth_stencil_at (wr m a (gravity_cmd_create_depth_stencil_bytes ds)) a = ds \<and>
     gravity_cmd_render_begin_at (wr m a (gravity_cmd_render_begin_bytes b)) a = b \<and>
     gravity_cmd_blit_copy_buf_to_tex_at (wr m a (gravity_cmd_blit_copy_buf_to_tex_bytes bt)) a = bt \<and>
     gravity_cmd_upload_data_at (wr m a (gravity_cmd_upload_data_bytes ud)) a = ud"
  using assms by (simp add: hello.dec_wr hello_response.dec_wr cmdbuf_completed.dec_wr create_buffer.dec_wr
      create_texture.dec_wr create_shader.dec_wr create_render_pipeline.dec_wr create_depth_stencil.dec_wr
      render_begin.dec_wr blit_copy_buf_to_tex.dec_wr upload_data.dec_wr)

text \<open>Every structure that a decoder reads from memory is well formed.\<close>

lemma structures_roundtrip_witness:
  "\<forall>m. let p = gravity_cmd_create_render_pipeline_at (\<lambda>_. 7) 0 in
     gravity_cmd_create_render_pipeline_at (wr m 64 (gravity_cmd_create_render_pipeline_bytes p)) 64 = p"
  using structures_roundtrip [OF hello.decoded hello_response.decoded create_shader.decoded
      create_render_pipeline.decoded create_depth_stencil.decoded render_begin.decoded,
      where m = m and a = 64 for m]
  by (simp add: Let_def)

end
