(* ===== verification/Daemon_Safety.thy ===== *)
theory Daemon_Safety
  imports Daemon_Life Protocol_Layout
begin

text \<open>
  What an iteration of the daemon's loop may depend on and what it may change.  A handler casts
  the read buffer to its command's structure, and only the header's size has been checked against
  the buffer, not against the structure: a complete command is handled by its own bytes alone, a
  shorter one by what an earlier command left behind.  In the shared memory the loop writes two
  indices and the completion ring, nothing of what is the guest's to write, unless a buffer's
  initial data goes where the driver's mapping or the data's length takes it.
\<close>

section \<open>Decoders read their structure only\<close>

definition agree :: "nat \<Rightarrow> mem \<Rightarrow> mem \<Rightarrow> bool" where
  "agree n m m' \<longleftrightarrow> (\<forall>i<n. m i = m' i)"

lemma agree_decoders:
  assumes "agree n m m'"
  shows "52 \<le> n \<Longrightarrow> gravity_cmd_create_buffer_at m 0 = gravity_cmd_create_buffer_at m' 0"
    "20 \<le> n \<Longrightarrow> gravity_cmd_destroy_buffer_at m 0 = gravity_cmd_destroy_buffer_at m' 0"
    "20 \<le> n \<Longrightarrow> gravity_cmd_destroy_texture_at m 0 = gravity_cmd_destroy_texture_at m' 0"
    "20 \<le> n \<Longrightarrow> gravity_cmd_destroy_sampler_at m 0 = gravity_cmd_destroy_sampler_at m' 0"
    "76 \<le> n \<Longrightarrow> gravity_cmd_create_texture_at m 0 = gravity_cmd_create_texture_at m' 0"
    "64 \<le> n \<Longrightarrow> gravity_cmd_create_sampler_at m 0 = gravity_cmd_create_sampler_at m' 0"
    "108 \<le> n \<Longrightarrow> gravity_cmd_create_shader_at m 0 = gravity_cmd_create_shader_at m' 0"
    "76 \<le> n \<Longrightarrow> gravity_cmd_create_depth_stencil_at m 0 = gravity_cmd_create_depth_stencil_at m' 0"
    "1308 \<le> n \<Longrightarrow> gravity_cmd_create_render_pipeline_at m 0 = gravity_cmd_create_render_pipeline_at m' 0"
    "20 \<le> n \<Longrightarrow> gravity_cmd_cmdbuf_create_at m 0 = gravity_cmd_cmdbuf_create_at m' 0"
    "20 \<le> n \<Longrightarrow> gravity_cmd_cmdbuf_commit_at m 0 = gravity_cmd_cmdbuf_commit_at m' 0"
    "384 \<le> n \<Longrightarrow> gravity_cmd_render_begin_at m 0 = gravity_cmd_render_begin_at m' 0"
    "20 \<le> n \<Longrightarrow> gravity_cmd_render_end_at m 0 = gravity_cmd_render_end_at m' 0"
    "44 \<le> n \<Longrightarrow> gravity_cmd_render_set_viewport_at m 0 = gravity_cmd_render_set_viewport_at m' 0"
    "36 \<le> n \<Longrightarrow> gravity_cmd_render_set_scissor_at m 0 = gravity_cmd_render_set_scissor_at m' 0"
    "32 \<le> n \<Longrightarrow> gravity_cmd_render_set_vertex_buffer_at m 0 = gravity_cmd_render_set_vertex_buffer_at m' 0"
    "36 \<le> n \<Longrightarrow> gravity_cmd_render_draw_at m 0 = gravity_cmd_render_draw_at m' 0"
    "44 \<le> n \<Longrightarrow> gravity_cmd_render_draw_indexed_at m 0 = gravity_cmd_render_draw_indexed_at m' 0"
    "44 \<le> n \<Longrightarrow> gravity_cmd_render_draw_instanced_at m 0 = gravity_cmd_render_draw_instanced_at m' 0"
  using assms unfolding agree_def
  by (auto intro: create_buffer.local destroy_buffer.local destroy_texture.local destroy_sampler.local create_texture.local create_sampler.local create_shader.local create_depth_stencil.local create_render_pipeline.local cmdbuf_create.local cmdbuf_commit.local render_begin.local render_end.local render_set_viewport.local render_set_scissor.local render_set_vertex_buffer.local render_draw.local render_draw_indexed.local render_draw_instanced.local)

section \<open>Commands and their structures\<close>

text \<open>
  The size of the structure \<^verbatim>\<open>process_command\<close> casts the buffer to, per opcode; for the others
  the header alone is looked at.
\<close>

definition struct_sizes :: "(gravity_cmd_op \<times> nat) list" where
  "struct_sizes =
     [(GRAVITY_CMD_CREATE_BUFFER, 52), (GRAVITY_CMD_DESTROY_BUFFER, 20), (GRAVITY_CMD_CREATE_TEXTURE, 76),
      (GRAVITY_CMD_DESTROY_TEXTURE, 20), (GRAVITY_CMD_CREATE_SAMPLER, 64), (GRAVITY_CMD_DESTROY_SAMPLER, 20),
      (GRAVITY_CMD_CREATE_SHADER, 108), (GRAVITY_CMD_CREATE_RENDER_PIPELINE, 1308),
      (GRAVITY_CMD_CREATE_DEPTH_STENCIL, 76), (GRAVITY_CMD_CMDBUF_CREATE, 20), (GRAVITY_CMD_CMDBUF_COMMIT, 20),
      (GRAVITY_CMD_RENDER_BEGIN, 384), (GRAVITY_CMD_RENDER_END, 20), (GRAVITY_CMD_RENDER_SET_VIEWPORT, 44),
      (GRAVITY_CMD_RENDER_SET_SCISSOR, 36), (GRAVITY_CMD_RENDER_SET_VERTEX_BUFFER, 32), (GRAVITY_CMD_RENDER_DRAW, 36),
      (GRAVITY_CMD_RENDER_DRAW_INDEXED, 44), (GRAVITY_CMD_RENDER_DRAW_INSTANCED, 44)]"

definition struct_size :: "u16 \<Rightarrow> nat" where
  "struct_size opcode =
     (case map_of (map (\<lambda>(op, n). (gravity_cmd_op_val op, n)) struct_sizes) opcode of Some n \<Rightarrow> n | None \<Rightarrow> 16)"

text \<open>The size of each opcode's structure.\<close>

lemma struct_size_simps:
  "map_of struct_sizes op = Some n \<Longrightarrow> struct_size (gravity_cmd_op_val op) = n"
  by (cases op) (auto simp: struct_sizes_def struct_size_def)

lemma struct_size_op:
  "(op, n) \<in> set struct_sizes \<Longrightarrow> hdr_opcode hdr = gravity_cmd_op_val op \<Longrightarrow> struct_size (hdr_opcode hdr) = n"
  using struct_size_simps [of op n] by (auto simp: struct_sizes_def)

text \<open>The table says how many bytes the encoding of the structure has.\<close>

lemma struct_sizes_encoded:
  "length (gravity_cmd_create_buffer_bytes c1) = struct_size (gravity_cmd_op_val GRAVITY_CMD_CREATE_BUFFER)"
  "length (gravity_cmd_create_texture_bytes c2) = struct_size (gravity_cmd_op_val GRAVITY_CMD_CREATE_TEXTURE)"
  "length (gravity_cmd_create_sampler_bytes c3) = struct_size (gravity_cmd_op_val GRAVITY_CMD_CREATE_SAMPLER)"
  "length (gravity_cmd_render_draw_indexed_bytes c4) = struct_size (gravity_cmd_op_val GRAVITY_CMD_RENDER_DRAW_INDEXED)"
  "gravity_cmd_create_render_pipeline_ok c5 \<Longrightarrow> length (gravity_cmd_create_render_pipeline_bytes c5) =
     struct_size (gravity_cmd_op_val GRAVITY_CMD_CREATE_RENDER_PIPELINE)"
  "gravity_cmd_render_begin_ok c6 \<Longrightarrow> length (gravity_cmd_render_begin_bytes c6) =
     struct_size (gravity_cmd_op_val GRAVITY_CMD_RENDER_BEGIN)"
  by (simp_all add: create_buffer.width create_texture.width create_sampler.width render_draw_indexed.width
      create_render_pipeline.width render_begin.width struct_size_simps struct_sizes_def del: gravity_cmd_op_val.simps)

text \<open>Two buffers that agree on the command's structure are handled alike.\<close>

lemma render_local:
  assumes "agree (struct_size (hdr_opcode hdr)) buf buf'"
  shows "gravity_cmd_process_render hdr buf d = gravity_cmd_process_render hdr buf' d"
  using agree_decoders [OF assms] struct_size_op [of _ _ hdr]
  unfolding gravity_cmd_process_render_def Let_def
  by (simp add: struct_sizes_def del: gravity_cmd_op_val.simps cong: if_cong)

lemma process_local:
  assumes "agree (struct_size (hdr_opcode hdr)) buf buf'"
  shows "process_command V hdr buf d = process_command V hdr buf' d"
  using agree_decoders [OF assms] struct_size_op [of _ _ hdr] render_local [OF assms]
  unfolding process_command_def process_others_def Let_def
  by (simp add: struct_sizes_def gravity_cmd_process_present_def gravity_cmd_process_resize_display_def
      del: gravity_cmd_op_val.simps cong: if_cong)

section \<open>Complete and truncated commands\<close>

lemma agree_front: "n \<le> length c \<Longrightarrow> agree n (wr b 0 c) (wr b' 0 c)"
  by (simp add: agree_def wr_def)

text \<open>
  C11: a complete command is isolated from its predecessors: when the command at the front of
  the ring is at least as long as the structure of its opcode, what the iteration does to the
  daemon does not depend on what earlier commands left in the read buffer.
\<close>

theorem complete_commands_isolated:
  assumes "ring_ok (dm_ring (lp_daemon s))" "proper_command c"
    and "cmd_contents (dm_ring (lp_daemon s)) (dm_mem (lp_daemon s)) = c @ rest"
    and "struct_size (hdr_opcode (header_of c)) \<le> length c"
  shows "map_option (\<lambda>s'. (lp_daemon s', lp_total s')) (loop_step V s) =
     map_option (\<lambda>s'. (lp_daemon s', lp_total s')) (loop_step V (s\<lparr>lp_buf := buf\<rparr>))"
  using loop_step_proper [OF assms(1-3), of V] loop_step_proper [of "s\<lparr>lp_buf := buf\<rparr>" c rest V] assms(1-3)
    process_local [where V = V and d = "lp_daemon s", OF agree_front [where b = "lp_buf s" and b' = buf, OF assms(4)]]
  by (simp split: option.split)

text \<open>A ring that holds the bytes \<open>bs\<close>.\<close>

definition demo_holding :: "u8 list \<Rightarrow> mem" where
  "demo_holding bs = snd (gravity_ring_cmd_write demo_ring demo_mem bs (of_nat (length bs)))"

lemma demo_holding_contents:
  assumes "bs \<noteq> []" "length bs \<le> 128"
  shows "cmd_contents demo_ring (demo_holding bs) = bs"
proof -
  have n: "unat (of_nat (length bs) :: u32) = length bs" using assms(2) by (simp add: unat_of_nat)
  then have "(of_nat (length bs) :: u32) \<noteq> 0" using assms(1) by (metis length_0_conv unat_0)
  then have "fst (gravity_ring_cmd_write demo_ring demo_mem bs (of_nat (length bs))) = 0"
    using cmd_write_zero_iff [OF demo_ok, of demo_mem bs "of_nat (length bs)"] demo_attach assms n by simp
  then show ?thesis
    using cmd_write_contents [OF demo_ok, of demo_mem bs "of_nat (length bs)"] demo_attach n by (simp add: demo_holding_def)
qed

definition demo_command :: "gravity_cmd_op \<Rightarrow> u8 list \<Rightarrow> u8 list" where
  "demo_command op bs = gravity_cmd_header_bytes (gravity_cmd_init (gravity_cmd_op_val op) (16 + of_nat (length bs)) 1) @ bs"

lemma demo_command_facts:
  assumes "length bs \<le> 112" "op \<noteq> GRAVITY_CMD_MAX"
  shows "header_of (demo_command op bs) = gravity_cmd_init (gravity_cmd_op_val op) (16 + of_nat (length bs)) 1"
    "length (demo_command op bs) = 16 + length bs" "proper_command (demo_command op bs)"
    "hdr_opcode (header_of (demo_command op bs)) = gravity_cmd_op_val op"
proof -
  show h: "header_of (demo_command op bs) = gravity_cmd_init (gravity_cmd_op_val op) (16 + of_nat (length bs)) 1"
    by (simp add: demo_command_def header_of_append)
  show l: "length (demo_command op bs) = 16 + length bs" by (simp add: demo_command_def)
  show "hdr_opcode (header_of (demo_command op bs)) = gravity_cmd_op_val op" by (simp add: h gravity_cmd_init_def)
  have "unat (16 + of_nat (length bs) :: u32) = 16 + length bs"
    using assms(1) by (simp add: unat_word_ariths unat_of_nat)
  moreover have "unat (gravity_cmd_op_val op) < 0xB02" using assms(2) by (cases op) simp_all
  ultimately show "proper_command (demo_command op bs)"
    using l assms(1) by (simp add: proper_command_def framed_def h) (simp add: gravity_cmd_init_def)
qed

theorem complete_commands_isolated_witness:
  "let s = demo_loop (demo_holding (demo_command GRAVITY_CMD_DESTROY_BUFFER [5, 0, 0, 0]))
   in map_option lp_total (loop_step demo_vulkan s) = map_option lp_total (loop_step demo_vulkan (s\<lparr>lp_buf := \<lambda>_. 7\<rparr>))"
proof -
  let ?c = "demo_command GRAVITY_CMD_DESTROY_BUFFER [5, 0, 0, 0]"
  have f: "proper_command ?c" "length ?c = 20" "hdr_opcode (header_of ?c) = gravity_cmd_op_val GRAVITY_CMD_DESTROY_BUFFER"
    using demo_command_facts [of "[5, 0, 0, 0]" GRAVITY_CMD_DESTROY_BUFFER] by simp_all
  have c: "cmd_contents demo_ring (demo_holding ?c) = ?c @ []" using demo_holding_contents [of ?c] f(2) by force
  have "struct_size (hdr_opcode (header_of ?c)) = 20"
    unfolding f(3) by (rule struct_size_simps) (simp add: struct_sizes_def)
  then show ?thesis
    using complete_commands_isolated [of "demo_loop (demo_holding ?c)" ?c "[]" demo_vulkan "\<lambda>_. 7"] f c
    by (auto simp: Let_def option.map_comp o_def dest: arg_cong [where f = "map_option snd"])
qed

text \<open>
  C32: a truncated command is not refused but completed with its predecessor's bytes: a destroy
  command of a bare header frees whatever handle the command before it had in the first word
  behind its header.
\<close>

theorem truncated_command_uses_previous:
  assumes "ring_ok (dm_ring (lp_daemon s))" "proper_command c" "20 \<le> length c" "proper_command t" "length t = 16"
    and "cmd_contents (dm_ring (lp_daemon s)) (dm_mem (lp_daemon s)) = c @ t @ rest"
    and "hdr_opcode (header_of c) \<noteq> gravity_cmd_op_val GRAVITY_CMD_CREATE_BUFFER"
    and "hdr_opcode (header_of t) \<in> gravity_cmd_op_val ` set destroy_ops"
    and "process_command V (header_of c) (wr (lp_buf s) 0 c) (lp_daemon s) = Some d"
  shows "\<exists>s'. command_loop V [\<lambda>m. m, \<lambda>m. m] s = Some s' \<and>
     lp_daemon s' = dm_consume (dm_remove (dm_consume d (hdr_size (header_of c))) (ld32 (list_mem c) 16)) (hdr_size (header_of t))"
proof -
  have h: "ld32 (wr (wr b 0 c) 0 t) 16 = ld32 (list_mem c) 16" for b
    using assms(3,5) by (intro ld32_cong2) (simp add: wr_def list_mem_def)
  have "hdr_opcode (header_of t) \<noteq> gravity_cmd_op_val GRAVITY_CMD_CREATE_BUFFER"
    using assms(8) by (auto simp: destroy_ops_def)
  then show ?thesis
    using loop_processes [OF assms(1), of "[c, t]" rest V] assms(2,4,6-9)
    by (simp add: process_destroy [OF assms(8)] h numeral_2_eq_2)
qed

theorem truncated_command_uses_previous_witness:
  "\<exists>s' d'. command_loop demo_vulkan [\<lambda>m. m, \<lambda>m. m] (demo_loop (demo_holding
       (demo_command GRAVITY_CMD_RESIZE_DISPLAY [5, 0, 0, 0] @ demo_command GRAVITY_CMD_DESTROY_TEXTURE []))) = Some s' \<and>
     lp_daemon s' = dm_consume (dm_remove d' 5) 16"
proof -
  let ?c = "demo_command GRAVITY_CMD_RESIZE_DISPLAY [5, 0, 0, 0]" and ?t = "demo_command GRAVITY_CMD_DESTROY_TEXTURE []"
  have c: "proper_command ?c" "length ?c = 20" "hdr_opcode (header_of ?c) = gravity_cmd_op_val GRAVITY_CMD_RESIZE_DISPLAY"
    using demo_command_facts [of "[5, 0, 0, 0]" GRAVITY_CMD_RESIZE_DISPLAY] by simp_all
  have t: "proper_command ?t" "length ?t = 16" "hdr_opcode (header_of ?t) = gravity_cmd_op_val GRAVITY_CMD_DESTROY_TEXTURE"
    "hdr_size (header_of ?t) = 16"
    using demo_command_facts [of "[]" GRAVITY_CMD_DESTROY_TEXTURE] by (simp_all add: gravity_cmd_init_def)
  have both: "cmd_contents demo_ring (demo_holding (?c @ ?t)) = ?c @ ?t @ []"
    using demo_holding_contents [of "?c @ ?t"] c(2) t(2) by force
  have w: "ld32 (list_mem ?c) 16 = 5"
    by (simp add: demo_command_def ld32_def rd_def list_mem_def nth_append upt_rec)
  have "process_command demo_vulkan (header_of ?c) (wr (\<lambda>_. 0) 0 ?c) (demo_daemon (demo_holding (?c @ ?t))) =
      Some (demo_daemon (demo_holding (?c @ ?t)))"
    by (simp add: process_command_def process_others_def Let_def c(3) gravity_cmd_process_resize_display_def render_ops_def compute_ops_def blit_ops_def)
  then show ?thesis
    using truncated_command_uses_previous [of "demo_loop (demo_holding (?c @ ?t))" ?c ?t "[]" demo_vulkan] c t both w
    by (auto simp: destroy_ops_def)
qed

section \<open>What the loop writes\<close>

text \<open>The host's own part of the shared memory: two indices and the completion ring.\<close>

definition host_area :: "gravity_ring \<Rightarrow> nat set" where
  "host_area ring =
     {rg_header ring + hdr_off rh_cmd_head..<rg_header ring + hdr_off rh_cmd_head + 4} \<union>
     {rg_header ring + hdr_off rh_comp_tail..<rg_header ring + hdr_off rh_comp_tail + 4} \<union>
     {rg_comp_ring ring..<rg_comp_ring ring + unat (rg_comp_ring_size ring)}"

definition confined :: "gravity_ring \<Rightarrow> mem \<Rightarrow> gravity_daemon \<Rightarrow> bool" where
  "confined ring m d \<longleftrightarrow> ring_ok ring \<and> dm_ring d = ring \<and> (\<forall>a. a \<notin> host_area ring \<longrightarrow> dm_mem d a = m a)"

lemma comp_write_confined:
  "ring_ok ring \<Longrightarrow> a \<notin> host_area ring \<Longrightarrow> snd (gravity_ring_comp_write ring m bs n) a = m a"
  by (rule comp_write_frame) (auto simp: host_area_def)

lemma consume_confined:
  "a \<notin> host_area ring \<Longrightarrow> gravity_ring_cmd_consume ring m n a = m a"
  by (auto simp: gravity_ring_cmd_consume_def Let_def put_hdr_def host_area_def intro!: st32_outside)

interpretation confined: handler_frame "confined ring m" for ring m
proof (unfold_locales, goal_cases)
  case (5 d bs)
  then show ?case
    using comp_write_confined [of ring _ "dm_mem d" bs "of_nat (length bs)"]
    by (auto simp: confined_def dm_complete_def split: prod.splits)
qed (simp_all add: confined_def dm_tell_def dm_update_def dm_add_def dm_remove_def split: prod.split)

text \<open>The guest's part: its commands, its data and the two indices it advances.\<close>

definition guest_area :: "gravity_ring \<Rightarrow> nat set" where
  "guest_area ring =
     {rg_header ring + hdr_off rh_cmd_tail..<rg_header ring + hdr_off rh_cmd_tail + 4} \<union>
     {rg_header ring + hdr_off rh_comp_head..<rg_header ring + hdr_off rh_comp_head + 4} \<union>
     {rg_cmd_ring ring..<rg_cmd_ring ring + unat (rg_cmd_ring_size ring)} \<union> {rg_data_region ring..}"

lemma areas_disjoint: "ring_ok ring \<Longrightarrow> host_area ring \<inter> guest_area ring = {}"
  using ring_okD(3-5) [of ring] by (auto simp: host_area_def guest_area_def)

text \<open>
  What the creation of a buffer may do to the memory, its calls being \<open>tr\<close>: nothing, or fill the
  place the driver named when it was asked, in the last call, to map the buffer's memory.
\<close>

definition uploads :: "vulkan \<Rightarrow> gravity_cmd_create_buffer \<Rightarrow> vk_call list \<Rightarrow> mem \<Rightarrow> mem \<Rightarrow> bool" where
  "uploads V cmd tr m m' \<longleftrightarrow> m' = m \<or>
     (\<exists>before dev memory bs. let c = Res (vkMapMemory dev memory (cb_size cmd)); p = vr_out (V before c)
        in tr = before @ [c] \<and> p \<noteq> 0 \<and> m' = wr m (unat p) bs \<and> length bs = unat (cb_data_size cmd))"

lemma uploads_simps [simp]:
  "uploads V cmd tr m m"
  "vr_out (V tr (Res (vkMapMemory dev memory (cb_size cmd)))) \<noteq> 0 \<Longrightarrow> length bs = unat (cb_data_size cmd) \<Longrightarrow>
     uploads V cmd (tr @ [Res (vkMapMemory dev memory (cb_size cmd))]) m
       (wr m (unat (vr_out (V tr (Res (vkMapMemory dev memory (cb_size cmd)))))) bs)"
  by (auto simp: uploads_def Let_def)

text \<open>Stepping through a handler with the calls made so far in view.\<close>

lemma outcome_called:
  assumes "\<And>r tr d'. r = V tr c \<Longrightarrow> dm_calls d' = tr @ [c] \<Longrightarrow>
      dm_tracker d' = dm_tracker d \<Longrightarrow> dm_mem d' = dm_mem d \<Longrightarrow> dm_ring d' = dm_ring d \<Longrightarrow> outcome Q (F r d')"
  shows "outcome Q (Let (dm_call V d c) (case_prod F))"
  using assms by (simp add: dm_call_def)

lemma outcome_called_nested:
  assumes "\<And>r tr d'. r = V tr c \<Longrightarrow> dm_calls d' = tr @ [c] \<Longrightarrow>
      dm_tracker d' = dm_tracker d \<Longrightarrow> dm_mem d' = dm_mem d \<Longrightarrow> dm_ring d' = dm_ring d \<Longrightarrow> outcome Q (F (G r d'))"
  shows "outcome Q (Let (Let (dm_call V d c) (case_prod G)) F)"
  using assms by (simp add: dm_call_def Let_def)

lemmas called_rules =
  outcome_called outcome_add outcome_called_nested outcome_let_if outcome_let outcome_if outcome_option

lemma upload_place:
  "outcome (\<lambda>d'. dm_ring d' = dm_ring d \<and> uploads V cmd (dm_calls d') (dm_mem d) (dm_mem d'))
     (gravity_cmd_process_create_buffer V cmd d)"
  unfolding gravity_cmd_process_create_buffer_def
  by (intro called_rules) (simp_all add: outcome_simps union_simps)

text \<open>The addresses filled, \<open>p\<close> being the reply to the last call.\<close>

definition upload_span :: "vulkan \<Rightarrow> gravity_cmd_create_buffer \<Rightarrow> vk_call list \<Rightarrow> nat set \<Rightarrow> bool" where
  "upload_span V cmd tr A \<longleftrightarrow>
     (\<exists>before dev memory. let c = Res (vkMapMemory dev memory (cb_size cmd)); p = vr_out (V before c)
        in tr = before @ [c] \<and> p \<noteq> 0 \<and> A = {unat p..<unat p + unat (cb_data_size cmd)})"

lemma uploads_span:
  assumes "uploads V cmd tr m m'"
  shows "\<exists>A. (A = {} \<or> upload_span V cmd tr A) \<and> (\<forall>a. a \<notin> A \<longrightarrow> m' a = m a)"
proof (cases "m' = m")
  case False
  then obtain before dev memory bs p where
    u: "p = vr_out (V before (Res (vkMapMemory dev memory (cb_size cmd))))" "p \<noteq> 0"
      "tr = before @ [Res (vkMapMemory dev memory (cb_size cmd))]" "m' = wr m (unat p) bs" "length bs = unat (cb_data_size cmd)"
    using assms by (auto simp: uploads_def Let_def)
  then have "upload_span V cmd tr {unat p..<unat p + unat (cb_data_size cmd)}" by (auto simp: upload_span_def Let_def)
  moreover have "m' a = m a" if "a \<notin> {unat p..<unat p + unat (cb_data_size cmd)}" for a
    using that by (auto simp: u(4,5) wr_def)
  ultimately show ?thesis by blast
qed blast

lemma process_span:
  assumes ok: "ring_ok (dm_ring d)" and p: "process_command V hdr buf d = Some e"
  shows "dm_ring e = dm_ring d \<and> (\<exists>A. (\<forall>a. a \<notin> host_area (dm_ring d) \<longrightarrow> a \<notin> A \<longrightarrow> dm_mem e a = dm_mem d a) \<and>
    (A = {} \<or> hdr_opcode hdr = gravity_cmd_op_val GRAVITY_CMD_CREATE_BUFFER \<and>
       upload_span V (gravity_cmd_create_buffer_at buf 0) (dm_calls e) A))"
proof (cases "hdr_opcode hdr = gravity_cmd_op_val GRAVITY_CMD_CREATE_BUFFER")
  case True
  then have e: "e = gravity_cmd_process_create_buffer V (gravity_cmd_create_buffer_at buf 0) d"
    using p by (simp add: process_command_def process_others_def Let_def)
  then have "dm_ring e = dm_ring d" "uploads V (gravity_cmd_create_buffer_at buf 0) (dm_calls e) (dm_mem d) (dm_mem e)"
    using upload_place [of d V "gravity_cmd_create_buffer_at buf 0"] by (simp_all add: outcome_def)
  then show ?thesis using uploads_span True by metis
next
  case False
  have "confined (dm_ring d) (dm_mem d) e"
    by (rule confined.process_command_frame [OF _ p False]) (use ok in \<open>simp add: confined_def\<close>)
  then show ?thesis by (auto simp: confined_def)
qed

text \<open>
  C7: an iteration of the loop that has an outcome (one that does not overrun the array of
  attachments) changes the memory only in the index of the command ring's consumer, the index of
  the completion ring's producer and the bytes of the completion ring, none of which is the
  guest's to write, and in one more case: the command in the buffer creates a buffer, its last
  Vulkan call asked the driver to map the new memory, and \<^verbatim>\<open>data_size\<close> bytes are written from the
  address in the driver's reply on.  So the guest's commands, its data and its own indices are as
  it left them unless the driver maps that memory over them, or \<^verbatim>\<open>data_size\<close>, which nobody compares
  with the buffer's size, reaches beyond it.
\<close>

theorem loop_step_confined:
  assumes "ring_ok (dm_ring (lp_daemon s))" "loop_step V s = Some s'"
  shows "host_area (dm_ring (lp_daemon s)) \<inter> guest_area (dm_ring (lp_daemon s)) = {} \<and>
     (\<exists>A. (\<forall>a. a \<notin> host_area (dm_ring (lp_daemon s)) \<longrightarrow> a \<notin> A \<longrightarrow>
        dm_mem (lp_daemon s') a = dm_mem (lp_daemon s) a) \<and>
     (A = {} \<or> hdr_opcode (gravity_cmd_header_at (lp_buf s') 0) = gravity_cmd_op_val GRAVITY_CMD_CREATE_BUFFER \<and>
        upload_span V (gravity_cmd_create_buffer_at (lp_buf s') 0) (dm_calls (lp_daemon s')) A))"
proof -
  let ?d = "lp_daemon s" and ?buf = "lp_buf s'" and ?hdr = "gravity_cmd_header_at (lp_buf s') 0"
  let ?only = "\<lambda>d A. \<forall>a. a \<notin> host_area (dm_ring ?d) \<longrightarrow> a \<notin> A \<longrightarrow> dm_mem d a = dm_mem ?d a"
  have step: "lp_daemon s' = ?d \<or> lp_daemon s' = dm_consume ?d 16 \<or>
      (\<exists>e n. process_command V ?hdr ?buf ?d = Some e \<and> lp_daemon s' = dm_consume e n)"
    using assms(2) by (auto simp: loop_step_def Let_def split: prod.splits bool.splits if_splits option.splits)
  have consumed: "?only (dm_consume e k) A" if "?only e A" "dm_ring e = dm_ring ?d" for e A k
    using that consume_confined [of _ "dm_ring ?d" "dm_mem e" k] by (auto simp: dm_consume_def)
  note areas = areas_disjoint [OF assms(1)]
  show ?thesis
    using step
  proof (elim disjE exE conjE)
    assume "lp_daemon s' = ?d"
    then show ?thesis using areas by (intro conjI exI [of _ "{}"]) auto
  next
    assume "lp_daemon s' = dm_consume ?d 16"
    then show ?thesis using areas by (intro conjI exI [of _ "{}"]) (simp_all add: dm_consume_def consume_confined)
  next
    fix e k
    assume e: "process_command V ?hdr ?buf ?d = Some e" "lp_daemon s' = dm_consume e k"
    have "dm_calls (lp_daemon s') = dm_calls e" by (simp add: e(2) dm_consume_def)
    then show ?thesis using areas process_span [OF assms(1) e(1)] consumed unfolding e(2) by metis
  qed
qed

theorem loop_step_confined_witness:
  "\<exists>s'. loop_step demo_vulkan (demo_loop demo_pinged) = Some s' \<and>
     dm_mem (lp_daemon s') (rg_data_region demo_ring) = demo_pinged (rg_data_region demo_ring)"
proof -
  obtain s' where s': "loop_step demo_vulkan (demo_loop demo_pinged) = Some s'"
    "hdr_opcode (gravity_cmd_header_at (lp_buf s') 0) = gravity_cmd_op_val GRAVITY_CMD_PING"
    using loop_step_proper [of "demo_loop demo_pinged" "demo_ping 1" "[]" demo_vulkan]
    by (simp add: process_ping header_at_wr gravity_cmd_init_def)
  have "rg_data_region demo_ring \<in> guest_area demo_ring" by (simp add: guest_area_def)
  then show ?thesis using loop_step_confined [of "demo_loop demo_pinged" demo_vulkan s'] s' by fastforce
qed

end
