(* ===== verification/Gpu_View.thy ===== *)
theory Gpu_View
  imports Daemon_Safety
begin

text \<open>
  What the daemon does on the GPU's side does not depend on the memory it shares with the guest:
  the Vulkan state, the tracker and the Vulkan calls after a command are functions of those
  before it and of the command.  The memory receives completions and the initial data of
  buffers and is never read back.
\<close>

section \<open>Access to a daemon with other memory\<close>

abbreviation with_mem :: "mem \<Rightarrow> gravity_daemon \<Rightarrow> gravity_daemon" where
  "with_mem m d \<equiv> d\<lparr>dm_mem := m\<rparr>"

text \<open>The daemon without the memory: what the GPU's side consists of.\<close>

definition gpu_view :: "gravity_daemon \<Rightarrow> gravity_daemon" where
  "gpu_view d = with_mem (\<lambda>_. 0) d"

lemma gpu_view_sel [simp]:
  "dm_vk (gpu_view d) = dm_vk d" "dm_ring (gpu_view d) = dm_ring d" "dm_tracker (gpu_view d) = dm_tracker d"
  "dm_calls (gpu_view d) = dm_calls d"
  by (simp_all add: gpu_view_def)

lemma gpu_view_iff:
  "gpu_view d = gpu_view e \<longleftrightarrow>
     dm_vk d = dm_vk e \<and> dm_ring d = dm_ring e \<and> dm_tracker d = dm_tracker e \<and> dm_calls d = dm_calls e"
  by (cases d; cases e) (auto simp: gpu_view_def)

lemma with_own_mem: "gpu_view d = gpu_view e \<Longrightarrow> with_mem (dm_mem d) e = d"
  by (cases d; cases e) (simp add: gpu_view_def)

lemma mem_access:
  "dm_vk (with_mem m d) = dm_vk d" "dm_ring (with_mem m d) = dm_ring d"
  "dm_entry (with_mem m d) = dm_entry d" "dm_get (with_mem m d) = dm_get d"
  "dm_tell (with_mem m d) c = with_mem m (dm_tell d c)"
  "dm_update i f (with_mem m d) = with_mem m (dm_update i f d)"
  "dm_remove (with_mem m d) h = with_mem m (dm_remove d h)"
  by (simp_all add: fun_eq_iff dm_tell_def dm_entry_def dm_update_def dm_get_def dm_remove_def)

lemma mem_calls:
  "dm_call V (with_mem m d) c = map_prod id (with_mem m) (dm_call V d c)"
  "dm_add (with_mem m d) h ty = map_prod id (with_mem m) (dm_add d h ty)"
  by (simp_all add: dm_call_def dm_add_def split: prod.split)

text \<open>The constructs of the handlers let another memory pass through to the result.\<close>

lemma mem_pull:
  "Let (dm_call V (with_mem m d) c) (case_prod F) = Let (dm_call V d c) (case_prod (\<lambda>r d. F r (with_mem m d)))"
  "Let (dm_add (with_mem m d) h ty) (case_prod G) = Let (dm_add d h ty) (case_prod (\<lambda>r d. G r (with_mem m d)))"
  "Let (with_mem m d) H = Let d (\<lambda>d. H (with_mem m d))"
  "Let x (\<lambda>x. with_mem m (K x)) = with_mem m (Let x K)"
  "Let y (case_prod (\<lambda>r d. with_mem m (L r d))) = with_mem m (Let y (case_prod L))"
  "(if b then with_mem m d else with_mem m e) = with_mem m (if b then d else e)"
  "(case r of None \<Rightarrow> with_mem m d | Some i \<Rightarrow> with_mem m (M i)) = with_mem m (case r of None \<Rightarrow> d | Some i \<Rightarrow> M i)"
  by (simp_all add: Let_def split_def mem_calls split: option.split)

lemmas mem_handlers = mem_access mem_pull

section \<open>Handlers\<close>

lemma creations_mem:
  "gravity_cmd_process_create_texture V c1 (with_mem m d) = with_mem m (gravity_cmd_process_create_texture V c1 d)"
  "gravity_cmd_process_create_sampler V c2 (with_mem m d) = with_mem m (gravity_cmd_process_create_sampler V c2 d)"
  "gravity_cmd_process_create_shader c3 (with_mem m d) = with_mem m (gravity_cmd_process_create_shader c3 d)"
  "gravity_cmd_process_create_depth_stencil c4 (with_mem m d) = with_mem m (gravity_cmd_process_create_depth_stencil c4 d)"
  "gravity_cmd_process_create_render_pipeline c5 (with_mem m d) = with_mem m (gravity_cmd_process_create_render_pipeline c5 d)"
  "gravity_cmd_process_cmdbuf_create V c6 (with_mem m d) = with_mem m (gravity_cmd_process_cmdbuf_create V c6 d)"
  by (simp_all only: mem_handlers gravity_cmd_process_create_texture_def gravity_cmd_process_create_sampler_def
      gravity_cmd_process_create_shader_def gravity_cmd_process_create_depth_stencil_def
      gravity_cmd_process_create_render_pipeline_def gravity_cmd_process_cmdbuf_create_def)

lemma color_loop_mem: "color_loop cb cas (with_mem m d) = map_prod id (with_mem m) (color_loop cb cas d)"
proof (induction cas arbitrary: d)
  case (Cons ca cas)
  have "color_step cb ca (with_mem m d) = map_prod id (with_mem m) (color_step cb ca d)"
    by (simp add: color_step_def Let_def mem_access split: option.split)
  then show ?case by (simp add: Cons.IH Let_def split_def)
qed simp

lemma render_mem:
  "gravity_cmd_process_render hdr buf (with_mem m d) = map_option (with_mem m) (gravity_cmd_process_render hdr buf d)"
proof -
  have "process_render_begin cmd (with_mem m d) = map_option (with_mem m) (process_render_begin cmd d)" for cmd
    by (simp add: process_render_begin_def Let_def split_def mem_access color_loop_mem split: option.split)
  then show ?thesis
    by (simp add: gravity_cmd_process_render_def Let_def mem_access process_render_end_def process_set_viewport_def
        process_set_scissor_def process_set_vertex_buffer_def process_draw_def process_draw_indexed_def
        process_draw_instanced_def del: gravity_cmd_op_val.simps split: option.split)
qed

text \<open>The handlers that write memory: what they leave on the GPU's side.\<close>

lemma view_push:
  "gpu_view (with_mem m d) = gpu_view d"
  "gpu_view (dm_tell d c) = dm_tell (gpu_view d) c"
  "gpu_view (dm_update i f d) = dm_update i f (gpu_view d)"
  "gpu_view (dm_remove d h) = dm_remove (gpu_view d) h"
  "gpu_view (dm_complete d bs) = gpu_view d"
  "gpu_view (dm_consume d n) = gpu_view d"
  by (simp_all add: gpu_view_def mem_access dm_complete_def dm_consume_def split: prod.split)

lemma view_branches:
  "gpu_view (Let x K) = Let x (\<lambda>x. gpu_view (K x))"
  "gpu_view (case_prod L y) = case_prod (\<lambda>r d. gpu_view (L r d)) y"
  "gpu_view (if b then d else e) = (if b then gpu_view d else gpu_view e)"
  "gpu_view (case r of None \<Rightarrow> d | Some i \<Rightarrow> M i) = (case r of None \<Rightarrow> gpu_view d | Some i \<Rightarrow> gpu_view (M i))"
  "(case r of None \<Rightarrow> d | Some i \<Rightarrow> d) = d"
  by (simp_all add: Let_def split_def split: option.split)

lemma create_buffer_view:
  "gpu_view (gravity_cmd_process_create_buffer V cmd (with_mem m d)) = gpu_view (gravity_cmd_process_create_buffer V cmd d)"
  by (simp only: gravity_cmd_process_create_buffer_def mem_handlers view_push(1) view_branches)

lemma commit_view:
  "gpu_view (gravity_cmd_process_cmdbuf_commit cmd (with_mem m d)) = gpu_view (gravity_cmd_process_cmdbuf_commit cmd d)"
  by (simp add: gravity_cmd_process_cmdbuf_commit_def Let_def mem_access view_push split: option.split)

section \<open>Commands\<close>

lemma process_with_mem:
  "map_option gpu_view (process_command V hdr buf (with_mem m d)) = map_option gpu_view (process_command V hdr buf d)"
  by (simp add: process_command_def process_others_def Let_def mem_access view_push creations_mem create_buffer_view commit_view render_mem
      option.map_comp o_def gravity_cmd_process_compute_def gravity_cmd_process_blit_def gravity_cmd_process_present_def
      gravity_cmd_process_resize_display_def del: gravity_cmd_op_val.simps)

lemma process_view:
  assumes "gpu_view d = gpu_view e"
  shows "map_option gpu_view (process_command V hdr buf d) = map_option gpu_view (process_command V hdr buf e)"
  using process_with_mem [of V hdr buf "dm_mem d" e] with_own_mem [OF assms] by simp

text \<open>So are sequences of commands, whatever the buffer and the memory are at the start.\<close>

lemma process_all_snoc:
  "process_all V (cs @ [c]) buf d =
     (case process_all V cs buf d of
        None \<Rightarrow> None
      | Some (buf, d) \<Rightarrow> process_all V [c] buf d)"
  by (induction cs arbitrary: buf d) (simp_all split: option.split)

end
