(* ===== verification/Concurrent_Daemon.thy ===== *)
theory Concurrent_Daemon
  imports Spsc_Messages Gpu_View
begin

text \<open>
  The daemon's loop (\<^verbatim>\<open>command_loop\<close> of \<^verbatim>\<open>host-daemon/src/main.c\<close>) at work while the guest
  keeps writing: every access to the command ring is a step of its own, and between peek and
  consume the loop processes the command it has.  Whatever the interleaving, the daemon's GPU
  side is that of the uninterrupted loop over the commands consumed, and the loop never gets
  stuck in front of a command.
\<close>

section \<open>The steps\<close>

text \<open>
  The ring with both sides' points, the daemon (whose memory is the ring's), and whether the
  loop has processed the command in its buffer.
\<close>

record concurrent =
  cc_ring :: spsc
  cc_daemon :: gravity_daemon
  cc_done :: bool

definition concurrent_start :: "gravity_daemon \<Rightarrow> concurrent" where
  "concurrent_start d = \<lparr>cc_ring = spsc_start (dm_mem d), cc_daemon = d, cc_done = False\<rparr>"

text \<open>
  The commands of a guest that keeps the protocol: valid and framed (so at most 64 KiB), at least
  as long as their structure, no initial data beyond the buffer, no more attachments than the
  protocol has.  Nothing in the program checks this; it is what the theorems assume of the guest.
\<close>

definition whole_command :: "u8 list \<Rightarrow> bool" where
  "whole_command c \<longleftrightarrow> proper_command c \<and> struct_size (hdr_opcode (header_of c)) \<le> length c \<and>
     (hdr_opcode (header_of c) = gravity_cmd_op_val GRAVITY_CMD_CREATE_BUFFER \<longrightarrow>
        unat (cb_data_size (gravity_cmd_create_buffer_at (list_mem c) 0)) \<le>
        unat (cb_size (gravity_cmd_create_buffer_at (list_mem c) 0))) \<and>
     (hdr_opcode (header_of c) = gravity_cmd_op_val GRAVITY_CMD_RENDER_BEGIN \<longrightarrow>
        unat (rb_num_color_attachments (gravity_cmd_render_begin_at (list_mem c) 0)) \<le> GRAVITY_MAX_COLOR_ATTACHMENTS)"

text \<open>
  The guest: an access of \<^verbatim>\<open>gravity_ring_cmd_write\<close>, or anything that leaves the command ring
  alone (data it places in its region, completions it takes).  The routine takes any bytes; \<open>P\<close>
  is the condition a theorem puts on the commands the guest hands to it, \<open>whole_command\<close> in
  what follows, and \<open>\<lambda>_. True\<close> is a guest that hands over anything.
\<close>

inductive guest_move :: "(u8 list \<Rightarrow> bool) \<Rightarrow> gravity_ring \<Rightarrow> concurrent \<Rightarrow> concurrent \<Rightarrow> bool"
  for P :: "u8 list \<Rightarrow> bool" and ring :: gravity_ring where
  access:
    "spsc_step ring CMD_BUF_SIZE (cc_ring x) s \<Longrightarrow> sp_cons s = sp_cons (cc_ring x) \<Longrightarrow>
     sp_prod (cc_ring x) = P_Idle \<longrightarrow> (\<exists>src tail. sp_prod s = P_Copy src tail 0 \<and> P src) \<Longrightarrow>
     guest_move P ring x (x\<lparr>cc_ring := s\<rparr>)"
| elsewhere:
    "same_cmd ring (sp_mem (cc_ring x)) m \<Longrightarrow> guest_move P ring x (x\<lparr>cc_ring := (cc_ring x)\<lparr>sp_mem := m\<rparr>\<rparr>)"

text \<open>
  The daemon: an access of \<^verbatim>\<open>gravity_ring_cmd_peek\<close>; with a command in the buffer, the
  rejection of an invalid one, or its processing and then its consumption.
\<close>

inductive daemon_move :: "vulkan \<Rightarrow> gravity_ring \<Rightarrow> concurrent \<Rightarrow> concurrent \<Rightarrow> bool"
  for V :: vulkan and ring :: gravity_ring where
  peek:
    "spsc_step ring CMD_BUF_SIZE (cc_ring x) s \<Longrightarrow> sp_prod s = sp_prod (cc_ring x) \<Longrightarrow>
     \<not> (\<exists>sz buf. sp_cons (cc_ring x) = C_Have sz buf) \<Longrightarrow>
     daemon_move V ring x (x\<lparr>cc_ring := s\<rparr>)"
| reject:
    "sp_cons (cc_ring x) = C_Have sz buf \<Longrightarrow> \<not> cc_done x \<Longrightarrow>
     gravity_cmd_validate (Some (gravity_cmd_header_at buf 0)) (ucast CMD_BUF_SIZE) < 0 \<Longrightarrow>
     daemon_move V ring x (x\<lparr>cc_ring := (cc_ring x)\<lparr>sp_mem := gravity_ring_cmd_consume ring (sp_mem (cc_ring x)) 16,
       sp_cons := C_Idle, sp_got := sp_got (cc_ring x) @ rd buf 0 16\<rparr>\<rparr>)"
| process:
    "sp_cons (cc_ring x) = C_Have sz buf \<Longrightarrow> \<not> cc_done x \<Longrightarrow>
     \<not> gravity_cmd_validate (Some (gravity_cmd_header_at buf 0)) (ucast CMD_BUF_SIZE) < 0 \<Longrightarrow>
     process_command V (gravity_cmd_header_at buf 0) buf (with_mem (sp_mem (cc_ring x)) (cc_daemon x)) = Some d \<Longrightarrow>
     daemon_move V ring x \<lparr>cc_ring = (cc_ring x)\<lparr>sp_mem := dm_mem d\<rparr>, cc_daemon = d, cc_done = True\<rparr>"
| consume:
    "sp_cons (cc_ring x) = C_Have sz buf \<Longrightarrow> cc_done x \<Longrightarrow>
     daemon_move V ring x (x\<lparr>cc_ring := (cc_ring x)\<lparr>sp_mem := gravity_ring_cmd_consume ring (sp_mem (cc_ring x))
         (hdr_size (gravity_cmd_header_at buf 0)), sp_cons := C_Idle,
       sp_got := sp_got (cc_ring x) @ rd buf 0 (unat (hdr_size (gravity_cmd_header_at buf 0)))\<rparr>, cc_done := False\<rparr>)"

definition concurrent_step ::
  "(u8 list \<Rightarrow> bool) \<Rightarrow> vulkan \<Rightarrow> gravity_ring \<Rightarrow> concurrent \<Rightarrow> concurrent \<Rightarrow> bool" where
  "concurrent_step P V ring x y \<longleftrightarrow> guest_move P ring x y \<or> daemon_move V ring x y"

section \<open>The loop's iterations are such moves\<close>

lemma lift_run:
  assumes "\<And>s s'. R s s' \<Longrightarrow> M (f s) (f s')" "R\<^sup>*\<^sup>* s s'"
  shows "M\<^sup>*\<^sup>* (f s) (f s')"
  using assms(2) by (induction rule: rtranclp_induct) (auto intro: assms(1) rtranclp.rtrancl_into_rtrancl)

text \<open>An iteration of \<open>loop_step\<close> that nothing interrupts.\<close>

lemma iteration_moves:
  assumes idle: "sp_cons (cc_ring x) = C_Idle" "\<not> cc_done x" and ring: "dm_ring (cc_daemon x) = ring"
    and step: "loop_step V s = Some s'" "lp_daemon s = with_mem (sp_mem (cc_ring x)) (cc_daemon x)"
  shows "\<exists>y. (daemon_move V ring)\<^sup>*\<^sup>* x y \<and> sp_cons (cc_ring y) = C_Idle \<and> \<not> cc_done y \<and>
    lp_daemon s' = with_mem (sp_mem (cc_ring y)) (cc_daemon y)"
proof (cases "gravity_ring_cmd_peek ring (sp_mem (cc_ring x)) (lp_buf s) CMD_BUF_SIZE")
  case (Pair r b)
  let ?hdr = "gravity_cmd_header_at b 0"
  define x1 where "x1 = x\<lparr>cc_ring := (cc_ring x)\<lparr>sp_cons := C_Have (hdr_size ?hdr) b\<rparr>\<rparr>"
  note peeked = step(1) [unfolded loop_step_def Let_def step(2)]
  have run: "(daemon_move V ring)\<^sup>*\<^sup>* x x1" if r
  proof -
    have "(daemon_move V ring)\<^sup>*\<^sup>* (x\<lparr>cc_ring := cc_ring x\<rparr>) x1"
      unfolding x1_def
    proof (rule lift_run [where f = "\<lambda>s. x\<lparr>cc_ring := s\<rparr>"])
      show "(\<lambda>s s'. spsc_step ring CMD_BUF_SIZE s s' \<and> sp_prod s' = sp_prod s \<and> \<not> (\<exists>sz buf. sp_cons s = C_Have sz buf))\<^sup>*\<^sup>*
          (cc_ring x) ((cc_ring x)\<lparr>sp_cons := C_Have (hdr_size ?hdr) b\<rparr>)"
        by (rule peek_run [where n = CMD_BUF_SIZE and buf = "lp_buf s"]) (use idle(1) that Pair in auto)
    next
      fix s s'
      assume "spsc_step ring CMD_BUF_SIZE s s' \<and> sp_prod s' = sp_prod s \<and> \<not> (\<exists>sz buf. sp_cons s = C_Have sz buf)"
      then show "daemon_move V ring (x\<lparr>cc_ring := s\<rparr>) (x\<lparr>cc_ring := s'\<rparr>)"
        using daemon_move.peek [of ring "x\<lparr>cc_ring := s\<rparr>" s' V] by simp
    qed
    then show ?thesis by simp
  qed
  have x1: "sp_cons (cc_ring x1) = C_Have (hdr_size ?hdr) b" "\<not> cc_done x1" "cc_daemon x1 = cc_daemon x"
    "sp_mem (cc_ring x1) = sp_mem (cc_ring x)"
    using idle(2) by (simp_all add: x1_def)
  show ?thesis
  proof (cases r)
    case False
    then show ?thesis using peeked Pair ring idle step(2) by (intro exI [of _ x]) auto
  next
    case True
    show ?thesis
    proof (cases "gravity_cmd_validate (Some ?hdr) (ucast CMD_BUF_SIZE) < 0")
      case invalid: True
      note moves = rtranclp.rtrancl_into_rtrancl [OF run [OF True] daemon_move.reject [OF x1(1,2) invalid]]
      show ?thesis
        by (rule exI, rule conjI, rule moves) (use peeked Pair ring True invalid x1 in \<open>auto simp: dm_consume_def\<close>)
    next
      case valid: False
      then obtain e where e: "process_command V ?hdr b (with_mem (sp_mem (cc_ring x)) (cc_daemon x)) = Some e"
        "lp_daemon s' = dm_consume e (hdr_size ?hdr)"
        using peeked Pair ring True by (auto split: option.splits)
      have kept: "dm_ring e = ring"
        using fixed.process_command [where vk = "dm_vk (cc_daemon x)" and ring = ring, OF _ e(1)] ring by simp
      define x2 where "x2 = \<lparr>cc_ring = (cc_ring x1)\<lparr>sp_mem := dm_mem e\<rparr>, cc_daemon = e, cc_done = True\<rparr>"
      have "daemon_move V ring x1 x2"
        unfolding x2_def by (rule daemon_move.process [OF x1(1,2) valid]) (simp add: x1(3,4) e(1))
      note moves = rtranclp.rtrancl_into_rtrancl [OF rtranclp.rtrancl_into_rtrancl [OF run [OF True] this]
          daemon_move.consume [of x2 "hdr_size ?hdr" b]]
      show ?thesis
        by (rule exI, rule conjI, rule moves) (use x1 e(2) kept in \<open>auto simp: x2_def dm_consume_def\<close>)
    qed
  qed
qed

text \<open>A command written without interruption.\<close>

definition guest_access :: "(u8 list \<Rightarrow> bool) \<Rightarrow> gravity_ring \<Rightarrow> spsc \<Rightarrow> spsc \<Rightarrow> bool" where
  "guest_access P ring s s' \<longleftrightarrow> spsc_step ring CMD_BUF_SIZE s s' \<and> sp_cons s' = sp_cons s \<and>
     (sp_prod s = P_Idle \<longrightarrow> (\<exists>src tail. sp_prod s' = P_Copy src tail 0 \<and> P src))"

lemma write_accesses:
  assumes "sp_prod s = P_Idle" "whole_command c"
    and "fst (gravity_ring_cmd_write ring (sp_mem s) c (of_nat (length c))) = 0"
  shows "(guest_access whole_command ring)\<^sup>*\<^sup>* s (s\<lparr>sp_mem := snd (gravity_ring_cmd_write ring (sp_mem s) c (of_nat (length c))),
      sp_sent := sp_sent s @ c\<rparr>)"
proof -
  have c: "c \<noteq> []" "length c < 2 ^ 32" using assms(2) by (auto simp: whole_command_def proper_command_def framed_def)
  show ?thesis
    by (rule write_run [OF _ _ _ assms(1) c(2) assms(3)])
      (use assms(1,2) c(1) in \<open>auto simp: guest_access_def intro: write_begin write_byte write_publish\<close>)
qed

lemma access_move: "guest_access whole_command ring s s' \<Longrightarrow> guest_move whole_command ring (x\<lparr>cc_ring := s\<rparr>) (x\<lparr>cc_ring := s'\<rparr>)"
  using guest_move.access [where P = whole_command and x = "x\<lparr>cc_ring := s\<rparr>" and s = s'] by (simp add: guest_access_def)

section \<open>Processing leaves the command ring alone\<close>

text \<open>The header and the two rings; the driver maps buffers' memory elsewhere, as \<^verbatim>\<open>vkMapMemory\<close> promises.\<close>

definition ring_area :: "gravity_ring \<Rightarrow> nat set" where
  "ring_area ring = {rg_header ring..<rg_data_region ring}"

definition maps_apart :: "vulkan \<Rightarrow> gravity_ring \<Rightarrow> bool" where
  "maps_apart V ring \<longleftrightarrow> (\<forall>tr dev memory size i.
     let p = vr_out (V tr (Res (vkMapMemory dev memory size)))
     in p \<noteq> 0 \<longrightarrow> i < unat size \<longrightarrow> unat p + i \<notin> ring_area ring)"

lemma same_cmd_frame:
  assumes "ring_ok ring"
    and "\<And>a. a \<in> ring_area ring \<Longrightarrow> a < rg_header ring + 44 \<or> rg_header ring + 48 \<le> a \<Longrightarrow>
      a < rg_comp_ring ring \<or> rg_comp_ring ring + unat (rg_comp_ring_size ring) \<le> a \<Longrightarrow> m' a = m a"
  shows "same_cmd ring m m'"
proof -
  note b = ring_okD(3-5) [OF assms(1)]
  have "m' (ring_byte ring pos i) = m (ring_byte ring pos i)" for pos i
    using ring_byte_range [OF assms(1), of pos i] b by (intro assms(2)) (auto simp: ring_area_def)
  moreover have "get_hdr m' (rg_header ring) f = get_hdr m (rg_header ring) f" if "hdr_off f + 4 \<le> 44" for f
    unfolding get_hdr_def using b that by (intro ld32_cong assms(2)) (auto simp: ring_area_def)
  ultimately show ?thesis by (simp add: same_cmd_def)
qed

lemma same_cmd_trans: "same_cmd ring m m' \<Longrightarrow> same_cmd ring m' m'' \<Longrightarrow> same_cmd ring m m''"
  by (simp add: same_cmd_def)

interpretation ringside: handler_frame "\<lambda>d. ring_ok ring \<and> dm_ring d = ring \<and> same_cmd ring m (dm_mem d)" for ring m
proof (unfold_locales, goal_cases)
  case (5 d bs)
  have "same_cmd ring (dm_mem d) (dm_mem (dm_complete d bs))"
    using 5 comp_write_frame [of ring _ "dm_mem d" bs "of_nat (length bs)"]
    by (intro same_cmd_frame) (auto simp: dm_complete_def split: prod.split)
  then show ?case using 5 same_cmd_trans by auto
qed (simp_all add: dm_tell_def dm_update_def dm_add_def dm_remove_def split: prod.split)

lemma uploads_apart:
  assumes "maps_apart V ring" "uploads V cmd tr m m'" "unat (cb_data_size cmd) \<le> unat (cb_size cmd)" "a \<in> ring_area ring"
  shows "m' a = m a"
proof (rule ccontr)
  assume changed: "m' a \<noteq> m a"
  then obtain before dev memory bs p where p: "p = vr_out (V before (Res (vkMapMemory dev memory (cb_size cmd))))" "p \<noteq> 0"
    and w: "m' = wr m (unat p) bs" "length bs = unat (cb_data_size cmd)"
    using assms(2) by (auto simp: uploads_def Let_def)
  have "unat p \<le> a" "a - unat p < unat (cb_size cmd)"
    using changed w assms(3) by (auto simp: wr_def split: if_splits)
  then have "unat p + (a - unat p) \<notin> ring_area ring" using assms(1) p unfolding maps_apart_def Let_def by blast
  then show False using \<open>unat p \<le> a\<close> assms(4) by simp
qed

lemma process_keeps_ring:
  assumes ok: "ring_ok ring" "dm_ring d = ring" "maps_apart V ring"
    and small: "hdr_opcode hdr = gravity_cmd_op_val GRAVITY_CMD_CREATE_BUFFER \<Longrightarrow>
      unat (cb_data_size (gravity_cmd_create_buffer_at buf 0)) \<le> unat (cb_size (gravity_cmd_create_buffer_at buf 0))"
    and p: "process_command V hdr buf d = Some d'"
  shows "dm_ring d' = ring \<and> same_cmd ring (dm_mem d) (dm_mem d')"
proof (cases "hdr_opcode hdr = gravity_cmd_op_val GRAVITY_CMD_CREATE_BUFFER")
  case False
  then show ?thesis
    using ringside.process_command_frame [of ring _ "dm_mem d", OF _ p] ok by (auto simp: same_cmd_def)
next
  case True
  let ?cmd = "gravity_cmd_create_buffer_at buf 0"
  have "d' = gravity_cmd_process_create_buffer V ?cmd d" using p True by (simp add: process_command_def process_others_def Let_def)
  then have d': "dm_ring d' = ring" "uploads V ?cmd (dm_calls d') (dm_mem d) (dm_mem d')"
    using upload_place [of d V ?cmd] ok(2) by (auto simp: outcome_def)
  show ?thesis using d'(1) same_cmd_frame [OF ok(1)] uploads_apart [OF ok(3) d'(2) small [OF True]] by blast
qed

section \<open>The invariant\<close>

text \<open>A command the loop is fetching was there, whole, when it looked at the tail.\<close>

definition fetch_known :: "u8 list list \<Rightarrow> nat \<Rightarrow> spsc \<Rightarrow> bool" where
  "fetch_known sent k s \<longleftrightarrow> (case sp_cons s of
     C_Fetch head avail i buf \<Rightarrow> k < length sent \<and> length (sent ! k) \<le> unat avail
   | _ \<Rightarrow> True)"

definition concurrent_inv :: "vulkan \<Rightarrow> gravity_ring \<Rightarrow> mem \<Rightarrow> gravity_daemon \<Rightarrow> u8 list list \<Rightarrow> nat \<Rightarrow> concurrent \<Rightarrow> bool" where
  "concurrent_inv V ring buf d sent k x \<longleftrightarrow>
     commands_inv ring sent k (cc_ring x) \<and> fetch_known sent k (cc_ring x) \<and> list_all whole_command sent \<and>
     (\<forall>src tail i. sp_prod (cc_ring x) = P_Copy src tail i \<longrightarrow> whole_command src) \<and>
     (cc_done x \<longrightarrow> (\<exists>sz buf. sp_cons (cc_ring x) = C_Have sz buf)) \<and> dm_ring (cc_daemon x) = ring \<and>
     (\<exists>buf' e. process_all V (take (if cc_done x then Suc k else k) sent) buf d = Some (buf', e) \<and>
        gpu_view (cc_daemon x) = gpu_view e)"

lemma commands_inv_other:
  "same_cmd ring (sp_mem s) m \<Longrightarrow> commands_inv ring sent k s \<Longrightarrow> commands_inv ring sent k (s\<lparr>sp_mem := m\<rparr>)"
  using spsc_inv_other [of ring s m] by (simp add: commands_inv_def size_known_def)

text \<open>A whole command in the loop's buffer is handled as with itself at the front of any other.\<close>

lemma front_agrees:
  assumes "whole_command c" "rd buf 0 (length c) = c"
  shows "agree (struct_size (hdr_opcode (header_of c))) buf (wr buf' 0 c)"
    "agree (struct_size (hdr_opcode (header_of c))) buf (list_mem c)"
proof -
  have b: "buf i = c ! i" if "i < length c" for i
    using that assms(2) by (metis add_0 nth_rd)
  then show "agree (struct_size (hdr_opcode (header_of c))) buf (wr buf' 0 c)"
    "agree (struct_size (hdr_opcode (header_of c))) buf (list_mem c)"
    using assms(1) by (auto simp: whole_command_def agree_def wr_def list_mem_def)
qed

lemma whole_in_buffer:
  assumes "whole_command c" "rd buf 0 (length c) = c"
  shows "process_command V (header_of c) buf d = process_command V (header_of c) (wr buf' 0 c) d"
    "hdr_opcode (header_of c) = gravity_cmd_op_val GRAVITY_CMD_CREATE_BUFFER \<Longrightarrow>
       unat (cb_data_size (gravity_cmd_create_buffer_at buf 0)) \<le> unat (cb_size (gravity_cmd_create_buffer_at buf 0))"
    "hdr_opcode (header_of c) = gravity_cmd_op_val GRAVITY_CMD_RENDER_BEGIN \<Longrightarrow>
       unat (rb_num_color_attachments (gravity_cmd_render_begin_at buf 0)) \<le> GRAVITY_MAX_COLOR_ATTACHMENTS"
proof -
  let ?n = "struct_size (hdr_opcode (header_of c))"
  show "process_command V (header_of c) buf d = process_command V (header_of c) (wr buf' 0 c) d"
    by (rule process_local [OF front_agrees(1) [OF assms]])
  note l = front_agrees(2) [OF assms]
  show "unat (cb_data_size (gravity_cmd_create_buffer_at buf 0)) \<le> unat (cb_size (gravity_cmd_create_buffer_at buf 0))"
    if "hdr_opcode (header_of c) = gravity_cmd_op_val GRAVITY_CMD_CREATE_BUFFER"
  proof -
    have "?n = 52" unfolding that by (rule struct_size_simps) (simp add: struct_sizes_def)
    then show ?thesis using agree_decoders(1) [OF l] assms(1) that by (simp add: whole_command_def)
  qed
  show "unat (rb_num_color_attachments (gravity_cmd_render_begin_at buf 0)) \<le> GRAVITY_MAX_COLOR_ATTACHMENTS"
    if "hdr_opcode (header_of c) = gravity_cmd_op_val GRAVITY_CMD_RENDER_BEGIN"
  proof -
    have "?n = 384" unfolding that by (rule struct_size_simps) (simp add: struct_sizes_def)
    then show ?thesis using agree_decoders(12) [OF l] assms(1) that by (simp add: whole_command_def)
  qed
qed

lemma guest_move_inv:
  assumes ok: "ring_ok ring" and inv: "concurrent_inv V ring buf d sent k x" and move: "guest_move whole_command ring x y"
  shows "\<exists>sent'. concurrent_inv V ring buf d (sent @ sent') k y"
  using move
proof cases
  case (access s)
  have c: "commands_inv ring sent k (cc_ring x)" and le: "k \<le> length sent" "cc_done x \<longrightarrow> k < length sent"
    using inv have_next(1) [of ring sent k "cc_ring x"] by (auto simp: concurrent_inv_def commands_inv_def)
  have begins: "sp_prod (cc_ring x) = P_Idle \<longrightarrow> (\<exists>src tail. sp_prod s = P_Copy src tail 0 \<and> proper_command src)"
    using access(4) by (auto simp: whole_command_def)
  have known: "fetch_known (sent @ sent') k s" for sent'
    using inv access(3) by (auto simp: concurrent_inv_def fetch_known_def nth_append split: consumer.splits)
  note whole = access(4) inv [unfolded concurrent_inv_def]
  from access(2,3) begins show ?thesis
  proof (rule guest_step_commands [OF ok c])
    assume "commands_inv ring sent k s" "sp_prod (cc_ring x) = P_Idle"
    then show ?thesis using whole known [of "[]"] access(1,3) by (intro exI [of _ "[]"]) (auto simp: concurrent_inv_def)
  next
    assume "commands_inv ring sent k s" "\<exists>src tail i. sp_prod (cc_ring x) = P_Copy src tail i \<and> sp_prod s = P_Copy src tail (Suc i)"
    then show ?thesis using whole known [of "[]"] access(1,3) by (intro exI [of _ "[]"]) (auto simp: concurrent_inv_def)
  next
    fix src tail
    assume "commands_inv ring (sent @ [src]) k s" "sp_prod (cc_ring x) = P_Copy src tail (length src)" "sp_prod s = P_Idle"
    then show ?thesis using whole known [of "[src]"] access(1,3) le
      by (intro exI [of _ "[src]"]) (auto simp: concurrent_inv_def)
  qed
next
  case (elsewhere m)
  then show ?thesis
    using inv commands_inv_other [of ring "cc_ring x" m]
    by (intro exI [of _ "[]"]) (auto simp: concurrent_inv_def fetch_known_def)
qed

text \<open>What is pending begins with the next command.\<close>

lemma pending_front:
  assumes "commands_inv ring sent k s" "0 < length (cmd_contents ring (sp_mem s))"
  shows "k < length sent" "cmd_contents ring (sp_mem s) = sent ! k @ concat (drop (Suc k) sent)" "proper_command (sent ! k)"
proof -
  show k: "k < length sent" using assms(2) commands_contents [OF assms(1)] by (cases "k < length sent") auto
  then show "cmd_contents ring (sp_mem s) = sent ! k @ concat (drop (Suc k) sent)"
    using commands_contents [OF assms(1)] by (simp flip: Cons_nth_drop_Suc)
  show "proper_command (sent ! k)" using assms(1) k by (auto simp: commands_inv_def list_all_length)
qed

lemma peek_move_inv:
  assumes ok: "ring_ok ring" and inv: "concurrent_inv V ring buf d sent k x"
    and step: "spsc_step ring CMD_BUF_SIZE (cc_ring x) s" "sp_prod s = sp_prod (cc_ring x)"
      "\<not> (\<exists>sz buf. sp_cons (cc_ring x) = C_Have sz buf)"
  shows "concurrent_inv V ring buf d sent k (x\<lparr>cc_ring := s\<rparr>)"
proof -
  have c: "commands_inv ring sent k (cc_ring x)" and known: "fetch_known sent k (cc_ring x)"
    using inv by (simp_all add: concurrent_inv_def)
  have "commands_inv ring sent k s" by (rule peek_step_commands [OF ok c step])
  moreover have "fetch_known sent k s"
    using step(1)
  proof (cases rule: spsc_step.cases)
    case (peek_begin b)
    have l: "length (cmd_contents ring (sp_mem (cc_ring x))) = unat (gravity_ring_cmd_available ring (sp_mem (cc_ring x)))"
      by (rule length_cmd_contents)
    then have "0 < length (cmd_contents ring (sp_mem (cc_ring x)))" using peek_begin(3) by simp
    from pending_front [OF c this] show ?thesis using peek_begin(1) l by (simp add: fetch_known_def)
  qed (use known step(2) in \<open>auto simp: fetch_known_def\<close>)
  moreover have "\<not> cc_done x" using inv step(3) by (auto simp: concurrent_inv_def)
  ultimately show ?thesis using inv step(2) by (simp add: concurrent_inv_def)
qed

lemma process_move_inv:
  assumes ok: "ring_ok ring" and maps: "maps_apart V ring" and inv: "concurrent_inv V ring buf d sent k x"
    and c: "sp_cons (cc_ring x) = C_Have sz b" "\<not> cc_done x"
    and p: "process_command V (gravity_cmd_header_at b 0) b (with_mem (sp_mem (cc_ring x)) (cc_daemon x)) = Some e"
  shows "concurrent_inv V ring buf d sent k \<lparr>cc_ring = (cc_ring x)\<lparr>sp_mem := dm_mem e\<rparr>, cc_daemon = e, cc_done = True\<rparr>"
proof -
  have ci: "commands_inv ring sent k (cc_ring x)" and dr: "dm_ring (cc_daemon x) = ring"
    using inv by (simp_all add: concurrent_inv_def)
  note nxt = have_next [OF ci c(1)]
  have w: "whole_command (sent ! k)" using inv nxt(1) by (simp add: concurrent_inv_def list_all_length)
  have sz: "unat sz = length (sent ! k)" using arg_cong [OF nxt(2), of length] by simp
  note front = whole_in_buffer [OF w, of b, unfolded sz [symmetric], OF nxt(2)]
  have kept: "dm_ring e = ring \<and> same_cmd ring (sp_mem (cc_ring x)) (dm_mem e)"
    using process_keeps_ring [OF ok _ maps _ p] front(2) dr by (simp add: nxt(4))
  obtain buf' d' where all: "process_all V (take k sent) buf d = Some (buf', d')" and v: "gpu_view (cc_daemon x) = gpu_view d'"
    using inv c(2) by (auto simp: concurrent_inv_def)
  have "map_option gpu_view (process_command V (header_of (sent ! k)) (wr buf' 0 (sent ! k)) d') = Some (gpu_view e)"
    using process_view [of "with_mem (sp_mem (cc_ring x)) (cc_daemon x)" d' V "header_of (sent ! k)" b] p v
      front(1) [of V d' buf'] by (simp add: nxt(4) view_push)
  then obtain e' where "process_command V (header_of (sent ! k)) (wr buf' 0 (sent ! k)) d' = Some e'" "gpu_view e' = gpu_view e"
    by auto
  then have "\<exists>buf'' e''. process_all V (take (Suc k) sent) buf d = Some (buf'', e'') \<and> gpu_view e = gpu_view e''"
    using all by (simp add: take_Suc_conv_app_nth [OF nxt(1)] process_all_snoc view_push)
  then show ?thesis
    using inv kept c commands_inv_other [of ring "cc_ring x", OF _ ci] by (simp add: concurrent_inv_def fetch_known_def)
qed

lemma consume_move_inv:
  assumes ok: "ring_ok ring" and inv: "concurrent_inv V ring buf d sent k x"
    and c: "sp_cons (cc_ring x) = C_Have sz b" "cc_done x"
  shows "concurrent_inv V ring buf d sent (Suc k)
    (x\<lparr>cc_ring := (cc_ring x)\<lparr>sp_mem := gravity_ring_cmd_consume ring (sp_mem (cc_ring x)) (hdr_size (gravity_cmd_header_at b 0)),
         sp_cons := C_Idle, sp_got := sp_got (cc_ring x) @ rd b 0 (unat (hdr_size (gravity_cmd_header_at b 0)))\<rparr>,
       cc_done := False\<rparr>)"
proof -
  have ci: "commands_inv ring sent k (cc_ring x)" using inv by (simp add: concurrent_inv_def)
  have sz: "hdr_size (gravity_cmd_header_at b 0) = sz" using ci c(1) by (simp add: commands_inv_def size_known_def)
  show ?thesis
    unfolding sz using consume_commands [OF ok ci c(1)] inv c by (simp add: concurrent_inv_def fetch_known_def)
qed

lemma daemon_move_inv:
  assumes ok: "ring_ok ring" "maps_apart V ring" and inv: "concurrent_inv V ring buf d sent k x"
    and move: "daemon_move V ring x y"
  shows "\<exists>k'. concurrent_inv V ring buf d sent k' y"
  using move
proof cases
  case (peek s)
  then show ?thesis using peek_move_inv [OF ok(1) inv] by blast
next
  case (reject sz b)
  have "commands_inv ring sent k (cc_ring x)" using inv by (simp add: concurrent_inv_def)
  then have "gravity_cmd_validate (Some (gravity_cmd_header_at b 0)) (ucast CMD_BUF_SIZE) = 0"
    using have_next(4,5) [OF _ reject(2)] proper_valid by simp
  then show ?thesis using reject(4) by simp
next
  case (process sz b e)
  then show ?thesis using process_move_inv [OF ok inv] by blast
next
  case (consume sz b)
  then show ?thesis using consume_move_inv [OF ok(1) inv] by blast
qed

lemma concurrent_inv_steps:
  assumes "ring_ok ring" "maps_apart V ring" "(concurrent_step whole_command V ring)\<^sup>*\<^sup>* x y" "concurrent_inv V ring buf d sent k x"
  shows "\<exists>sent' k'. concurrent_inv V ring buf d (sent @ sent') k' y"
  using assms(3,4)
proof (induction rule: rtranclp_induct)
  case base
  then show ?case by (metis append_Nil2)
next
  case (step y z)
  then show ?case
    using guest_move_inv [OF assms(1)] daemon_move_inv [OF assms(1,2)] by (metis append.assoc concurrent_step_def)
qed

lemma concurrent_inv_start:
  "dm_ring d = ring \<Longrightarrow> cmd_contents ring (dm_mem d) = [] \<Longrightarrow> concurrent_inv V ring buf d [] 0 (concurrent_start d)"
  by (simp add: concurrent_inv_def concurrent_start_def commands_inv_def spsc_inv_def producer_inv_def consumer_inv_def
      size_known_def fetch_known_def spsc_start_def)

lemma concurrent_reach:
  assumes "ring_ok ring" "maps_apart V ring" "dm_ring d = ring" "cmd_contents ring (dm_mem d) = []"
    and "(concurrent_step whole_command V ring)\<^sup>*\<^sup>* (concurrent_start d) x"
  obtains sent k where "concurrent_inv V ring buf d sent k x"
  using concurrent_inv_steps [OF assms(1,2,5) concurrent_inv_start [OF assms(3,4)], of buf] by blast

text \<open>In the demonstration ring the guest writes a ping and the daemon answers it.\<close>

lemma demo_apart: "maps_apart demo_vulkan demo_ring"
  by (auto simp: maps_apart_def demo_vulkan_def demo_reply_def ring_area_def demo_ring_def init_ring_def)

lemma ping_whole: "whole_command (demo_ping n)"
proof -
  have "struct_size (gravity_cmd_op_val GRAVITY_CMD_PING) = 16" by (simp add: struct_size_def struct_sizes_def)
  then show ?thesis by (simp add: whole_command_def gravity_cmd_init_def)
qed

definition demo_writing :: "mem \<Rightarrow> concurrent" where
  "demo_writing m = (let x = concurrent_start (demo_daemon m) in
     x\<lparr>cc_ring := (cc_ring x)\<lparr>sp_mem := snd (gravity_ring_cmd_write demo_ring m (demo_ping 1) 16), sp_sent := demo_ping 1\<rparr>\<rparr>)"

lemma demo_writing_run:
  assumes "cmd_contents demo_ring m = []"
  shows "(guest_move whole_command demo_ring)\<^sup>*\<^sup>* (concurrent_start (demo_daemon m)) (demo_writing m)"
    "cmd_contents demo_ring (sp_mem (cc_ring (demo_writing m))) = demo_ping 1"
proof -
  have z: "fst (gravity_ring_cmd_write demo_ring m (demo_ping 1) (of_nat (length (demo_ping 1)))) = 0"
    using cmd_write_zero_iff [OF demo_ok, of m "demo_ping 1" 16] assms by simp
  then show "(guest_move whole_command demo_ring)\<^sup>*\<^sup>* (concurrent_start (demo_daemon m)) (demo_writing m)"
    using lift_run [where f = "\<lambda>s. (concurrent_start (demo_daemon m))\<lparr>cc_ring := s\<rparr>"
          and R = "guest_access whole_command demo_ring" and M = "guest_move whole_command demo_ring", OF access_move]
      write_accesses [of "spsc_start m" "demo_ping 1" demo_ring] ping_whole
    by (simp add: concurrent_start_def spsc_start_def demo_writing_def Let_def)
  show "cmd_contents demo_ring (sp_mem (cc_ring (demo_writing m))) = demo_ping 1"
    using cmd_write_contents [OF demo_ok, of m "demo_ping 1" 16] z assms by (simp add: demo_writing_def Let_def)
qed

lemma concurrent_runs:
  "(guest_move whole_command ring)\<^sup>*\<^sup>* x y \<Longrightarrow> (concurrent_step whole_command V ring)\<^sup>*\<^sup>* x y"
  "(daemon_move V ring)\<^sup>*\<^sup>* x y \<Longrightarrow> (concurrent_step whole_command V ring)\<^sup>*\<^sup>* x y"
  by (erule mono_rtranclp [rule_format, rotated], simp add: concurrent_step_def)+

lemma daemon_keeps_sent: "(daemon_move V ring)\<^sup>*\<^sup>* x y \<Longrightarrow> sp_sent (cc_ring y) = sp_sent (cc_ring x)"
proof (induction rule: rtranclp_induct)
  case (step y z)
  from step(2) have "sp_sent (cc_ring z) = sp_sent (cc_ring y)"
    by cases (auto elim: spsc_step.cases)
  then show ?case using step.IH by simp
qed simp

lemma demo_served:
  assumes "cmd_contents demo_ring m = []"
  shows "\<exists>y. (daemon_move demo_vulkan demo_ring)\<^sup>*\<^sup>* (demo_writing m) y \<and> \<not> cc_done y \<and> sp_got (cc_ring y) = demo_ping 1"
proof -
  let ?x = "demo_writing m" and ?d = "demo_daemon (sp_mem (cc_ring (demo_writing m)))"
  have x: "sp_cons (cc_ring ?x) = C_Idle" "\<not> cc_done ?x" "cc_daemon ?x = demo_daemon m"
    by (simp_all add: demo_writing_def Let_def concurrent_start_def spsc_start_def)
  have d: "with_mem (sp_mem (cc_ring ?x)) (demo_daemon m) = ?d" by (simp add: demo_daemon_def)
  have cs: "cmd_contents demo_ring (dm_mem ?d) = demo_ping 1 @ []" using demo_writing_run(2) [OF assms] by simp
  obtain s' where s': "loop_step demo_vulkan (demo_loop (dm_mem ?d)) = Some s'"
    "lp_daemon s' = dm_consume (dm_complete ?d (pong_bytes (header_of (demo_ping 1)))) 16"
    using loop_step_proper [of "demo_loop (dm_mem ?d)" "demo_ping 1" "[]" demo_vulkan] cs
    by (simp add: process_ping gravity_cmd_init_def)
  obtain y where y: "(daemon_move demo_vulkan demo_ring)\<^sup>*\<^sup>* ?x y" "\<not> cc_done y" "lp_daemon s' = with_mem (sp_mem (cc_ring y)) (cc_daemon y)"
    using iteration_moves [OF x(1,2) _ s'(1)] x(3) d by auto
  have run: "(concurrent_step whole_command demo_vulkan demo_ring)\<^sup>*\<^sup>* (concurrent_start (demo_daemon m)) y"
    using concurrent_runs(1) [OF demo_writing_run(1) [OF assms]] concurrent_runs(2) [OF y(1)] by (rule rtranclp_trans)
  obtain sent k where inv: "concurrent_inv demo_vulkan demo_ring (\<lambda>_. 0) (demo_daemon m) sent k y"
    using concurrent_reach [OF demo_ok demo_apart _ _ run, of "\<lambda>_. 0"] assms by auto
  have "cmd_contents demo_ring (sp_mem (cc_ring y)) = []"
    using arg_cong [OF y(3), of dm_mem] cs cmd_consume_contents [OF demo_ok, of 16 "dm_mem (dm_complete ?d (pong_bytes (header_of (demo_ping 1))))"]
      pending.complete [of ?d "demo_ping 1" "pong_bytes (header_of (demo_ping 1))"]
    by (simp add: s'(2) dm_consume_def)
  moreover have "sp_sent (cc_ring y) = demo_ping 1"
    using daemon_keeps_sent [OF y(1)] by (simp add: demo_writing_def Let_def)
  moreover have "sp_sent (cc_ring y) = sp_got (cc_ring y) @ cmd_contents demo_ring (sp_mem (cc_ring y))"
    using inv by (simp add: concurrent_inv_def commands_inv_def spsc_inv_def)
  ultimately show ?thesis using y(1,2) by auto
qed

lemma demo_answered:
  assumes "cmd_contents demo_ring m = []"
  shows "\<exists>y. (concurrent_step whole_command demo_vulkan demo_ring)\<^sup>*\<^sup>* (concurrent_start (demo_daemon m)) y \<and> \<not> cc_done y \<and>
    sp_got (cc_ring y) = demo_ping 1"
  using demo_served [OF assms] concurrent_runs(1) [OF demo_writing_run(1) [OF assms]] concurrent_runs(2)
  by (meson rtranclp_trans)

section \<open>The GPU's side does not depend on the interleaving\<close>

text \<open>
  C2: however the guest's stores, the daemon's loads and the processing of commands interleave,
  if the guest writes whole commands and the driver maps memory outside the ring, then the
  daemon has consumed the first of the commands published, and its Vulkan state, its tracker
  and the Vulkan calls it has made are those of handling exactly these (and the one at hand, if
  processed) one after the other.
\<close>

theorem concurrent_daemon_refines:
  assumes "ring_ok ring" "maps_apart V ring" "dm_ring d = ring" "cmd_contents ring (dm_mem d) = []"
    and "(concurrent_step whole_command V ring)\<^sup>*\<^sup>* (concurrent_start d) x"
  shows "\<exists>sent k buf e. list_all whole_command sent \<and> k \<le> length sent \<and>
     sp_sent (cc_ring x) = concat sent \<and> sp_got (cc_ring x) = concat (take k sent) \<and>
     process_all V (take (if cc_done x then Suc k else k) sent) (\<lambda>_. 0) d = Some (buf, e) \<and>
     dm_vk (cc_daemon x) = dm_vk e \<and> dm_tracker (cc_daemon x) = dm_tracker e \<and> dm_calls (cc_daemon x) = dm_calls e"
proof -
  obtain sent k where "concurrent_inv V ring (\<lambda>_. 0) d sent k x"
    by (rule concurrent_reach [OF assms])
  then show ?thesis unfolding concurrent_inv_def commands_inv_def gpu_view_iff by blast
qed

theorem concurrent_daemon_refines_witness:
  "\<exists>x sent buf e. (concurrent_step whole_command demo_vulkan demo_ring)\<^sup>*\<^sup>* (concurrent_start (demo_daemon demo_mem)) x \<and>
     concat sent = demo_ping 1 \<and> process_all demo_vulkan sent (\<lambda>_. 0) (demo_daemon demo_mem) = Some (buf, e) \<and>
     dm_calls (cc_daemon x) = dm_calls e"
proof -
  obtain x where x: "(concurrent_step whole_command demo_vulkan demo_ring)\<^sup>*\<^sup>* (concurrent_start (demo_daemon demo_mem)) x" "\<not> cc_done x"
    "sp_got (cc_ring x) = demo_ping 1"
    using demo_answered [of demo_mem] demo_attach by auto
  obtain sent k buf e where r: "sp_got (cc_ring x) = concat (take k sent)"
    "process_all demo_vulkan (take (if cc_done x then Suc k else k) sent) (\<lambda>_. 0) (demo_daemon demo_mem) = Some (buf, e)"
    "dm_calls (cc_daemon x) = dm_calls e"
    using concurrent_daemon_refines [OF demo_ok demo_apart _ _ x(1)] demo_attach by auto
  then show ?thesis using x by (intro exI [of _ x] exI [of _ "take k sent"] exI [of _ buf] exI [of _ e]) simp
qed

text \<open>A sequence of bytes is made of whole commands in one way only.\<close>

lemma framing_unique:
  assumes "list_all proper_command cs" "list_all proper_command cs'" "concat cs = concat cs'"
  shows "cs = cs'"
  using assms
proof (induction cs arbitrary: cs')
  case Nil
  then show ?case by (cases cs') (auto simp: proper_command_def framed_def)
next
  case (Cons c cs)
  then have c: "proper_command c" "16 \<le> length c" by (auto simp: proper_command_def framed_def)
  then obtain c' cs'' where cs': "cs' = c' # cs''" using Cons.prems(3) by (cases cs') auto
  then have c': "proper_command c'" "16 \<le> length c'" using Cons.prems(2) by (auto simp: proper_command_def framed_def)
  have "header_of (c @ concat cs) = header_of (c' @ concat cs'')" using Cons.prems(3) cs' by simp
  then have "length c = length c'" using c c' by (simp add: header_of_append proper_command_def framed_def)
  then show ?case using Cons.IH [of cs''] Cons.prems cs' by simp
qed

lemma process_all_view:
  assumes "gpu_view d = gpu_view e"
  shows "map_option (map_prod id gpu_view) (process_all V cs buf d) = map_option (map_prod id gpu_view) (process_all V cs buf e)"
  using assms
proof (induction cs arbitrary: buf d e)
  case (Cons c cs)
  let ?buf = "wr buf 0 c"
  note v = process_view [OF Cons.prems, of V "header_of c" ?buf]
  show ?case
  proof (cases "process_command V (header_of c) ?buf d")
    case None
    then have "process_command V (header_of c) ?buf e = None" using v by simp
    then show ?thesis using None by simp
  next
    case (Some d1)
    then obtain e1 where e1: "process_command V (header_of c) ?buf e = Some e1" "gpu_view d1 = gpu_view e1"
      using v by (cases "process_command V (header_of c) ?buf e") auto
    let ?n = "hdr_size (header_of c)"
    have "gpu_view (dm_consume d1 ?n) = gpu_view (dm_consume e1 ?n)" using e1(2) by (simp add: view_push)
    from Cons.IH [OF this, of ?buf] show ?thesis by (simp only: process_all.simps Some e1(1) option.case)
  qed
qed simp

text \<open>
  C8: two runs from the same GPU state, whatever the shared memory held and however they
  interleaved, that have consumed the same bytes have made the same Vulkan calls and have the
  same resources.
\<close>

theorem concurrent_runs_agree:
  assumes "ring_ok ring" "maps_apart V ring" "dm_ring d = ring"
    and "cmd_contents ring (dm_mem d) = []" "cmd_contents ring m = []"
    and "(concurrent_step whole_command V ring)\<^sup>*\<^sup>* (concurrent_start d) x" "\<not> cc_done x"
    and "(concurrent_step whole_command V ring)\<^sup>*\<^sup>* (concurrent_start (with_mem m d)) y" "\<not> cc_done y"
    and "sp_got (cc_ring x) = sp_got (cc_ring y)"
  shows "dm_vk (cc_daemon x) = dm_vk (cc_daemon y) \<and> dm_tracker (cc_daemon x) = dm_tracker (cc_daemon y) \<and>
     dm_calls (cc_daemon x) = dm_calls (cc_daemon y)"
proof -
  obtain sx kx where ix: "concurrent_inv V ring (\<lambda>_. 0) d sx kx x"
    by (rule concurrent_reach [OF assms(1-4,6)])
  obtain sy ky where iy: "concurrent_inv V ring (\<lambda>_. 0) (with_mem m d) sy ky y"
    by (rule concurrent_reach [OF assms(1,2) _ _ assms(8)]) (use assms(3,5) in simp_all)
  have "take kx sx = take ky sy"
    using ix iy assms(10) by (intro framing_unique) (auto simp: concurrent_inv_def commands_inv_def list_all_iff dest: in_set_takeD)
  then have "gpu_view (cc_daemon x) = gpu_view (cc_daemon y)"
    using ix iy assms(7,9) process_all_view [of "with_mem m d" d V "take ky sy" "\<lambda>_. 0"]
    by (auto simp: concurrent_inv_def view_push)
  then show ?thesis by (simp add: gpu_view_iff)
qed

text \<open>The ping answered over two memories that differ in the data region.\<close>

theorem concurrent_runs_agree_witness:
  "\<exists>x y. (concurrent_step whole_command demo_vulkan demo_ring)\<^sup>*\<^sup>* (concurrent_start (demo_daemon demo_mem)) x \<and>
     (concurrent_step whole_command demo_vulkan demo_ring)\<^sup>*\<^sup>* (concurrent_start (demo_daemon (demo_mem(1000 := 7)))) y \<and>
     sp_got (cc_ring x) = demo_ping 1 \<and> dm_calls (cc_daemon x) = dm_calls (cc_daemon y)"
proof -
  have "same_cmd demo_ring demo_mem (demo_mem(1000 := 7))"
    by (rule same_cmd_frame [OF demo_ok]) (auto simp: ring_area_def demo_ring_def init_ring_def)
  then have m: "cmd_contents demo_ring (demo_mem(1000 := 7)) = []" using same_cmd_contents demo_attach by auto
  obtain x where x: "(concurrent_step whole_command demo_vulkan demo_ring)\<^sup>*\<^sup>* (concurrent_start (demo_daemon demo_mem)) x" "\<not> cc_done x"
    "sp_got (cc_ring x) = demo_ping 1"
    using demo_answered [of demo_mem] demo_attach by auto
  obtain y where y: "(concurrent_step whole_command demo_vulkan demo_ring)\<^sup>*\<^sup>* (concurrent_start (demo_daemon (demo_mem(1000 := 7)))) y" "\<not> cc_done y"
    "sp_got (cc_ring y) = demo_ping 1"
    using demo_answered [OF m] by auto
  have d: "demo_daemon (demo_mem(1000 := 7)) = with_mem (demo_mem(1000 := 7)) (demo_daemon demo_mem)" by (simp add: demo_daemon_def)
  show ?thesis
    using concurrent_runs_agree [OF demo_ok demo_apart _ _ m x(1,2) y(1,2) [unfolded d]] x y demo_attach by auto
qed

end
