(* ===== verification/Concurrent_Progress.thy ===== *)
theory Concurrent_Progress
  imports Concurrent_Daemon
begin

text \<open>
  Progress of the daemon's loop next to a guest that keeps writing whole commands: with one
  pending the loop always has a move, and after as many of its own moves as the command has
  bytes, and five, it has been consumed, however many whole commands the guest adds meanwhile and
  whatever it does outside the command ring.
\<close>

section \<open>How far the loop is from consuming the next command\<close>

text \<open>The moves left: look at the tail, one per byte, accept, return, process and consume.\<close>

definition next_length :: "gravity_ring \<Rightarrow> concurrent \<Rightarrow> nat" where
  "next_length ring x = unat (hdr_size (header_of (cmd_contents ring (sp_mem (cc_ring x)))))"

definition moves_left :: "gravity_ring \<Rightarrow> concurrent \<Rightarrow> nat" where
  "moves_left ring x = (case sp_cons (cc_ring x) of
     C_Idle \<Rightarrow> next_length ring x + 5
   | C_Fetch head avail i buf \<Rightarrow> next_length ring x + 4 - i
   | C_Body head sz i buf \<Rightarrow> next_length ring x + 3 - i
   | C_Have sz buf \<Rightarrow> if cc_done x then 1 else 2)"

text \<open>Runs, with the number of the daemon's moves.\<close>

inductive concurrent_run ::
  "(u8 list \<Rightarrow> bool) \<Rightarrow> vulkan \<Rightarrow> gravity_ring \<Rightarrow> nat \<Rightarrow> concurrent \<Rightarrow> concurrent \<Rightarrow> bool"
  for P :: "u8 list \<Rightarrow> bool" and V :: vulkan and ring :: gravity_ring where
  stop: "concurrent_run P V ring 0 x x"
| guest: "guest_move P ring x y \<Longrightarrow> concurrent_run P V ring j y z \<Longrightarrow> concurrent_run P V ring j x z"
| daemon: "daemon_move V ring x y \<Longrightarrow> concurrent_run P V ring j y z \<Longrightarrow> concurrent_run P V ring (Suc j) x z"

section \<open>The header the loop has read\<close>

lemma pending_header:
  assumes "commands_inv ring sent k s" "0 < length (cmd_contents ring (sp_mem s))"
  shows "header_of (cmd_contents ring (sp_mem s)) = header_of (sent ! k)"
    "unat (hdr_size (header_of (cmd_contents ring (sp_mem s)))) = length (sent ! k)" "16 \<le> length (sent ! k)"
    "length (sent ! k) \<le> 65536" "length (sent ! k) \<le> length (cmd_contents ring (sp_mem s))"
proof -
  note f = pending_front [OF assms]
  have p: "16 \<le> length (sent ! k)" "unat (hdr_size (header_of (sent ! k))) = length (sent ! k)" "length (sent ! k) \<le> 65536"
    using f(3) by (auto simp: proper_command_def framed_def)
  show h: "header_of (cmd_contents ring (sp_mem s)) = header_of (sent ! k)" using p(1) by (simp add: f(2) header_of_append)
  show "unat (hdr_size (header_of (cmd_contents ring (sp_mem s)))) = length (sent ! k)" using p(2) h by simp
  show "16 \<le> length (sent ! k)" "length (sent ! k) \<le> 65536" by (rule p)+
  show "length (sent ! k) \<le> length (cmd_contents ring (sp_mem s))" by (simp add: f(2))
qed

lemma copied_header:
  assumes "copied ring m buf i" "16 \<le> i"
  shows "gravity_cmd_header_at buf 0 = header_of (cmd_contents ring m)"
  unfolding header_of_def using assms by (intro header_at_cong) (auto simp: copied_def list_mem_def)

text \<open>The points of the loop, with what they know of the next command.\<close>

lemma loop_points:
  assumes "concurrent_inv V ring b d sent k x" "0 < length (cmd_contents ring (sp_mem (cc_ring x)))"
  shows "sp_cons (cc_ring x) = C_Fetch head avail i buf \<Longrightarrow>
      i \<le> 16 \<and> next_length ring x \<le> unat avail \<and> (i = 16 \<longrightarrow> unat (hdr_size (gravity_cmd_header_at buf 0)) = next_length ring x)"
    "sp_cons (cc_ring x) = C_Body head sz i buf \<Longrightarrow> unat sz = next_length ring x \<and> i \<le> next_length ring x"
    "sp_cons (cc_ring x) = C_Have sz buf \<Longrightarrow> unat sz = next_length ring x"
proof -
  have c: "commands_inv ring sent k (cc_ring x)" and known: "fetch_known sent k (cc_ring x)"
    using assms(1) by (simp_all add: concurrent_inv_def)
  note p = pending_header [OF c assms(2)]
  have inv: "consumer_inv ring (cc_ring x)" "size_known (cc_ring x)" using c by (simp_all add: commands_inv_def spsc_inv_def)
  show "sp_cons (cc_ring x) = C_Fetch head avail i buf \<Longrightarrow>
      i \<le> 16 \<and> next_length ring x \<le> unat avail \<and> (i = 16 \<longrightarrow> unat (hdr_size (gravity_cmd_header_at buf 0)) = next_length ring x)"
    using inv known p(2) by (auto simp: consumer_inv_def fetch_known_def next_length_def dest: copied_header)
  show "sp_cons (cc_ring x) = C_Body head sz i buf \<Longrightarrow> unat sz = next_length ring x \<and> i \<le> next_length ring x"
    using inv p(2,3) by (auto simp: consumer_inv_def size_known_def next_length_def dest!: copied_header)
  show "sp_cons (cc_ring x) = C_Have sz buf \<Longrightarrow> unat sz = next_length ring x"
    using inv p(2,3) by (auto simp: consumer_inv_def size_known_def next_length_def dest!: copied_header)
qed

section \<open>The loop is never stuck\<close>

text \<open>Only a render pass with too many attachments has no outcome.\<close>

lemma process_total:
  assumes "hdr_opcode hdr = gravity_cmd_op_val GRAVITY_CMD_RENDER_BEGIN \<Longrightarrow>
      unat (rb_num_color_attachments (gravity_cmd_render_begin_at buf 0)) \<le> GRAVITY_MAX_COLOR_ATTACHMENTS"
  shows "\<exists>d'. process_command V hdr buf d = Some d'"
proof -
  have "\<exists>d'. process_render_begin cmd d = Some d'"
    if "unat (rb_num_color_attachments cmd) \<le> GRAVITY_MAX_COLOR_ATTACHMENTS" for cmd
    using that by (simp add: process_render_begin_def Let_def split_def split: option.split)
  then have "\<exists>d'. gravity_cmd_process_render hdr buf d = Some d'"
    using assms by (simp add: gravity_cmd_process_render_def Let_def del: gravity_cmd_op_val.simps)
  then show ?thesis by (simp add: process_command_def process_others_def Let_def del: gravity_cmd_op_val.simps)
qed

lemma loop_has_move:
  assumes inv: "concurrent_inv V ring b d sent k x" and pending: "0 < length (cmd_contents ring (sp_mem (cc_ring x)))"
  shows "\<exists>y. daemon_move V ring x y"
proof -
  let ?s = "cc_ring x"
  have c: "commands_inv ring sent k ?s" using inv by (simp add: concurrent_inv_def)
  note p = pending_header [OF c pending]
  note points = loop_points [OF inv pending]
  have peek: ?thesis if "spsc_step ring CMD_BUF_SIZE ?s s" "sp_prod s = sp_prod ?s" "\<not> (\<exists>sz buf. sp_cons ?s = C_Have sz buf)" for s
    using daemon_move.peek that by blast
  show ?thesis
  proof (cases "sp_cons ?s")
    case C_Idle
    have "16 \<le> unat (gravity_ring_cmd_available ring (sp_mem ?s))" using p(3,5) length_cmd_contents [of ring "sp_mem ?s"] by simp
    from peek [OF peek_begin [OF C_Idle this]] show ?thesis using C_Idle by simp
  next
    case (C_Fetch head avail i buf)
    note f = points(1) [OF C_Fetch]
    show ?thesis
    proof (cases "i = 16")
      case True
      let ?sz = "hdr_size (gravity_cmd_header_at buf 0)"
      have "?sz \<le> avail" "?sz \<le> CMD_BUF_SIZE" using f p(2,4) True by (auto simp: word_le_nat_alt next_length_def)
      from peek [OF peek_accept [OF _ this]] show ?thesis using C_Fetch True by simp
    next
      case False
      then have "i < min 16 (unat CMD_BUF_SIZE)" using f by simp
      from peek [OF peek_header_byte [OF C_Fetch this]] show ?thesis using C_Fetch by simp
    qed
  next
    case (C_Body head sz i buf)
    show ?thesis
    proof (cases "i < unat sz")
      case True
      from peek [OF peek_body_byte [OF C_Body True]] show ?thesis using C_Body by simp
    next
      case False
      then have "unat sz \<le> i" by simp
      from peek [OF peek_return [OF C_Body this]] show ?thesis using C_Body by simp
    qed
  next
    case (C_Have sz buf)
    note nxt = have_next [OF c C_Have]
    have w: "whole_command (sent ! k)" using inv nxt(1) by (simp add: concurrent_inv_def list_all_length)
    have "unat sz = length (sent ! k)" using arg_cong [OF nxt(2), of length] by simp
    from whole_in_buffer(3) [OF w, of buf, unfolded this [symmetric], OF nxt(2)]
    obtain e where e: "process_command V (gravity_cmd_header_at buf 0) buf (with_mem (sp_mem ?s) (cc_daemon x)) = Some e"
      using process_total nxt(4) by metis
    have v: "\<not> gravity_cmd_validate (Some (gravity_cmd_header_at buf 0)) (ucast CMD_BUF_SIZE) < 0"
      using proper_valid [OF nxt(5)] nxt(4) by simp
    show ?thesis
    proof (cases "cc_done x")
      case True
      from daemon_move.consume [OF C_Have True] show ?thesis by blast
    next
      case False
      from daemon_move.process [OF C_Have False v e] show ?thesis by blast
    qed
  qed
qed

section \<open>Each of its moves counts\<close>

text \<open>The guest changes neither the next command nor the loop's point.\<close>

lemma guest_move_left:
  assumes ok: "ring_ok ring" and inv: "concurrent_inv V ring b d sent k x"
    and pending: "0 < length (cmd_contents ring (sp_mem (cc_ring x)))" and move: "guest_move whole_command ring x y"
  shows "moves_left ring y = moves_left ring x" "sp_got (cc_ring y) = sp_got (cc_ring x)"
    "\<exists>more. cmd_contents ring (sp_mem (cc_ring y)) = cmd_contents ring (sp_mem (cc_ring x)) @ more"
proof -
  obtain sent' where inv': "concurrent_inv V ring b d (sent @ sent') k y" using guest_move_inv [OF ok inv move] by blast
  have c: "commands_inv ring sent k (cc_ring x)" "commands_inv ring (sent @ sent') k (cc_ring y)"
    using inv inv' by (simp_all add: concurrent_inv_def)
  have k: "k < length sent" by (rule pending_front(1) [OF c(1) pending])
  then have more: "cmd_contents ring (sp_mem (cc_ring y)) = cmd_contents ring (sp_mem (cc_ring x)) @ concat sent'"
    using commands_contents [OF c(1)] commands_contents [OF c(2)] by simp
  then show "\<exists>more. cmd_contents ring (sp_mem (cc_ring y)) = cmd_contents ring (sp_mem (cc_ring x)) @ more" by blast
  have "next_length ring y = next_length ring x"
    using pending_header(3,5) [OF c(1) pending] by (simp add: next_length_def more header_of_append)
  moreover have "sp_cons (cc_ring y) = sp_cons (cc_ring x)" "cc_done y = cc_done x" using move by (auto elim: guest_move.cases)
  ultimately show "moves_left ring y = moves_left ring x"
    by (simp add: moves_left_def split: consumer.split)
  show "sp_got (cc_ring y) = sp_got (cc_ring x)" using c k by (simp add: commands_inv_def)
qed

lemma daemon_move_left:
  assumes ok: "ring_ok ring" "maps_apart V ring" and inv: "concurrent_inv V ring b d sent k x"
    and pending: "0 < length (cmd_contents ring (sp_mem (cc_ring x)))" and move: "daemon_move V ring x y"
  shows "moves_left ring x = 1 \<and> sp_got (cc_ring y) = sp_got (cc_ring x) @ take (next_length ring x) (cmd_contents ring (sp_mem (cc_ring x))) \<or>
    moves_left ring x = Suc (moves_left ring y) \<and> sp_got (cc_ring y) = sp_got (cc_ring x) \<and>
      cmd_contents ring (sp_mem (cc_ring y)) = cmd_contents ring (sp_mem (cc_ring x))"
proof -
  have c: "commands_inv ring sent k (cc_ring x)" using inv by (simp add: concurrent_inv_def)
  note p = pending_header [OF c pending]
  note points = loop_points [OF inv pending]
  have n: "next_length ring x = length (sent ! k)" using p(2) by (simp add: next_length_def)
  show ?thesis
    using move
  proof cases
    case (peek s)
    note y = peek(1)
    from peek(2) show ?thesis
    proof (cases rule: spsc_step.cases)
      case (peek_refuse head avail buf)
      have "unat (hdr_size (gravity_cmd_header_at buf 0)) = next_length ring x" "next_length ring x \<le> unat avail"
        using points(1) [OF peek_refuse(2)] by simp_all
      then show ?thesis using peek_refuse(3) p(4) n by (simp add: word_less_nat_alt)
    next
      case (peek_body_byte head sz i buf)
      then show ?thesis using points(2) [OF peek_body_byte(2)]
        by (intro disjI2) (auto simp: y moves_left_def next_length_def)
    next
      case (peek_return head sz i buf)
      then show ?thesis
        using points(2) [OF peek_return(2)] peek(4) inv by (simp add: y moves_left_def next_length_def concurrent_inv_def)
    next
      case (peek_header_byte head avail i buf)
      then show ?thesis using points(1) [OF peek_header_byte(2)] p(3) n
        by (intro disjI2) (auto simp: y moves_left_def next_length_def)
    qed (use peek(3,4) y p(3) n in \<open>auto simp: moves_left_def next_length_def\<close>)
  next
    case (reject sz buf)
    then show ?thesis using have_next(4,5) [OF c reject(2)] proper_valid by simp
  next
    case (process sz buf e)
    have "concurrent_inv V ring b d sent k y" unfolding process(1) by (rule process_move_inv [OF ok inv process(2,3,5)])
    then have "cmd_contents ring (sp_mem (cc_ring y)) = cmd_contents ring (sp_mem (cc_ring x))"
      using commands_contents [OF c] commands_contents [of ring sent k "cc_ring y"] by (simp add: concurrent_inv_def)
    then show ?thesis using process by (simp add: moves_left_def)
  next
    case (consume sz buf)
    have "rd buf 0 (unat (hdr_size (gravity_cmd_header_at buf 0))) = sent ! k"
      using have_next(2) [OF c consume(2)] c consume(2) by (simp add: commands_inv_def size_known_def)
    moreover have "take (next_length ring x) (cmd_contents ring (sp_mem (cc_ring x))) = sent ! k"
      using pending_front(2) [OF c pending] n by simp
    ultimately show ?thesis using consume by (simp add: moves_left_def)
  qed
qed

text \<open>What has been consumed stays consumed.\<close>

lemma got_grows:
  assumes "concurrent_run whole_command V ring j x y"
  shows "\<exists>more. sp_got (cc_ring y) = sp_got (cc_ring x) @ more"
  using assms
proof induction
  case (guest x y j z)
  have "sp_got (cc_ring y) = sp_got (cc_ring x)"
    using guest(1) by cases (auto elim: spsc_step.cases)
  then show ?case using guest.IH by simp
next
  case (daemon x y j z)
  have "\<exists>more. sp_got (cc_ring y) = sp_got (cc_ring x) @ more"
    using daemon(1) by cases (auto elim: spsc_step.cases)
  then show ?case using daemon.IH by auto
qed simp

lemma run_consumes:
  assumes "ring_ok ring" "maps_apart V ring"
  shows "concurrent_run whole_command V ring j x y \<Longrightarrow> concurrent_inv V ring b d sent k x \<Longrightarrow>
    0 < length (cmd_contents ring (sp_mem (cc_ring x))) \<Longrightarrow> moves_left ring x \<le> j \<Longrightarrow>
    \<exists>more. sp_got (cc_ring y) =
      sp_got (cc_ring x) @ take (next_length ring x) (cmd_contents ring (sp_mem (cc_ring x))) @ more"
proof (induction arbitrary: sent k rule: concurrent_run.induct)
  case (stop x)
  have "16 \<le> next_length ring x"
    using pending_header(2,3) stop(1,2) by (force simp: next_length_def concurrent_inv_def)
  then have "0 < moves_left ring x"
    using loop_points(1,2) [OF stop(1,2)] by (force simp: moves_left_def split: consumer.split)
  then show ?case using stop(3) by simp
next
  case (guest x y j z)
  note left = guest_move_left [OF assms(1) guest.prems(1,2) guest.hyps(1)]
  obtain sent' where inv: "concurrent_inv V ring b d (sent @ sent') k y"
    using guest_move_inv [OF assms(1) guest.prems(1) guest.hyps(1)] by blast
  obtain more where more: "cmd_contents ring (sp_mem (cc_ring y)) = cmd_contents ring (sp_mem (cc_ring x)) @ more"
    using left(3) by blast
  have c: "commands_inv ring sent k (cc_ring x)" using guest.prems(1) by (simp add: concurrent_inv_def)
  note p = pending_header [OF c guest.prems(2)]
  have n: "next_length ring y = next_length ring x" "next_length ring x \<le> length (cmd_contents ring (sp_mem (cc_ring x)))"
    using p(2,3,5) by (simp_all add: next_length_def more header_of_append)
  show ?case using guest.IH [OF inv] guest.prems(2,3) left(1,2) n more by auto
next
  case (daemon x y j z)
  from daemon_move_left [OF assms daemon.prems(1,2) daemon.hyps(1)] show ?case
  proof (elim disjE conjE)
    assume "sp_got (cc_ring y) = sp_got (cc_ring x) @ take (next_length ring x) (cmd_contents ring (sp_mem (cc_ring x)))"
    then show ?thesis using got_grows [OF daemon.hyps(2)] by auto
  next
    assume y: "moves_left ring x = Suc (moves_left ring y)" "sp_got (cc_ring y) = sp_got (cc_ring x)"
      "cmd_contents ring (sp_mem (cc_ring y)) = cmd_contents ring (sp_mem (cc_ring x))"
    obtain k' where inv: "concurrent_inv V ring b d sent k' y"
      using daemon_move_inv [OF assms daemon.prems(1) daemon.hyps(1)] by blast
    show ?thesis using daemon.IH [OF inv] daemon.prems(2,3) y by (simp add: next_length_def)
  qed
qed

text \<open>
  C3: next to a guest that writes nothing but whole commands (\<open>whole_command\<close>: valid, framed, at
  most 64 KiB, as long as their structures) and a driver that maps no memory over the rings
  (\<open>maps_apart\<close>), the loop serves the command at the front in bounded time: in every state the
  two sides can reach with something pending, the daemon has a move, and once it has made as many
  moves as the command has bytes, and five, the command has been consumed, wherever the guest's
  own accesses fall in between.  Without the condition on the commands this fails:
  \<open>oversized_command_stalls\<close> has a command that is never consumed.
\<close>

theorem commands_served_in_time:
  assumes "ring_ok ring" "maps_apart V ring" "dm_ring d = ring" "cmd_contents ring (dm_mem d) = []"
    and "(concurrent_step whole_command V ring)\<^sup>*\<^sup>* (concurrent_start d) x" "cmd_contents ring (sp_mem (cc_ring x)) \<noteq> []"
  shows "(\<exists>y. daemon_move V ring x y) \<and>
    (\<forall>j y. concurrent_run whole_command V ring j x y \<longrightarrow> next_length ring x + 5 \<le> j \<longrightarrow>
       (\<exists>more. sp_got (cc_ring y) =
          sp_got (cc_ring x) @ take (next_length ring x) (cmd_contents ring (sp_mem (cc_ring x))) @ more))"
proof -
  obtain sent k where inv: "concurrent_inv V ring (\<lambda>_. 0) d sent k x" by (rule concurrent_reach [OF assms(1-5)])
  have pending: "0 < length (cmd_contents ring (sp_mem (cc_ring x)))" using assms(6) by simp
  have c: "commands_inv ring sent k (cc_ring x)" using inv by (simp add: concurrent_inv_def)
  have "moves_left ring x \<le> next_length ring x + 5" by (auto simp: moves_left_def split: consumer.split)
  then show ?thesis
    using loop_has_move [OF inv pending] run_consumes [OF assms(1,2) _ inv pending] by (meson order_trans)
qed

theorem commands_served_in_time_witness:
  "(\<exists>y. daemon_move demo_vulkan demo_ring (demo_writing demo_mem) y) \<and>
   {y. \<exists>j. concurrent_run whole_command demo_vulkan demo_ring j (demo_writing demo_mem) y \<and> 21 \<le> j} \<subseteq>
   {y. take 16 (sp_got (cc_ring y)) = demo_ping 1}"
proof -
  let ?x = "demo_writing demo_mem"
  have e: "cmd_contents demo_ring demo_mem = []" using demo_attach by simp
  note cs = demo_writing_run(2) [OF e]
  have n: "next_length demo_ring ?x = 16" by (simp add: next_length_def cs gravity_cmd_init_def)
  have ne: "demo_ping 1 \<noteq> []" using length_demo_ping [of 1] by (metis list.size(3) zero_neq_numeral)
  have g: "sp_got (cc_ring ?x) = []" by (simp add: demo_writing_def Let_def concurrent_start_def spsc_start_def)
  show ?thesis
    using commands_served_in_time [OF demo_ok demo_apart _ _ concurrent_runs(1) [OF demo_writing_run(1) [OF e]]] cs n ne g e by fastforce
qed

end
