(* ===== verification/Concurrent_Answers.thy ===== *)
theory Concurrent_Answers
  imports Concurrent_Progress "HOL-Library.Sublist"
begin

text \<open>
  Both directions at once: while the guest writes commands and the daemon's loop works, the guest
  reads completions, access by access.  What the guest gets are the answers to its commands, each
  whole and in the order of the commands; an answer is missing only when the completion ring had
  no room for it.
\<close>

section \<open>The answer to a command\<close>

text \<open>Greetings, pings and commits of a known command buffer are answered; nothing else is.\<close>

definition answer :: "gravity_cmd_header \<Rightarrow> mem \<Rightarrow> gravity_daemon \<Rightarrow> u8 list option" where
  "answer hdr buf d =
     (if hdr_opcode hdr = gravity_cmd_op_val GRAVITY_CMD_HELLO
      then Some (gravity_cmd_hello_response_bytes (hello_answer hdr))
      else if hdr_opcode hdr = gravity_cmd_op_val GRAVITY_CMD_PING then Some (pong_bytes hdr)
      else if hdr_opcode hdr = gravity_cmd_op_val GRAVITY_CMD_CMDBUF_COMMIT
      then let cmd = gravity_cmd_cmdbuf_commit_at buf 0
           in case dm_get d (cbm_handle cmd) of
                None \<Rightarrow> None
              | Some i \<Rightarrow> if re_type (dm_entry d i) = GRAVITY_RES_CMDBUF then Some (completed_bytes cmd) else None
      else None)"

lemma answer_view:
  assumes "gpu_view d = gpu_view e"
  shows "answer hdr buf d = answer hdr buf e"
proof -
  have "dm_get d = dm_get e" "dm_entry d = dm_entry e"
    using assms by (simp_all add: gpu_view_iff fun_eq_iff dm_get_def dm_entry_def)
  then show ?thesis by (simp only: answer_def)
qed

lemma answer_local:
  assumes "agree (struct_size (hdr_opcode hdr)) buf buf'"
  shows "answer hdr buf d = answer hdr buf' d"
  using agree_decoders(11) [OF assms] struct_size_op [of GRAVITY_CMD_CMDBUF_COMMIT 20 hdr]
  by (simp add: answer_def struct_sizes_def del: gravity_cmd_op_val.simps cong: if_cong)

lemma answer_short: "answer hdr buf d = Some bs \<Longrightarrow> length bs \<le> 56"
  by (auto simp: answer_def Let_def pong_bytes_def gravity_cmd_hello_response_bytes_def hello_answer_def
      simp del: gravity_cmd_op_val.simps split: if_splits option.splits)

text \<open>What a command leaves in memory: its answer, the initial data of a buffer, or nothing.\<close>

lemma creations_keep_mem:
  "dm_mem (gravity_cmd_process_create_texture V c1 d) = dm_mem d"
  "dm_mem (gravity_cmd_process_create_sampler V c2 d) = dm_mem d"
  "dm_mem (gravity_cmd_process_create_shader c3 d) = dm_mem d"
  "dm_mem (gravity_cmd_process_create_depth_stencil c4 d) = dm_mem d"
  "dm_mem (gravity_cmd_process_create_render_pipeline c5 d) = dm_mem d"
  "dm_mem (gravity_cmd_process_cmdbuf_create V c6 d) = dm_mem d"
  using creations_mem [where m = "dm_mem d" and d = d, THEN arg_cong [where f = dm_mem]] by simp_all

lemma render_keeps_mem: "gravity_cmd_process_render hdr buf d = Some d' \<Longrightarrow> dm_mem d' = dm_mem d"
  using render_mem [of hdr buf "dm_mem d" d] by (cases d') (auto dest: arg_cong [where f = dm_mem])

lemma complete_mem:
  "dm_mem (dm_complete d bs) = snd (gravity_ring_comp_write (dm_ring d) (dm_mem d) bs (of_nat (length bs)))"
  by (simp add: dm_complete_def split: prod.split)

lemma commit_mem:
  "dm_mem (gravity_cmd_process_cmdbuf_commit cmd d) =
     (case dm_get d (cbm_handle cmd) of
        None \<Rightarrow> dm_mem d
      | Some i \<Rightarrow> if re_type (dm_entry d i) = GRAVITY_RES_CMDBUF then dm_mem (dm_complete d (completed_bytes cmd)) else dm_mem d)"
proof (cases "dm_get d (cbm_handle cmd)")
  case None
  then show ?thesis by (simp add: gravity_cmd_process_cmdbuf_commit_def)
next
  case (Some i)
  then show ?thesis
    by (cases "re_type (dm_entry d i) = GRAVITY_RES_CMDBUF")
      (simp add: commit_eq complete_mem Let_def, simp add: gravity_cmd_process_cmdbuf_commit_def)
qed

lemma process_mem:
  assumes "process_command V hdr buf d = Some d'"
  shows "case answer hdr buf d of
      Some bs \<Rightarrow> dm_mem d' = dm_mem (dm_complete d bs)
    | None \<Rightarrow> dm_mem d' = dm_mem d \<or> hdr_opcode hdr = gravity_cmd_op_val GRAVITY_CMD_CREATE_BUFFER \<and>
        uploads V (gravity_cmd_create_buffer_at buf 0) (dm_calls d') (dm_mem d) (dm_mem d')"
proof -
  let ?is = "\<lambda>c. hdr_opcode hdr = gravity_cmd_op_val c"
  consider "?is GRAVITY_CMD_HELLO" | "?is GRAVITY_CMD_PING" | "?is GRAVITY_CMD_CREATE_BUFFER" | "?is GRAVITY_CMD_CMDBUF_COMMIT"
    | "\<not> ?is GRAVITY_CMD_HELLO" "\<not> ?is GRAVITY_CMD_PING" "\<not> ?is GRAVITY_CMD_CREATE_BUFFER" "\<not> ?is GRAVITY_CMD_CMDBUF_COMMIT"
    by blast
  then show ?thesis
  proof cases
    case 3
    then show ?thesis
      using assms upload_place [of d V "gravity_cmd_create_buffer_at buf 0"]
      by (auto simp: process_command_def answer_def Let_def outcome_def)
  next
    case 4
    then show ?thesis using assms by (auto simp: process_command_def answer_def Let_def commit_mem split: option.split)
  next
    case 5
    then have "answer hdr buf d = None" by (simp add: answer_def)
    moreover have "dm_mem d' = dm_mem d"
      using assms 5 render_keeps_mem [of hdr buf d d']
      by (auto simp: process_command_def process_others_def Let_def dm_remove_def creations_keep_mem
          gravity_cmd_process_compute_def gravity_cmd_process_blit_def gravity_cmd_process_present_def
          gravity_cmd_process_resize_display_def simp del: gravity_cmd_op_val.simps split: if_split_asm)
    ultimately show ?thesis by simp
  qed (use assms in \<open>auto simp: process_command_def answer_def Let_def\<close>)
qed

section \<open>What the guest finds in the completion ring\<close>

lemma same_comp_frame:
  assumes "ring_ok ring" "\<And>a. a \<in> ring_area ring \<Longrightarrow> m' a = m a"
  shows "same_comp ring m m'"
proof -
  note b = ring_okD(3-5) [OF assms(1)]
  have "m' (comp_byte ring pos i) = m (comp_byte ring pos i)" for pos i
    using comp_byte_range [OF assms(1), of pos i] b by (intro assms(2)) (auto simp: ring_area_def)
  moreover have "get_hdr m' (rg_header ring) f = get_hdr m (rg_header ring) f" if "hdr_off f + 4 \<le> 64" for f
    unfolding get_hdr_def using b that by (intro ld32_cong assms(2)) (auto simp: ring_area_def)
  ultimately show ?thesis by (simp add: same_comp_def)
qed

definition delivered :: "gravity_ring \<Rightarrow> mem \<Rightarrow> u8 list option \<Rightarrow> u8 list" where
  "delivered ring m a = (case a of
     None \<Rightarrow> []
   | Some bs \<Rightarrow> if length (comp_contents ring m) + length bs < unat (rg_comp_ring_size ring) then bs else [])"

lemma process_answers:
  assumes ok: "ring_ok ring" "dm_ring d = ring" "maps_apart V ring"
    and small: "hdr_opcode hdr = gravity_cmd_op_val GRAVITY_CMD_CREATE_BUFFER \<Longrightarrow>
      unat (cb_data_size (gravity_cmd_create_buffer_at buf 0)) \<le> unat (cb_size (gravity_cmd_create_buffer_at buf 0))"
    and p: "process_command V hdr buf d = Some d'"
  shows "comp_contents ring (dm_mem d') = comp_contents ring (dm_mem d) @ delivered ring (dm_mem d) (answer hdr buf d)"
    "get_hdr (dm_mem d') (rg_header ring) rh_comp_head = get_hdr (dm_mem d) (rg_header ring) rh_comp_head"
proof -
  have "comp_contents ring (dm_mem d') = comp_contents ring (dm_mem d) @ delivered ring (dm_mem d) (answer hdr buf d) \<and>
    get_hdr (dm_mem d') (rg_header ring) rh_comp_head = get_hdr (dm_mem d) (rg_header ring) rh_comp_head"
  proof (cases "answer hdr buf d")
    case None
    have "dm_mem d' a = dm_mem d a" if "a \<in> ring_area ring" for a
      using process_mem [OF p] None small uploads_apart [OF ok(3) _ _ that, where cmd = "gravity_cmd_create_buffer_at buf 0"]
      by auto
    then have "same_comp ring (dm_mem d) (dm_mem d')" by (rule same_comp_frame [OF ok(1)])
    then show ?thesis using None same_comp_contents by (simp add: delivered_def same_comp_def)
  next
    case (Some bs)
    then have m: "dm_mem d' = dm_mem (dm_complete d bs)" using process_mem [OF p] by simp
    have "get_hdr (dm_mem (dm_complete d bs)) (rg_header ring) rh_comp_head = get_hdr (dm_mem d) (rg_header ring) rh_comp_head"
      unfolding get_hdr_def complete_mem ok(2) using ring_okD(3,4) [OF ok(1)]
      by (intro ld32_cong comp_write_frame [OF ok(1)]) simp_all
    then show ?thesis using complete_contents [of d bs] answer_short [OF Some] ok Some by (simp add: m delivered_def)
  qed
  then show "comp_contents ring (dm_mem d') = comp_contents ring (dm_mem d) @ delivered ring (dm_mem d) (answer hdr buf d)"
    "get_hdr (dm_mem d') (rg_header ring) rh_comp_head = get_hdr (dm_mem d) (rg_header ring) rh_comp_head" by simp_all
qed

text \<open>The answers to a sequence of commands handled one after the other.\<close>

fun answers :: "vulkan \<Rightarrow> u8 list list \<Rightarrow> mem \<Rightarrow> gravity_daemon \<Rightarrow> u8 list list" where
  "answers V [] buf d = []"
| "answers V (c # cs) buf d =
     (case answer (header_of c) (wr buf 0 c) d of None \<Rightarrow> [] | Some bs \<Rightarrow> [bs]) @
     (case process_command V (header_of c) (wr buf 0 c) d of
        None \<Rightarrow> []
      | Some d' \<Rightarrow> answers V cs (wr buf 0 c) (dm_consume d' (hdr_size (header_of c))))"

lemma answers_snoc:
  "process_all V cs buf d = Some (buf', d') \<Longrightarrow>
     answers V (cs @ [c]) buf d = answers V cs buf d @
       (case answer (header_of c) (wr buf' 0 c) d' of None \<Rightarrow> [] | Some bs \<Rightarrow> [bs])"
  by (induction cs arbitrary: buf d) (auto split: option.splits)

section \<open>Commands and completions together\<close>

text \<open>
  The guest's and the daemon's moves, and the accesses of the guest's \<^verbatim>\<open>gravity_ring_comp_read\<close>
  with a buffer of \<open>n\<close> bytes.  \<open>sp_sent\<close> of the completion side records what has been added to
  the completion ring.
\<close>

inductive serve_step ::
  "(u8 list \<Rightarrow> bool) \<Rightarrow> vulkan \<Rightarrow> gravity_ring \<Rightarrow> u32 \<Rightarrow> concurrent \<times> spsc \<Rightarrow> concurrent \<times> spsc \<Rightarrow> bool"
  for P :: "u8 list \<Rightarrow> bool" and V :: vulkan and ring :: gravity_ring and n :: u32 where
  writes:
    "guest_move P ring x y \<Longrightarrow> same_comp ring (sp_mem (cc_ring x)) (sp_mem (cc_ring y)) \<Longrightarrow>
     serve_step P V ring n (x, t) (y, t\<lparr>sp_mem := sp_mem (cc_ring y)\<rparr>)"
| reads:
    "comp_step ring n t t' \<Longrightarrow> sp_prod t' = sp_prod t \<Longrightarrow>
     serve_step P V ring n (x, t) (x\<lparr>cc_ring := (cc_ring x)\<lparr>sp_mem := sp_mem t'\<rparr>\<rparr>, t')"
| works:
    "daemon_move V ring x y \<Longrightarrow>
     serve_step P V ring n (x, t) (y, t\<lparr>sp_mem := sp_mem (cc_ring y), sp_sent := sp_sent t @
       drop (length (comp_contents ring (sp_mem (cc_ring x)))) (comp_contents ring (sp_mem (cc_ring y)))\<rparr>)"

definition handled :: "u8 list list \<Rightarrow> nat \<Rightarrow> concurrent \<Rightarrow> u8 list list" where
  "handled sent k x = take (if cc_done x then Suc k else k) sent"

text \<open>\<open>given\<close> are the answers that found room.\<close>

definition given_ok :: "gravity_ring \<Rightarrow> u8 list list \<Rightarrow> u8 list list \<Rightarrow> bool" where
  "given_ok ring as given \<longleftrightarrow> subseq given as \<and> (length (concat as) < unat (rg_comp_ring_size ring) \<longrightarrow> given = as)"

definition serve_inv ::
  "vulkan \<Rightarrow> gravity_ring \<Rightarrow> mem \<Rightarrow> gravity_daemon \<Rightarrow> u8 list list \<Rightarrow> nat \<Rightarrow> u8 list list \<Rightarrow> concurrent \<times> spsc \<Rightarrow> bool" where
  "serve_inv V ring buf d sent k given u \<longleftrightarrow>
     concurrent_inv V ring buf d sent k (fst u) \<and> sp_mem (snd u) = sp_mem (cc_ring (fst u)) \<and> comp_inv ring (snd u) \<and>
     sp_prod (snd u) = P_Idle \<and> sp_sent (snd u) = concat given \<and>
     given_ok ring (answers V (handled sent k (fst u)) buf d) given"

text \<open>What the daemon does besides processing leaves the completion ring alone.\<close>

lemma consume_same_comp:
  "ring_ok ring \<Longrightarrow> same_comp ring m (gravity_ring_cmd_consume ring m a)"
  by (simp add: same_comp_def gravity_ring_cmd_consume_def Let_def put_hdr_comp_byte mem_simps)

lemma comp_inv_published:
  assumes "comp_inv ring t" "sp_prod t = P_Idle" "comp_contents ring m = comp_contents ring (sp_mem t) @ bs"
    and "get_hdr m (rg_header ring) rh_comp_head = get_hdr (sp_mem t) (rg_header ring) rh_comp_head"
  shows "comp_inv ring (t\<lparr>sp_mem := m, sp_sent := sp_sent t @ bs\<rparr>)"
  using assms comp_consumer_inv_grow [of ring "t\<lparr>sp_mem := m, sp_sent := sp_sent t @ bs\<rparr>" t bs]
  by (simp add: comp_inv_def comp_producer_inv_def)

lemma given_more:
  assumes "given_ok ring as given" "length (comp_contents ring m) \<le> length (concat given)"
  shows "\<exists>given'. concat given' = concat given @ delivered ring m a \<and>
    given_ok ring (as @ (case a of None \<Rightarrow> [] | Some bs \<Rightarrow> [bs])) given'"
proof (cases a)
  case None
  then show ?thesis using assms(1) by (intro exI [of _ given]) (simp add: delivered_def)
next
  case (Some bs)
  show ?thesis
  proof (cases "length (comp_contents ring m) + length bs < unat (rg_comp_ring_size ring)")
    case True
    then show ?thesis using assms(1) Some
      by (intro exI [of _ "given @ [bs]"]) (auto simp: delivered_def given_ok_def list_emb_append_mono)
  next
    case False
    have "\<not> length (concat (as @ [bs])) < unat (rg_comp_ring_size ring)"
    proof
      assume l: "length (concat (as @ [bs])) < unat (rg_comp_ring_size ring)"
      then have "given = as" using assms(1) by (simp add: given_ok_def)
      then show False using l False assms(2) by simp
    qed
    then show ?thesis using assms(1) Some False
      by (intro exI [of _ given]) (auto simp: delivered_def given_ok_def intro: subseq_order.order_trans list_emb_append2 subseq_rev_drop_many)
  qed
qed

lemma handled_grows:
  assumes "concurrent_inv V ring buf d sent k x" "cc_done y = cc_done x"
  shows "handled (sent @ sent') k y = handled sent k x"
proof -
  have "k \<le> length sent" "cc_done x \<longrightarrow> k < length sent"
    using assms(1) have_next(1) [of ring sent k "cc_ring x"] by (auto simp: concurrent_inv_def commands_inv_def)
  then show ?thesis using assms(2) by (auto simp: handled_def)
qed

text \<open>The daemon's moves that leave the completion ring as it is.\<close>

lemma serve_inv_same:
  assumes inv: "serve_inv V ring buf d sent k given (x, t)" and next_inv: "concurrent_inv V ring buf d sent k' y"
    and h: "handled sent k' y = handled sent k x" and same: "same_comp ring (sp_mem (cc_ring x)) (sp_mem (cc_ring y))"
  shows "serve_inv V ring buf d sent k' given (y, t\<lparr>sp_mem := sp_mem (cc_ring y), sp_sent := sp_sent t @
    drop (length (comp_contents ring (sp_mem (cc_ring x)))) (comp_contents ring (sp_mem (cc_ring y)))\<rparr>)"
proof -
  have sent: "t\<lparr>sp_mem := m, sp_sent := concat given\<rparr> = t\<lparr>sp_mem := m\<rparr>" for m
    using inv by (cases t) (simp add: serve_inv_def)
  have "comp_inv ring (t\<lparr>sp_mem := sp_mem (cc_ring y)\<rparr>)"
    using inv same by (intro comp_inv_other) (auto simp: serve_inv_def)
  then have "comp_inv ring (t\<lparr>sp_mem := sp_mem (cc_ring y), sp_sent := concat given\<rparr>)" by (simp only: sent)
  then show ?thesis using inv next_inv h same_comp_contents [OF same] by (simp add: serve_inv_def)
qed

lemma serve_process:
  assumes ok: "ring_ok ring" and maps: "maps_apart V ring" and inv: "serve_inv V ring buf d sent k given (x, t)"
    and c: "sp_cons (cc_ring x) = C_Have sz b" "\<not> cc_done x"
    and p: "process_command V (gravity_cmd_header_at b 0) b (with_mem (sp_mem (cc_ring x)) (cc_daemon x)) = Some e"
  shows "\<exists>given'. serve_inv V ring buf d sent k given'
    (\<lparr>cc_ring = (cc_ring x)\<lparr>sp_mem := dm_mem e\<rparr>, cc_daemon = e, cc_done = True\<rparr>,
     t\<lparr>sp_mem := dm_mem e, sp_sent := sp_sent t @
       drop (length (comp_contents ring (sp_mem (cc_ring x)))) (comp_contents ring (dm_mem e))\<rparr>)"
proof -
  have ci: "concurrent_inv V ring buf d sent k x" and t: "sp_mem t = sp_mem (cc_ring x)" "comp_inv ring t" "sp_prod t = P_Idle"
    "sp_sent t = concat given" and given: "given_ok ring (answers V (handled sent k x) buf d) given"
    using inv by (simp_all add: serve_inv_def)
  have m: "commands_inv ring sent k (cc_ring x)" and dr: "dm_ring (cc_daemon x) = ring" using ci by (simp_all add: concurrent_inv_def)
  note nxt = have_next [OF m c(1)]
  let ?c = "sent ! k" and ?d = "with_mem (sp_mem (cc_ring x)) (cc_daemon x)"
  have w: "whole_command ?c" using ci nxt(1) by (simp add: concurrent_inv_def list_all_length)
  have "unat sz = length ?c" using arg_cong [OF nxt(2), of length] by simp
  note bytes = nxt(2) [unfolded this]
  let ?a = "answer (header_of ?c) b ?d"
  have effect: "comp_contents ring (dm_mem e) = comp_contents ring (sp_mem (cc_ring x)) @ delivered ring (sp_mem (cc_ring x)) ?a"
    "get_hdr (dm_mem e) (rg_header ring) rh_comp_head = get_hdr (sp_mem (cc_ring x)) (rg_header ring) rh_comp_head"
    using process_answers [OF ok _ maps _ p] whole_in_buffer(2) [OF w bytes] dr by (simp_all add: nxt(4))
  obtain buf' d' where all: "process_all V (handled sent k x) buf d = Some (buf', d')" and v: "gpu_view (cc_daemon x) = gpu_view d'"
    using ci by (auto simp: concurrent_inv_def handled_def)
  have "?a = answer (header_of ?c) (wr buf' 0 ?c) d'"
    using answer_local [OF front_agrees(1) [OF w bytes]] answer_view [of ?d d'] v by (simp add: view_push)
  then have as: "answers V (handled sent k x @ [?c]) buf d =
      answers V (handled sent k x) buf d @ (case ?a of None \<Rightarrow> [] | Some bs \<Rightarrow> [bs])"
    using answers_snoc [OF all] by simp
  have "length (comp_contents ring (sp_mem (cc_ring x))) \<le> length (concat given)"
    using t by (metis comp_inv_def length_append le_add2)
  from given_more [OF given this, of ?a] obtain given' where g:
    "concat given' = concat given @ delivered ring (sp_mem (cc_ring x)) ?a"
    "given_ok ring (answers V (handled sent k x @ [?c]) buf d) given'" unfolding as by blast
  have "comp_inv ring (t\<lparr>sp_mem := dm_mem e, sp_sent := sp_sent t @ delivered ring (sp_mem (cc_ring x)) ?a\<rparr>)"
    using effect t by (intro comp_inv_published) simp_all
  moreover have "handled sent k x @ [?c] = take (Suc k) sent"
    using c(2) nxt(1) by (simp add: handled_def take_Suc_conv_app_nth)
  ultimately show ?thesis
    using process_move_inv [OF ok maps ci c p] effect(1) g t by (intro exI [of _ given']) (simp add: serve_inv_def handled_def)
qed

lemma serve_step_inv:
  assumes ok: "ring_ok ring" and maps: "maps_apart V ring" and n: "16 \<le> unat n"
    and inv: "serve_inv V ring buf d sent k given u" and step: "serve_step whole_command V ring n u u'"
  shows "\<exists>sent' k' given'. serve_inv V ring buf d sent' k' given' u'"
  using step
proof cases
  case (writes x y t)
  have ci: "concurrent_inv V ring buf d sent k x" using inv writes(1) by (simp add: serve_inv_def)
  have "cc_done y = cc_done x" using writes(3) by (auto elim: guest_move.cases)
  note h = handled_grows [OF ci this]
  obtain sent' where "concurrent_inv V ring buf d (sent @ sent') k y" using guest_move_inv [OF ok ci writes(3)] by blast
  moreover have "comp_inv ring (t\<lparr>sp_mem := sp_mem (cc_ring y)\<rparr>)"
    using inv writes(1,4) by (intro comp_inv_other) (auto simp: serve_inv_def)
  ultimately have "serve_inv V ring buf d (sent @ sent') k given u'" using inv writes(1,2) h by (simp add: serve_inv_def)
  then show ?thesis by blast
next
  case (reads t t' x)
  have ci: "concurrent_inv V ring buf d sent k x" and t: "sp_mem t = sp_mem (cc_ring x)" "comp_inv ring t" "sp_prod t = P_Idle"
    using inv reads(1) by (simp_all add: serve_inv_def)
  let ?y = "x\<lparr>cc_ring := (cc_ring x)\<lparr>sp_mem := sp_mem t'\<rparr>\<rparr>"
  have "guest_move whole_command ring x ?y" using comp_step_same_cmd [OF ok reads(3)] t(1) by (intro elsewhere) simp
  from guest_move_inv [OF ok ci this] obtain sent' where "concurrent_inv V ring buf d (sent @ sent') k ?y" by blast
  moreover have "sp_sent t' = sp_sent t" using reads(3,4) t(3) by (cases rule: comp_step.cases) simp_all
  ultimately have "serve_inv V ring buf d (sent @ sent') k given u'"
    using inv reads(1,2,4) handled_grows [OF ci, of ?y] comp_step_inv [OF ok n reads(3) t(2)] by (simp add: serve_inv_def)
  then show ?thesis by blast
next
  case (works x y t)
  have inv: "serve_inv V ring buf d sent k given (x, t)" and ci: "concurrent_inv V ring buf d sent k x"
    using inv works(1) by (simp_all add: serve_inv_def)
  have m: "commands_inv ring sent k (cc_ring x)" using ci by (simp add: concurrent_inv_def)
  from works(3) show ?thesis
  proof cases
    case (peek s)
    have "concurrent_inv V ring buf d sent k y" unfolding peek(1) by (rule peek_move_inv [OF ok ci peek(2-4)])
    then have "serve_inv V ring buf d sent k given u'"
      unfolding works(2) using peek(1,2) cmd_step_same_comp [OF ok]
      by (intro serve_inv_same [OF inv]) (simp_all add: handled_def)
    then show ?thesis by blast
  next
    case (reject sz b)
    then show ?thesis using have_next(4,5) [OF m reject(2)] proper_valid by simp
  next
    case (process sz b e)
    then show ?thesis unfolding works(2) using serve_process [OF ok maps inv process(2,3,5)] by auto
  next
    case (consume sz b)
    have "concurrent_inv V ring buf d sent (Suc k) y" unfolding consume(1) by (rule consume_move_inv [OF ok ci consume(2,3)])
    then have "serve_inv V ring buf d sent (Suc k) given u'"
      unfolding works(2) using consume(1,3) consume_same_comp [OF ok]
      by (intro serve_inv_same [OF inv]) (simp_all add: handled_def)
    then show ?thesis by blast
  qed
qed

text \<open>
  C1: with both sides at work, every access to the command ring and every access of the guest to
  the completion ring interleaved, what the guest has read and what still waits in the completion
  ring are together answers to the commands handled so far, each whole and in the order of the
  commands.  None is missing as long as all of them together fit into the completion ring.
\<close>

theorem answers_in_order:
  assumes "ring_ok ring" "maps_apart V ring" "16 \<le> unat n" "dm_ring d = ring"
    and "cmd_contents ring (dm_mem d) = []" "comp_contents ring (dm_mem d) = []"
    and "(serve_step whole_command V ring n)\<^sup>*\<^sup>* (concurrent_start d, spsc_start (dm_mem d)) (x, t)"
  shows "\<exists>sent k given. list_all whole_command sent \<and> k \<le> length sent \<and>
     sp_sent (cc_ring x) = concat sent \<and> sp_got (cc_ring x) = concat (take k sent) \<and>
     sp_got t @ comp_contents ring (sp_mem t) = concat given \<and>
     subseq given (answers V (handled sent k x) (\<lambda>_. 0) d) \<and>
     (length (concat (answers V (handled sent k x) (\<lambda>_. 0) d)) < unat (rg_comp_ring_size ring) \<longrightarrow>
        given = answers V (handled sent k x) (\<lambda>_. 0) d)"
proof -
  have "serve_inv V ring (\<lambda>_. 0) d [] 0 [] (concurrent_start d, spsc_start (dm_mem d))"
    using concurrent_inv_start [OF assms(4,5)] assms(6)
    by (simp add: serve_inv_def concurrent_start_def spsc_start_def comp_inv_def comp_producer_inv_def
        comp_consumer_inv_def handled_def given_ok_def)
  with assms(7) have "\<exists>sent k given. serve_inv V ring (\<lambda>_. 0) d sent k given (x, t)"
    by (induction rule: rtranclp_induct) (blast intro: serve_step_inv [OF assms(1-3)])+
  then obtain sent k given where "serve_inv V ring (\<lambda>_. 0) d sent k given (x, t)" by blast
  then show ?thesis
    by (intro exI [of _ sent] exI [of _ k] exI [of _ given])
      (auto simp: serve_inv_def concurrent_inv_def commands_inv_def comp_inv_def given_ok_def)
qed

text \<open>The ping of the demonstration ring and its answer.\<close>

lemma serve_daemon_run:
  "(daemon_move V ring)\<^sup>*\<^sup>* x y \<Longrightarrow> \<exists>t'. (serve_step whole_command V ring n)\<^sup>*\<^sup>* (x, t) (y, t')"
proof (induction rule: rtranclp_induct)
  case (step y z)
  then show ?case by (blast intro: rtranclp.rtrancl_into_rtrancl works)
qed blast

lemma serve_access:
  "ring_ok ring \<Longrightarrow> guest_access whole_command ring s s' \<Longrightarrow>
     serve_step whole_command V ring n (x\<lparr>cc_ring := s\<rparr>, t\<lparr>sp_mem := sp_mem s\<rparr>) (x\<lparr>cc_ring := s'\<rparr>, t\<lparr>sp_mem := sp_mem s'\<rparr>)"
  using writes [OF access_move, of ring s s' x V n "t\<lparr>sp_mem := sp_mem s\<rparr>"] cmd_step_same_comp [of ring CMD_BUF_SIZE s s']
  by (simp add: guest_access_def)

theorem answers_in_order_witness:
  "\<exists>x t. (serve_step whole_command demo_vulkan demo_ring 64)\<^sup>*\<^sup>* (concurrent_start (demo_daemon demo_mem), spsc_start demo_mem) (x, t) \<and>
     sp_got (cc_ring x) = demo_ping 1 \<and>
     sp_got t @ comp_contents demo_ring (sp_mem t) = pong_bytes (header_of (demo_ping 1))"
proof -
  let ?d = "demo_daemon demo_mem" and ?x0 = "concurrent_start (demo_daemon demo_mem)" and ?t0 = "spsc_start demo_mem"
  let ?s = "spsc_start demo_mem\<lparr>sp_mem := snd (gravity_ring_cmd_write demo_ring demo_mem (demo_ping 1) 16), sp_sent := demo_ping 1\<rparr>"
  have e: "cmd_contents demo_ring demo_mem = []" "comp_contents demo_ring demo_mem = []" using demo_attach by simp_all
  have z: "fst (gravity_ring_cmd_write demo_ring demo_mem (demo_ping 1) (of_nat (length (demo_ping 1)))) = 0"
    using cmd_write_zero_iff [OF demo_ok, of demo_mem "demo_ping 1" 16] e by simp
  have "(guest_access whole_command demo_ring)\<^sup>*\<^sup>* (spsc_start demo_mem) ?s"
    using write_accesses [of "spsc_start demo_mem" "demo_ping 1" demo_ring] ping_whole z by (simp add: spsc_start_def)
  from lift_run [where f = "\<lambda>s. (?x0\<lparr>cc_ring := s\<rparr>, ?t0\<lparr>sp_mem := sp_mem s\<rparr>)" and R = "guest_access whole_command demo_ring"
      and M = "serve_step whole_command demo_vulkan demo_ring 64", OF serve_access [OF demo_ok] this]
  have w: "(serve_step whole_command demo_vulkan demo_ring 64)\<^sup>*\<^sup>* (?x0, ?t0) (demo_writing demo_mem, ?t0\<lparr>sp_mem := sp_mem ?s\<rparr>)"
    by (simp add: concurrent_start_def spsc_start_def demo_writing_def Let_def)
  obtain y where y: "(daemon_move demo_vulkan demo_ring)\<^sup>*\<^sup>* (demo_writing demo_mem) y" "\<not> cc_done y" "sp_got (cc_ring y) = demo_ping 1"
    using demo_served [OF e(1)] by blast
  obtain t where run: "(serve_step whole_command demo_vulkan demo_ring 64)\<^sup>*\<^sup>* (?x0, ?t0) (y, t)"
    using w serve_daemon_run [OF y(1)] by (meson rtranclp_trans)
  obtain sent k given where r: "list_all whole_command sent" "sp_got (cc_ring y) = concat (take k sent)"
    "sp_got t @ comp_contents demo_ring (sp_mem t) = concat given"
    "length (concat (answers demo_vulkan (handled sent k y) (\<lambda>_. 0) ?d)) < unat (rg_comp_ring_size demo_ring) \<longrightarrow>
       given = answers demo_vulkan (handled sent k y) (\<lambda>_. 0) ?d"
    using answers_in_order [OF demo_ok demo_apart _ _ _ _, of 64 ?d y t] e run by auto
  have "take k sent = [demo_ping 1]"
  proof (rule framing_unique)
    show "list_all proper_command (take k sent)" using r(1) by (auto simp: list_all_iff whole_command_def dest: in_set_takeD)
    show "list_all proper_command [demo_ping 1]" by simp
    show "concat (take k sent) = concat [demo_ping 1]" using r(2) y(3) by simp
  qed
  then have "answers demo_vulkan (handled sent k y) (\<lambda>_. 0) ?d = [pong_bytes (header_of (demo_ping 1))]"
    using y(2) by (simp add: handled_def answer_def gravity_cmd_init_def split: option.split)
  then show ?thesis using run y(3) r(3,4) by (intro exI [of _ y] exI [of _ t]) (simp add: pong_bytes_def)
qed

end
