(* ===== verification/Vk_Lifecycle.thy ===== *)
theory Vk_Lifecycle
  imports Vk_Device
begin

text \<open>
  The life of the objects \<^verbatim>\<open>gravity_vk_init\<close> creates (\<^verbatim>\<open>host-daemon/src/vk_device.c\<close>): instance, debug
  messenger, device, command pools, pipeline cache and descriptor pool.  Which of them are alive
  is read off the calls made and the driver's replies; \<open>gravity_vk_destroy\<close> destroys every one of
  them, in an order Vulkan allows.
\<close>

section \<open>Objects\<close>

text \<open>An object with its parent: pools and caches belong to a device, the messenger to an instance.\<close>

datatype setup_object =
    Instance_Obj u64 | Messenger_Obj u64 u64 | Device_Obj u64
  | Pool_Obj u64 u64 | Cache_Obj u64 u64 | Descriptors_Obj u64 u64

definition born :: "vk_reply \<Rightarrow> (u64 \<Rightarrow> setup_object) \<Rightarrow> setup_object set \<Rightarrow> setup_object set" where
  "born r f M = (if vr_result r = 0 then insert (f (vr_out r)) M else M)"

text \<open>What a call with reply \<open>r\<close> does to the objects alive.\<close>

fun setup_effect :: "vk_reply \<Rightarrow> vk_call \<Rightarrow> setup_object set \<Rightarrow> setup_object set" where
  "setup_effect r (Setup (vkCreateInstance v)) M = born r Instance_Obj M"
| "setup_effect r (Setup (vkCreateDebugUtilsMessenger i)) M = born r (Messenger_Obj i) M"
| "setup_effect r (Setup (vkCreateDevice p fs)) M = born r Device_Obj M"
| "setup_effect r (Setup (vkCreateCommandPool d f)) M = born r (Pool_Obj d) M"
| "setup_effect r (Setup (vkCreatePipelineCache d)) M = born r (Cache_Obj d) M"
| "setup_effect r (Setup (vkCreateDescriptorPool d)) M = born r (Descriptors_Obj d) M"
| "setup_effect r (Setup (vkDestroyDescriptorPool d h)) M = M - {Descriptors_Obj d h}"
| "setup_effect r (Setup (vkDestroyPipelineCache d h)) M = M - {Cache_Obj d h}"
| "setup_effect r (Setup (vkDestroyCommandPool d h)) M = M - {Pool_Obj d h}"
| "setup_effect r (Setup (vkDestroyDevice d)) M = M - {Device_Obj d}"
| "setup_effect r (Setup (vkDestroyDebugUtilsMessenger i h)) M = M - {Messenger_Obj i h}"
| "setup_effect r (Setup (vkDestroyInstance i)) M = M - {Instance_Obj i}"
| "setup_effect r c M = M"

text \<open>
  Vulkan's rules: what is destroyed is alive; a device goes after what was created from it, an
  instance after its messenger and after every device.
\<close>

definition of_device :: "u64 \<Rightarrow> setup_object set" where
  "of_device d = range (Pool_Obj d) \<union> range (Cache_Obj d) \<union> range (Descriptors_Obj d)"

fun allowed :: "vk_call \<Rightarrow> setup_object set \<Rightarrow> bool" where
  "allowed (Setup (vkDestroyDescriptorPool d h)) M \<longleftrightarrow> Descriptors_Obj d h \<in> M"
| "allowed (Setup (vkDestroyPipelineCache d h)) M \<longleftrightarrow> Cache_Obj d h \<in> M"
| "allowed (Setup (vkDestroyCommandPool d h)) M \<longleftrightarrow> Pool_Obj d h \<in> M"
| "allowed (Setup (vkDestroyDevice d)) M \<longleftrightarrow> Device_Obj d \<in> M \<and> of_device d \<inter> M = {}"
| "allowed (Setup (vkDestroyDebugUtilsMessenger i h)) M \<longleftrightarrow> Messenger_Obj i h \<in> M"
| "allowed (Setup (vkDestroyInstance i)) M \<longleftrightarrow>
     Instance_Obj i \<in> M \<and> (range (Messenger_Obj i) \<union> range Device_Obj) \<inter> M = {}"
| "allowed c M \<longleftrightarrow> True"

text \<open>The objects alive after more calls, and whether all of these were allowed.\<close>

fun setup_run :: "vulkan \<Rightarrow> vk_call list \<Rightarrow> vk_call list \<Rightarrow> setup_object set \<Rightarrow> bool \<times> setup_object set" where
  "setup_run V tr [] M = (True, M)"
| "setup_run V tr (c # cs) M =
     (let (ok, M') = setup_run V (tr @ [c]) cs (setup_effect (V tr c) c M) in (allowed c M \<and> ok, M'))"

definition setup_alive :: "vulkan \<Rightarrow> vk_call list \<Rightarrow> setup_object set" where
  "setup_alive V cs = snd (setup_run V [] cs {})"

definition orderly :: "vulkan \<Rightarrow> vk_call list \<Rightarrow> bool" where
  "orderly V cs \<longleftrightarrow> fst (setup_run V [] cs {})"

lemma setup_run_append:
  "setup_run V tr (cs @ cs') M =
     (let (ok, M') = setup_run V tr cs M; (ok', M'') = setup_run V (tr @ cs) cs' M' in (ok \<and> ok', M''))"
  by (induction cs arbitrary: tr M) (simp_all add: Let_def split_def)

lemma setup_facts [simp]:
  "setup_alive V [] = {}" "orderly V []"
  "setup_alive V (cs @ cs') = snd (setup_run V cs cs' (setup_alive V cs))"
  "orderly V (cs @ cs') \<longleftrightarrow> orderly V cs \<and> fst (setup_run V cs cs' (setup_alive V cs))"
  by (simp_all add: setup_alive_def orderly_def setup_run_append Let_def split_def)

text \<open>Calls that neither create nor destroy.\<close>

fun quiet :: "vk_call \<Rightarrow> bool" where
  "quiet (Setup (vkGetInstanceProcAddr i s)) \<longleftrightarrow> True"
| "quiet (Setup (vkEnumeratePhysicalDevices i n)) \<longleftrightarrow> True"
| "quiet (Setup (vkGetPhysicalDeviceProperties p)) \<longleftrightarrow> True"
| "quiet (Setup (vkGetPhysicalDeviceMemoryProperties p)) \<longleftrightarrow> True"
| "quiet (Setup (vkGetPhysicalDeviceFeatures p)) \<longleftrightarrow> True"
| "quiet (Setup (vkGetPhysicalDeviceQueueFamilyProperties p n)) \<longleftrightarrow> True"
| "quiet (Setup (vkGetDeviceQueue d f)) \<longleftrightarrow> True"
| "quiet (Setup (vkDeviceWaitIdle d)) \<longleftrightarrow> True"
| "quiet (Setup s) \<longleftrightarrow> False"
| "quiet c \<longleftrightarrow> True"

lemma quiet_run: "list_all quiet cs \<Longrightarrow> setup_run V tr cs M = (True, M)"
proof (induction cs arbitrary: tr)
  case (Cons c cs)
  then have "setup_effect (V tr c) c M = M" "allowed c M" by (cases c rule: quiet.cases; simp)+
  then show ?case using Cons by simp
qed simp

lemma pick_device_quiet:
  "pick_device V ds s f tr = (s', f', tr') \<Longrightarrow> \<exists>cs. tr' = tr @ cs \<and> list_all quiet cs"
proof (induction ds arbitrary: s f tr)
  case (Cons d ds)
  from Cons.prems obtain s1 f1 where
    "pick_device V ds s1 f1 (tr @ [Setup (vkGetPhysicalDeviceProperties d)]) = (s', f', tr')"
    by (simp add: vk_call_def Let_def)
  from Cons.IH [OF this] obtain cs where
    "tr' = (tr @ [Setup (vkGetPhysicalDeviceProperties d)]) @ cs" "list_all quiet cs" by blast
  then show ?case by (intro exI [of _ "Setup (vkGetPhysicalDeviceProperties d) # cs"]) simp
qed simp

section \<open>The driver\<close>

fun creates :: "vk_setup_call \<Rightarrow> bool" where
  "creates (vkCreateInstance v) \<longleftrightarrow> True"
| "creates (vkCreateDebugUtilsMessenger i) \<longleftrightarrow> True"
| "creates (vkCreateDevice p fs) \<longleftrightarrow> True"
| "creates (vkCreateCommandPool d f) \<longleftrightarrow> True"
| "creates (vkCreatePipelineCache d) \<longleftrightarrow> True"
| "creates (vkCreateDescriptorPool d) \<longleftrightarrow> True"
| "creates c \<longleftrightarrow> False"

text \<open>
  What Vulkan promises: a successful creation yields a handle that is not \<^verbatim>\<open>VK_NULL_HANDLE\<close>, a failed
  one \<^verbatim>\<open>VK_NULL_HANDLE\<close>; an instance that knows the one function of the debug extension knows the
  other.
\<close>

definition driver_handles :: "vulkan \<Rightarrow> bool" where
  "driver_handles V \<longleftrightarrow>
     (\<forall>tr c. creates c \<longrightarrow> (vr_out (V tr (Setup c)) = 0 \<longleftrightarrow> vr_result (V tr (Setup c)) \<noteq> 0)) \<and>
     (\<forall>tr tr' i. vr_out (V tr (Setup (vkGetInstanceProcAddr i ''vkCreateDebugUtilsMessengerEXT''))) \<noteq> 0 \<longrightarrow>
        vr_out (V tr' (Setup (vkGetInstanceProcAddr i ''vkDestroyDebugUtilsMessengerEXT''))) \<noteq> 0)"

lemma driver_handlesD:
  assumes "driver_handles V"
  shows "creates c \<Longrightarrow> vr_out (V tr (Setup c)) = 0 \<longleftrightarrow> vr_result (V tr (Setup c)) \<noteq> 0"
    "vr_out (V tr (Setup (vkGetInstanceProcAddr i ''vkCreateDebugUtilsMessengerEXT''))) \<noteq> 0 \<Longrightarrow>
       vr_out (V tr' (Setup (vkGetInstanceProcAddr i ''vkDestroyDebugUtilsMessengerEXT''))) \<noteq> 0"
  using assms by (auto simp: driver_handles_def)

section \<open>Initialisation\<close>

text \<open>The objects whose handles a state holds.\<close>

definition held :: "gravity_vk_state \<Rightarrow> setup_object set" where
  "held st = Instance_Obj ` ({vs_instance st} - {0}) \<union>
     Messenger_Obj (vs_instance st) ` ({vs_debug_messenger st} - {0}) \<union>
     Device_Obj ` ({vs_device st} - {0}) \<union>
     Pool_Obj (vs_device st) ` ({vs_graphics_cmd_pool st, vs_compute_cmd_pool st, vs_transfer_cmd_pool st} - {0}) \<union>
     Cache_Obj (vs_device st) ` ({vs_pipeline_cache st} - {0}) \<union>
     Descriptors_Obj (vs_device st) ` ({vs_descriptor_pool st} - {0})"

text \<open>What is alive is what the state holds, and a held messenger can be destroyed.\<close>

definition tracked :: "vulkan \<Rightarrow> gravity_vk_state \<Rightarrow> vk_call list \<Rightarrow> bool" where
  "tracked V st tr \<longleftrightarrow> setup_alive V tr = held st \<and> orderly V tr \<and> vs_instance st \<noteq> 0 \<and>
     (vs_debug_messenger st \<noteq> 0 \<longrightarrow> (\<forall>tr'. vr_out (V tr' (Setup (vkGetInstanceProcAddr (vs_instance st)
        ''vkDestroyDebugUtilsMessengerEXT''))) \<noteq> 0))"

definition no_device :: "gravity_vk_state \<Rightarrow> bool" where
  "no_device st \<longleftrightarrow> vs_device st = 0 \<and> vs_graphics_cmd_pool st = 0 \<and> vs_compute_cmd_pool st = 0 \<and>
     vs_transfer_cmd_pool st = 0 \<and> vs_pipeline_cache st = 0 \<and> vs_descriptor_pool st = 0"

definition device_only :: "gravity_vk_state \<Rightarrow> bool" where
  "device_only st \<longleftrightarrow> vs_device st \<noteq> 0 \<and> vs_graphics_cmd_pool st = 0 \<and> vs_compute_cmd_pool st = 0 \<and>
     vs_transfer_cmd_pool st = 0 \<and> vs_pipeline_cache st = 0 \<and> vs_descriptor_pool st = 0"

lemma instance_tracked:
  assumes V: "driver_handles V" and r: "create_instance V zero_vk_state validation [] = (r, st, tr)" "\<not> r < 0"
  shows "tracked V st tr \<and> no_device st"
proof -
  note d = driver_handlesD [OF V]
  have ok: "vr_result (V [] (Setup (vkCreateInstance validation))) = 0"
    using r by (auto simp: create_instance_def Let_def vk_call_def split: if_splits)
  have nz: "vr_out (V [] (Setup (vkCreateInstance validation))) \<noteq> 0" using d(1) ok by simp
  show ?thesis
    using r ok nz d
    by (auto simp: create_instance_def Let_def vk_call_def tracked_def no_device_def held_def zero_vk_state_def
        setup_alive_def orderly_def born_def split: if_splits)
qed

text \<open>The two stages that only ask.\<close>

lemma quiet_tracked:
  assumes "tracked V st tr \<and> no_device st" "list_all quiet cs" "tr' = tr @ cs"
    and "vs_instance st' = vs_instance st" "vs_debug_messenger st' = vs_debug_messenger st" "no_device st'"
  shows "tracked V st' tr' \<and> no_device st'"
  using assms quiet_run [OF assms(2)] by (simp add: tracked_def held_def no_device_def)

lemma select_tracked:
  assumes "select_physical_device V st tr = (r, st', tr')" "tracked V st tr \<and> no_device st"
  shows "tracked V st' tr' \<and> no_device st'"
proof -
  have "\<exists>cs. tr' = tr @ cs \<and> list_all quiet cs"
  proof (cases "vr_count (V tr (Setup (vkEnumeratePhysicalDevices (vs_instance st) None))) = 0")
    case True
    then show ?thesis using assms(1) by (auto simp: select_physical_device_def vk_call_def Let_def)
  next
    case False
    let ?c = "vr_count (V tr (Setup (vkEnumeratePhysicalDevices (vs_instance st) None)))"
    let ?ask = "[Setup (vkEnumeratePhysicalDevices (vs_instance st) None),
        Setup (vkEnumeratePhysicalDevices (vs_instance st) (Some ?c))]"
    obtain s f tr1 where p: "pick_device V (take (unat ?c) (vr_handles (V (tr @ [hd ?ask]) (last ?ask)))) 0 0 (tr @ ?ask) = (s, f, tr1)"
      by (metis prod.exhaust)
    then obtain cs where "tr1 = (tr @ ?ask) @ cs" "list_all quiet cs" using pick_device_quiet by blast
    then show ?thesis using assms(1) False p by (auto simp: select_physical_device_def vk_call_def vk_tell_def Let_def)
  qed
  moreover have "vs_instance st' = vs_instance st" "vs_debug_messenger st' = vs_debug_messenger st" "no_device st'"
    using assms by (auto simp: select_physical_device_def Let_def split_def no_device_def split: if_splits)
  ultimately show ?thesis using quiet_tracked [OF assms(2)] by blast
qed

lemma families_tracked:
  assumes "find_queue_families V st tr = (r, st', tr')" "tracked V st tr \<and> no_device st"
  shows "tracked V st' tr' \<and> no_device st'"
proof (rule quiet_tracked [OF assms(2)])
  let ?p = "vs_physical_device st"
  let ?first = "Setup (vkGetPhysicalDeviceQueueFamilyProperties ?p None)"
  show "tr' = tr @ [?first, Setup (vkGetPhysicalDeviceQueueFamilyProperties ?p (Some (vr_count (V tr ?first))))]"
    using assms(1) by (auto simp: find_queue_families_def vk_call_def Let_def split_def split: if_splits)
qed (use assms in \<open>auto simp: find_queue_families_def Let_def split_def no_device_def split: if_splits\<close>)

text \<open>The stages that create.\<close>

lemma device_tracked:
  assumes V: "driver_handles V" and r: "create_logical_device V st tr = (r, st', tr')" "\<not> r < 0"
    and inv: "tracked V st tr \<and> no_device st"
  shows "tracked V st' tr' \<and> device_only st'"
proof -
  let ?c = "Setup (vkCreateDevice (vs_physical_device st) (unique_families st))"
  have ok: "vr_result (V tr ?c) = 0"
    using r by (auto simp: create_logical_device_def Let_def split_def vk_call_def split: if_splits)
  then have nz: "vr_out (V tr ?c) \<noteq> 0" using driver_handlesD(1) [OF V] by simp
  have st': "vs_device st' = vr_out (V tr ?c)" "device_only st'" "vs_instance st' = vs_instance st"
    "vs_debug_messenger st' = vs_debug_messenger st"
    using r ok nz inv by (auto simp: create_logical_device_def Let_def split_def vk_call_def no_device_def device_only_def)
  then have "held st' = insert (Device_Obj (vr_out (V tr ?c))) (held st)"
    using inv nz by (auto simp: held_def no_device_def device_only_def)
  moreover obtain cs where "tr' = tr @ ?c # cs" "list_all quiet cs"
    using r ok by (auto simp: create_logical_device_def Let_def split_def vk_call_def)
  ultimately show ?thesis using inv st' quiet_run ok by (simp add: tracked_def born_def)
qed

text \<open>A pool or a cache that was created, and one whose creation failed and whose handle is null.\<close>

lemma created_tracked:
  assumes inv: "tracked V st tr"
    and effect: "setup_effect (V tr c) c (held st) = held st'" "allowed c (held st)"
    and same: "vs_instance st' = vs_instance st" "vs_debug_messenger st' = vs_debug_messenger st"
  shows "tracked V st' (tr @ [c])"
  using assms by (simp add: tracked_def)

lemma pools_tracked:
  assumes V: "driver_handles V" and r: "create_command_pools V st tr = (r, st', tr')" "\<not> r < 0"
    and inv: "tracked V st tr \<and> device_only st"
  shows "tracked V st' tr' \<and> vs_device st' \<noteq> 0 \<and> vs_pipeline_cache st' = 0 \<and> vs_descriptor_pool st' = 0"
proof -
  let ?c = "\<lambda>f. Setup (vkCreateCommandPool (vs_device st) f)"
  let ?g = "vs_graphics_queue_family st" and ?cf = "vs_compute_queue_family st" and ?t = "vs_transfer_queue_family st"
  have ok: "vr_result (V tr (?c ?g)) = 0" "vr_result (V (tr @ [?c ?g]) (?c ?cf)) = 0"
      "vr_result (V (tr @ [?c ?g, ?c ?cf]) (?c ?t)) = 0"
    and tr': "tr' = tr @ [?c ?g, ?c ?cf, ?c ?t]"
    and st': "st' = st\<lparr>vs_graphics_cmd_pool := vr_out (V tr (?c ?g)),
      vs_compute_cmd_pool := vr_out (V (tr @ [?c ?g]) (?c ?cf)),
      vs_transfer_cmd_pool := vr_out (V (tr @ [?c ?g, ?c ?cf]) (?c ?t))\<rparr>"
    using r by (auto simp: create_command_pools_def Let_def split_def vk_call_def split: if_splits)
  have nz: "vr_out (V tr (?c ?g)) \<noteq> 0" "vr_out (V (tr @ [?c ?g]) (?c ?cf)) \<noteq> 0"
      "vr_out (V (tr @ [?c ?g, ?c ?cf]) (?c ?t)) \<noteq> 0"
    using driver_handlesD(1) [OF V] ok by simp_all
  have "held st' = {Pool_Obj (vs_device st) (vr_out (V tr (?c ?g))),
      Pool_Obj (vs_device st) (vr_out (V (tr @ [?c ?g]) (?c ?cf))),
      Pool_Obj (vs_device st) (vr_out (V (tr @ [?c ?g, ?c ?cf]) (?c ?t)))} \<union> held st"
    using inv nz by (auto simp: held_def device_only_def st')
  then show ?thesis using inv ok by (simp add: tracked_def born_def tr' st' device_only_def insert_commute)
qed

lemma cache_tracked:
  assumes V: "driver_handles V" and r: "create_pipeline_cache V st tr = (r, st', tr')"
    and inv: "tracked V st tr \<and> vs_device st \<noteq> 0 \<and> vs_pipeline_cache st = 0 \<and> vs_descriptor_pool st = 0"
  shows "tracked V st' tr' \<and> vs_device st' \<noteq> 0 \<and> vs_descriptor_pool st' = 0"
proof -
  let ?c = "Setup (vkCreatePipelineCache (vs_device st))"
  have e: "tr' = tr @ [?c]" "st' = st\<lparr>vs_pipeline_cache := (if vr_result (V tr ?c) \<noteq> 0 then 0 else vr_out (V tr ?c))\<rparr>"
    using r by (simp_all add: create_pipeline_cache_def Let_def vk_call_def)
  have "setup_effect (V tr ?c) ?c (held st) = held st'"
    using inv driver_handlesD(1) [OF V, of "vkCreatePipelineCache (vs_device st)" tr]
    by (cases "vr_result (V tr ?c) = 0") (auto simp: held_def born_def e(2))
  then show ?thesis using created_tracked [of V st tr ?c st'] inv by (simp add: e)
qed

lemma descriptors_tracked:
  assumes V: "driver_handles V" and r: "create_descriptor_pool V st tr = (r, st', tr')"
    and inv: "tracked V st tr \<and> vs_device st \<noteq> 0 \<and> vs_descriptor_pool st = 0"
  shows "tracked V st' tr' \<and> vs_device st' \<noteq> 0"
proof -
  let ?c = "Setup (vkCreateDescriptorPool (vs_device st))"
  have e: "tr' = tr @ [?c]" "st' = st\<lparr>vs_descriptor_pool := (if vr_result (V tr ?c) \<noteq> 0 then 0 else vr_out (V tr ?c))\<rparr>"
    using r by (simp_all add: create_descriptor_pool_def Let_def vk_call_def)
  have "setup_effect (V tr ?c) ?c (held st) = held st'"
    using inv driver_handlesD(1) [OF V, of "vkCreateDescriptorPool (vs_device st)" tr]
    by (cases "vr_result (V tr ?c) = 0") (auto simp: held_def born_def e(2))
  then show ?thesis using created_tracked [of V st tr ?c st'] inv by (simp add: e)
qed

lemma tracked_unused [simp]:
  "tracked V (st\<lparr>vs_active_cmd_buf := a, vs_in_render_pass := b\<rparr>) tr = tracked V st tr"
  by (simp add: tracked_def held_def)

lemma stage_done:
  assumes "vk_stage stage rest st tr = (0, st', tr')"
  obtains r st1 tr1 where "stage st tr = (r, st1, tr1)" "\<not> r < 0" "rest st1 tr1 = (0, st', tr')"
  using assms by (auto simp: vk_stage_def Let_def split: prod.splits if_splits)

lemma init_tracked:
  assumes V: "driver_handles V" and init: "gravity_vk_init V st0 validation [] = (0, st, tr)"
  shows "tracked V st tr \<and> vs_device st \<noteq> 0"
proof -
  let ?finish = "\<lambda>st tr. (0 :: int, st\<lparr>vs_active_cmd_buf := 0, vs_in_render_pass := False\<rparr>, tr :: vk_call list)"
  obtain r1 st1 tr1 r2 st2 tr2 r3 st3 tr3 r4 st4 tr4 r5 st5 tr5 r6 st6 tr6 r7 st7 tr7
    where 1: "create_instance V zero_vk_state validation [] = (r1, st1, tr1)" "\<not> r1 < 0"
      and 2: "select_physical_device V st1 tr1 = (r2, st2, tr2)"
      and 3: "find_queue_families V st2 tr2 = (r3, st3, tr3)"
      and 4: "create_logical_device V st3 tr3 = (r4, st4, tr4)" "\<not> r4 < 0"
      and 5: "create_command_pools V st4 tr4 = (r5, st5, tr5)" "\<not> r5 < 0"
      and 6: "create_pipeline_cache V st5 tr5 = (r6, st6, tr6)"
      and 7: "create_descriptor_pool V st6 tr6 = (r7, st7, tr7)"
      and last: "?finish st7 tr7 = (0, st, tr)"
    using init unfolding gravity_vk_init_def by (elim stage_done) (rule that)
  note instance_tracked [OF V 1]
  note families_tracked [OF 3 select_tracked [OF 2 this]]
  note pools_tracked [OF V 5 device_tracked [OF V 4 this]]
  note descriptors_tracked [OF V 7 cache_tracked [OF V 6 this]]
  then show ?thesis using last by auto
qed

section \<open>Teardown\<close>

lemma gone_step:
  assumes "setup_alive V tr = M \<and> orderly V tr"
    and "\<And>r. P \<Longrightarrow> setup_effect r c M = M - {x}" "P \<Longrightarrow> allowed c M" "\<not> P \<Longrightarrow> x \<notin> M"
  shows "setup_alive V (if P then vk_tell tr c else tr) = M - {x} \<and> orderly V (if P then vk_tell tr c else tr)"
  using assms by (cases P) (simp_all add: vk_tell_def)

lemma destroy_gone:
  assumes inv: "tracked V st tr" and device: "vs_device st \<noteq> 0" and work: "list_all quiet work"
    and destroy: "gravity_vk_destroy V st (tr @ work) = (st', tr')"
  shows "setup_alive V tr' = {} \<and> orderly V tr' \<and> st' = zero_vk_state"
proof -
  define d g c t p k i m where "d = vs_device st" and "g = vs_graphics_cmd_pool st" and "c = vs_compute_cmd_pool st"
    and "t = vs_transfer_cmd_pool st" and "p = vs_descriptor_pool st" and "k = vs_pipeline_cache st"
    and "i = vs_instance st" and "m = vs_debug_messenger st"
  note defs = d_def g_def c_def t_def p_def k_def i_def m_def
  define t1 where "t1 = vk_tell (tr @ work) (Setup (vkDeviceWaitIdle d))"
  define t2 where "t2 = (if p \<noteq> 0 then vk_tell t1 (Setup (vkDestroyDescriptorPool d p)) else t1)"
  define t3 where "t3 = (if k \<noteq> 0 then vk_tell t2 (Setup (vkDestroyPipelineCache d k)) else t2)"
  define t4 where "t4 = (if g \<noteq> 0 then vk_tell t3 (Setup (vkDestroyCommandPool d g)) else t3)"
  define t5 where "t5 = (if c \<noteq> 0 \<and> c \<noteq> g then vk_tell t4 (Setup (vkDestroyCommandPool d c)) else t4)"
  define t6 where "t6 = (if t \<noteq> 0 \<and> t \<noteq> g \<and> t \<noteq> c then vk_tell t5 (Setup (vkDestroyCommandPool d t)) else t5)"
  define t7 where "t7 = vk_tell t6 (Setup (vkDestroyDevice d))"
  define ask where "ask = Setup (vkGetInstanceProcAddr i ''vkDestroyDebugUtilsMessengerEXT'')"
  define t8 where "t8 = (if m \<noteq> 0 then vk_tell t7 ask else t7)"
  define t9 where "t9 = (if m \<noteq> 0 then vk_tell t8 (Setup (vkDestroyDebugUtilsMessenger i m)) else t8)"
  define M where "M = held st"
  have found: "m \<noteq> 0 \<Longrightarrow> vr_out (V t7 ask) \<noteq> 0" and i: "i \<noteq> 0"
    using inv by (simp_all add: tracked_def ask_def i_def m_def)
  have e: "gravity_vk_destroy V st (tr @ work) = (zero_vk_state,
      vk_tell (if m \<noteq> 0 then case vk_call V t7 ask of (f, tr) \<Rightarrow>
          if vr_out f \<noteq> 0 then vk_tell tr (Setup (vkDestroyDebugUtilsMessenger i m)) else tr
        else t7) (Setup (vkDestroyInstance i)))"
    unfolding gravity_vk_destroy_def Let_def t7_def t6_def t5_def t4_def t3_def t2_def t1_def ask_def defs if_not_P [OF device]
    by (rule refl)
  have tr': "tr' = vk_tell t9 (Setup (vkDestroyInstance i))" "st' = zero_vk_state"
    using e destroy found by (cases "m = 0", simp_all add: t9_def t8_def vk_call_def vk_tell_def)
  have held: "M = Instance_Obj ` ({i} - {0}) \<union> Messenger_Obj i ` ({m} - {0}) \<union> Device_Obj ` ({d} - {0}) \<union>
     Pool_Obj d ` ({g, c, t} - {0}) \<union> Cache_Obj d ` ({k} - {0}) \<union> Descriptors_Obj d ` ({p} - {0})"
    by (simp add: M_def held_def defs)
  define M2 where "M2 = M - {Descriptors_Obj d p}"
  define M3 where "M3 = M2 - {Cache_Obj d k}"
  define M4 where "M4 = M3 - {Pool_Obj d g}"
  define M5 where "M5 = M4 - {Pool_Obj d c}"
  define M6 where "M6 = M5 - {Pool_Obj d t}"
  note Ms = M6_def M5_def M4_def M3_def M2_def held
  have left: "M6 = Instance_Obj ` ({i} - {0}) \<union> Messenger_Obj i ` ({m} - {0}) \<union> Device_Obj ` ({d} - {0})"
    unfolding Ms by auto
  have 1: "setup_alive V t1 = M \<and> orderly V t1"
    using inv quiet_run [OF work] by (simp add: tracked_def t1_def vk_tell_def M_def setup_run_append)
  have 2: "setup_alive V t2 = M2 \<and> orderly V t2"
    unfolding t2_def M2_def by (rule gone_step [OF 1]) (auto simp: held)
  have 3: "setup_alive V t3 = M3 \<and> orderly V t3"
    unfolding t3_def M3_def by (rule gone_step [OF 2]) (auto simp: Ms)
  have 4: "setup_alive V t4 = M4 \<and> orderly V t4"
    unfolding t4_def M4_def by (rule gone_step [OF 3]) (auto simp: Ms)
  have 5: "setup_alive V t5 = M5 \<and> orderly V t5"
    unfolding t5_def M5_def by (rule gone_step [OF 4]) (auto simp: Ms)
  have 6: "setup_alive V t6 = M6 \<and> orderly V t6"
    unfolding t6_def M6_def by (rule gone_step [OF 5]) (auto simp: Ms)
  have 7: "setup_alive V t7 = M6 - {Device_Obj d} \<and> orderly V t7"
    using 6 device by (auto simp: t7_def vk_tell_def left of_device_def d_def)
  have 8: "setup_alive V t8 = M6 - {Device_Obj d} \<and> orderly V t8"
    using 7 by (simp add: t8_def vk_tell_def ask_def)
  have 9: "setup_alive V t9 = M6 - {Device_Obj d} - {Messenger_Obj i m} \<and> orderly V t9"
    unfolding t9_def by (rule gone_step [OF 8]) (auto simp: left)
  have "M6 - {Device_Obj d} - {Messenger_Obj i m} = {Instance_Obj i}" using i by (auto simp: left)
  then show ?thesis using 9 by (auto simp: tr' vk_tell_def)
qed



text \<open>
  An initialisation that finds no device leaves its instance alive, and the teardown, which looks
  for a device first, would leave it too.
\<close>

lemma failed_init_leaves_instance:
  assumes "vr_result (V [] (Setup (vkCreateInstance False))) = 0"
    and "i = vr_out (V [] (Setup (vkCreateInstance False)))"
    and "vr_count (V [Setup (vkCreateInstance False)] (Setup (vkEnumeratePhysicalDevices i None))) = 0"
  shows "\<exists>st tr. gravity_vk_init V st0 False [] = (- 1, st, tr) \<and> gravity_vk_destroy V st tr = (st, tr) \<and>
     setup_alive V tr = {Instance_Obj i}"
  using assms
  by (simp add: gravity_vk_init_def vk_stage_def create_instance_def select_physical_device_def vk_call_def Let_def
      gravity_vk_destroy_def zero_vk_state_def setup_alive_def born_def)

end
