(* ===== verification/Handle_Types.thy ===== *)
theory Handle_Types
  imports Daemon_Life
begin

text \<open>
  Types of handles.  The tracker keeps every resource in one union, and most handlers of
  \<^verbatim>\<open>cmd_processor.c\<close> read the member they need without looking at the type of the entry.  The
  theory says what that costs: commands whose handles have the type the handler takes for granted
  keep every Vulkan call within the objects that are alive, and one whose handle has another type
  overwrites a member of that type.
\<close>

section \<open>Objects a call names\<close>

text \<open>\<^verbatim>\<open>VK_NULL_HANDLE\<close> as an image view of an attachment stands for no attachment.\<close>

definition view_use :: "u64 \<Rightarrow> gpu_object set" where
  "view_use v = (if v = 0 then {} else {View_Obj v})"

fun call_uses :: "vk_call \<Rightarrow> gpu_object set" where
  "call_uses (Res (vkGetBufferMemoryRequirements dev b)) = {Buffer_Obj b}"
| "call_uses (Res (vkBindBufferMemory dev b m)) = {Buffer_Obj b, Memory_Obj m}"
| "call_uses (Res (vkDestroyBuffer dev b)) = {Buffer_Obj b}"
| "call_uses (Res (vkMapMemory dev m sz)) = {Memory_Obj m}"
| "call_uses (Res (vkFreeMemory dev m)) = {Memory_Obj m}"
| "call_uses (Res (vkGetImageMemoryRequirements dev im)) = {Image_Obj im}"
| "call_uses (Res (vkBindImageMemory dev im m)) = {Image_Obj im, Memory_Obj m}"
| "call_uses (Res (vkDestroyImage dev im)) = {Image_Obj im}"
| "call_uses (Res (vkCreateImageView dev info)) = {Image_Obj (iv_image info)}"
| "call_uses (Res (vkDestroyImageView dev v)) = {View_Obj v}"
| "call_uses (Res (vkDestroySampler dev s)) = {Sampler_Obj s}"
| "call_uses (Res (vkDestroyFence dev f)) = {Fence_Obj f}"
| "call_uses (Cmd (vkFreeCommandBuffers dev pool cb)) = {Cmdbuf_Obj cb}"
| "call_uses (Cmd (vkBeginCommandBuffer cb)) = {Cmdbuf_Obj cb}"
| "call_uses (Cmd (vkEndCommandBuffer cb)) = {Cmdbuf_Obj cb}"
| "call_uses (Cmd (vkResetCommandBuffer cb)) = {Cmdbuf_Obj cb}"
| "call_uses (Cmd (vkQueueSubmit q cb f)) = {Cmdbuf_Obj cb, Fence_Obj f}"
| "call_uses (Cmd (vkWaitForFences dev f)) = {Fence_Obj f}"
| "call_uses (Cmd (vkResetFences dev f)) = {Fence_Obj f}"
| "call_uses (Cmd (vkCmdPipelineBarrier cb b)) = {Cmdbuf_Obj cb, Image_Obj (ib_image b)}"
| "call_uses (Cmd (vkCmdBeginRendering cb info)) = {Cmdbuf_Obj cb} \<union>
     (\<Union>a\<in>set (ri_color info). view_use (ka_image_view a)) \<union>
     (case ri_depth info of None \<Rightarrow> {} | Some a \<Rightarrow> view_use (kd_image_view a))"
| "call_uses (Cmd (vkCmdEndRendering cb)) = {Cmdbuf_Obj cb}"
| "call_uses (Cmd (vkCmdSetViewport cb v)) = {Cmdbuf_Obj cb}"
| "call_uses (Cmd (vkCmdSetScissor cb r)) = {Cmdbuf_Obj cb}"
| "call_uses (Cmd (vkCmdBindVertexBuffers cb i b off)) = {Cmdbuf_Obj cb, Buffer_Obj b}"
| "call_uses (Cmd (vkCmdBindIndexBuffer cb b off ty)) = {Cmdbuf_Obj cb, Buffer_Obj b}"
| "call_uses (Cmd (vkCmdDraw cb n i s b)) = {Cmdbuf_Obj cb}"
| "call_uses (Cmd (vkCmdDrawIndexed cb n)) = {Cmdbuf_Obj cb}"
| "call_uses c = {}"

fun safe_rev :: "vulkan \<Rightarrow> vk_call list \<Rightarrow> bool" where
  "safe_rev V [] = True"
| "safe_rev V (c # cs) = (safe_rev V cs \<and> call_uses c \<subseteq> set_mset (alive_rev V cs))"

text \<open>Each call names only objects alive after the calls before it.\<close>

definition safe_calls :: "vulkan \<Rightarrow> vk_call list \<Rightarrow> bool" where
  "safe_calls V cs = safe_rev V (rev cs)"

lemma safe_snoc [simp]:
  "safe_calls V (cs @ [c]) \<longleftrightarrow> safe_calls V cs \<and> call_uses c \<subseteq> set_mset (alive V cs)"
  by (simp add: safe_calls_def alive_def)

lemma safe_Nil [simp]: "safe_calls V []"
  by (simp add: safe_calls_def)

lemma safe_calls_nth:
  "safe_calls V cs \<Longrightarrow> k < length cs \<Longrightarrow> call_uses (cs ! k) \<subseteq> set_mset (alive V (take k cs))"
proof (induction cs rule: rev_induct)
  case (snoc c cs)
  then show ?case by (cases "k < length cs") (auto simp: nth_append)
qed simp

lemma safe_tell:
  "safe_calls V (dm_calls (dm_tell d c)) \<longleftrightarrow>
     safe_calls V (dm_calls d) \<and> call_uses c \<subseteq> set_mset (alive V (dm_calls d))"
  by (simp add: dm_tell_def)

section \<open>What the entries hold is alive\<close>

definition holdings :: "gravity_daemon \<Rightarrow> gpu_object multiset" where
  "holdings d = (\<Sum>i\<in>live (dm_tracker d). owned (dm_entry d i))"

definition typed_ok :: "vulkan \<Rightarrow> gravity_daemon \<Rightarrow> bool" where
  "typed_ok V d \<longleftrightarrow> safe_calls V (dm_calls d) \<and> holdings d \<subseteq># alive V (dm_calls d)"

lemma owned_alive:
  assumes "typed_ok V d" "i \<in> live (dm_tracker d)" "x \<in># owned (dm_entry d i)"
  shows "x \<in># alive V (dm_calls d)"
proof -
  have "owned (dm_entry d i) \<subseteq># holdings d"
    unfolding holdings_def using assms(2) by (subst sum.remove [of _ i]) auto
  then show ?thesis using assms(1,3) unfolding typed_ok_def by (meson mset_subset_eqD)
qed

text \<open>What the handlers use: a handle, if it is known, names an entry of the type expected.\<close>

definition has_type :: "gravity_daemon \<Rightarrow> u32 \<Rightarrow> gravity_resource_type \<Rightarrow> bool" where
  "has_type d h ty \<longleftrightarrow> (\<forall>i. dm_get d h = Some i \<longrightarrow> re_type (dm_entry d i) = ty)"

lemma known_live: "daemon_ok d \<Longrightarrow> dm_get d h = Some i \<Longrightarrow> i \<in> live (dm_tracker d)"
  using get_live [of "dm_tracker d" h i] by (auto simp: daemon_ok_def dm_get_def)

lemma typed_alive:
  assumes "daemon_ok d" "typed_ok V d" "dm_get d h = Some i"
  shows "re_type (dm_entry d i) = GRAVITY_RES_CMDBUF \<Longrightarrow>
      Cmdbuf_Obj (get_res64 (dm_entry d i) cmdbuf_cmd_buf) \<in># alive V (dm_calls d) \<and>
      Fence_Obj (get_res64 (dm_entry d i) cmdbuf_fence) \<in># alive V (dm_calls d)"
    and "re_type (dm_entry d i) = GRAVITY_RES_BUFFER \<Longrightarrow>
      Buffer_Obj (get_res64 (dm_entry d i) buffer_buffer) \<in># alive V (dm_calls d)"
    and "re_type (dm_entry d i) = GRAVITY_RES_TEXTURE \<Longrightarrow>
      Image_Obj (get_res64 (dm_entry d i) texture_image) \<in># alive V (dm_calls d) \<and>
      View_Obj (get_res64 (dm_entry d i) texture_image_view) \<in># alive V (dm_calls d)"
  using owned_alive [OF assms(2) known_live [OF assms(1,3)]] by (simp_all add: owned_def)

section \<open>Creations\<close>

lemma outcome_safe_call:
  assumes "\<And>r tr d'. alive V (dm_calls d') = call_effect r c (alive V (dm_calls d)) \<Longrightarrow> r = V tr c \<Longrightarrow>
      safe_calls V (dm_calls d') = (safe_calls V (dm_calls d) \<and> call_uses c \<subseteq> set_mset (alive V (dm_calls d))) \<Longrightarrow>
      outcome Q (F r d')"
  shows "outcome Q (Let (dm_call V d c) (case_prod F))"
  using assms by (simp add: dm_call_def alive_snoc)

lemma outcome_safe_nested:
  assumes "\<And>r tr d'. alive V (dm_calls d') = call_effect r c (alive V (dm_calls d)) \<Longrightarrow> r = V tr c \<Longrightarrow>
      safe_calls V (dm_calls d') = (safe_calls V (dm_calls d) \<and> call_uses c \<subseteq> set_mset (alive V (dm_calls d))) \<Longrightarrow>
      outcome Q (F (G r d'))"
  shows "outcome Q (Let (Let (dm_call V d c) (case_prod G)) F)"
  using assms by (simp add: dm_call_def Let_def alive_snoc)

lemmas safe_rules = outcome_safe_call outcome_add outcome_safe_nested outcome_let_if outcome_let outcome_if outcome_option

lemma sampler_safe:
  "safe_calls V (dm_calls d) \<Longrightarrow>
     outcome (\<lambda>d'. safe_calls V (dm_calls d')) (gravity_cmd_process_create_sampler V cmd d)"
  unfolding gravity_cmd_process_create_sampler_def
  by (intro safe_rules) (simp_all add: outcome_def safe_tell made_def)

lemma buffer_safe:
  "safe_calls V (dm_calls d) \<Longrightarrow>
     outcome (\<lambda>d'. safe_calls V (dm_calls d')) (gravity_cmd_process_create_buffer V cmd d)"
  unfolding gravity_cmd_process_create_buffer_def
  by (intro safe_rules) (simp_all add: outcome_def safe_tell made_def)

lemma texture_safe:
  "safe_calls V (dm_calls d) \<Longrightarrow>
     outcome (\<lambda>d'. safe_calls V (dm_calls d')) (gravity_cmd_process_create_texture V cmd d)"
  unfolding gravity_cmd_process_create_texture_def
  by (intro safe_rules) (simp_all add: outcome_def safe_tell made_def)

lemma cmdbuf_safe:
  "safe_calls V (dm_calls d) \<Longrightarrow>
     outcome (\<lambda>d'. safe_calls V (dm_calls d')) (gravity_cmd_process_cmdbuf_create V cmd d)"
  unfolding gravity_cmd_process_cmdbuf_create_def
  by (intro safe_rules) (simp_all add: outcome_def safe_tell made_def)

text \<open>Shaders, depth-stencil states and pipelines hold no object the model follows.\<close>

lemma plain_outcomes:
  "outcome (all_or_nothing V (csh_handle c1) GRAVITY_RES_SHADER d) (gravity_cmd_process_create_shader c1 d)"
  "outcome (all_or_nothing V (cds_handle c2) GRAVITY_RES_DEPTH_STENCIL d) (gravity_cmd_process_create_depth_stencil c2 d)"
  "outcome (all_or_nothing V (crp_handle c3) GRAVITY_RES_RENDER_PIPELINE d) (gravity_cmd_process_create_render_pipeline c3 d)"
  unfolding gravity_cmd_process_create_shader_def gravity_cmd_process_create_depth_stencil_def
    gravity_cmd_process_create_render_pipeline_def
  by (intro outcome_rules; simp add: outcome_simps union_simps)+

lemma plain_calls:
  "dm_calls (gravity_cmd_process_create_shader c1 d) = dm_calls d"
  "dm_calls (gravity_cmd_process_create_depth_stencil c2 d) = dm_calls d"
  "dm_calls (gravity_cmd_process_create_render_pipeline c3 d) = dm_calls d"
  by (simp_all add: gravity_cmd_process_create_shader_def gravity_cmd_process_create_depth_stencil_def
      gravity_cmd_process_create_render_pipeline_def dm_add_def Let_def split: prod.split option.split)

lemma added_holdings:
  assumes "trk_ok (dm_tracker d)" "all_or_nothing V h ty d d'"
  shows "holdings d \<subseteq># alive V (dm_calls d) \<Longrightarrow> holdings d' \<subseteq># alive V (dm_calls d')"
  using assms(2) unfolding all_or_nothing_def
proof (elim disjE exE conjE)
  assume "dm_tracker d' = dm_tracker d" "alive V (dm_calls d') = alive V (dm_calls d)"
  then show "holdings d \<subseteq># alive V (dm_calls d) \<Longrightarrow> holdings d' \<subseteq># alive V (dm_calls d')"
    by (simp add: holdings_def dm_entry_def)
next
  fix i
  assume h: "holdings d \<subseteq># alive V (dm_calls d)"
    and add: "fst (gravity_resource_tracker_add (dm_tracker d) h ty) = Some i"
    and i: "re_in_use (dm_entry d' i)" and same: "\<forall>j. j \<noteq> i \<longrightarrow> dm_entry d' j = dm_entry d j"
    and alive: "alive V (dm_calls d') = alive V (dm_calls d) + owned (dm_entry d' i)"
  obtain fl where fl: "trk_inv (dm_tracker d) fl" using assms(1) by (auto simp: trk_ok_def)
  have "h \<noteq> 0" "gravity_resource_tracker_get (dm_tracker d) h = None" "rt_free_head (dm_tracker d) \<noteq> UINT32_MAX"
    using add add_refused [of h "dm_tracker d" ty] by (metis fst_conv option.distinct(1))+
  then obtain fl' where fl': "trk_inv (dm_tracker d) (i # fl')"
    using free_head_cases [OF fl] add add_taken [of "dm_tracker d" _ _ h ty] fl by (metis fst_conv option.inject)
  have new: "i < 65536" "i \<notin> live (dm_tracker d)" using trk_invD(1-3) [OF fl'] by auto
  have "live (dm_tracker d') = insert i (live (dm_tracker d))"
    using new i same by (auto simp: live_def dm_entry_def)
  then have "holdings d' = holdings d + owned (dm_entry d' i)"
    using new same by (auto simp: holdings_def add.commute intro!: sum.cong)
  then show "holdings d' \<subseteq># alive V (dm_calls d')" using h alive by simp
qed

lemma typed_creation:
  assumes "daemon_ok d" "typed_ok V d" "outcome (all_or_nothing V h ty d) d'"
    and "safe_calls V (dm_calls d) \<Longrightarrow> safe_calls V (dm_calls d')"
  shows "typed_ok V d'"
  using assms added_holdings [of d V h ty d'] by (auto simp: typed_ok_def daemon_ok_def outcome_def)

lemma typed_creations:
  assumes "daemon_ok d" "typed_ok V d"
  shows "typed_ok V (gravity_cmd_process_create_buffer V c1 d)" "typed_ok V (gravity_cmd_process_create_texture V c2 d)"
    "typed_ok V (gravity_cmd_process_create_sampler V c3 d)" "typed_ok V (gravity_cmd_process_cmdbuf_create V c4 d)"
    "typed_ok V (gravity_cmd_process_create_shader c5 d)" "typed_ok V (gravity_cmd_process_create_depth_stencil c6 d)"
    "typed_ok V (gravity_cmd_process_create_render_pipeline c7 d)"
  using typed_creation [OF assms buffer_outcome] typed_creation [OF assms texture_outcome]
    typed_creation [OF assms sampler_outcome] typed_creation [OF assms cmdbuf_outcome]
    typed_creation [OF assms plain_outcomes(1)] typed_creation [OF assms plain_outcomes(2)]
    typed_creation [OF assms plain_outcomes(3)]
    buffer_safe [of V d c1] texture_safe [of V d c2] sampler_safe [of V d c3] cmdbuf_safe [of V d c4]
  by (simp_all add: outcome_def plain_calls)

section \<open>Commands on resources\<close>

text \<open>Changes of a union that leave the objects an entry holds.\<close>

definition keeps_owned :: "nat \<Rightarrow> (gravity_resource_entry \<Rightarrow> gravity_resource_entry) \<Rightarrow> gravity_daemon \<Rightarrow> bool" where
  "keeps_owned i f d \<longleftrightarrow> union_only f \<and> owned (f (dm_entry d i)) = owned (dm_entry d i)"

lemma live_update: "union_only f \<Longrightarrow> live (dm_tracker (dm_update i f d)) = live (dm_tracker d)"
  using update_shape [of f d i] by (auto simp: same_shape_def live_def)

lemma holdings_update: "keeps_owned i f d \<Longrightarrow> holdings (dm_update i f d) = holdings d"
  unfolding holdings_def by (auto simp: keeps_owned_def live_update union_simps intro!: sum.cong)

lemma typed_update: "keeps_owned i f d \<Longrightarrow> typed_ok V (dm_update i f d) = typed_ok V d"
  by (simp add: typed_ok_def holdings_update)

text \<open>Calls that make and free nothing.\<close>

lemma typed_tell:
  "call_effect (V (dm_calls d) c) c = (\<lambda>M. M) \<Longrightarrow> call_uses c \<subseteq> set_mset (alive V (dm_calls d)) \<Longrightarrow>
     typed_ok V d \<Longrightarrow> typed_ok V (dm_tell d c)"
  by (simp add: typed_ok_def safe_tell holdings_def)

lemma alive_update [simp]: "alive V (dm_calls (dm_update i f d)) = alive V (dm_calls d)"
  by simp

lemma type_update: "union_only f \<Longrightarrow> re_type (dm_entry (dm_update i f d) j) = re_type (dm_entry d j)"
  by (simp add: union_simps union_only_sel)

lemma has_type_keeps [simp]:
  "has_type (dm_tell d c) h ty = has_type d h ty"
  "union_only f \<Longrightarrow> has_type (dm_update i f d) h ty = has_type d h ty"
  by (simp_all add: has_type_def type_update)

lemma keeps_put:
  "re_type (dm_entry d i) = GRAVITY_RES_CMDBUF \<Longrightarrow> keeps_owned i (put_resb cmdbuf_in_render_pass b) d"
  "re_type (dm_entry d i) = GRAVITY_RES_CMDBUF \<Longrightarrow> keeps_owned i (put_resb cmdbuf_recording b) d"
  "re_type (dm_entry d i) = GRAVITY_RES_TEXTURE \<Longrightarrow> keeps_owned i (put_res32 texture_current_layout v) d"
  by (simp_all add: keeps_owned_def union_intros owned_def union_simps)

lemma typed_complete [simp]: "typed_ok V (dm_complete d bs) = typed_ok V d"
  by (simp add: typed_ok_def holdings_def)

lemma typed_mem [simp]: "typed_ok V (d\<lparr>dm_mem := m\<rparr>) = typed_ok V d"
  by (simp add: typed_ok_def holdings_def dm_entry_def)

lemma typed_commit:
  assumes "daemon_ok d" "typed_ok V d"
  shows "typed_ok V (gravity_cmd_process_cmdbuf_commit cmd d)"
proof (cases "dm_get d (cbm_handle cmd)")
  case (Some i)
  show ?thesis
  proof (cases "re_type (dm_entry d i) = GRAVITY_RES_CMDBUF")
    case True
    then show ?thesis
      using assms(2) typed_alive(1) [OF assms Some True]
      by (auto simp: commit_eq [OF Some True] Let_def typed_update keeps_put intro!: typed_tell)
  qed (use assms Some in \<open>simp add: gravity_cmd_process_cmdbuf_commit_def\<close>)
qed (use assms in \<open>simp add: gravity_cmd_process_cmdbuf_commit_def\<close>)

lemma typed_remove:
  assumes "daemon_ok d" "typed_ok V d"
  shows "typed_ok V (dm_remove d h)"
proof (cases "gravity_resource_tracker_get (dm_tracker d) h")
  case None
  then show ?thesis using assms(2) by (simp add: dm_remove_def remove_nothing)
next
  case (Some i)
  then obtain fl s where t: "trk_inv (dm_tracker d) fl" and s: "h \<noteq> 0" "reaches (dm_tracker d) h s"
      "i = unat (rt_hash_table (dm_tracker d) s)"
    using assms(1) by (auto simp: daemon_ok_def trk_ok_def get_Some)
  let ?d = "dm_remove d h"
  have l: "live (dm_tracker ?d) = live (dm_tracker d) - {i}"
    using remove_inv(2) [OF t s(1,2)] s(3) by (simp add: dm_remove_def)
  have "owned (dm_entry ?d j) = owned (dm_entry d j)" if "j \<noteq> i" for j
    using that remove_found [OF s(1,2)] s(3) by (simp add: dm_remove_def dm_entry_def Let_def)
  then have "holdings ?d = (\<Sum>j\<in>live (dm_tracker d) - {i}. owned (dm_entry d j))"
    unfolding holdings_def l by (intro sum.cong) auto
  also have "\<dots> \<subseteq># holdings d"
    unfolding holdings_def by (cases "i \<in> live (dm_tracker d)") (simp_all add: sum.remove [of _ i])
  finally show ?thesis
    using assms(2) by (auto simp: typed_ok_def dm_remove_def)
qed

section \<open>Render commands\<close>

text \<open>What the rounds of the attachment loop keep.\<close>

lemma typed_color_step:
  assumes "daemon_ok d" "typed_ok V d" "dm_get d h = Some cb" "re_type (dm_entry d cb) = GRAVITY_RES_CMDBUF"
    and "has_type d (caa_texture ca) GRAVITY_RES_TEXTURE"
  shows "typed_ok V (snd (color_step cb ca d))"
    and "alive V (dm_calls (snd (color_step cb ca d))) = alive V (dm_calls d)"
    and "view_use (ka_image_view (fst (color_step cb ca d))) \<subseteq> set_mset (alive V (dm_calls d))"
    and "re_type (dm_entry (snd (color_step cb ca d)) j) = re_type (dm_entry d j)"
    and "dm_get (snd (color_step cb ca d)) k = dm_get d k"
    and "has_type (snd (color_step cb ca d)) k ty = has_type d k ty"
proof -
  have tex: "re_type (dm_entry d t) = GRAVITY_RES_TEXTURE" if "dm_get d (caa_texture ca) = Some t" for t
    using assms(5) that by (simp add: has_type_def)
  note a = typed_alive(1) [OF assms(1-4)] typed_alive(3) [OF assms(1,2) _ tex]
  show "typed_ok V (snd (color_step cb ca d))"
    using assms(2) a tex by (auto simp: color_step_def Let_def typed_update keeps_put intro!: typed_tell split: option.split)
  show "alive V (dm_calls (snd (color_step cb ca d))) = alive V (dm_calls d)"
    by (simp add: color_step_def Let_def split: option.split)
  show "view_use (ka_image_view (fst (color_step cb ca d))) \<subseteq> set_mset (alive V (dm_calls d))"
    using a by (auto simp: color_step_def Let_def view_use_def split: option.split)
  show "re_type (dm_entry (snd (color_step cb ca d)) j) = re_type (dm_entry d j)"
    "dm_get (snd (color_step cb ca d)) k = dm_get d k"
    "has_type (snd (color_step cb ca d)) k ty = has_type d k ty"
    by (simp_all add: color_step_def Let_def type_update union_intros split: option.split)
qed

lemma typed_color_loop:
  assumes "daemon_ok d" "typed_ok V d" "dm_get d h = Some cb" "re_type (dm_entry d cb) = GRAVITY_RES_CMDBUF"
    and "\<forall>ca\<in>set cas. has_type d (caa_texture ca) GRAVITY_RES_TEXTURE"
  shows "typed_ok V (snd (color_loop cb cas d)) \<and>
    alive V (dm_calls (snd (color_loop cb cas d))) = alive V (dm_calls d) \<and>
    (\<forall>att\<in>set (fst (color_loop cb cas d)). view_use (ka_image_view att) \<subseteq> set_mset (alive V (dm_calls d))) \<and>
    re_type (dm_entry (snd (color_loop cb cas d)) cb) = GRAVITY_RES_CMDBUF \<and>
    dm_get (snd (color_loop cb cas d)) h = Some cb \<and>
    (\<forall>k ty. has_type (snd (color_loop cb cas d)) k ty = has_type d k ty)"
  using assms
proof (induction cas arbitrary: d)
  case (Cons ca cas)
  let ?d = "snd (color_step cb ca d)"
  note one = typed_color_step [OF Cons.prems(1-4), of ca]
  have ty: "has_type d (caa_texture ca) GRAVITY_RES_TEXTURE" using Cons.prems(5) by simp
  have ok: "daemon_ok ?d" using ok.color_step [OF Cons.prems(1)] .
  have IH: "typed_ok V (snd (color_loop cb cas ?d)) \<and>
    alive V (dm_calls (snd (color_loop cb cas ?d))) = alive V (dm_calls ?d) \<and>
    (\<forall>att\<in>set (fst (color_loop cb cas ?d)). view_use (ka_image_view att) \<subseteq> set_mset (alive V (dm_calls ?d))) \<and>
    re_type (dm_entry (snd (color_loop cb cas ?d)) cb) = GRAVITY_RES_CMDBUF \<and>
    dm_get (snd (color_loop cb cas ?d)) h = Some cb \<and>
    (\<forall>k ty. has_type (snd (color_loop cb cas ?d)) k ty = has_type ?d k ty)"
    using Cons.prems(3-5) by (intro Cons.IH ok one(1) ty) (simp_all add: one(4-6) ty)
  then show ?case using one(3) [OF ty] by (simp add: Let_def split_def one(2,6) ty)
qed simp

lemma typed_render_begin:
  assumes ok: "daemon_ok d" "typed_ok V d" and d': "process_render_begin cmd d = Some d'"
    and cb: "has_type d (rb_cmdbuf cmd) GRAVITY_RES_CMDBUF"
    and cas: "\<forall>ca\<in>set (take (unat (rb_num_color_attachments cmd)) (rb_color_attachments cmd)).
      has_type d (caa_texture ca) GRAVITY_RES_TEXTURE"
    and da: "has_type d (daa_texture (rb_depth_attachment cmd)) GRAVITY_RES_TEXTURE"
  shows "typed_ok V d'"
proof (cases "dm_get d (rb_cmdbuf cmd)")
  case None
  then show ?thesis using d' ok by (simp add: process_render_begin_def)
next
  case (Some i)
  let ?cas = "take (unat (rb_num_color_attachments cmd)) (rb_color_attachments cmd)"
  let ?e = "snd (color_loop i ?cas d)" and ?da = "rb_depth_attachment cmd"
  have i: "re_type (dm_entry d i) = GRAVITY_RES_CMDBUF" using cb Some by (simp add: has_type_def)
  note loop = typed_color_loop [OF ok Some i cas]
  have e: "daemon_ok ?e" by (rule ok.color_loop [OF ok(1)])
  have buf: "Cmdbuf_Obj (get_res64 (dm_entry ?e i) cmdbuf_cmd_buf) \<in># alive V (dm_calls ?e)"
    using typed_alive(1) [OF e, of V "rb_cmdbuf cmd" i] loop by blast
  have depth: "View_Obj (get_res64 (dm_entry ?e t) texture_image_view) \<in># alive V (dm_calls ?e)"
    if "dm_get ?e (daa_texture ?da) = Some t" for t
  proof -
    have "has_type ?e (daa_texture ?da) GRAVITY_RES_TEXTURE" using loop da by blast
    then show ?thesis
      using typed_alive(3) [OF e, of V "daa_texture ?da" t] loop that by (simp add: has_type_def)
  qed
  obtain info where d'': "d' = dm_update i (put_resb cmdbuf_in_render_pass True)
        (dm_tell ?e (Cmd (vkCmdBeginRendering (get_res64 (dm_entry ?e i) cmdbuf_cmd_buf) info)))"
    and info: "ri_color info = fst (color_loop i ?cas d)"
      "ri_depth info = None \<or> (\<exists>t a. dm_get ?e (daa_texture ?da) = Some t \<and> ri_depth info = Some a \<and>
         kd_image_view a = get_res64 (dm_entry ?e t) texture_image_view)"
    using d' Some by (auto simp: process_render_begin_def Let_def split_def split: if_splits option.splits)
  have uses: "call_uses (Cmd (vkCmdBeginRendering (get_res64 (dm_entry ?e i) cmdbuf_cmd_buf) info)) \<subseteq>
      set_mset (alive V (dm_calls ?e))"
    using loop buf depth info by (auto simp: view_use_def split: if_splits)
  have "typed_ok V (dm_tell ?e (Cmd (vkCmdBeginRendering (get_res64 (dm_entry ?e i) cmdbuf_cmd_buf) info)))"
    by (rule typed_tell [OF _ uses]) (use loop in simp_all)
  then show ?thesis using loop unfolding d'' by (subst typed_update) (auto intro: keeps_put)
qed

lemma typed_render_others:
  assumes "daemon_ok d" "typed_ok V d"
  shows "has_type d (re_cmdbuf c1) GRAVITY_RES_CMDBUF \<Longrightarrow> typed_ok V (process_render_end c1 d)"
    "has_type d (svp_cmdbuf c2) GRAVITY_RES_CMDBUF \<Longrightarrow> typed_ok V (process_set_viewport c2 d)"
    "has_type d (ssc_cmdbuf c3) GRAVITY_RES_CMDBUF \<Longrightarrow> typed_ok V (process_set_scissor c3 d)"
    "has_type d (svb_cmdbuf c4) GRAVITY_RES_CMDBUF \<Longrightarrow> has_type d (svb_buffer c4) GRAVITY_RES_BUFFER \<Longrightarrow>
       typed_ok V (process_set_vertex_buffer c4 d)"
    "has_type d (drw_cmdbuf c5) GRAVITY_RES_CMDBUF \<Longrightarrow> typed_ok V (process_draw c5 d)"
    "has_type d (rdx_cmdbuf c6) GRAVITY_RES_CMDBUF \<Longrightarrow> has_type d (rdx_index_buffer c6) GRAVITY_RES_BUFFER \<Longrightarrow>
       typed_ok V (process_draw_indexed c6 d)"
    "has_type d (rdi_cmdbuf c7) GRAVITY_RES_CMDBUF \<Longrightarrow> typed_ok V (process_draw_instanced c7 d)"
  using assms(2) typed_alive(1,2) [OF assms]
  by (auto simp: has_type_def process_render_end_def process_set_viewport_def process_set_scissor_def
      process_set_vertex_buffer_def process_draw_def process_draw_indexed_def process_draw_instanced_def
      Let_def typed_update keeps_put intro!: typed_tell split: option.split)

section \<open>Well-typed commands\<close>

text \<open>Each handle a command names is unknown or has the type the handler takes for granted.\<close>

definition well_typed :: "gravity_cmd_header \<Rightarrow> mem \<Rightarrow> gravity_daemon \<Rightarrow> bool" where
  "well_typed hdr buf d =
     (let is = (\<lambda>c. hdr_opcode hdr = gravity_cmd_op_val c);
          cmdbuf = has_type d (ld32 buf 16) GRAVITY_RES_CMDBUF
      in if is GRAVITY_CMD_RENDER_BEGIN
         then let c = gravity_cmd_render_begin_at buf 0
              in cmdbuf \<and> has_type d (daa_texture (rb_depth_attachment c)) GRAVITY_RES_TEXTURE \<and>
                 (\<forall>ca\<in>set (take (unat (rb_num_color_attachments c)) (rb_color_attachments c)).
                    has_type d (caa_texture ca) GRAVITY_RES_TEXTURE)
         else if is GRAVITY_CMD_RENDER_SET_VERTEX_BUFFER
         then cmdbuf \<and> has_type d (svb_buffer (gravity_cmd_render_set_vertex_buffer_at buf 0)) GRAVITY_RES_BUFFER
         else if is GRAVITY_CMD_RENDER_DRAW_INDEXED
         then cmdbuf \<and> has_type d (rdx_index_buffer (gravity_cmd_render_draw_indexed_at buf 0)) GRAVITY_RES_BUFFER
         else if is GRAVITY_CMD_RENDER_END \<or> is GRAVITY_CMD_RENDER_SET_VIEWPORT \<or> is GRAVITY_CMD_RENDER_SET_SCISSOR \<or>
                 is GRAVITY_CMD_RENDER_DRAW \<or> is GRAVITY_CMD_RENDER_DRAW_INSTANCED
         then cmdbuf
         else True)"

text \<open>The first handle of a render command is that of its command buffer.\<close>

lemma cmdbuf_field [simp]:
  "rb_cmdbuf (gravity_cmd_render_begin_at buf 0) = ld32 buf 16"
  "re_cmdbuf (gravity_cmd_render_end_at buf 0) = ld32 buf 16"
  "svp_cmdbuf (gravity_cmd_render_set_viewport_at buf 0) = ld32 buf 16"
  "ssc_cmdbuf (gravity_cmd_render_set_scissor_at buf 0) = ld32 buf 16"
  "svb_cmdbuf (gravity_cmd_render_set_vertex_buffer_at buf 0) = ld32 buf 16"
  "drw_cmdbuf (gravity_cmd_render_draw_at buf 0) = ld32 buf 16"
  "rdx_cmdbuf (gravity_cmd_render_draw_indexed_at buf 0) = ld32 buf 16"
  "rdi_cmdbuf (gravity_cmd_render_draw_instanced_at buf 0) = ld32 buf 16"
  by (simp_all add: gravity_cmd_render_begin_at_def gravity_cmd_render_end_at_def
      gravity_cmd_render_set_viewport_at_def gravity_cmd_render_set_scissor_at_def
      gravity_cmd_render_set_vertex_buffer_at_def gravity_cmd_render_draw_at_def
      gravity_cmd_render_draw_indexed_at_def gravity_cmd_render_draw_instanced_at_def)

lemma typed_render:
  assumes "daemon_ok d" "typed_ok V d" "well_typed hdr buf d" "gravity_cmd_process_render hdr buf d = Some d'"
  shows "typed_ok V d'"
  using assms(2-4) typed_render_begin [OF assms(1,2), of "gravity_cmd_render_begin_at buf 0" d']
    typed_render_others [OF assms(1,2)]
  by (auto simp: gravity_cmd_process_render_def well_typed_def Let_def simp del: gravity_cmd_op_val.simps
      split: if_split_asm)

lemma typed_process:
  assumes "daemon_ok d" "typed_ok V d" "well_typed hdr buf d" "process_command V hdr buf d = Some d'"
  shows "typed_ok V d'"
  using assms(2,4) typed_render [OF assms(1-3)] typed_creations [OF assms(1,2)] typed_remove [OF assms(1,2)]
    typed_commit [OF assms(1,2)]
  by (auto simp: process_command_def process_others_def Let_def gravity_cmd_process_compute_def gravity_cmd_process_blit_def
      gravity_cmd_process_present_def gravity_cmd_process_resize_display_def
      simp del: gravity_cmd_op_val.simps split: if_split_asm)

section \<open>Runs of the daemon\<close>

text \<open>Initialising Vulkan only makes set-up calls.\<close>

definition setup_only :: "vk_call list \<Rightarrow> bool" where
  "setup_only cs \<longleftrightarrow> (\<forall>c\<in>set cs. \<exists>s. c = Setup s)"

lemma setup_only_simps [simp]:
  "setup_only []" "setup_only (c # cs) \<longleftrightarrow> (\<exists>s. c = Setup s) \<and> setup_only cs"
  "setup_only (cs @ cs') \<longleftrightarrow> setup_only cs \<and> setup_only cs'"
  by (auto simp: setup_only_def)

lemma setup_stage:
  assumes "\<And>st tr. setup_only tr \<Longrightarrow> setup_only (snd (snd (stage st tr)))"
    and "\<And>st tr. setup_only tr \<Longrightarrow> setup_only (snd (snd (rest st tr)))" and "setup_only tr"
  shows "setup_only (snd (snd (vk_stage stage rest st tr)))"
  using assms(1) [OF assms(3), of st] assms(2) by (cases "stage st tr") (simp add: vk_stage_def)

lemma setup_pick: "setup_only tr \<Longrightarrow> setup_only (snd (snd (pick_device V ds s f tr)))"
  by (induction ds arbitrary: s f tr) (simp_all add: vk_call_def Let_def)

lemma setup_stages:
  assumes "setup_only tr"
  shows "setup_only (snd (snd (create_instance V st v tr)))" "setup_only (snd (snd (select_physical_device V st tr)))"
    "setup_only (snd (snd (find_queue_families V st tr)))" "setup_only (snd (snd (create_logical_device V st tr)))"
    "setup_only (snd (snd (create_command_pools V st tr)))" "setup_only (snd (snd (create_pipeline_cache V st tr)))"
    "setup_only (snd (snd (create_descriptor_pool V st tr)))"
  using assms setup_pick
  by (simp_all add: create_instance_def select_physical_device_def find_queue_families_def create_logical_device_def
      create_command_pools_def create_pipeline_cache_def create_descriptor_pool_def vk_call_def vk_tell_def Let_def
      split_def)

lemma setup_init: "setup_only (snd (snd (gravity_vk_init V st v [])))"
  unfolding gravity_vk_init_def by (intro setup_stage setup_stages) simp_all

lemma setup_alive: "setup_only cs \<Longrightarrow> alive V cs = {#} \<and> safe_calls V cs"
proof (induction cs rule: rev_induct)
  case (snoc c cs)
  then obtain s where "c = Setup s" by auto
  then show ?case using snoc by (simp add: alive_snoc)
qed (simp add: alive_def)

lemma start_typed:
  assumes "gravityd_start os V cfg m buf vk tk = Some (Inr (shmem, s), tr)"
  shows "typed_ok V (lp_daemon s) \<and> daemon_ok (lp_daemon s) \<and>
    rg_cmd_ring_size (dm_ring (lp_daemon s)) = 0x400000 \<and> cmd_contents (dm_ring (lp_daemon s)) (dm_mem (lp_daemon s)) = []"
proof -
  obtain p tr0 where o: "open_shared_memory os cfg [] = (p, tr0)" by fastforce
  let ?tot = "ucast (cfg_shmem_size cfg) :: u32" and ?init = "gravity_vk_init V vk (cfg_validation cfg) []"
  have large: "\<not> unat ?tot \<le> 64 + 0x400000 + 0x40000"
    using assms init_host_small [of ?tot m "nat p"] by (auto simp: gravityd_start_def o split: if_splits)
  then obtain m' where m': "gravity_ring_init_host m (nat p) ?tot (4 * 1024 * 1024) (256 * 1024) = Some (0, m')"
      "gravity_ring_attach m' (nat p) = Some (init_ring (nat p) ?tot 0x400000 0x40000)"
      "cmd_contents (init_ring (nat p) ?tot 0x400000 0x40000) m' = []"
    using init_host_large [of ?tot m "nat p"] by auto
  have ring: "ring_ok (init_ring (nat p) ?tot 0x400000 0x40000)"
      "rg_cmd_ring_size (init_ring (nat p) ?tot 0x400000 0x40000) = 0x400000"
    by (rule init_ring_ok [OF default_ring_sizes], simp add: init_ring_def)
  have "lp_daemon s = \<lparr>dm_vk = fst (snd ?init), dm_tracker = gravity_resource_tracker_init tk,
      dm_ring = init_ring (nat p) ?tot 0x400000 0x40000, dm_mem = m', dm_calls = snd (snd ?init)\<rparr>"
    using assms m' by (auto simp: gravityd_start_def o split_def split: if_splits)
  then show ?thesis
    using setup_alive [OF setup_init [of V vk "cfg_validation cfg"], of V] ring m'(3)
    by (simp add: typed_ok_def holdings_def daemon_ok_def)
qed

text \<open>The command at the front of the ring, if the loop is about to process one, is well typed.\<close>

definition front_typed :: "loop_state \<Rightarrow> bool" where
  "front_typed s =
     (case gravity_ring_cmd_peek (dm_ring (lp_daemon s)) (dm_mem (lp_daemon s)) (lp_buf s) CMD_BUF_SIZE of
        (found, buf) \<Rightarrow>
          found \<longrightarrow> gravity_cmd_validate (Some (gravity_cmd_header_at buf 0)) (ucast CMD_BUF_SIZE) < 0 \<or>
            well_typed (gravity_cmd_header_at buf 0) buf (lp_daemon s))"

fun typed_run :: "vulkan \<Rightarrow> (mem \<Rightarrow> mem) list \<Rightarrow> loop_state \<Rightarrow> bool" where
  "typed_run V [] s = True"
| "typed_run V (g # gs) s =
     (front_typed (guest_acts g s) \<and>
      (case loop_step V (guest_acts g s) of None \<Rightarrow> True | Some s' \<Rightarrow> typed_run V gs s'))"

lemma typed_consume [simp]: "typed_ok V (dm_consume d n) = typed_ok V d"
  by (simp add: dm_consume_def)

lemma typed_loop_step:
  assumes "daemon_ok (lp_daemon s)" "typed_ok V (lp_daemon s)" "front_typed s" "loop_step V s = Some s'"
  shows "typed_ok V (lp_daemon s')"
  using assms(2-4) typed_process [OF assms(1,2)]
  by (auto simp: loop_step_def front_typed_def Let_def split: prod.splits bool.splits if_splits option.splits)

lemma typed_command_loop:
  assumes "daemon_ok (lp_daemon s)" "typed_ok V (lp_daemon s)" "typed_run V gs s" "command_loop V gs s = Some s'"
  shows "typed_ok V (lp_daemon s')"
  using assms
proof (induction gs arbitrary: s)
  case (Cons g gs)
  let ?s = "guest_acts g s"
  obtain s1 where s1: "loop_step V ?s = Some s1" "command_loop V gs s1 = Some s'"
    using Cons.prems(4) by (auto split: option.splits)
  have ok: "daemon_ok (lp_daemon ?s)" "typed_ok V (lp_daemon ?s)"
    using Cons.prems(1,2) by (simp_all add: guest_acts_def)
  show ?case
    using Cons.prems(3) s1 ok.loop_step [OF ok(1) s1(1)] typed_loop_step [OF ok _ s1(1)]
    by (intro Cons.IH [of s1]) simp_all
qed simp

text \<open>
  C6: handles are type safe for well-typed guests: from the start of the daemon on, as long as
  every command the loop processes names only unknown handles or handles of the type its handler
  expects, each Vulkan call names only objects the calls before it have made and not freed, and
  what the entries of the tracker hold is alive.  Between the iterations the guest may write
  anything anywhere in the shared memory.
\<close>

theorem typed_runs_safe:
  assumes "gravityd_start os V cfg m buf vk tk = Some (Inr (shmem, s), tr)"
    and "typed_run V gs s" "command_loop V gs s = Some s'"
  shows "(\<forall>k<length (dm_calls (lp_daemon s')).
      call_uses (dm_calls (lp_daemon s') ! k) \<subseteq> set_mset (alive V (take k (dm_calls (lp_daemon s'))))) \<and>
    holdings (lp_daemon s') \<subseteq># alive V (dm_calls (lp_daemon s'))"
  using typed_command_loop [OF _ _ assms(2,3)] start_typed [OF assms(1)] safe_calls_nth
  by (auto simp: typed_ok_def)

lemma demo_started:
  "\<exists>s tr. gravityd_start demo_os demo_vulkan config_defaults (\<lambda>_. 0) (\<lambda>_. 0) zero_vk_state zero_tracker =
     Some (Inr (0x1000, s), tr)"
proof -
  have o: "open_shared_memory demo_os config_defaults [] =
      (0x1000, [shm_open ''/gravity-gpu'' False, ftruncate 3 0x20000000, mmap 3 0x20000000, close_fd 3])"
    by (simp add: open_shared_memory_def demo_os_def Let_def MAP_FAILED_def config_defaults_def)
  have cfg: "cfg_shmem_size config_defaults = 0x20000000" "\<not> cfg_validation config_defaults"
    by (simp_all add: config_defaults_def)
  obtain vks vcalls where v: "gravity_vk_init demo_vulkan zero_vk_state False [] = (0, vks, vcalls)"
    using demo_vk_init by (metis prod.collapse)
  show ?thesis
    using init_host_large [where tot = "0x20000000" and m = "\<lambda>_. 0" and base = "0x1000"]
    by (auto simp: gravityd_start_def o v cfg)
qed

text \<open>
  After that start the guest hands over a command to create a sampler, of which only the header is
  there: its handle reads as 0, the tracker takes no entry and the new sampler is destroyed again.
\<close>

definition demo_sampler :: "u8 list" where
  "demo_sampler = gravity_cmd_header_bytes (gravity_cmd_init (gravity_cmd_op_val GRAVITY_CMD_CREATE_SAMPLER) 16 1)"

lemma demo_sampler_facts [simp]:
  "length demo_sampler = 16" "proper_command demo_sampler"
  "hdr_opcode (header_of demo_sampler) = gravity_cmd_op_val GRAVITY_CMD_CREATE_SAMPLER"
  by (simp_all add: demo_sampler_def proper_command_def framed_def gravity_cmd_init_def)

lemma demo_iteration:
  assumes "daemon_ok (lp_daemon s)" "rg_cmd_ring_size (dm_ring (lp_daemon s)) = 0x400000"
    and "cmd_contents (dm_ring (lp_daemon s)) (dm_mem (lp_daemon s)) = []"
  shows "\<exists>g s'. typed_run demo_vulkan [g] s \<and> command_loop demo_vulkan [g] s = Some s' \<and>
     lp_total s' = lp_total s + 1 \<and> length (dm_calls (lp_daemon s)) < length (dm_calls (lp_daemon s'))"
proof -
  let ?ring = "dm_ring (lp_daemon s)"
  define g where "g m = snd (gravity_ring_cmd_write ?ring m demo_sampler 16)" for m
  have ok: "ring_ok ?ring" using assms(1) by (simp add: daemon_ok_def)
  have u: "unat (16 :: u32) = 16" by simp
  have "fst (gravity_ring_cmd_write ?ring (dm_mem (lp_daemon s)) demo_sampler 16) = 0"
    using cmd_write_zero_iff [OF ok, of "dm_mem (lp_daemon s)" demo_sampler 16] assms(2,3) by simp
  from cmd_write_contents [OF ok this] assms(3)
  have front: "cmd_contents ?ring (g (dm_mem (lp_daemon s))) = demo_sampler @ []" by (simp add: g_def)
  let ?s = "guest_acts g s"
  have s: "dm_ring (lp_daemon ?s) = ?ring" "dm_mem (lp_daemon ?s) = g (dm_mem (lp_daemon s))" "lp_total ?s = lp_total s"
    "dm_calls (lp_daemon ?s) = dm_calls (lp_daemon s)"
    by (simp_all add: guest_acts_def)
  let ?cmd = "gravity_cmd_create_sampler_at (wr (lp_buf ?s) 0 demo_sampler) 0"
  have fr: "framed (unat CMD_BUF_SIZE) demo_sampler" using demo_sampler_facts(2) by (simp add: proper_command_def)
  have pos: "ring_ok (dm_ring (lp_daemon ?s))"
    "cmd_contents (dm_ring (lp_daemon ?s)) (dm_mem (lp_daemon ?s)) = demo_sampler @ []"
    using ok front s by simp_all
  have p: "process_command V (header_of demo_sampler) b d = Some (gravity_cmd_process_create_sampler V (gravity_cmd_create_sampler_at b 0) d)"
    for V b d
    by (simp add: process_command_def process_others_def Let_def)
  have more: "length (dm_calls d) < length (dm_calls (gravity_cmd_process_create_sampler demo_vulkan c d))" for c d
    by (auto simp: gravity_cmd_process_create_sampler_def dm_call_def dm_tell_def dm_add_def dm_update_def Let_def
        split: option.split prod.split)
  have step: "loop_step demo_vulkan ?s = Some (?s\<lparr>lp_buf := wr (lp_buf ?s) 0 demo_sampler,
      lp_daemon := dm_consume (gravity_cmd_process_create_sampler demo_vulkan ?cmd (lp_daemon ?s)) (hdr_size (header_of demo_sampler)),
      lp_total := lp_total ?s + 1\<rparr>)"
    using loop_step_proper [OF pos(1) demo_sampler_facts(2) pos(2), of demo_vulkan] by (simp add: p)
  have "front_typed ?s"
    using cmd_peek_front(1,2) [OF pos fr] demo_sampler_facts(3)
    by (simp add: front_typed_def well_typed_def Let_def)
  then show ?thesis
    using more [of "lp_daemon ?s" ?cmd] s
    by (intro exI [of _ g]) (simp add: step dm_consume_def)
qed

theorem typed_runs_safe_witness:
  "\<exists>s tr (s' :: loop_state). gravityd_start demo_os demo_vulkan config_defaults (\<lambda>_. 0) (\<lambda>_. 0) zero_vk_state zero_tracker =
     Some (Inr (0x1000, s), tr) \<and> lp_total s' = lp_total s + 1 \<and>
     length (dm_calls (lp_daemon s)) < length (dm_calls (lp_daemon s')) \<and>
     holdings (lp_daemon s') \<subseteq># alive demo_vulkan (dm_calls (lp_daemon s'))"
proof -
  obtain s tr where start: "gravityd_start demo_os demo_vulkan config_defaults (\<lambda>_. 0) (\<lambda>_. 0) zero_vk_state zero_tracker =
     Some (Inr (0x1000, s), tr)"
    using demo_started by blast
  then obtain g s' where r: "typed_run demo_vulkan [g] s" "command_loop demo_vulkan [g] s = Some s'"
      "lp_total s' = lp_total s + 1" "length (dm_calls (lp_daemon s)) < length (dm_calls (lp_daemon s'))"
    using demo_iteration start_typed by blast
  from typed_runs_safe [OF start r(1,2), THEN conjunct2]
  show ?thesis by (intro exI [of _ s] exI [of _ tr] exI [of _ s'] conjI start r(3,4))
qed

section \<open>A handle of another type\<close>

lemma ld64_byte:
  assumes "ld64 (m(a + i := b)) a = ld64 m a" "i < 8"
  shows "b = m (a + i)"
proof -
  have r: "le_bytes 8 (ld64 m' a) = rd m' a 8" for m'
    using le_bytes_le_word [of "rd m' a 8", where ?'a = 64] by (simp add: ld64_def)
  have "rd (m(a + i := b)) a 8 = rd m a 8" using r assms(1) by metis
  then have "rd (m(a + i := b)) a 8 ! i = rd m a 8 ! i" by simp
  then show ?thesis using assms(2) by simp
qed

text \<open>
  C31: a handle of another type is not refused.  A render pass begun on the handle of a texture
  makes Vulkan record into the texture's image as if it were a command buffer, and the flag the
  handler sets afterwards is the second byte of the texture's memory handle: unless that byte was
  1 already, the memory of the texture is lost to the daemon.
\<close>

theorem untyped_handle_corrupts:
  assumes "dm_get d (rb_cmdbuf cmd) = Some i" "re_type (dm_entry d i) = GRAVITY_RES_TEXTURE"
    and "rb_num_color_attachments cmd = 0" "re_union (dm_entry d i) 17 \<noteq> 1"
  shows "\<exists>d' info. process_render_begin cmd d = Some d' \<and>
     dm_calls d' = dm_calls d @ [Cmd (vkCmdBeginRendering (get_res64 (dm_entry d i) texture_image) info)] \<and>
     get_res64 (dm_entry d' i) texture_memory \<noteq> get_res64 (dm_entry d i) texture_memory"
proof -
  let ?m = "re_union (dm_entry d i)"
  have "get_res64 (put_resb cmdbuf_in_render_pass True (dm_entry d i)) texture_memory \<noteq>
      get_res64 (dm_entry d i) texture_memory"
    using ld64_byte [of ?m 16 1 1] assms(4) by (auto simp: get_res64_def put_resb_def)
  then show ?thesis
    using assms(1,3)
    by (simp add: process_render_begin_def GRAVITY_MAX_COLOR_ATTACHMENTS_def Let_def union_simps tell_calls)
      (auto simp: get_res64_def)
qed

text \<open>A texture's entry for handle 5, and a pass without attachments begun on it.\<close>

definition demo_with_texture :: gravity_daemon where
  "demo_with_texture = snd (dm_add (demo_daemon demo_mem) 5 GRAVITY_RES_TEXTURE)"

lemma demo_texture:
  obtains i where "dm_get demo_with_texture 5 = Some i" "dm_entry demo_with_texture i = new_entry 5 GRAVITY_RES_TEXTURE"
proof -
  let ?t = "gravity_resource_tracker_init zero_tracker"
  obtain i t where t: "gravity_resource_tracker_add ?t 5 GRAVITY_RES_TEXTURE = (Some i, t)"
      "gravity_resource_tracker_get t 5 = Some i"
    using add_room [of ?t 5 GRAVITY_RES_TEXTURE] by (auto simp: init_entries strong_get_None strong_get)
  have "rt_entries t i = new_entry 5 GRAVITY_RES_TEXTURE"
    using t(1) by (auto simp: gravity_resource_tracker_add_def Let_def new_entry_def split: if_splits)
  then show thesis
    using that t by (simp add: demo_with_texture_def dm_add_def dm_get_def dm_entry_def)
qed

theorem untyped_handle_corrupts_witness:
  "\<exists>i d'. process_render_begin (gravity_cmd_render_begin_at (st32 (\<lambda>_. 0) 16 5) 0) demo_with_texture = Some d' \<and>
     get_res64 (dm_entry d' i) texture_memory \<noteq> get_res64 (dm_entry demo_with_texture i) texture_memory"
proof (rule demo_texture)
  fix i
  assume i: "dm_get demo_with_texture 5 = Some i" "dm_entry demo_with_texture i = new_entry 5 GRAVITY_RES_TEXTURE"
  have n: "rb_num_color_attachments (gravity_cmd_render_begin_at (st32 (\<lambda>_. 0) 16 5) 0) = 0"
    by (simp add: gravity_cmd_render_begin_at_def mem_simps) (simp add: ld32_def rd_def upt_rec)
  have h: "ld32 (st32 (\<lambda>_. 0) 16 5) 16 = 5" by (simp add: mem_simps)
  show ?thesis
    using untyped_handle_corrupts [of demo_with_texture "gravity_cmd_render_begin_at (st32 (\<lambda>_. 0) 16 5) 0" i] i n h
    by (intro exI [of _ i]) auto
qed

end
