(* ===== verification/Qemu_Device.thy ===== *)
theory Qemu_Device
  imports Gravity_Ring Host_Os
begin

text \<open>
  The virtual PCI device (\<^verbatim>\<open>qemu-patches/hw/display/gravity-gpu.c\<close>): the registers of BAR0, the
  shared memory of BAR2, the interrupt helper, and realize, exit and reset.  QEMU's own parts
  are reduced to what the device uses: the level last given to \<^verbatim>\<open>pci_set_irq\<close> and the process's
  memory are fields of the state, the POSIX calls go to the parameter \<open>os\<close>; its class,
  properties and migrated fields are in \<open>Device_Class\<close>.
\<close>

section \<open>Registers and constants\<close>

datatype gravity_reg =
    REG_MAGIC | REG_VERSION | REG_DEVICE_STATUS | REG_FEATURES | REG_SHMEM_SIZE_LO | REG_SHMEM_SIZE_HI
  | REG_DOORBELL | REG_IRQ_STATUS | REG_IRQ_MASK | REG_GUEST_FEATURES | REG_GUEST_STATUS
  | REG_DISPLAY_WIDTH | REG_DISPLAY_HEIGHT | REG_DISPLAY_FORMAT | REG_DISPLAY_STRIDE
  | REG_DEBUG | REG_CMD_COUNT | REG_ERROR_CODE

fun reg_addr :: "gravity_reg \<Rightarrow> u64" where
  "reg_addr REG_MAGIC = 0x000"
| "reg_addr REG_VERSION = 0x004"
| "reg_addr REG_DEVICE_STATUS = 0x008"
| "reg_addr REG_FEATURES = 0x00C"
| "reg_addr REG_SHMEM_SIZE_LO = 0x010"
| "reg_addr REG_SHMEM_SIZE_HI = 0x014"
| "reg_addr REG_DOORBELL = 0x020"
| "reg_addr REG_IRQ_STATUS = 0x030"
| "reg_addr REG_IRQ_MASK = 0x034"
| "reg_addr REG_GUEST_FEATURES = 0x040"
| "reg_addr REG_GUEST_STATUS = 0x044"
| "reg_addr REG_DISPLAY_WIDTH = 0x050"
| "reg_addr REG_DISPLAY_HEIGHT = 0x054"
| "reg_addr REG_DISPLAY_FORMAT = 0x058"
| "reg_addr REG_DISPLAY_STRIDE = 0x05C"
| "reg_addr REG_DEBUG = 0x0F0"
| "reg_addr REG_CMD_COUNT = 0x0F4"
| "reg_addr REG_ERROR_CODE = 0x0F8"

lemma reg_addr_inj [simp]: "reg_addr r = reg_addr q \<longleftrightarrow> r = q"
  by (cases r; cases q) simp_all

text \<open>Registers are ordered by address.\<close>

instantiation gravity_reg :: linorder
begin

definition less_eq_gravity_reg :: "gravity_reg \<Rightarrow> gravity_reg \<Rightarrow> bool" where
  "less_eq_gravity_reg r q \<longleftrightarrow> reg_addr r \<le> reg_addr q"

definition less_gravity_reg :: "gravity_reg \<Rightarrow> gravity_reg \<Rightarrow> bool" where
  "less_gravity_reg r q \<longleftrightarrow> reg_addr r < reg_addr q"

instance
  by standard (auto simp: less_eq_gravity_reg_def less_gravity_reg_def order_less_le)

end

text \<open>The registers are apart from each other, aligned, and inside BAR0.\<close>

lemma register_layout:
  "strict_mono reg_addr" "reg_addr r mod 4 = 0" "reg_addr r < 4096"
  by (rule strict_monoI, simp add: less_gravity_reg_def) (cases r; simp)+

definition GRAVITY_STATUS_READY :: u32 where "GRAVITY_STATUS_READY = push_bit 0 1"
definition GRAVITY_IRQ_CMD_COMPLETE :: u32 where "GRAVITY_IRQ_CMD_COMPLETE = push_bit 0 1"
definition GRAVITY_IRQ_HOST_EVENT :: u32 where "GRAVITY_IRQ_HOST_EVENT = push_bit 1 1"
definition GRAVITY_IRQ_ERROR :: u32 where "GRAVITY_IRQ_ERROR = push_bit 7 1"

definition GRAVITY_GPU_DEFAULT_SHMEM_SIZE :: u32 where
  "GRAVITY_GPU_DEFAULT_SHMEM_SIZE = 512 * 1024 * 1024"
definition GRAVITY_DEFAULT_CMD_RING_SIZE :: u32 where "GRAVITY_DEFAULT_CMD_RING_SIZE = 4 * 1024 * 1024"
definition GRAVITY_DEFAULT_COMP_RING_SIZE :: u32 where "GRAVITY_DEFAULT_COMP_RING_SIZE = 256 * 1024"
definition GRAVITY_GPU_DEFAULT_SHMEM_PATH :: string where
  "GRAVITY_GPU_DEFAULT_SHMEM_PATH = ''/gravity-gpu''"

section \<open>State\<close>

text \<open>\<open>gs_shmem_ptr\<close> is 0 for \<^verbatim>\<open>NULL\<close>; \<open>gs_irq_line\<close> is the level of the parent's interrupt pin.\<close>

record GravityGPUState =
  gs_shmem_ptr :: int
  gs_shmem_size :: u64
  gs_shmem_fd :: int
  gs_device_status :: u32
  gs_device_features :: u32
  gs_guest_features :: u32
  gs_guest_status :: u32
  gs_irq_status :: u32
  gs_irq_mask :: u32
  gs_display_width :: u32
  gs_display_height :: u32
  gs_display_format :: u32
  gs_debug_reg :: u32
  gs_cmd_count :: u64
  gs_last_error :: u32
  gs_host_socket_fd :: int
  gs_hostmem_mb :: u32
  gs_shmem_path :: "string option"
  gs_irq_line :: bool
  gs_mem :: mem

section \<open>BAR0\<close>

definition gravity_gpu_mmio_read :: "GravityGPUState \<Rightarrow> u64 \<Rightarrow> u32 \<Rightarrow> u64" where
  "gravity_gpu_mmio_read s addr sz =
     (let is = (\<lambda>r. addr = reg_addr r)
      in if sz \<noteq> 4 then 0
         else if is REG_MAGIC then ucast GRAVITY_PROTOCOL_MAGIC
         else if is REG_VERSION then ucast protocol_version
         else if is REG_DEVICE_STATUS then ucast (gs_device_status s)
         else if is REG_FEATURES then ucast (gs_device_features s)
         else if is REG_SHMEM_SIZE_LO then ucast (ucast (gs_shmem_size s AND 0xFFFFFFFF) :: u32)
         else if is REG_SHMEM_SIZE_HI then ucast (ucast (drop_bit 32 (gs_shmem_size s)) :: u32)
         else if is REG_IRQ_STATUS then ucast (gs_irq_status s)
         else if is REG_IRQ_MASK then ucast (gs_irq_mask s)
         else if is REG_DISPLAY_WIDTH then ucast (gs_display_width s)
         else if is REG_DISPLAY_HEIGHT then ucast (gs_display_height s)
         else if is REG_DISPLAY_FORMAT then ucast (gs_display_format s)
         else if is REG_DISPLAY_STRIDE then ucast ((gs_display_width s * 4 + 255) AND NOT 255)
         else if is REG_DEBUG then ucast (gs_debug_reg s)
         else if is REG_CMD_COUNT then ucast (ucast (gs_cmd_count s) :: u32)
         else if is REG_ERROR_CODE then ucast (gs_last_error s)
         else 0)"

definition gravity_gpu_mmio_write :: "GravityGPUState \<Rightarrow> u64 \<Rightarrow> u64 \<Rightarrow> u32 \<Rightarrow> GravityGPUState" where
  "gravity_gpu_mmio_write s addr val sz =
     (let is = (\<lambda>r. addr = reg_addr r)
      in if sz \<noteq> 4 then s
         else if is REG_DOORBELL then s\<lparr>gs_cmd_count := gs_cmd_count s + 1\<rparr>
         else if is REG_IRQ_STATUS then
           let s = s\<lparr>gs_irq_status := gs_irq_status s AND NOT (ucast val)\<rparr>
           in if gs_irq_status s = 0 then s\<lparr>gs_irq_line := False\<rparr> else s
         else if is REG_IRQ_MASK then s\<lparr>gs_irq_mask := ucast val\<rparr>
         else if is REG_GUEST_FEATURES then s\<lparr>gs_guest_features := ucast val\<rparr>
         else if is REG_GUEST_STATUS then s\<lparr>gs_guest_status := ucast val\<rparr>
         else if is REG_DISPLAY_WIDTH then s\<lparr>gs_display_width := ucast val\<rparr>
         else if is REG_DISPLAY_HEIGHT then s\<lparr>gs_display_height := ucast val\<rparr>
         else if is REG_DISPLAY_FORMAT then s\<lparr>gs_display_format := ucast val\<rparr>
         else if is REG_DEBUG then s\<lparr>gs_debug_reg := ucast val\<rparr>
         else s)"

section \<open>BAR2\<close>

text \<open>\<^verbatim>\<open>addr + size\<close> is computed in 64 bits and wraps.\<close>

text \<open>Both the sum in the check and the sum of pointer and offset wrap at 64 bits.\<close>

definition gravity_gpu_shmem_read :: "GravityGPUState \<Rightarrow> u64 \<Rightarrow> u32 \<Rightarrow> u64" where
  "gravity_gpu_shmem_read s addr sz =
     (if gs_shmem_size s < addr + ucast sz then 0
      else
        let base = (nat (gs_shmem_ptr s) + unat addr) mod 2 ^ 64
        in if sz = 1 then ucast (gs_mem s base)
           else if sz = 2 then ucast (ld16 (gs_mem s) base)
           else if sz = 4 then ucast (ld32 (gs_mem s) base)
           else if sz = 8 then ld64 (gs_mem s) base
           else 0)"

definition gravity_gpu_shmem_write :: "GravityGPUState \<Rightarrow> u64 \<Rightarrow> u64 \<Rightarrow> u32 \<Rightarrow> GravityGPUState" where
  "gravity_gpu_shmem_write s addr val sz =
     (if gs_shmem_size s < addr + ucast sz then s
      else
        let base = (nat (gs_shmem_ptr s) + unat addr) mod 2 ^ 64
        in if sz = 1 then s\<lparr>gs_mem := (gs_mem s)(base := ucast val)\<rparr>
           else if sz = 2 then s\<lparr>gs_mem := st16 (gs_mem s) base (ucast val)\<rparr>
           else if sz = 4 then s\<lparr>gs_mem := st32 (gs_mem s) base (ucast val)\<rparr>
           else if sz = 8 then s\<lparr>gs_mem := st64 (gs_mem s) base val\<rparr>
           else s)"

section \<open>Interrupts\<close>

definition gravity_gpu_raise_irq :: "GravityGPUState \<Rightarrow> u32 \<Rightarrow> GravityGPUState" where
  "gravity_gpu_raise_irq s irq_bits =
     (let s = s\<lparr>gs_irq_status := gs_irq_status s OR irq_bits\<rparr>
      in if gs_irq_status s AND gs_irq_mask s \<noteq> 0 then s\<lparr>gs_irq_line := True\<rparr> else s)"

section \<open>Lifecycle\<close>

datatype realize_error = Shm_Open_Failed | Ftruncate_Failed | Mmap_Failed | Ring_Init_Failed

text \<open>
  How a realize ends: it reports an error, it succeeds, or QEMU ends its process inside
  \<^verbatim>\<open>pci_register_bar\<close> of a region.  That function is QEMU's; \<open>bar_taken\<close> says of a region's number
  and size whether the call returns.
\<close>

datatype realize_end = Failed realize_error | Ends_Qemu nat | Realized

type_synonym bar_taken = "nat \<Rightarrow> u64 \<Rightarrow> bool"

definition GRAVITY_GPU_BAR0_SIZE :: u64 where "GRAVITY_GPU_BAR0_SIZE = 4096"

text \<open>The registrations in order: the region at which QEMU ends, if it does.\<close>

fun register_bars :: "bar_taken \<Rightarrow> (nat \<times> u64) list \<Rightarrow> nat option" where
  "register_bars taken [] = None"
| "register_bars taken ((n, sz) # bars) = (if taken n sz then register_bars taken bars else Some n)"

text \<open>
  The ring set up in the device's memory, \<open>None\<close> when \<^verbatim>\<open>gravity_ring_init_host\<close> does not return.
\<close>

definition device_ring_init :: "GravityGPUState \<Rightarrow> (int \<times> GravityGPUState) option" where
  "device_ring_init s =
     (case gravity_ring_init_host (gs_mem s) (nat (gs_shmem_ptr s)) (ucast (gs_shmem_size s))
        GRAVITY_DEFAULT_CMD_RING_SIZE GRAVITY_DEFAULT_COMP_RING_SIZE of
        None \<Rightarrow> None
      | Some (r, m) \<Rightarrow> Some (r, s\<lparr>gs_mem := m\<rparr>))"

definition realized :: "GravityGPUState \<Rightarrow> GravityGPUState" where
  "realized s = s\<lparr>
     gs_device_features := GRAVITY_FEAT_RING_BUFFER OR GRAVITY_FEAT_SHADER_MSL OR GRAVITY_FEAT_COMPUTE OR
       GRAVITY_FEAT_BLIT OR GRAVITY_FEAT_DISPLAY,
     gs_device_status := GRAVITY_STATUS_READY,
     gs_guest_status := 0,
     gs_guest_features := 0,
     gs_irq_status := 0,
     gs_irq_mask := GRAVITY_IRQ_CMD_COMPLETE OR GRAVITY_IRQ_ERROR,
     gs_display_width := 1920,
     gs_display_height := 1080,
     gs_display_format := 80,
     gs_cmd_count := 0,
     gs_last_error := 0,
     gs_debug_reg := 0,
     gs_host_socket_fd := -1\<rparr>"

text \<open>The part of realize behind the computation of the size.\<close>

definition realize_shmem ::
  "bar_taken \<Rightarrow> os \<Rightarrow> GravityGPUState \<Rightarrow> os_call list \<Rightarrow>
     (realize_end \<times> GravityGPUState \<times> os_call list) option" where
  "realize_shmem taken os s tr =
     (let shm_name = (case gs_shmem_path s of Some p \<Rightarrow> p | None \<Rightarrow> GRAVITY_GPU_DEFAULT_SHMEM_PATH);
          fd = os tr (shm_open shm_name True);
          tr = tr @ [shm_open shm_name True];
          s = s\<lparr>gs_shmem_fd := fd\<rparr>
      in if fd < 0 then Some (Failed Shm_Open_Failed, s, tr)
         else
           let tr = tr @ [fchmod fd];
               resized = os tr (ftruncate fd (gs_shmem_size s));
               tr = tr @ [ftruncate fd (gs_shmem_size s)]
           in if resized < 0
              then Some (Failed Ftruncate_Failed, s\<lparr>gs_shmem_fd := -1\<rparr>, tr @ [close_fd fd])
              else
                let ptr = os tr (mmap fd (gs_shmem_size s));
                    tr = tr @ [mmap fd (gs_shmem_size s)]
                in if ptr = MAP_FAILED
                   then Some (Failed Mmap_Failed, s\<lparr>gs_shmem_ptr := 0, gs_shmem_fd := -1\<rparr>, tr @ [close_fd fd])
                   else case device_ring_init (s\<lparr>gs_shmem_ptr := ptr\<rparr>) of
                          None \<Rightarrow> None
                        | Some (r, s) \<Rightarrow>
                            if r < 0
                            then Some (Failed Ring_Init_Failed, s\<lparr>gs_shmem_ptr := 0, gs_shmem_fd := -1\<rparr>,
                                       tr @ [munmap ptr (gs_shmem_size s), close_fd fd])
                            else case register_bars taken [(0, GRAVITY_GPU_BAR0_SIZE), (2, gs_shmem_size s)] of
                                   Some n \<Rightarrow> Some (Ends_Qemu n, s, tr)
                                 | None \<Rightarrow> Some (Realized, realized s, tr))"

definition gravity_gpu_realize ::
  "bar_taken \<Rightarrow> os \<Rightarrow> GravityGPUState \<Rightarrow> os_call list \<Rightarrow>
     (realize_end \<times> GravityGPUState \<times> os_call list) option" where
  "gravity_gpu_realize taken os s tr =
     (let s = (if gs_hostmem_mb s = 0
               then s\<lparr>gs_hostmem_mb := GRAVITY_GPU_DEFAULT_SHMEM_SIZE div (1024 * 1024)\<rparr> else s)
      in realize_shmem taken os (s\<lparr>gs_shmem_size := ucast (gs_hostmem_mb s) * 1024 * 1024\<rparr>) tr)"

definition gravity_gpu_exit :: "GravityGPUState \<Rightarrow> os_call list \<Rightarrow> GravityGPUState \<times> os_call list" where
  "gravity_gpu_exit s tr =
     (let s = (if 0 \<le> gs_host_socket_fd s then s\<lparr>gs_host_socket_fd := -1\<rparr> else s);
          mapped = (gs_shmem_ptr s \<noteq> 0 \<and> gs_shmem_ptr s \<noteq> MAP_FAILED);
          tr = (if mapped then tr @ [munmap (gs_shmem_ptr s) (gs_shmem_size s)] else tr);
          s = (if mapped then s\<lparr>gs_shmem_ptr := 0\<rparr> else s);
          tr = (if 0 \<le> gs_shmem_fd s then tr @ [close_fd (gs_shmem_fd s)] else tr);
          s = (if 0 \<le> gs_shmem_fd s then s\<lparr>gs_shmem_fd := -1\<rparr> else s)
      in (s, tr))"

text \<open>The status of the ring's initialisation is ignored.\<close>

definition gravity_gpu_reset :: "GravityGPUState \<Rightarrow> GravityGPUState option" where
  "gravity_gpu_reset s =
     (let s = s\<lparr>gs_device_status := GRAVITY_STATUS_READY, gs_guest_status := 0, gs_guest_features := 0,
                gs_irq_status := 0, gs_cmd_count := 0, gs_last_error := 0, gs_debug_reg := 0\<rparr>
      in if gs_shmem_ptr s \<noteq> 0
         then (case device_ring_init s of None \<Rightarrow> None | Some (r, s) \<Rightarrow> Some s)
         else Some s)"

end
