(* ===== verification/Qemu_Props.thy ===== *)
theory Qemu_Props
  imports Qemu_Device
begin

text \<open>
  Properties of the virtual device: its register file, the bounds of the shared memory window,
  the interrupt line as a step relation, the paths of realize and exit, and reset.
\<close>

section \<open>The register file\<close>

text \<open>What register \<open>q\<close> reads after \<open>val\<close> was written to register \<open>r\<close>.\<close>

definition reg_after :: "GravityGPUState \<Rightarrow> gravity_reg \<Rightarrow> u64 \<Rightarrow> gravity_reg \<Rightarrow> u32" where
  "reg_after s r val q =
     (let old = ucast (gravity_gpu_mmio_read s (reg_addr q) 4) :: u32
      in if q = r \<and> r \<in> {REG_IRQ_MASK, REG_DISPLAY_WIDTH, REG_DISPLAY_HEIGHT, REG_DISPLAY_FORMAT, REG_DEBUG}
         then ucast val
         else if q = REG_IRQ_STATUS \<and> r = REG_IRQ_STATUS then old AND NOT (ucast val)
         else if q = REG_CMD_COUNT \<and> r = REG_DOORBELL then old + 1
         else if q = REG_DISPLAY_STRIDE \<and> r = REG_DISPLAY_WIDTH then (ucast val * 4 + 255) AND NOT 255
         else old)"

lemma ucast_u32_u64 [simp]: "ucast (ucast (w :: u32) :: u64) = w"
  by (rule bit_word_eqI) (simp add: bit_ucast_iff)

lemma ucast_count: "ucast (n + 1 :: u64) = (ucast n + 1 :: u32)"
proof -
  have "(unat n + 1) mod 2 ^ 64 mod 2 ^ 32 = (unat n mod 2 ^ 32 + 1) mod 2 ^ 32"
    using nat_mod_wrap [of 32 64 "unat n + 1"] by (simp add: mod_simps)
  then show ?thesis by (simp add: word_unat_eq_iff unsigned_ucast_eq unat_word_ariths take_bit_eq_mod)
qed

lemma unat_top: "unat (- 1 :: u64) = 2 ^ 64 - 1"
  by (simp add: unsigned_minus_1_eq_mask mask_eq_exp_minus_1)

text \<open>
  the register file: after a 4-byte write to a register a 4-byte read of a register gives
  what the register map says: the value for the read-write ones, status bits cleared where ones
  are written, the doorbell counted in the command count, the stride recomputed with the width,
  and everything else as before.  Accesses of another size or to other addresses read as 0 and
  change nothing.
\<close>

lemma register_file:
  "gravity_gpu_mmio_read (gravity_gpu_mmio_write s (reg_addr r) val 4) (reg_addr q) 4 = ucast (reg_after s r val q) \<and>
   (sz = 4 \<and> addr \<in> range reg_addr \<or> gravity_gpu_mmio_read s addr sz = 0 \<and> gravity_gpu_mmio_write s addr val sz = s)"
proof
  show "gravity_gpu_mmio_read (gravity_gpu_mmio_write s (reg_addr r) val 4) (reg_addr q) 4 = ucast (reg_after s r val q)"
    by (cases r; cases q) (simp_all add: gravity_gpu_mmio_read_def gravity_gpu_mmio_write_def Let_def reg_after_def ucast_count)
  show "sz = 4 \<and> addr \<in> range reg_addr \<or> gravity_gpu_mmio_read s addr sz = 0 \<and> gravity_gpu_mmio_write s addr val sz = s"
  proof (cases "sz = 4 \<and> addr \<in> range reg_addr")
    case False
    then have "sz \<noteq> 4 \<or> (\<forall>r. addr \<noteq> reg_addr r)" by blast
    then show ?thesis by (auto simp: gravity_gpu_mmio_read_def gravity_gpu_mmio_write_def Let_def simp del: reg_addr.simps)
  qed simp
qed

section \<open>The shared memory window\<close>

text \<open>
  C37: a write of 1, 2, 4 or 8 bytes inside the window is read back as its low bytes and changes
  only these bytes of memory, which lie inside the mapping (if it ends below 2^64, as mappings
  do); one beyond the end changes nothing and reads as 0.  The sum of address and size wraps: a
  read of a byte at address 2^64 - 1 passes the check, and the pointer's sum wraps as well, so it
  reads the byte before the mapping.
\<close>

theorem shmem_window:
  assumes "sz \<in> {1, 2, 4, 8}" "unat addr + unat sz < 2 ^ 64"
  shows "(let s' = gravity_gpu_shmem_write s addr val sz; base = (nat (gs_shmem_ptr s) + unat addr) mod 2 ^ 64
      in if unat addr + unat sz \<le> unat (gs_shmem_size s) then
           gravity_gpu_shmem_read s' addr sz = val AND mask (8 * unat sz) \<and>
           (\<forall>x. x < base \<or> base + unat sz \<le> x \<longrightarrow> gs_mem s' x = gs_mem s x) \<and>
           s' = s\<lparr>gs_mem := gs_mem s'\<rparr> \<and>
           (nat (gs_shmem_ptr s) + unat (gs_shmem_size s) \<le> 2 ^ 64 \<longrightarrow> base = nat (gs_shmem_ptr s) + unat addr)
         else s' = s \<and> gravity_gpu_shmem_read s addr sz = 0) \<and>
    (0 < gs_shmem_ptr s \<longrightarrow> gs_shmem_ptr s < 2 ^ 64 \<longrightarrow>
       gravity_gpu_shmem_read s (-1) 1 = ucast (gs_mem s (nat (gs_shmem_ptr s) - 1)))"
proof -
  have pos: "0 < unat sz" using assms(1) by auto
  have u: "unat (addr + ucast sz) = unat addr + unat sz"
    using assms(2) by (simp add: unat_word_ariths)
  have lt: "gs_shmem_size s < addr + ucast sz \<longleftrightarrow> \<not> unat addr + unat sz \<le> unat (gs_shmem_size s)"
    by (simp add: word_less_nat_alt u not_le)
  have m: "ucast (ucast val :: u8) = val AND mask 8" "ucast (ucast val :: u16) = val AND mask 16"
    "ucast (ucast val :: u32) = val AND mask 32" "val AND mask 64 = val"
    by (rule bit_word_eqI, auto simp: bit_ucast_iff bit_simps dest: bit_imp_le_length)+
  have "gravity_gpu_shmem_read s (-1) 1 = ucast (gs_mem s (nat (gs_shmem_ptr s) - 1))"
    if "0 < gs_shmem_ptr s" "gs_shmem_ptr s < 2 ^ 64"
  proof -
    have "1 \<le> nat (gs_shmem_ptr s)" "nat (gs_shmem_ptr s) < 2 ^ 64" using that by simp_all
    then have "nat (gs_shmem_ptr s) + (2 ^ 64 - 1) = (nat (gs_shmem_ptr s) - 1) + 2 ^ 64" "nat (gs_shmem_ptr s) - 1 < 2 ^ 64"
      by simp_all
    then have "(nat (gs_shmem_ptr s) + (2 ^ 64 - 1)) mod 2 ^ 64 = nat (gs_shmem_ptr s) - 1"
      by (metis mod_add_self2 mod_less)
    then show ?thesis by (simp add: gravity_gpu_shmem_read_def unat_top)
  qed
  moreover have "let s' = gravity_gpu_shmem_write s addr val sz; base = (nat (gs_shmem_ptr s) + unat addr) mod 2 ^ 64
      in if unat addr + unat sz \<le> unat (gs_shmem_size s) then
           gravity_gpu_shmem_read s' addr sz = val AND mask (8 * unat sz) \<and>
           (\<forall>x. x < base \<or> base + unat sz \<le> x \<longrightarrow> gs_mem s' x = gs_mem s x) \<and>
           s' = s\<lparr>gs_mem := gs_mem s'\<rparr> \<and>
           (nat (gs_shmem_ptr s) + unat (gs_shmem_size s) \<le> 2 ^ 64 \<longrightarrow> base = nat (gs_shmem_ptr s) + unat addr)
         else s' = s \<and> gravity_gpu_shmem_read s addr sz = 0"
    using assms(1) lt m pos
    by (auto simp: gravity_gpu_shmem_read_def gravity_gpu_shmem_write_def Let_def mem_simps)
  ultimately show ?thesis by blast
qed

text \<open>A device with 16 bytes of shared memory at address 0x1000.\<close>

definition demo_device :: GravityGPUState where
  "demo_device = realized \<lparr>gs_shmem_ptr = 0x1000, gs_shmem_size = 16, gs_shmem_fd = 3, gs_device_status = 0,
     gs_device_features = 0, gs_guest_features = 0, gs_guest_status = 0, gs_irq_status = 0, gs_irq_mask = 0,
     gs_display_width = 0, gs_display_height = 0, gs_display_format = 0, gs_debug_reg = 0, gs_cmd_count = 0,
     gs_last_error = 0, gs_host_socket_fd = 0, gs_hostmem_mb = 0, gs_shmem_path = None, gs_irq_line = False,
     gs_mem = (\<lambda>_. 0)\<rparr>"

theorem shmem_window_witness:
  "gravity_gpu_shmem_read (gravity_gpu_shmem_write demo_device 12 0x123456789 4) 12 4 = 0x23456789 \<and>
   gravity_gpu_shmem_write demo_device 13 1 4 = demo_device"
  using shmem_window [of 4 12 demo_device "0x123456789"] shmem_window [of 4 13 demo_device 1]
  by (simp add: Let_def demo_device_def realized_def mask_eq_exp_minus_1)

section \<open>The device at run time\<close>

text \<open>What happens between two resets: accesses of the guest, interrupts, and other processes' writes.\<close>

inductive device_step :: "GravityGPUState \<Rightarrow> GravityGPUState \<Rightarrow> bool" where
  mmio: "device_step s (gravity_gpu_mmio_write s addr val sz)"
| window: "device_step s (gravity_gpu_shmem_write s addr val sz)"
| irq: "device_step s (gravity_gpu_raise_irq s bits)"
| others: "device_step s (s\<lparr>gs_mem := m\<rparr>)"

inductive_cases device_stepE: "device_step s s'"

text \<open>What no step changes, and what makes the interrupt line low.\<close>

definition device_frame :: "GravityGPUState \<Rightarrow> GravityGPUState \<Rightarrow> bool" where
  "device_frame s s' \<longleftrightarrow> gs_shmem_ptr s' = gs_shmem_ptr s \<and> gs_shmem_size s' = gs_shmem_size s \<and>
     gs_shmem_fd s' = gs_shmem_fd s \<and> gs_device_features s' = gs_device_features s \<and>
     gs_device_status s' = gs_device_status s \<and> gs_last_error s' = gs_last_error s \<and>
     (gs_irq_status s = 0 \<and> gs_irq_line s \<or> \<not> (gs_irq_status s' = 0 \<and> gs_irq_line s'))"

lemma device_step_frame: "device_step s s' \<Longrightarrow> device_frame s s'"
  by (erule device_stepE)
    (auto simp: device_frame_def gravity_gpu_mmio_write_def gravity_gpu_shmem_write_def gravity_gpu_raise_irq_def
      Let_def or_eq_0_iff simp del: reg_addr.simps)

lemma device_steps_frame: "device_step\<^sup>*\<^sup>* s s' \<Longrightarrow> device_frame s s'"
proof (induction rule: rtranclp_induct)
  case (step s' s'')
  then show ?case using device_step_frame [of s' s''] by (auto simp: device_frame_def)
qed (auto simp: device_frame_def)

text \<open>
  C38: between two resets, whatever the guest, the host and the interrupt sources do, the window,
  its size and descriptor, the features, the device status and the error code stay the same,
  and the interrupt line is never high with no interrupt pending.
\<close>

theorem device_runtime_invariant:
  assumes "device_step\<^sup>*\<^sup>* s s'" "\<not> (gs_irq_status s = 0 \<and> gs_irq_line s)"
  shows "gs_shmem_ptr s' = gs_shmem_ptr s \<and> gs_shmem_size s' = gs_shmem_size s \<and>
     gs_shmem_fd s' = gs_shmem_fd s \<and> gs_device_features s' = gs_device_features s \<and>
     gs_device_status s' = gs_device_status s \<and> gs_last_error s' = gs_last_error s \<and>
     \<not> (gs_irq_status s' = 0 \<and> gs_irq_line s')"
  using device_steps_frame [OF assms(1)] assms(2) by (auto simp: device_frame_def)

theorem device_runtime_invariant_witness:
  "\<not> gs_irq_line (gravity_gpu_mmio_write (gravity_gpu_raise_irq demo_device GRAVITY_IRQ_ERROR) (reg_addr REG_IRQ_STATUS) 0xFF 4)"
proof -
  let ?s = "gravity_gpu_raise_irq demo_device GRAVITY_IRQ_ERROR"
  let ?s' = "gravity_gpu_mmio_write ?s (reg_addr REG_IRQ_STATUS) 0xFF 4"
  have "device_step\<^sup>*\<^sup>* demo_device ?s'"
    by (meson device_step.irq device_step.mmio rtranclp.rtrancl_into_rtrancl rtranclp.rtrancl_refl)
  moreover have "gs_irq_status ?s' = 0"
    by (simp add: gravity_gpu_mmio_write_def gravity_gpu_raise_irq_def Let_def demo_device_def realized_def GRAVITY_IRQ_ERROR_def)
  ultimately show ?thesis
    using device_runtime_invariant [of demo_device ?s'] by (auto simp: demo_device_def realized_def)
qed

text \<open>
  the line does not follow the pending, unmasked interrupts: clearing the only unmasked one
  while a masked one is pending leaves it high, and unmasking a pending one leaves it low.
\<close>

lemma irq_line_disagrees:
  "(\<exists>s. device_step\<^sup>*\<^sup>* demo_device s \<and> gs_irq_status s AND gs_irq_mask s = 0 \<and> gs_irq_line s) \<and>
   (\<exists>s. device_step\<^sup>*\<^sup>* demo_device s \<and> gs_irq_status s AND gs_irq_mask s \<noteq> 0 \<and> \<not> gs_irq_line s)"
proof
  let ?a = "gravity_gpu_mmio_write (gravity_gpu_raise_irq demo_device (GRAVITY_IRQ_CMD_COMPLETE OR GRAVITY_IRQ_HOST_EVENT))
      (reg_addr REG_IRQ_STATUS) 1 4"
  have "device_step\<^sup>*\<^sup>* demo_device ?a"
    by (meson device_step.irq device_step.mmio rtranclp.rtrancl_into_rtrancl rtranclp.rtrancl_refl)
  moreover have "gs_irq_status ?a AND gs_irq_mask ?a = 0 \<and> gs_irq_line ?a"
    by (simp add: gravity_gpu_mmio_write_def gravity_gpu_raise_irq_def Let_def demo_device_def realized_def
        GRAVITY_IRQ_CMD_COMPLETE_def GRAVITY_IRQ_HOST_EVENT_def GRAVITY_IRQ_ERROR_def)
  ultimately show "\<exists>s. device_step\<^sup>*\<^sup>* demo_device s \<and> gs_irq_status s AND gs_irq_mask s = 0 \<and> gs_irq_line s" by blast
next
  let ?b = "gravity_gpu_mmio_write (gravity_gpu_raise_irq demo_device GRAVITY_IRQ_HOST_EVENT) (reg_addr REG_IRQ_MASK) 2 4"
  have "device_step\<^sup>*\<^sup>* demo_device ?b"
    by (meson device_step.irq device_step.mmio rtranclp.rtrancl_into_rtrancl rtranclp.rtrancl_refl)
  moreover have "gs_irq_status ?b AND gs_irq_mask ?b \<noteq> 0 \<and> \<not> gs_irq_line ?b"
    by (simp add: gravity_gpu_mmio_write_def gravity_gpu_raise_irq_def Let_def demo_device_def realized_def
        GRAVITY_IRQ_CMD_COMPLETE_def GRAVITY_IRQ_HOST_EVENT_def GRAVITY_IRQ_ERROR_def)
  ultimately show "\<exists>s. device_step\<^sup>*\<^sup>* demo_device s \<and> gs_irq_status s AND gs_irq_mask s \<noteq> 0 \<and> \<not> gs_irq_line s" by blast
qed

section \<open>Realize and exit\<close>

definition default_ring :: "GravityGPUState \<Rightarrow> gravity_ring" where
  "default_ring s = init_ring (nat (gs_shmem_ptr s)) (ucast (gs_shmem_size s)) 0x400000 0x40000"

text \<open>The 32 bits of the size that \<^verbatim>\<open>gravity_ring_init_host\<close> sees leave room for the rings.\<close>

definition room_for_rings :: "u64 \<Rightarrow> bool" where
  "room_for_rings sz \<longleftrightarrow> 64 + 0x400000 + 0x40000 < unat (ucast sz :: u32)"

lemma device_ring_init_eq:
  "device_ring_init s =
     (case gravity_ring_init_host (gs_mem s) (nat (gs_shmem_ptr s)) (ucast (gs_shmem_size s)) (4 * 1024 * 1024) (256 * 1024) of
        None \<Rightarrow> None
      | Some (r, m) \<Rightarrow> Some (r, s\<lparr>gs_mem := m\<rparr>))"
  by (simp add: device_ring_init_def GRAVITY_DEFAULT_CMD_RING_SIZE_def GRAVITY_DEFAULT_COMP_RING_SIZE_def)

lemma device_ring_refused: "\<not> room_for_rings (gs_shmem_size s) \<Longrightarrow> device_ring_init s = Some (-1, s)"
  using init_host_small [of "ucast (gs_shmem_size s)" "gs_mem s" "nat (gs_shmem_ptr s)"]
  by (simp add: device_ring_init_eq room_for_rings_def)

lemma device_ring_made:
  assumes "room_for_rings (gs_shmem_size s)"
  obtains m where "device_ring_init s = Some (0, s\<lparr>gs_mem := m\<rparr>)"
    "gravity_ring_attach m (nat (gs_shmem_ptr s)) = Some (default_ring s)"
    "cmd_contents (default_ring s) m = []" "comp_contents (default_ring s) m = []"
proof -
  have "64 + unat (0x400000 :: u32) + unat (0x40000 :: u32) < unat (ucast (gs_shmem_size s) :: u32)"
    using assms by (simp add: room_for_rings_def)
  then obtain m where "gravity_ring_init_host (gs_mem s) (nat (gs_shmem_ptr s)) (ucast (gs_shmem_size s))
      (4 * 1024 * 1024) (256 * 1024) = Some (0, m)"
    "gravity_ring_attach m (nat (gs_shmem_ptr s)) = Some (default_ring s)"
    "cmd_contents (default_ring s) m = []" "comp_contents (default_ring s) m = []"
    using init_host_large [of "ucast (gs_shmem_size s)" "gs_mem s" "nat (gs_shmem_ptr s)"]
    unfolding default_ring_def by auto
  then show thesis using that by (simp add: device_ring_init_eq)
qed

lemma default_ring_ok: "ring_ok (default_ring s)"
  unfolding default_ring_def by (rule init_ring_ok [OF default_ring_sizes])

lemma realized_sel [simp]:
  "gs_shmem_ptr (realized s) = gs_shmem_ptr s" "gs_shmem_size (realized s) = gs_shmem_size s"
  "gs_shmem_fd (realized s) = gs_shmem_fd s" "gs_mem (realized s) = gs_mem s"
  "gs_device_status (realized s) = GRAVITY_STATUS_READY" "gs_irq_status (realized s) = 0"
  "gs_host_socket_fd (realized s) = -1" "default_ring (realized s) = default_ring s"
  by (simp_all add: realized_def default_ring_def)

text \<open>The outcomes of realize, and what is open afterwards.\<close>

definition realize_outcome ::
  "bar_taken \<Rightarrow> os \<Rightarrow> os_call list \<Rightarrow> (realize_end \<times> GravityGPUState \<times> os_call list) \<Rightarrow> bool" where
  "realize_outcome taken os tr out = (case out of (r, s', tr') \<Rightarrow>
     case r of
       Failed e \<Rightarrow> os_open os tr' = os_open os tr \<and> gs_shmem_fd s' < 0
     | Ends_Qemu n \<Rightarrow> os_open os tr' = (gs_shmem_fd s' # fst (os_open os tr), gs_shmem_ptr s' # snd (os_open os tr)) \<and>
         (n = 0 \<and> \<not> taken 0 GRAVITY_GPU_BAR0_SIZE \<or> n = 2 \<and> \<not> taken 2 (gs_shmem_size s'))
     | Realized \<Rightarrow> taken 0 GRAVITY_GPU_BAR0_SIZE \<and> taken 2 (gs_shmem_size s') \<and>
         os_open os tr' = (gs_shmem_fd s' # fst (os_open os tr), gs_shmem_ptr s' # snd (os_open os tr)) \<and>
         0 < gs_shmem_ptr s' \<and> 0 \<le> gs_shmem_fd s' \<and>
         gs_device_status s' = GRAVITY_STATUS_READY \<and> gs_irq_status s' = 0 \<and> room_for_rings (gs_shmem_size s') \<and>
         gravity_ring_attach (gs_mem s') (nat (gs_shmem_ptr s')) = Some (default_ring s') \<and>
         cmd_contents (default_ring s') (gs_mem s') = [] \<and> comp_contents (default_ring s') (gs_mem s') = [])"

lemma realize_shmem_outcome:
  assumes "maps_positive os"
  shows "\<exists>out. realize_shmem taken os s tr = Some out \<and> realize_outcome taken os tr out"
proof -
  obtain fds maps where o: "os_open os tr = (fds, maps)" by fastforce
  define path where "path = (case gs_shmem_path s of Some p \<Rightarrow> p | None \<Rightarrow> GRAVITY_GPU_DEFAULT_SHMEM_PATH)"
  define fd where "fd = os tr (shm_open path True)"
  define tr1 where "tr1 = tr @ [shm_open path True, fchmod fd]"
  define tr2 where "tr2 = tr1 @ [ftruncate fd (gs_shmem_size s)]"
  define ptr where "ptr = os tr2 (mmap fd (gs_shmem_size s))"
  let ?s = "s\<lparr>gs_shmem_fd := fd, gs_shmem_ptr := ptr\<rparr>"
  have eq: "realize_shmem taken os s tr =
     (if fd < 0 then Some (Failed Shm_Open_Failed, s\<lparr>gs_shmem_fd := fd\<rparr>, tr @ [shm_open path True])
      else if os tr1 (ftruncate fd (gs_shmem_size s)) < 0
      then Some (Failed Ftruncate_Failed, s\<lparr>gs_shmem_fd := -1\<rparr>, tr2 @ [close_fd fd])
      else if ptr = MAP_FAILED
      then Some (Failed Mmap_Failed, s\<lparr>gs_shmem_fd := -1, gs_shmem_ptr := 0\<rparr>,
                 tr2 @ [mmap fd (gs_shmem_size s), close_fd fd])
      else case device_ring_init ?s of
             None \<Rightarrow> None
           | Some (r, s') \<Rightarrow>
               if r < 0
               then Some (Failed Ring_Init_Failed, s'\<lparr>gs_shmem_ptr := 0, gs_shmem_fd := -1\<rparr>,
                          tr2 @ [mmap fd (gs_shmem_size s), munmap ptr (gs_shmem_size s'), close_fd fd])
               else case register_bars taken [(0, GRAVITY_GPU_BAR0_SIZE), (2, gs_shmem_size s')] of
                      Some n \<Rightarrow> Some (Ends_Qemu n, s', tr2 @ [mmap fd (gs_shmem_size s)])
                    | None \<Rightarrow> Some (Realized, realized s', tr2 @ [mmap fd (gs_shmem_size s)]))"
    unfolding realize_shmem_def Let_def path_def [symmetric] fd_def [symmetric]
    by (simp add: ptr_def tr1_def tr2_def split: option.split)
  have o1: "os_open os tr1 = (if 0 \<le> fd then (fd # fds, maps) else (fds, maps))"
    using o os_open_snoc [of os "tr @ [shm_open path True]" "fchmod fd"] by (simp add: tr1_def fd_def)
  then have o2: "0 \<le> fd \<Longrightarrow> os_open os tr2 = (fd # fds, maps)" by (simp add: tr2_def)
  have o3: "os_open os (tr2 @ [mmap fd (gs_shmem_size s)]) = (fd # fds, ptr # maps)" if "0 \<le> fd" "ptr \<noteq> MAP_FAILED"
    using that o2 by (simp add: ptr_def)
  have o4: "os_open os (tr2 @ [mmap fd (gs_shmem_size s), munmap ptr z, close_fd fd]) = (fds, maps)"
    if "0 \<le> fd" "ptr \<noteq> MAP_FAILED" for z
    using o3 [OF that] os_open_snoc [of os "tr2 @ [mmap fd (gs_shmem_size s), munmap ptr z]" "close_fd fd"]
      os_open_snoc [of os "tr2 @ [mmap fd (gs_shmem_size s)]" "munmap ptr z"] by simp
  have o5: "os_open os (tr2 @ [mmap fd (gs_shmem_size s), close_fd fd]) = (fds, maps)"
    if "0 \<le> fd" "ptr = MAP_FAILED"
    using o2 [OF that(1)] that os_open_snoc [of os "tr2 @ [mmap fd (gs_shmem_size s)]" "close_fd fd"]
    by (simp add: ptr_def)
  have pos: "ptr \<noteq> MAP_FAILED \<Longrightarrow> 0 < ptr" using mmap_positive [OF assms] by (simp add: ptr_def)
  consider "fd < 0" | "0 \<le> fd" "os tr1 (ftruncate fd (gs_shmem_size s)) < 0"
    | "0 \<le> fd" "\<not> os tr1 (ftruncate fd (gs_shmem_size s)) < 0" "ptr = MAP_FAILED"
    | "0 \<le> fd" "\<not> os tr1 (ftruncate fd (gs_shmem_size s)) < 0" "ptr \<noteq> MAP_FAILED" "\<not> room_for_rings (gs_shmem_size ?s)"
    | "0 \<le> fd" "\<not> os tr1 (ftruncate fd (gs_shmem_size s)) < 0" "ptr \<noteq> MAP_FAILED" "room_for_rings (gs_shmem_size ?s)"
    by linarith
  then show ?thesis
  proof cases
    case 1
    then show ?thesis using o by (simp add: eq realize_outcome_def fd_def)
  next
    case 2
    then show ?thesis using o o2 by (simp add: eq realize_outcome_def)
  next
    case 3
    then show ?thesis using o o5 by (simp add: eq realize_outcome_def)
  next
    case 4
    then show ?thesis using o o4 device_ring_refused [OF 4(4)] by (simp add: eq realize_outcome_def)
  next
    case 5
    obtain m where "device_ring_init ?s = Some (0, ?s\<lparr>gs_mem := m\<rparr>)"
      "gravity_ring_attach m (nat (gs_shmem_ptr ?s)) = Some (default_ring ?s)"
      "cmd_contents (default_ring ?s) m = []" "comp_contents (default_ring ?s) m = []"
      using device_ring_made [OF 5(4)] by metis
    then show ?thesis using 5 o o3 pos by (simp add: eq realize_outcome_def default_ring_def)
  qed
qed

text \<open>
  C27: realize always comes to an end: with an error and everything it opened closed again; or in
  QEMU's own end at a region whose size QEMU does not take, with the descriptor and the mapping
  still open; or with these two open, a ready device and well-formed empty rings in its memory,
  and exit then releases both.  (Assumed of \<^verbatim>\<open>mmap\<close>: it answers \<^verbatim>\<open>MAP_FAILED\<close> or a positive address.)
\<close>

theorem realize_exit:
  assumes "maps_positive os"
  shows "\<exists>r s' tr'. gravity_gpu_realize taken os s tr = Some (r, s', tr') \<and>
    (case r of
       Failed e \<Rightarrow> os_open os tr' = os_open os tr \<and> gs_shmem_fd s' < 0
     | Ends_Qemu n \<Rightarrow> os_open os tr' = (gs_shmem_fd s' # fst (os_open os tr), gs_shmem_ptr s' # snd (os_open os tr)) \<and>
         (n = 0 \<and> \<not> taken 0 GRAVITY_GPU_BAR0_SIZE \<or> n = 2 \<and> \<not> taken 2 (gs_shmem_size s'))
     | Realized \<Rightarrow> taken 0 GRAVITY_GPU_BAR0_SIZE \<and> taken 2 (gs_shmem_size s') \<and>
         os_open os tr' = (gs_shmem_fd s' # fst (os_open os tr), gs_shmem_ptr s' # snd (os_open os tr)) \<and>
         gs_device_status s' = GRAVITY_STATUS_READY \<and> gs_irq_status s' = 0 \<and>
         gravity_ring_attach (gs_mem s') (nat (gs_shmem_ptr s')) = Some (default_ring s') \<and> ring_ok (default_ring s') \<and>
         cmd_contents (default_ring s') (gs_mem s') = [] \<and> comp_contents (default_ring s') (gs_mem s') = [] \<and>
         os_open os (snd (gravity_gpu_exit s' tr')) = os_open os tr)"
proof -
  define s0 where "s0 = (if gs_hostmem_mb s = 0
     then s\<lparr>gs_hostmem_mb := GRAVITY_GPU_DEFAULT_SHMEM_SIZE div (1024 * 1024)\<rparr> else s)"
  obtain r s' tr' where out: "gravity_gpu_realize taken os s tr = Some (r, s', tr')" "realize_outcome taken os tr (r, s', tr')"
    using realize_shmem_outcome [OF assms, of taken "s0\<lparr>gs_shmem_size := ucast (gs_hostmem_mb s0) * 1024 * 1024\<rparr>" tr]
    unfolding gravity_gpu_realize_def Let_def s0_def by fast
  have "os_open os (snd (gravity_gpu_exit s' tr')) = os_open os tr" if "r = Realized"
  proof -
    have h: "os_open os tr' = (gs_shmem_fd s' # fst (os_open os tr), gs_shmem_ptr s' # snd (os_open os tr))"
      "0 < gs_shmem_ptr s'" "0 \<le> gs_shmem_fd s'"
      using out(2) that by (simp_all add: realize_outcome_def)
    then have "snd (gravity_gpu_exit s' tr') =
        (tr' @ [munmap (gs_shmem_ptr s') (gs_shmem_size s')]) @ [close_fd (gs_shmem_fd s')]"
      by (auto simp: gravity_gpu_exit_def Let_def MAP_FAILED_def)
    then show ?thesis using h(1) by (simp del: append_assoc)
  qed
  then show ?thesis
    using out default_ring_ok by (auto simp: realize_outcome_def split: realize_end.splits)
qed

text \<open>
  What QEMU documents of \<^verbatim>\<open>pci_register_bar\<close>: it takes the powers of two, and at any other size it
  reports the size and exits.
\<close>

definition power_of_two :: "u64 \<Rightarrow> bool" where
  "power_of_two sz \<longleftrightarrow> (\<exists>k<64. unat sz = 2 ^ k)"

definition demo_bars :: bar_taken where
  "demo_bars n sz = power_of_two sz"

text \<open>A device before realize, with the default 512 MiB, and the same one with 4 GiB.\<close>

definition demo_unrealized :: "u32 \<Rightarrow> GravityGPUState" where
  "demo_unrealized mb = demo_device\<lparr>gs_shmem_ptr := 0, gs_shmem_size := 0, gs_shmem_fd := 0, gs_hostmem_mb := mb\<rparr>"

theorem realize_exit_witness:
  "\<exists>s' tr'. gravity_gpu_realize demo_bars demo_os (demo_unrealized 4096) [] = Some (Failed Ring_Init_Failed, s', tr') \<and>
     os_open demo_os tr' = ([], [])"
proof -
  have sz: "\<not> room_for_rings 4294967296" by (simp add: room_for_rings_def)
  have "\<exists>s' tr'. gravity_gpu_realize demo_bars demo_os (demo_unrealized 4096) [] = Some (Failed Ring_Init_Failed, s', tr')"
    by (simp add: gravity_gpu_realize_def realize_shmem_def demo_unrealized_def demo_os_def Let_def MAP_FAILED_def
        device_ring_refused sz)
  then show ?thesis
    using realize_exit [OF demo_os_positive, of demo_bars "demo_unrealized 4096" "[]"] by (auto simp: os_open_def)
qed

section \<open>Reset\<close>

text \<open>
  A reset of a running device empties both rings, whatever the guest wrote, commands the
  daemon has not read included, and leaves the ring realize had made: the context a daemon holds
  since then is still what an attachment gives.  The interrupt mask and the display mode survive.
\<close>

lemma reset_drops_commands:
  assumes "room_for_rings (gs_shmem_size s)" "gs_shmem_ptr s \<noteq> 0" "device_step\<^sup>*\<^sup>* s s1"
  shows "\<exists>s'. gravity_gpu_reset s1 = Some s' \<and>
     gravity_ring_attach (gs_mem s') (nat (gs_shmem_ptr s)) = Some (default_ring s) \<and>
     cmd_contents (default_ring s) (gs_mem s') = [] \<and> comp_contents (default_ring s) (gs_mem s') = [] \<and>
     gs_irq_status s' = 0 \<and> gs_cmd_count s' = 0 \<and> gs_guest_status s' = 0 \<and> gs_irq_mask s' = gs_irq_mask s1 \<and>
     gs_display_width s' = gs_display_width s1 \<and> gs_display_height s' = gs_display_height s1"
proof -
  let ?s = "s1\<lparr>gs_device_status := GRAVITY_STATUS_READY, gs_guest_status := 0, gs_guest_features := 0,
      gs_irq_status := 0, gs_cmd_count := 0, gs_last_error := 0, gs_debug_reg := 0\<rparr>"
  have fr: "gs_shmem_ptr s1 = gs_shmem_ptr s" "gs_shmem_size s1 = gs_shmem_size s"
    using device_steps_frame [OF assms(3)] by (auto simp: device_frame_def)
  have ring: "default_ring ?s = default_ring s" by (simp add: default_ring_def fr)
  have "room_for_rings (gs_shmem_size ?s)" using assms(1) fr by simp
  then obtain m where "device_ring_init ?s = Some (0, ?s\<lparr>gs_mem := m\<rparr>)"
    "gravity_ring_attach m (nat (gs_shmem_ptr ?s)) = Some (default_ring ?s)"
    "cmd_contents (default_ring ?s) m = []" "comp_contents (default_ring ?s) m = []"
    by (rule device_ring_made)
  then show ?thesis using assms(2) fr by (simp add: gravity_gpu_reset_def Let_def ring)
qed

lemma reset_drops_commands_witness:
  "\<exists>s'. gravity_gpu_reset (gravity_gpu_mmio_write (demo_device\<lparr>gs_shmem_size := 0x20000000\<rparr>) (reg_addr REG_IRQ_MASK) 3 4)
     = Some s' \<and> gs_irq_mask s' = 3"
proof -
  let ?s = "demo_device\<lparr>gs_shmem_size := 0x20000000\<rparr>"
  have "device_step\<^sup>*\<^sup>* ?s (gravity_gpu_mmio_write ?s (reg_addr REG_IRQ_MASK) 3 4)"
    using device_step.mmio by (rule r_into_rtranclp)
  then show ?thesis
    using reset_drops_commands [of ?s] by (fastforce simp: demo_device_def room_for_rings_def gravity_gpu_mmio_write_def)
qed

end
