(* ===== verification/Guest_Driver.thy ===== *)
theory Guest_Driver
  imports Qemu_Device
begin

text \<open>
  The guest's kernel extension (\<^verbatim>\<open>guest-driver/GravityGPU\<close>): the accelerator service that maps
  the device, attaches to the ring and greets the host, and the user client through which
  applications submit commands.  The device the driver talks to is part of its state: register
  accesses go to \<^verbatim>\<open>gravity_gpu_mmio_read\<close> and \<^verbatim>\<open>gravity_gpu_mmio_write\<close>, and the shared memory is
  the device's memory, seen at \<^verbatim>\<open>fSharedMemory\<close>.  IOKit's answers (\<^verbatim>\<open>IOService::start\<close>, the casts
  and the mappings) are arguments.
\<close>

section \<open>The accelerator\<close>

text \<open>\<open>fMMIO\<close>, \<open>fBAR0Map\<close>, \<open>fBAR2Map\<close>: whether the pointer is set; \<open>fSharedMemory\<close>: 0 for \<^verbatim>\<open>nullptr\<close>.\<close>

record GravityGPUAccelerator =
  fPCIDevice :: bool
  fBAR0Map :: bool
  fBAR2Map :: bool
  fMMIO :: bool
  fSharedMemory :: nat
  fSharedMemorySize :: u64
  fRing :: gravity_ring
  fSequence :: u32
  fDevice :: GravityGPUState

definition zero_ring :: gravity_ring where
  "zero_ring = \<lparr>rg_header = 0, rg_cmd_ring = 0, rg_comp_ring = 0, rg_data_region = 0, rg_cmd_ring_size = 0,
     rg_cmd_ring_mask = 0, rg_comp_ring_size = 0, rg_comp_ring_mask = 0, rg_data_region_size = 0,
     rg_data_alloc_offset = 0\<rparr>"

definition acc_init :: "bool \<Rightarrow> GravityGPUAccelerator \<Rightarrow> bool \<times> GravityGPUAccelerator" where
  "acc_init super a =
     (if \<not> super then (False, a)
      else (True, a\<lparr>fPCIDevice := False, fBAR0Map := False, fBAR2Map := False, fMMIO := False,
                    fSharedMemory := 0, fSharedMemorySize := 0, fSequence := 0, fRing := zero_ring\<rparr>))"

text \<open>The identity read from the configuration space; \<open>None\<close>: the provider is no PCI device.\<close>

definition acc_probe :: "(u16 \<times> u16) option \<Rightarrow> int option \<Rightarrow> bool \<times> int option" where
  "acc_probe ids score =
     (case ids of
        None \<Rightarrow> (False, score)
      | Some (vendorID, deviceID) \<Rightarrow>
          if vendorID \<noteq> 0x1AF4 \<or> deviceID \<noteq> 0x10DE then (False, score)
          else (True, map_option (\<lambda>_. 10000) score))"

section \<open>Registers\<close>

definition mmioRead32 :: "GravityGPUAccelerator \<Rightarrow> u32 \<Rightarrow> u32" where
  "mmioRead32 a off =
     (if \<not> fMMIO a then 0 else ucast (gravity_gpu_mmio_read (fDevice a) (ucast (off div 4) * 4) 4))"

definition mmioWrite32 :: "GravityGPUAccelerator \<Rightarrow> u32 \<Rightarrow> u32 \<Rightarrow> GravityGPUAccelerator" where
  "mmioWrite32 a off val =
     (if \<not> fMMIO a then a
      else a\<lparr>fDevice := gravity_gpu_mmio_write (fDevice a) (ucast (off div 4) * 4) (ucast val) 4\<rparr>)"

definition reg_off :: "gravity_reg \<Rightarrow> u32" where
  "reg_off r = ucast (reg_addr r)"

section \<open>Ring interface\<close>

definition submitCommand :: "GravityGPUAccelerator \<Rightarrow> u8 list \<Rightarrow> u32 \<Rightarrow> int \<times> GravityGPUAccelerator" where
  "submitCommand a cmd sz =
     (let (result, m) = gravity_ring_cmd_write (fRing a) (gs_mem (fDevice a)) cmd sz;
          a = a\<lparr>fDevice := (fDevice a)\<lparr>gs_mem := m\<rparr>\<rparr>
      in (result, if result = 0 then mmioWrite32 a (reg_off REG_DOORBELL) 1 else a))"

definition readCompletion :: "GravityGPUAccelerator \<Rightarrow> mem \<Rightarrow> u32 \<Rightarrow> int \<times> mem \<times> GravityGPUAccelerator" where
  "readCompletion a out_buf buf_size =
     (let (r, buf, m) = gravity_ring_comp_read (fRing a) (gs_mem (fDevice a)) out_buf buf_size
      in (r, buf, a\<lparr>fDevice := (fDevice a)\<lparr>gs_mem := m\<rparr>\<rparr>))"

definition writeData :: "GravityGPUAccelerator \<Rightarrow> u8 list \<Rightarrow> u32 \<Rightarrow> u64 option \<times> GravityGPUAccelerator" where
  "writeData a data sz =
     (let (r, ring, m) = gravity_ring_data_write (fRing a) (gs_mem (fDevice a)) data sz
      in (r, a\<lparr>fRing := ring, fDevice := (fDevice a)\<lparr>gs_mem := m\<rparr>\<rparr>))"

definition nextSequence :: "GravityGPUAccelerator \<Rightarrow> u32 \<times> GravityGPUAccelerator" where
  "nextSequence a = (fSequence a + 1, a\<lparr>fSequence := fSequence a + 1\<rparr>)"

section \<open>Bringing the device up\<close>

definition unmapBARs :: "GravityGPUAccelerator \<Rightarrow> GravityGPUAccelerator" where
  "unmapBARs a = a\<lparr>fBAR2Map := False, fBAR0Map := False, fMMIO := False, fSharedMemory := 0\<rparr>"

text \<open>
  \<open>bar0\<close>: IOKit maps BAR0; \<open>bar2\<close>: the address and length it maps BAR2 to, if it does.
\<close>

definition mapBARs :: "bool \<Rightarrow> (nat \<times> u64) option \<Rightarrow> GravityGPUAccelerator \<Rightarrow> bool \<times> GravityGPUAccelerator" where
  "mapBARs bar0 bar2 a =
     (if \<not> bar0 then (False, a\<lparr>fBAR0Map := False\<rparr>)
      else
        let a = a\<lparr>fBAR0Map := True, fMMIO := True\<rparr>
        in if mmioRead32 a (reg_off REG_MAGIC) \<noteq> GRAVITY_PROTOCOL_MAGIC then (False, a)
           else case bar2 of
                  None \<Rightarrow> (False, a\<lparr>fBAR2Map := False\<rparr>)
                | Some (addr, len) \<Rightarrow>
                    (True, a\<lparr>fBAR2Map := True, fSharedMemory := addr, fSharedMemorySize := len\<rparr>))"

definition GRAVITY_GUEST_INIT :: u32 where "GRAVITY_GUEST_INIT = 1"
definition GRAVITY_GUEST_READY :: u32 where "GRAVITY_GUEST_READY = 2"
definition GRAVITY_GUEST_ERROR :: u32 where "GRAVITY_GUEST_ERROR = 0xFF"

text \<open>The ring context of a failed attachment is not used again; it stays as it was here.\<close>

definition initializeDevice :: "GravityGPUAccelerator \<Rightarrow> bool \<times> GravityGPUAccelerator" where
  "initializeDevice a =
     (if mmioRead32 a (reg_off REG_DEVICE_STATUS) AND GRAVITY_STATUS_READY = 0 then (False, a)
      else case gravity_ring_attach (gs_mem (fDevice a)) (fSharedMemory a) of
             None \<Rightarrow> (False, a)
           | Some ring \<Rightarrow> (True, mmioWrite32 (a\<lparr>fRing := ring\<rparr>) (reg_off REG_GUEST_STATUS) GRAVITY_GUEST_INIT))"

definition our_features :: u32 where
  "our_features = GRAVITY_FEAT_RING_BUFFER OR GRAVITY_FEAT_SHADER_MSL OR GRAVITY_FEAT_DISPLAY"

definition hello_command :: "u32 \<Rightarrow> gravity_cmd_hello" where
  "hello_command seq =
     \<lparr>hello_hdr = gravity_cmd_init (gravity_cmd_op_val GRAVITY_CMD_HELLO) 44 seq,
      hello_magic = GRAVITY_PROTOCOL_MAGIC,
      hello_version_major = GRAVITY_PROTOCOL_VERSION_MAJOR,
      hello_version_minor = GRAVITY_PROTOCOL_VERSION_MINOR,
      hello_guest_features = our_features,
      hello_reserved = [0, 0, 0, 0]\<rparr>"

text \<open>
  The wait for the greeting's answer: \<open>host\<close> is what everyone else does to the device before
  each look into the completion ring.  The result is the last size read and the buffer.
\<close>

fun await_response ::
  "nat \<Rightarrow> (nat \<Rightarrow> GravityGPUState \<Rightarrow> GravityGPUState) \<Rightarrow> mem \<Rightarrow> GravityGPUAccelerator \<Rightarrow>
     int \<times> mem \<times> GravityGPUAccelerator" where
  "await_response 0 host buf a = (0, buf, a)"
| "await_response (Suc polls) host buf a =
     (let (resp_size, buf, a) = readCompletion (a\<lparr>fDevice := host polls (fDevice a)\<rparr>) buf 256
      in if 0 < resp_size then (resp_size, buf, a)
         else if polls = 0 then (resp_size, buf, a)
         else await_response polls host buf a)"

text \<open>The result tells whether the guest goes on, and the answer it logs, if one came.\<close>

definition negotiateFeatures ::
  "(nat \<Rightarrow> GravityGPUState \<Rightarrow> GravityGPUState) \<Rightarrow> mem \<Rightarrow> GravityGPUAccelerator \<Rightarrow>
     bool \<times> gravity_cmd_hello_response option \<times> GravityGPUAccelerator" where
  "negotiateFeatures host buf a =
     (let a = mmioWrite32 a (reg_off REG_GUEST_FEATURES) our_features;
          (seq, a) = nextSequence a;
          (r, a) = submitCommand a (gravity_cmd_hello_bytes (hello_command seq)) 44
      in if r < 0 then (False, None, a)
         else
           let a = mmioWrite32 a (reg_off REG_DOORBELL) 1;
               (resp_size, buf, a) = await_response 1000 host buf a;
               resp = (if resp_size \<le> 0 then None else Some (gravity_cmd_hello_response_at buf 0))
           in (True, resp, mmioWrite32 a (reg_off REG_GUEST_STATUS) GRAVITY_GUEST_READY))"

definition acc_start ::
  "bool \<Rightarrow> bool \<Rightarrow> bool \<Rightarrow> (nat \<times> u64) option \<Rightarrow> (nat \<Rightarrow> GravityGPUState \<Rightarrow> GravityGPUState) \<Rightarrow> mem \<Rightarrow>
     GravityGPUAccelerator \<Rightarrow> bool \<times> GravityGPUAccelerator" where
  "acc_start super is_pci bar0 bar2 host buf a =
     (if \<not> super then (False, a)
      else if \<not> is_pci then (False, a\<lparr>fPCIDevice := False\<rparr>)
      else
        let (mapped, a) = mapBARs bar0 bar2 (a\<lparr>fPCIDevice := True\<rparr>)
        in if \<not> mapped then (False, a)
           else
             let (initialised, a) = initializeDevice a
             in if \<not> initialised then (False, unmapBARs a)
                else
                  let (negotiated, resp, a) = negotiateFeatures host buf a
                  in if \<not> negotiated then (False, unmapBARs a) else (True, a))"

definition acc_stop :: "GravityGPUAccelerator \<Rightarrow> GravityGPUAccelerator" where
  "acc_stop a =
     (let (seq, a) = nextSequence a;
          (r, a) = submitCommand a
            (gravity_cmd_header_bytes (gravity_cmd_init (gravity_cmd_op_val GRAVITY_CMD_GOODBYE) 16 seq)) 16
      in unmapBARs (mmioWrite32 a (reg_off REG_GUEST_STATUS) GRAVITY_GUEST_ERROR))"

definition acc_free :: "GravityGPUAccelerator \<Rightarrow> GravityGPUAccelerator" where
  "acc_free a = unmapBARs a"

section \<open>The user client\<close>

datatype IOReturn = kIOReturnSuccess | kIOReturnNotReady | kIOReturnError | kIOReturnBadArgument | kIOReturnUnsupported

text \<open>
  \<open>fProvider\<close> is the accelerator, if one is set; the structure input is its bytes, \<open>None\<close> for a
  null pointer, and \<open>sz\<close> the size that comes with it.
\<close>

definition sSubmitCommand ::
  "GravityGPUAccelerator option \<Rightarrow> u8 list option \<Rightarrow> u32 \<Rightarrow> IOReturn \<times> GravityGPUAccelerator option" where
  "sSubmitCommand fProvider structureInput sz =
     (case fProvider of
        None \<Rightarrow> (kIOReturnNotReady, None)
      | Some a \<Rightarrow>
          case structureInput of
            Some input \<Rightarrow>
              if 0 < sz then
                let (result, a) = submitCommand a input sz
                in (if result = 0 then kIOReturnSuccess else kIOReturnError, Some a)
              else (kIOReturnBadArgument, Some a)
          | None \<Rightarrow> (kIOReturnBadArgument, Some a))"

definition externalMethod ::
  "u32 \<Rightarrow> GravityGPUAccelerator option \<Rightarrow> u8 list option \<Rightarrow> u32 \<Rightarrow> IOReturn \<times> GravityGPUAccelerator option" where
  "externalMethod selector fProvider structureInput sz =
     (if selector = 0 then sSubmitCommand fProvider structureInput sz else (kIOReturnBadArgument, fProvider))"

definition clientMemoryForType :: "u32 \<Rightarrow> IOReturn" where
  "clientMemoryForType ty = kIOReturnUnsupported"

section \<open>The test application\<close>

text \<open>
  The ping of \<^verbatim>\<open>guest-userspace/main.cpp\<close>, in that file's own layout: 16-bit opcode and size,
  32-bit flags and a 64-bit id, then client id and time stamp.
\<close>

record app_cmd_hdr =
  app_op :: u16
  app_size :: u16
  app_flags :: u32
  app_id :: u64

record app_cmd_ping =
  app_hdr :: app_cmd_hdr
  app_client_id :: u64
  app_timestamp :: u64

definition app_ping_bytes :: "app_cmd_ping \<Rightarrow> u8 list" where
  "app_ping_bytes p =
     le_bytes 2 (app_op (app_hdr p)) @ le_bytes 2 (app_size (app_hdr p)) @ le_bytes 4 (app_flags (app_hdr p)) @
     le_bytes 8 (app_id (app_hdr p)) @ le_bytes 8 (app_client_id p) @ le_bytes 8 (app_timestamp p)"

definition app_ping :: app_cmd_ping where
  "app_ping = \<lparr>app_hdr = \<lparr>app_op = 0x0003, app_size = 32, app_flags = 0, app_id = 0\<rparr>,
     app_client_id = 0xDEADBEEF, app_timestamp = 0\<rparr>"

text \<open>\<^verbatim>\<open>main\<close> behind the IOKit calls that find and open the service: exit status and the service.\<close>

definition app_main :: "bool \<Rightarrow> bool \<Rightarrow> GravityGPUAccelerator option \<Rightarrow> int \<times> GravityGPUAccelerator option" where
  "app_main found opened service =
     (if \<not> found then (1, service)
      else if \<not> opened then (1, service)
      else let (kr, service) = externalMethod 0 service (Some (app_ping_bytes app_ping)) 32 in (0, service))"

end
