(* ===== verification/Guest_Props.thy ===== *)
theory Guest_Props
  imports Guest_Driver Daemon_Props Qemu_Props
begin

text \<open>
  Properties of the guest's driver, alone and composed with the device and the daemon: what
  submitting a command does, that start succeeds whatever the host does, the handshake with a
  daemon that runs, and what becomes of the test application's ping.
\<close>

section \<open>Register access\<close>

lemma reg_off_addr [simp]: "ucast (reg_off r div 4) * 4 = reg_addr r"
  by (cases r) (simp_all add: reg_off_def)

lemma mmio_read_reg [simp]:
  "fMMIO a \<Longrightarrow> mmioRead32 a (reg_off REG_MAGIC) = GRAVITY_PROTOCOL_MAGIC"
  "fMMIO a \<Longrightarrow> mmioRead32 a (reg_off REG_DEVICE_STATUS) = gs_device_status (fDevice a)"
  by (simp_all add: mmioRead32_def gravity_gpu_mmio_read_def)

lemma mmio_write_reg [simp]:
  "fMMIO a \<Longrightarrow> mmioWrite32 a (reg_off REG_DOORBELL) v = a\<lparr>fDevice := (fDevice a)\<lparr>gs_cmd_count := gs_cmd_count (fDevice a) + 1\<rparr>\<rparr>"
  "fMMIO a \<Longrightarrow> mmioWrite32 a (reg_off REG_GUEST_FEATURES) v = a\<lparr>fDevice := (fDevice a)\<lparr>gs_guest_features := v\<rparr>\<rparr>"
  "fMMIO a \<Longrightarrow> mmioWrite32 a (reg_off REG_GUEST_STATUS) v = a\<lparr>fDevice := (fDevice a)\<lparr>gs_guest_status := v\<rparr>\<rparr>"
  by (simp_all add: mmioWrite32_def gravity_gpu_mmio_write_def)

section \<open>Submitting commands\<close>

text \<open>The commands in the ring, as the driver sees them.\<close>

definition pending_commands :: "GravityGPUAccelerator \<Rightarrow> u8 list" where
  "pending_commands a = cmd_contents (fRing a) (gs_mem (fDevice a))"

definition pending_answers :: "GravityGPUAccelerator \<Rightarrow> u8 list" where
  "pending_answers a = comp_contents (fRing a) (gs_mem (fDevice a))"

definition accepts :: "GravityGPUAccelerator \<Rightarrow> nat \<Rightarrow> bool" where
  "accepts a n \<longleftrightarrow> 0 < n \<and> n \<le> unat (rg_cmd_ring_size (fRing a)) div 2 \<and>
     length (pending_commands a) + n < unat (rg_cmd_ring_size (fRing a))"

lemma submit_accepted:
  assumes ok: "ring_ok (fRing a)" and "fMMIO a" "accepts a (unat sz)" "length cmd = unat sz"
  obtains m where
    "submitCommand a cmd sz = (0, a\<lparr>fDevice := (fDevice a)\<lparr>gs_mem := m, gs_cmd_count := gs_cmd_count (fDevice a) + 1\<rparr>\<rparr>)"
    "cmd_contents (fRing a) m = pending_commands a @ cmd" "comp_contents (fRing a) m = pending_answers a"
proof -
  let ?w = "gravity_ring_cmd_write (fRing a) (gs_mem (fDevice a)) cmd sz"
  have z: "fst ?w = 0"
    using cmd_write_zero_iff [OF ok, of "gs_mem (fDevice a)" cmd sz] assms(3)
    by (simp add: accepts_def pending_commands_def)
  show thesis
    using assms(2) z assms(4) cmd_write_contents [OF ok z] cmd_write_comp_contents [OF ok, of "gs_mem (fDevice a)" cmd sz]
    by (intro that [of "snd ?w"]) (simp_all add: submitCommand_def Let_def split_def pending_commands_def pending_answers_def)
qed

lemma submit_refused:
  assumes "ring_ok (fRing a)" "\<not> accepts a (unat sz)"
  shows "submitCommand a cmd sz = (-1, a)"
proof -
  have "gravity_ring_cmd_write (fRing a) (gs_mem (fDevice a)) cmd sz = (-1, gs_mem (fDevice a))"
    using cmd_write_zero_iff [OF assms(1), of "gs_mem (fDevice a)" cmd sz] assms(2) cmd_write_fail
    by (auto simp: accepts_def pending_commands_def)
  then show ?thesis by (simp add: submitCommand_def)
qed

text \<open>
  through the user client an application can append any bytes to the command ring, headers
  are not looked at: selector 0 with a non-empty input succeeds exactly when the ring accepts
  its size, and then appends the input and rings the doorbell once; every other call changes
  nothing and reports why.
\<close>

lemma external_method:
  assumes "ring_ok (fRing a)" "fMMIO a" "length input = unat sz"
  shows "externalMethod selector None structureInput sz = (if selector = 0 then kIOReturnNotReady else kIOReturnBadArgument, None) \<and>
    externalMethod selector (Some a) None sz = (kIOReturnBadArgument, Some a) \<and>
    (let (r, p) = externalMethod selector (Some a) (Some input) sz
     in if selector \<noteq> 0 \<or> sz = 0 then r = kIOReturnBadArgument \<and> p = Some a
        else if \<not> accepts a (unat sz) then r = kIOReturnError \<and> p = Some a
        else r = kIOReturnSuccess \<and>
          (\<exists>a'. p = Some a' \<and> pending_commands a' = pending_commands a @ input \<and> pending_answers a' = pending_answers a \<and>
             gs_cmd_count (fDevice a') = gs_cmd_count (fDevice a) + 1))"
proof (cases "accepts a (unat sz)")
  case True
  have u: "0 < sz" if "sz \<noteq> 0" using that by (simp add: word_neq_0_conv)
  obtain m where "submitCommand a input sz =
      (0, a\<lparr>fDevice := (fDevice a)\<lparr>gs_mem := m, gs_cmd_count := gs_cmd_count (fDevice a) + 1\<rparr>\<rparr>)"
    "cmd_contents (fRing a) m = pending_commands a @ input" "comp_contents (fRing a) m = pending_answers a"
    using submit_accepted [OF assms(1,2) True assms(3)] .
  then show ?thesis
    using True u by (simp add: externalMethod_def sSubmitCommand_def pending_commands_def pending_answers_def)
next
  case False
  then show ?thesis
    using submit_refused [OF assms(1) False] by (auto simp: externalMethod_def sSubmitCommand_def word_neq_0_conv)
qed

section \<open>Start\<close>

lemma await_ring [simp]: "fRing (snd (snd (await_response n host buf a))) = fRing a"
  "fMMIO (snd (snd (await_response n host buf a))) = fMMIO a"
  "fBAR0Map (snd (snd (await_response n host buf a))) = fBAR0Map a"
  "fBAR2Map (snd (snd (await_response n host buf a))) = fBAR2Map a"
  "fSharedMemory (snd (snd (await_response n host buf a))) = fSharedMemory a"
  "fSequence (snd (snd (await_response n host buf a))) = fSequence a"
  by (induction n arbitrary: buf a) (simp_all add: readCompletion_def split_def Let_def)

lemma length_hello_command [simp]: "length (gravity_cmd_hello_bytes (hello_command seq)) = 44"
  by (simp add: hello_command_def)

text \<open>The greeting is in the ring and the doorbell has rung twice when the wait begins.\<close>

lemma negotiate_accepted:
  assumes "ring_ok (fRing a)" "fMMIO a" "accepts a 44"
  obtains m where
    "negotiateFeatures host buf a =
       (let a1 = a\<lparr>fSequence := fSequence a + 1,
                   fDevice := (fDevice a)\<lparr>gs_guest_features := our_features, gs_mem := m,
                                          gs_cmd_count := gs_cmd_count (fDevice a) + 2\<rparr>\<rparr>;
            out = await_response 1000 host buf a1
        in (True, if fst out \<le> 0 then None else Some (gravity_cmd_hello_response_at (fst (snd out)) 0),
            (snd (snd out))\<lparr>fDevice := (fDevice (snd (snd out)))\<lparr>gs_guest_status := GRAVITY_GUEST_READY\<rparr>\<rparr>))"
    "cmd_contents (fRing a) m = pending_commands a @ gravity_cmd_hello_bytes (hello_command (fSequence a + 1))"
    "comp_contents (fRing a) m = pending_answers a"
proof -
  let ?a = "a\<lparr>fDevice := (fDevice a)\<lparr>gs_guest_features := our_features\<rparr>, fSequence := fSequence a + 1\<rparr>"
  let ?bs = "gravity_cmd_hello_bytes (hello_command (fSequence a + 1))"
  have p: "pending_commands ?a = pending_commands a" "pending_answers ?a = pending_answers a"
    by (simp_all add: pending_commands_def pending_answers_def)
  have "ring_ok (fRing ?a)" "fMMIO ?a" "accepts ?a (unat (44 :: u32))" "length ?bs = unat (44 :: u32)"
    using assms by (simp_all add: accepts_def p)
  then obtain m where m: "submitCommand ?a ?bs 44 =
      (0, ?a\<lparr>fDevice := (fDevice ?a)\<lparr>gs_mem := m, gs_cmd_count := gs_cmd_count (fDevice ?a) + 1\<rparr>\<rparr>)"
    "cmd_contents (fRing ?a) m = pending_commands ?a @ ?bs" "comp_contents (fRing ?a) m = pending_answers ?a"
    by (rule submit_accepted)
  then show thesis
    using assms(2) by (intro that [of m])
      (simp_all add: p negotiateFeatures_def nextSequence_def Let_def split_def add.assoc)
qed

text \<open>Start behind the attachment.\<close>

lemma start_attached:
  assumes "gs_device_status (fDevice a) AND GRAVITY_STATUS_READY \<noteq> 0"
    and "gravity_ring_attach (gs_mem (fDevice a)) p = Some ring"
  shows "acc_start True True True (Some (p, len)) host buf a =
      (let (negotiated, resp, a3) = negotiateFeatures host buf
         (a\<lparr>fPCIDevice := True, fBAR0Map := True, fMMIO := True, fBAR2Map := True, fSharedMemory := p,
           fSharedMemorySize := len, fRing := ring, fDevice := (fDevice a)\<lparr>gs_guest_status := GRAVITY_GUEST_INIT\<rparr>\<rparr>)
       in if negotiated then (True, a3) else (False, unmapBARs a3))"
  using assms by (simp add: acc_start_def mapBARs_def initializeDevice_def Let_def split_def)

lemma start_accepted:
  assumes "gs_device_status (fDevice a) AND GRAVITY_STATUS_READY \<noteq> 0"
    and "gravity_ring_attach (gs_mem (fDevice a)) p = Some ring" "ring_ok ring" "accepts (a\<lparr>fRing := ring\<rparr>) 44"
  shows "let (ok, a') = acc_start True True True (Some (p, len)) host buf a
     in ok \<and> fBAR0Map a' \<and> fBAR2Map a' \<and> fMMIO a' \<and> fSharedMemory a' = p \<and> fRing a' = ring \<and> fSequence a' = fSequence a + 1 \<and>
        gs_guest_status (fDevice a') = GRAVITY_GUEST_READY"
proof -
  define a2 where "a2 = a\<lparr>fPCIDevice := True, fBAR0Map := True, fMMIO := True, fBAR2Map := True, fSharedMemory := p,
      fSharedMemorySize := len, fRing := ring, fDevice := (fDevice a)\<lparr>gs_guest_status := GRAVITY_GUEST_INIT\<rparr>\<rparr>"
  have a2: "ring_ok (fRing a2)" "fMMIO a2" "accepts a2 44" "fRing a2 = ring" "fBAR0Map a2" "fBAR2Map a2" "fSharedMemory a2 = p" "fSequence a2 = fSequence a"
    using assms(3,4) by (simp_all add: a2_def accepts_def pending_commands_def)
  obtain m where m: "negotiateFeatures host buf a2 =
     (let a1 = a2\<lparr>fSequence := fSequence a2 + 1,
                 fDevice := (fDevice a2)\<lparr>gs_guest_features := our_features, gs_mem := m,
                                        gs_cmd_count := gs_cmd_count (fDevice a2) + 2\<rparr>\<rparr>;
          out = await_response 1000 host buf a1
      in (True, if fst out \<le> 0 then None else Some (gravity_cmd_hello_response_at (fst (snd out)) 0),
          (snd (snd out))\<lparr>fDevice := (fDevice (snd (snd out)))\<lparr>gs_guest_status := GRAVITY_GUEST_READY\<rparr>\<rparr>))"
    using negotiate_accepted [OF a2(1-3)] by blast
  show ?thesis
    unfolding start_attached [OF assms(1,2)] a2_def [symmetric] m using a2
    by (simp add: Let_def del: await_response.simps)
qed

lemma start_refused:
  assumes "gs_device_status (fDevice a) AND GRAVITY_STATUS_READY \<noteq> 0"
    and "gravity_ring_attach (gs_mem (fDevice a)) p = Some ring" "ring_ok ring" "\<not> accepts (a\<lparr>fRing := ring\<rparr>) 44"
  shows "let (ok, a') = acc_start True True True (Some (p, len)) host buf a
     in \<not> ok \<and> \<not> fBAR0Map a' \<and> \<not> fBAR2Map a' \<and> \<not> fMMIO a' \<and> fSharedMemory a' = 0"
proof -
  define a2 where "a2 = a\<lparr>fPCIDevice := True, fBAR0Map := True, fMMIO := True, fBAR2Map := True, fSharedMemory := p,
      fSharedMemorySize := len, fRing := ring, fDevice := (fDevice a)\<lparr>gs_guest_status := GRAVITY_GUEST_INIT\<rparr>\<rparr>"
  let ?a = "a2\<lparr>fDevice := (fDevice a2)\<lparr>gs_guest_features := our_features\<rparr>, fSequence := fSequence a2 + 1\<rparr>"
  have a2: "ring_ok (fRing a2)" "fMMIO a2" "\<not> accepts ?a (unat (44 :: u32))"
    using assms(3,4) by (simp_all add: a2_def accepts_def pending_commands_def)
  then have "submitCommand ?a bs 44 = (-1, ?a)" for bs
    by (intro submit_refused) simp_all
  then have "negotiateFeatures host buf a2 = (False, None, ?a)"
    using a2(2) by (simp add: negotiateFeatures_def nextSequence_def Let_def)
  then show ?thesis
    unfolding start_attached [OF assms(1,2)] a2_def [symmetric] by (simp add: unmapBARs_def)
qed

text \<open>What else can stop a start, and what it leaves.\<close>

definition unmapped :: "GravityGPUAccelerator \<Rightarrow> bool" where
  "unmapped a \<longleftrightarrow> \<not> fBAR0Map a \<and> \<not> fBAR2Map a \<and> \<not> fMMIO a \<and> fSharedMemory a = 0"

lemma start_not_ready:
  assumes "gs_device_status (fDevice a) AND GRAVITY_STATUS_READY = 0 \<or> gravity_ring_attach (gs_mem (fDevice a)) p = None"
  shows "let (ok, a') = acc_start True True True (Some (p, len)) host buf a in \<not> ok \<and> unmapped a'"
  using assms by (auto simp: acc_start_def mapBARs_def initializeDevice_def unmapBARs_def unmapped_def Let_def)

text \<open>The wait looks at the host's doings at most as often as it may.\<close>

lemma await_looks:
  assumes "\<forall>k<n. host' k = host k"
  shows "await_response n host' buf a = await_response n host buf a"
  using assms
proof (induction n arbitrary: buf a)
  case (Suc n)
  then show ?case by (simp only: await_response.simps) (simp add: Let_def split: prod.split)
qed simp

lemma start_looks:
  assumes "\<forall>k<1000. host' k = host k"
  shows "acc_start super is_pci bar0 bar2 host' buf a = acc_start super is_pci bar0 bar2 host buf a"
  using await_looks [OF assms]
  by (simp add: acc_start_def negotiateFeatures_def del: await_response.simps cong: if_cong)

text \<open>The ring the driver works with, when nothing is in its way.\<close>

definition start_ring :: "GravityGPUAccelerator \<Rightarrow> nat \<Rightarrow> gravity_ring option" where
  "start_ring a p =
     (if gs_device_status (fDevice a) AND GRAVITY_STATUS_READY = 0 then None
      else case gravity_ring_attach (gs_mem (fDevice a)) p of
             None \<Rightarrow> None
           | Some ring \<Rightarrow> if accepts (a\<lparr>fRing := ring\<rparr>) 44 then Some ring else None)"

text \<open>
  C26: the start of the driver on every path.  \<open>super\<close>: the inherited start succeeds; \<open>is_pci\<close>: the
  provider is a PCI device; \<open>bar0\<close>, \<open>bar2\<close>: IOKit maps the two regions; a ring that can be attached
  is assumed well-formed.  Start succeeds exactly when all four hold, the device is ready, its
  ring can be attached and the 44 bytes of the greeting fit: then both regions are mapped, the
  ring is attached, one sequence number is used and the guest is ready, whatever the host does in
  the at most 1000 looks of the wait.  A device that is not ready, a ring that cannot be attached
  or has no room: start fails and nothing is mapped.  BAR2 that cannot be mapped: start fails with
  BAR0 still mapped.  Any earlier failure: no region has been mapped that was not before.  (The
  check of the magic value behind BAR0 is part of the definition and cannot fail here: the modelled
  device's register always holds it.)
\<close>

theorem driver_start:
  assumes "\<forall>p len ring. bar2 = Some (p, len) \<longrightarrow> gravity_ring_attach (gs_mem (fDevice a)) p = Some ring \<longrightarrow> ring_ok ring"
  shows "let (ok, a') = acc_start super is_pci bar0 bar2 host buf a
     in (\<forall>host'. (\<forall>k<1000. host' k = host k) \<longrightarrow> acc_start super is_pci bar0 bar2 host' buf a = (ok, a')) \<and>
       (if \<not> super \<or> \<not> is_pci then
          \<not> ok \<and> fBAR0Map a' = fBAR0Map a \<and> fBAR2Map a' = fBAR2Map a \<and> fMMIO a' = fMMIO a
        else if \<not> bar0 then \<not> ok \<and> \<not> fBAR0Map a' \<and> fBAR2Map a' = fBAR2Map a \<and> fMMIO a' = fMMIO a
        else case bar2 of
          None \<Rightarrow> \<not> ok \<and> fBAR0Map a' \<and> fMMIO a' \<and> \<not> fBAR2Map a'
        | Some (p, len) \<Rightarrow>
            (case start_ring a p of
               None \<Rightarrow> \<not> ok \<and> unmapped a'
             | Some ring \<Rightarrow> ok \<and> fBAR0Map a' \<and> fBAR2Map a' \<and> fMMIO a' \<and> fSharedMemory a' = p \<and>
                 fRing a' = ring \<and> fSequence a' = fSequence a + 1 \<and>
                 gs_guest_status (fDevice a') = GRAVITY_GUEST_READY))"
    (is "let (ok, a') = _ in ?looks ok a' \<and> ?outcome ok a'")
proof -
  obtain ok a' where e: "acc_start super is_pci bar0 bar2 host buf a = (ok, a')" by fastforce
  have looks: "\<forall>host'. (\<forall>k<1000. host' k = host k) \<longrightarrow> acc_start super is_pci bar0 bar2 host' buf a = (ok, a')"
    using start_looks e by metis
  consider "\<not> super \<or> \<not> is_pci" | "super" "is_pci" "\<not> bar0" | "super" "is_pci" "bar0" "bar2 = None"
    | p len where "super" "is_pci" "bar0" "bar2 = Some (p, len)"
    by (cases bar2) auto
  then have "?outcome ok a'"
  proof cases
    case 1
    then show ?thesis using e by (cases super) (auto simp: acc_start_def)
  next
    case 2
    then show ?thesis using e by (auto simp: acc_start_def mapBARs_def)
  next
    case 3
    then show ?thesis using e by (auto simp: acc_start_def mapBARs_def Let_def)
  next
    case (4 p len)
    show ?thesis
    proof (cases "start_ring a p")
      case None
      have "\<not> ok \<and> unmapped a'"
        using e start_not_ready [of a p len host buf] start_refused [of a p _ len host buf] None assms 4
        by (auto simp: start_ring_def unmapped_def split: if_splits option.splits)
      then show ?thesis using None 4 by simp
    next
      case (Some ring)
      have "ok \<and> fBAR0Map a' \<and> fBAR2Map a' \<and> fMMIO a' \<and> fSharedMemory a' = p \<and> fRing a' = ring \<and>
          fSequence a' = fSequence a + 1 \<and> gs_guest_status (fDevice a') = GRAVITY_GUEST_READY"
        using e start_accepted [of a p ring len host buf] Some assms 4
        by (auto simp: start_ring_def split: if_splits option.splits)
      then show ?thesis using Some 4 by simp
    qed
  qed
  then show ?thesis unfolding e Let_def split_conv using looks by blast
qed

section \<open>The handshake\<close>

text \<open>One iteration of the daemon's loop on the device's memory; both see it at the same addresses.\<close>

definition host_turn :: "vulkan \<Rightarrow> loop_state \<Rightarrow> GravityGPUState \<Rightarrow> GravityGPUState" where
  "host_turn V s dev =
     (case loop_step V (guest_acts (\<lambda>_. gs_mem dev) s) of
        None \<Rightarrow> dev
      | Some s' \<Rightarrow> dev\<lparr>gs_mem := dm_mem (lp_daemon s')\<rparr>)"

lemma await_first:
  assumes "readCompletion (a\<lparr>fDevice := host 999 (fDevice a)\<rparr>) buf 256 = (r, out, a')" "0 < r"
  shows "await_response 1000 host buf a = (r, out, a')"
proof -
  have "await_response (Suc 999) host buf a = (r, out, a')"
    unfolding await_response.simps Let_def assms(1) using assms(2) by simp
  then show ?thesis by simp
qed

lemma hello_response_at_wr:
  assumes "length bs = 56"
  shows "gravity_cmd_hello_response_at (wr buf 0 bs) 0 = gravity_cmd_hello_response_at (list_mem bs) 0"
proof -
  have "gravity_cmd_header_at (wr buf 0 bs) 0 = gravity_cmd_header_at (list_mem bs) 0"
    by (rule header_at_cong) (simp add: wr_def list_mem_def assms)
  then show ?thesis
    unfolding gravity_cmd_hello_response_at_def
    by (simp add: wr_def list_mem_def assms cong: ld16_cong2 ld32_cong2 ld64_cong2)
qed

lemma hello_command_header: "header_of (gravity_cmd_hello_bytes (hello_command seq)) = hello_hdr (hello_command seq)"
  by (simp add: gravity_cmd_hello_bytes_def header_of_append)

lemma hello_command_proper: "proper_command (gravity_cmd_hello_bytes (hello_command seq))"
  unfolding proper_command_def framed_def hello_command_header
  by (simp add: hello_command_def gravity_cmd_init_def)

text \<open>
  C13: guest, device and daemon together: with a daemon looping on the same empty rings the
  guest's negotiation gets, at its first look, the daemon's greeting with the guest's own
  sequence number, protocol version, features and limits, and leaves the guest ready and no
  answer behind.
\<close>

theorem handshake:
  assumes "fMMIO a" "ring_ok (fRing a)" "dm_ring (lp_daemon s) = fRing a"
    and "pending_commands a = []" "pending_answers a = []"
    and "88 \<le> unat (rg_cmd_ring_size (fRing a))" "56 < unat (rg_comp_ring_size (fRing a))"
  shows "\<exists>a'. negotiateFeatures (\<lambda>_. host_turn V s) buf a =
      (True, Some (hello_answer (hello_hdr (hello_command (fSequence a + 1)))), a') \<and>
    gs_guest_status (fDevice a') = GRAVITY_GUEST_READY \<and> gs_guest_features (fDevice a') = our_features \<and>
    pending_answers a' = []"
proof -
  let ?c = "gravity_cmd_hello_bytes (hello_command (fSequence a + 1))"
  let ?r = "gravity_cmd_hello_response_bytes (hello_answer (header_of ?c))"
  have len: "length ?r = 56" by (simp add: hello_answer_def)
  have acc: "accepts a 44" using assms(4,6) by (simp add: accepts_def)
  obtain m where m: "negotiateFeatures (\<lambda>_. host_turn V s) buf a =
       (let a1 = a\<lparr>fSequence := fSequence a + 1,
                   fDevice := (fDevice a)\<lparr>gs_guest_features := our_features, gs_mem := m,
                                          gs_cmd_count := gs_cmd_count (fDevice a) + 2\<rparr>\<rparr>;
            out = await_response 1000 (\<lambda>_. host_turn V s) buf a1
        in (True, if fst out \<le> 0 then None else Some (gravity_cmd_hello_response_at (fst (snd out)) 0),
            (snd (snd out))\<lparr>fDevice := (fDevice (snd (snd out)))\<lparr>gs_guest_status := GRAVITY_GUEST_READY\<rparr>\<rparr>))"
    "cmd_contents (fRing a) m = ?c @ []" "comp_contents (fRing a) m = []"
    using negotiate_accepted [OF assms(2,1) acc] assms(4,5) by (metis append_Nil append_Nil2)
  let ?s = "guest_acts (\<lambda>_. m) s"
  have s: "dm_ring (lp_daemon ?s) = fRing a" "dm_mem (lp_daemon ?s) = m" by (simp_all add: guest_acts_def assms(3))
  have op: "hdr_opcode (header_of ?c) = gravity_cmd_op_val GRAVITY_CMD_HELLO"
    unfolding hello_command_header by (simp add: hello_command_def gravity_cmd_init_def)
  have "\<exists>s' m'. loop_step V ?s = Some s' \<and>
     cmd_contents (dm_ring (lp_daemon s')) (dm_mem (lp_daemon s')) = [] \<and>
     gravity_ring_comp_read (dm_ring (lp_daemon ?s)) (dm_mem (lp_daemon s')) buf 256 = (int (length ?r), wr buf 0 ?r, m') \<and>
     comp_contents (dm_ring (lp_daemon ?s)) m' = []"
    by (rule answer_reaches_guest [OF _ hello_command_proper _ process_hello [OF op]])
      (use assms(2,7) m(2,3) len s in \<open>simp_all add: hello_framed\<close>)
  then obtain s' m' where s': "loop_step V ?s = Some s'"
    "gravity_ring_comp_read (fRing a) (dm_mem (lp_daemon s')) buf 256 = (56, wr buf 0 ?r, m')"
    "comp_contents (fRing a) m' = []"
    unfolding s len by auto
  let ?dev = "(fDevice a)\<lparr>gs_guest_features := our_features, gs_mem := m, gs_cmd_count := gs_cmd_count (fDevice a) + 2\<rparr>"
  let ?a1 = "a\<lparr>fSequence := fSequence a + 1, fDevice := ?dev\<rparr>"
  have turn: "host_turn V s ?dev = ?dev\<lparr>gs_mem := dm_mem (lp_daemon s')\<rparr>"
    using s'(1) by (simp add: host_turn_def)
  have wait: "await_response 1000 (\<lambda>_. host_turn V s) buf ?a1 =
      (56, wr buf 0 ?r, ?a1\<lparr>fDevice := ?dev\<lparr>gs_mem := m'\<rparr>\<rparr>)"
    by (rule await_first) (simp_all add: turn readCompletion_def s'(2))
  have "gravity_cmd_hello_response_at (wr buf 0 ?r) 0 = hello_answer (header_of ?c)"
    using hello_response_at_wr [OF len] decode_hello_response [of "hello_answer (header_of ?c)"]
    by (simp add: hello_answer_def)
  then show ?thesis
    unfolding m(1) Let_def wait hello_command_header by (simp add: pending_answers_def s'(3))
qed

section \<open>The test application's ping\<close>

lemma app_ping_framing:
  "length (app_ping_bytes app_ping) = 32"
  "hdr_size (header_of (app_ping_bytes app_ping)) = 0"
  "hdr_size (header_of (drop 16 (app_ping_bytes app_ping))) = 0"
  by code_simp+

lemma consume_frame:
  assumes "ring_ok (dm_ring d)"
  shows "comp_contents (dm_ring d) (dm_mem (dm_consume d sz)) = comp_contents (dm_ring d) (dm_mem d)"
    "dm_calls (dm_consume d sz) = dm_calls d" "dm_ring (dm_consume d sz) = dm_ring d"
  using cmd_consume_comp_contents [OF assms] by (simp_all add: dm_consume_def)

text \<open>
  C16: the test application's ping never reaches the daemon's dispatcher: the application declares
  a header of another layout, whose size field the daemon reads as 0, so the ring takes its 32
  bytes and two iterations discard them as two invalid headers, without an answer; the
  application still exits with 0.
\<close>

theorem app_ping_lost:
  assumes "fMMIO a" "ring_ok (fRing a)" "dm_ring (lp_daemon s) = fRing a"
    and "pending_commands a = []" "64 \<le> unat (rg_cmd_ring_size (fRing a))"
  shows "\<exists>a' s'. app_main True True (Some a) = (0, Some a') \<and>
     command_loop V [\<lambda>_. gs_mem (fDevice a'), \<lambda>m. m] s = Some s' \<and>
     cmd_contents (fRing a) (dm_mem (lp_daemon s')) = [] \<and>
     comp_contents (fRing a) (dm_mem (lp_daemon s')) = pending_answers a \<and>
     lp_total s' = lp_total s \<and> dm_calls (lp_daemon s') = dm_calls (lp_daemon s)"
proof -
  let ?bs = "app_ping_bytes app_ping"
  note fr = app_ping_framing
  have "accepts a (unat (32 :: u32))" "length ?bs = unat (32 :: u32)"
    using assms(4,5) fr(1) by (simp_all add: accepts_def)
  then obtain m where m: "submitCommand a ?bs 32 =
      (0, a\<lparr>fDevice := (fDevice a)\<lparr>gs_mem := m, gs_cmd_count := gs_cmd_count (fDevice a) + 1\<rparr>\<rparr>)"
    "cmd_contents (fRing a) m = pending_commands a @ ?bs" "comp_contents (fRing a) m = pending_answers a"
    using submit_accepted [OF assms(2,1)] by blast
  let ?a' = "a\<lparr>fDevice := (fDevice a)\<lparr>gs_mem := m, gs_cmd_count := gs_cmd_count (fDevice a) + 1\<rparr>\<rparr>"
  have main: "app_main True True (Some a) = (0, Some ?a')"
    by (simp add: app_main_def externalMethod_def sSubmitCommand_def m(1))
  let ?s = "guest_acts (\<lambda>_. m) s"
  have s: "dm_ring (lp_daemon ?s) = fRing a" "dm_mem (lp_daemon ?s) = m" "lp_total ?s = lp_total s"
    "dm_calls (lp_daemon ?s) = dm_calls (lp_daemon s)"
    by (simp_all add: guest_acts_def assms(3))
  have ok: "ring_ok (dm_ring (lp_daemon ?s))" using assms(2) s(1) by simp
  obtain s1 where s1: "loop_step V ?s = Some s1" "lp_daemon s1 = dm_consume (lp_daemon ?s) 16" "lp_total s1 = lp_total s"
    "cmd_contents (fRing a) (dm_mem (lp_daemon s1)) = drop 16 ?bs"
    using loop_step_invalid [OF ok, of ?bs V] m(2) assms(4) fr(1,2) s by (auto simp: peek_ready_def)
  have ok1: "ring_ok (dm_ring (lp_daemon s1))" using s1(2) ok consume_frame [OF ok] by simp
  obtain s2 where s2: "loop_step V s1 = Some s2" "lp_daemon s2 = dm_consume (lp_daemon s1) 16" "lp_total s2 = lp_total s"
    "cmd_contents (fRing a) (dm_mem (lp_daemon s2)) = drop 16 (drop 16 ?bs)"
    using loop_step_invalid [OF ok1, of "drop 16 ?bs" V] s1 fr(1,3) s consume_frame [OF ok] by (auto simp: peek_ready_def)
  have "command_loop V [\<lambda>_. gs_mem (fDevice ?a'), \<lambda>m. m] s = Some s2" using s1(1) s2(1) by simp
  moreover have "comp_contents (fRing a) (dm_mem (lp_daemon s2)) = pending_answers a"
    "dm_calls (lp_daemon s2) = dm_calls (lp_daemon s)"
    using s1(2) s2(2) consume_frame [OF ok] consume_frame [OF ok1] s m(3) by simp_all
  ultimately show ?thesis using main s2(3,4) fr(1) by (intro exI [of _ ?a'] exI [of _ s2]) simp
qed

section \<open>A concrete guest\<close>

text \<open>A driver attached to the small demonstration ring.\<close>

definition demo_guest :: GravityGPUAccelerator where
  "demo_guest = \<lparr>fPCIDevice = True, fBAR0Map = True, fBAR2Map = True, fMMIO = True, fSharedMemory = 0,
     fSharedMemorySize = 1024, fRing = demo_ring, fSequence = 0, fDevice = demo_device\<lparr>gs_mem := demo_mem\<rparr>\<rparr>"

lemma demo_guest_sel [simp]:
  "fMMIO demo_guest" "fRing demo_guest = demo_ring" "fSequence demo_guest = 0"
  "pending_commands demo_guest = []" "pending_answers demo_guest = []"
  "gs_mem (fDevice demo_guest) = demo_mem" "gs_device_status (fDevice demo_guest) = 1"
  "demo_guest\<lparr>fRing := demo_ring\<rparr> = demo_guest"
  using demo_attach by (simp_all add: demo_guest_def pending_commands_def pending_answers_def demo_device_def
      GRAVITY_STATUS_READY_def)

lemma external_method_witness:
  "fst (externalMethod 0 (Some demo_guest) (Some (app_ping_bytes app_ping)) 32) = kIOReturnSuccess"
  using external_method [of demo_guest "app_ping_bytes app_ping" 32 0 None] app_ping_framing(1)
  by (simp add: accepts_def split_def Let_def)

theorem driver_start_witness:
  "fst (acc_start True True True (Some (0, 1024)) (\<lambda>_ d. d) (\<lambda>_. 0) demo_guest)"
proof -
  have "start_ring demo_guest 0 = Some demo_ring"
    using demo_attach by (auto simp: start_ring_def accepts_def GRAVITY_STATUS_READY_def)
  moreover have "\<forall>p len ring. Some (0, 1024) = Some (p, len) \<longrightarrow>
      gravity_ring_attach (gs_mem (fDevice demo_guest)) p = Some ring \<longrightarrow> ring_ok ring"
    using demo_attach by auto
  from driver_start [OF this, of True True True "\<lambda>_ d. d" "\<lambda>_. 0", unfolded Let_def case_prod_unfold, THEN conjunct2]
  show ?thesis using calculation by simp
qed

theorem handshake_witness:
  "fst (snd (negotiateFeatures (\<lambda>_. host_turn demo_vulkan (demo_loop demo_mem)) (\<lambda>_. 0) demo_guest)) =
     Some (hello_answer (hello_hdr (hello_command 1)))"
  using handshake [of demo_guest "demo_loop demo_mem" demo_vulkan "\<lambda>_. 0"] by auto

theorem app_ping_lost_witness:
  "\<exists>a'. app_main True True (Some demo_guest) = (0, Some a') \<and>
     (\<exists>s'. command_loop demo_vulkan [\<lambda>_. gs_mem (fDevice a'), \<lambda>m. m] (demo_loop demo_mem) = Some s' \<and> lp_total s' = 0)"
  using app_ping_lost [of demo_guest "demo_loop demo_mem" demo_vulkan] by (auto simp del: command_loop.simps)

end
