(* ===== verification/Protocol_Constants.thy ===== *)
theory Protocol_Constants
  imports Guest_Driver Protocol_Layout
begin

text \<open>
  The constants \<^verbatim>\<open>protocol/include/gravity_protocol.h\<close> shares between the parts: the register map
  and status bits as the guest's side has them, the limits of the arrays, and the handle
  namespaces; with their agreement with the device's own register map
  (\<^verbatim>\<open>qemu-patches/hw/display/gravity-gpu.h\<close>) and with the structures.
\<close>

section \<open>Registers, as the protocol numbers them\<close>

definition protocol_registers :: "(gravity_reg \<times> u32) list" where
  "protocol_registers =
     [(REG_MAGIC, 0x000), (REG_VERSION, 0x004), (REG_DEVICE_STATUS, 0x008), (REG_FEATURES, 0x00C),
      (REG_SHMEM_SIZE_LO, 0x010), (REG_SHMEM_SIZE_HI, 0x014),
      (REG_DOORBELL, 0x020),
      (REG_IRQ_STATUS, 0x030), (REG_IRQ_MASK, 0x034),
      (REG_GUEST_FEATURES, 0x040), (REG_GUEST_STATUS, 0x044),
      (REG_DISPLAY_WIDTH, 0x050), (REG_DISPLAY_HEIGHT, 0x054), (REG_DISPLAY_FORMAT, 0x058), (REG_DISPLAY_STRIDE, 0x05C),
      (REG_DEBUG, 0x0F0), (REG_CMD_COUNT, 0x0F4), (REG_ERROR_CODE, 0x0F8)]"

text \<open>Every register of the device is in the map, at the device's address.\<close>

lemma protocol_registers_agree: "map_of protocol_registers r = Some (reg_off r)"
  by (cases r) (simp_all add: protocol_registers_def reg_off_def)

text \<open>Bits the headers reserve and no part sets.\<close>

definition GRAVITY_STATUS_HOST_CONN :: u32 where "GRAVITY_STATUS_HOST_CONN = push_bit 1 1"
definition GRAVITY_STATUS_ERROR :: u32 where "GRAVITY_STATUS_ERROR = push_bit 15 1"

lemma status_bits_apart:
  "GRAVITY_STATUS_READY AND GRAVITY_STATUS_HOST_CONN = 0" "GRAVITY_STATUS_READY AND GRAVITY_STATUS_ERROR = 0"
  "GRAVITY_STATUS_HOST_CONN AND GRAVITY_STATUS_ERROR = 0"
  by (simp_all add: GRAVITY_STATUS_READY_def GRAVITY_STATUS_HOST_CONN_def GRAVITY_STATUS_ERROR_def)

section \<open>Limits\<close>

definition GRAVITY_MAX_VERTEX_BUFFERS :: nat where "GRAVITY_MAX_VERTEX_BUFFERS = 31"
definition GRAVITY_MAX_VERTEX_ATTRIBUTES :: nat where "GRAVITY_MAX_VERTEX_ATTRIBUTES = 31"
definition GRAVITY_MAX_BUFFER_ARGS :: nat where "GRAVITY_MAX_BUFFER_ARGS = 31"
definition GRAVITY_MAX_TEXTURE_ARGS :: nat where "GRAVITY_MAX_TEXTURE_ARGS = 128"
definition GRAVITY_MAX_SAMPLER_ARGS :: nat where "GRAVITY_MAX_SAMPLER_ARGS = 16"
definition GRAVITY_MAX_VIEWPORTS :: nat where "GRAVITY_MAX_VIEWPORTS = 16"
definition GRAVITY_MAX_SCISSOR_RECTS :: nat where "GRAVITY_MAX_SCISSOR_RECTS = 16"
definition GRAVITY_MAX_SHADER_SOURCE_SIZE :: nat where "GRAVITY_MAX_SHADER_SOURCE_SIZE = 1024 * 1024"
definition GRAVITY_MAX_LABEL_LENGTH :: nat where "GRAVITY_MAX_LABEL_LENGTH = 128"

text \<open>The arrays of a pipeline as decoded from any bytes have the lengths of the limits.\<close>

lemma pipeline_array_lengths:
  "length (crp_vertex_attributes (gravity_cmd_create_render_pipeline_at m a)) = GRAVITY_MAX_VERTEX_ATTRIBUTES"
  "length (crp_vertex_buffer_layouts (gravity_cmd_create_render_pipeline_at m a)) = GRAVITY_MAX_VERTEX_BUFFERS"
  by (simp_all add: gravity_cmd_create_render_pipeline_at_def GRAVITY_MAX_VERTEX_ATTRIBUTES_def
      GRAVITY_MAX_VERTEX_BUFFERS_def)

section \<open>Handle namespaces\<close>

datatype handle_type =
    HANDLE_TYPE_BUFFER | HANDLE_TYPE_TEXTURE | HANDLE_TYPE_SAMPLER | HANDLE_TYPE_RENDER_PIPELINE
  | HANDLE_TYPE_COMPUTE_PIPELINE | HANDLE_TYPE_SHADER | HANDLE_TYPE_DEPTH_STENCIL | HANDLE_TYPE_FENCE
  | HANDLE_TYPE_EVENT | HANDLE_TYPE_CMDBUF

fun handle_type_val :: "handle_type \<Rightarrow> u32" where
  "handle_type_val HANDLE_TYPE_BUFFER = 0x10000000"
| "handle_type_val HANDLE_TYPE_TEXTURE = 0x20000000"
| "handle_type_val HANDLE_TYPE_SAMPLER = 0x30000000"
| "handle_type_val HANDLE_TYPE_RENDER_PIPELINE = 0x40000000"
| "handle_type_val HANDLE_TYPE_COMPUTE_PIPELINE = 0x50000000"
| "handle_type_val HANDLE_TYPE_SHADER = 0x60000000"
| "handle_type_val HANDLE_TYPE_DEPTH_STENCIL = 0x70000000"
| "handle_type_val HANDLE_TYPE_FENCE = 0x80000000"
| "handle_type_val HANDLE_TYPE_EVENT = 0x90000000"
| "handle_type_val HANDLE_TYPE_CMDBUF = 0xA0000000"

definition GRAVITY_HANDLE_TYPE_MASK :: u32 where "GRAVITY_HANDLE_TYPE_MASK = 0xF0000000"
definition GRAVITY_HANDLE_INDEX_MASK :: u32 where "GRAVITY_HANDLE_INDEX_MASK = 0x0FFFFFFF"

text \<open>The two masks split a handle, and no namespace has bits of the index.\<close>

lemma handle_masks: "GRAVITY_HANDLE_INDEX_MASK = NOT GRAVITY_HANDLE_TYPE_MASK"
  by (simp add: GRAVITY_HANDLE_INDEX_MASK_def GRAVITY_HANDLE_TYPE_MASK_def)

lemma handle_split:
  "(h AND GRAVITY_HANDLE_TYPE_MASK) OR (h AND GRAVITY_HANDLE_INDEX_MASK) = h"
  by (simp add: handle_masks flip: bit.conj_disj_distrib)

lemma handle_type_in_mask: "handle_type_val ty AND GRAVITY_HANDLE_TYPE_MASK = handle_type_val ty"
  by (cases ty) (simp_all add: GRAVITY_HANDLE_TYPE_MASK_def)

lemma handle_type_val_inj [simp]: "handle_type_val ty = handle_type_val ty' \<longleftrightarrow> ty = ty'"
  by (cases ty; cases ty') simp_all

text \<open>
  So a handle made of a namespace and an index gives both back: two handles of different
  namespaces are never equal, whatever their indices.
\<close>

lemma handle_parts:
  "(handle_type_val ty OR (i AND GRAVITY_HANDLE_INDEX_MASK)) AND GRAVITY_HANDLE_TYPE_MASK = handle_type_val ty"
  "(handle_type_val ty OR (i AND GRAVITY_HANDLE_INDEX_MASK)) AND GRAVITY_HANDLE_INDEX_MASK = i AND GRAVITY_HANDLE_INDEX_MASK"
proof -
  have "handle_type_val ty AND NOT GRAVITY_HANDLE_TYPE_MASK = 0"
    by (subst handle_type_in_mask [symmetric]) (simp add: and.assoc)
  then show "(handle_type_val ty OR (i AND GRAVITY_HANDLE_INDEX_MASK)) AND GRAVITY_HANDLE_TYPE_MASK = handle_type_val ty"
    "(handle_type_val ty OR (i AND GRAVITY_HANDLE_INDEX_MASK)) AND GRAVITY_HANDLE_INDEX_MASK = i AND GRAVITY_HANDLE_INDEX_MASK"
    by (simp_all add: bit.conj_disj_distrib2 handle_masks handle_type_in_mask and.assoc)
qed

end
