(* ===== verification/Device_Class.thy ===== *)
theory Device_Class
  imports Guest_Props
begin

text \<open>
  What \<^verbatim>\<open>qemu-patches/hw/display/gravity-gpu.c\<close> tells QEMU about the device: its identity, its
  properties with their defaults, its handlers and regions, and the fields a migration carries.  The first
  part takes a device from realize to a driver that runs; the second follows one through a
  migration.  QEMU's transfer of the state is a parameter, assumed to copy the listed fields.
\<close>

section \<open>Migrated fields\<close>

text \<open>The 32-bit fields of the state that the list names.\<close>

datatype state_field =
    device_status | guest_features | guest_status | irq_status | irq_mask
  | display_width | display_height | display_format | debug_reg | last_error

fun field_get :: "state_field \<Rightarrow> GravityGPUState \<Rightarrow> u32" where
  "field_get device_status s = gs_device_status s"
| "field_get guest_features s = gs_guest_features s"
| "field_get guest_status s = gs_guest_status s"
| "field_get irq_status s = gs_irq_status s"
| "field_get irq_mask s = gs_irq_mask s"
| "field_get display_width s = gs_display_width s"
| "field_get display_height s = gs_display_height s"
| "field_get display_format s = gs_display_format s"
| "field_get debug_reg s = gs_debug_reg s"
| "field_get last_error s = gs_last_error s"

fun field_set :: "state_field \<Rightarrow> u32 \<Rightarrow> GravityGPUState \<Rightarrow> GravityGPUState" where
  "field_set device_status v s = s\<lparr>gs_device_status := v\<rparr>"
| "field_set guest_features v s = s\<lparr>gs_guest_features := v\<rparr>"
| "field_set guest_status v s = s\<lparr>gs_guest_status := v\<rparr>"
| "field_set irq_status v s = s\<lparr>gs_irq_status := v\<rparr>"
| "field_set irq_mask v s = s\<lparr>gs_irq_mask := v\<rparr>"
| "field_set display_width v s = s\<lparr>gs_display_width := v\<rparr>"
| "field_set display_height v s = s\<lparr>gs_display_height := v\<rparr>"
| "field_set display_format v s = s\<lparr>gs_display_format := v\<rparr>"
| "field_set debug_reg v s = s\<lparr>gs_debug_reg := v\<rparr>"
| "field_set last_error v s = s\<lparr>gs_last_error := v\<rparr>"

text \<open>\<open>VMSTATE_PCI_DEVICE\<close> is the parent: of its state the model has the interrupt line.\<close>

datatype vmstate_field = VMSTATE_PCI_DEVICE | VMSTATE_UINT32 state_field

record VMStateDescription =
  vmsd_name :: string
  version_id :: int
  minimum_version_id :: int
  vmsd_fields :: "vmstate_field list"

definition vmstate_gravity_gpu :: VMStateDescription where
  "vmstate_gravity_gpu =
     \<lparr>vmsd_name = ''gravity-gpu'',
      version_id = 1,
      minimum_version_id = 1,
      vmsd_fields =
        [VMSTATE_PCI_DEVICE,
         VMSTATE_UINT32 device_status,
         VMSTATE_UINT32 guest_features,
         VMSTATE_UINT32 guest_status,
         VMSTATE_UINT32 irq_status,
         VMSTATE_UINT32 irq_mask,
         VMSTATE_UINT32 display_width,
         VMSTATE_UINT32 display_height,
         VMSTATE_UINT32 display_format,
         VMSTATE_UINT32 debug_reg,
         VMSTATE_UINT32 last_error]\<rparr>"

section \<open>Properties and class\<close>

datatype dev_property = DEFINE_PROP_UINT32 string u32 | DEFINE_PROP_STRING string

definition gravity_gpu_properties :: "dev_property list" where
  "gravity_gpu_properties =
     [DEFINE_PROP_UINT32 ''hostmem'' (GRAVITY_GPU_DEFAULT_SHMEM_SIZE div (1024 * 1024)),
      DEFINE_PROP_STRING ''socket-path'',
      DEFINE_PROP_STRING ''shmem-path'']"

definition GRAVITY_GPU_PCI_VENDOR_ID :: u16 where "GRAVITY_GPU_PCI_VENDOR_ID = 0x1AF4"
definition GRAVITY_GPU_PCI_DEVICE_ID :: u16 where "GRAVITY_GPU_PCI_DEVICE_ID = 0x10DE"
definition GRAVITY_GPU_PCI_REVISION :: u8 where "GRAVITY_GPU_PCI_REVISION = 0x01"
definition GRAVITY_GPU_PCI_CLASS :: u16 where "GRAVITY_GPU_PCI_CLASS = 0x1200"
definition GRAVITY_GPU_PCI_SUBSYSTEM_VENDOR :: u16 where "GRAVITY_GPU_PCI_SUBSYSTEM_VENDOR = 0x1AF4"
definition GRAVITY_GPU_PCI_SUBSYSTEM_ID :: u16 where "GRAVITY_GPU_PCI_SUBSYSTEM_ID = 0x1100"

record gravity_gpu_class =
  pc_realize :: "bar_taken \<Rightarrow> os \<Rightarrow> GravityGPUState \<Rightarrow> os_call list \<Rightarrow>
     (realize_end \<times> GravityGPUState \<times> os_call list) option"
  pc_exit :: "GravityGPUState \<Rightarrow> os_call list \<Rightarrow> GravityGPUState \<times> os_call list"
  pc_vendor_id :: u16
  pc_device_id :: u16
  pc_revision :: u8
  pc_class_id :: u16
  pc_subsystem_vendor_id :: u16
  pc_subsystem_id :: u16
  dc_desc :: string
  dc_reset :: "GravityGPUState \<Rightarrow> GravityGPUState option"
  dc_vmsd :: VMStateDescription
  dc_props :: "dev_property list"

definition gravity_gpu_class_init :: gravity_gpu_class where
  "gravity_gpu_class_init =
     \<lparr>pc_realize = gravity_gpu_realize,
      pc_exit = gravity_gpu_exit,
      pc_vendor_id = GRAVITY_GPU_PCI_VENDOR_ID,
      pc_device_id = GRAVITY_GPU_PCI_DEVICE_ID,
      pc_revision = GRAVITY_GPU_PCI_REVISION,
      pc_class_id = GRAVITY_GPU_PCI_CLASS,
      pc_subsystem_vendor_id = GRAVITY_GPU_PCI_SUBSYSTEM_VENDOR,
      pc_subsystem_id = GRAVITY_GPU_PCI_SUBSYSTEM_ID,
      dc_desc = ''GravityGPU - Metal to Vulkan Paravirtual GPU'',
      dc_reset = gravity_gpu_reset,
      dc_vmsd = vmstate_gravity_gpu,
      dc_props = gravity_gpu_properties\<rparr>"

definition gravity_gpu_instance_init :: "GravityGPUState \<Rightarrow> GravityGPUState" where
  "gravity_gpu_instance_init obj = obj"

text \<open>The unit \<^verbatim>\<open>gravity-gpu-pci.c\<close> has an empty realize function that nothing calls.\<close>

definition gravity_gpu_pci_realize :: "GravityGPUState \<Rightarrow> GravityGPUState" where
  "gravity_gpu_pci_realize pci_dev = pci_dev"

section \<open>Memory regions\<close>

text \<open>The handlers of a region, with the access sizes that QEMU calls them with.\<close>

datatype device_endian = DEVICE_LITTLE_ENDIAN

record MemoryRegionOps =
  mr_read :: "GravityGPUState \<Rightarrow> u64 \<Rightarrow> u32 \<Rightarrow> u64"
  mr_write :: "GravityGPUState \<Rightarrow> u64 \<Rightarrow> u64 \<Rightarrow> u32 \<Rightarrow> GravityGPUState"
  endianness :: device_endian
  min_access_size :: u32
  max_access_size :: u32

definition gravity_gpu_mmio_ops :: MemoryRegionOps where
  "gravity_gpu_mmio_ops = \<lparr>mr_read = gravity_gpu_mmio_read, mr_write = gravity_gpu_mmio_write,
     endianness = DEVICE_LITTLE_ENDIAN, min_access_size = 4, max_access_size = 4\<rparr>"

definition gravity_gpu_shmem_ops :: MemoryRegionOps where
  "gravity_gpu_shmem_ops = \<lparr>mr_read = gravity_gpu_shmem_read, mr_write = gravity_gpu_shmem_write,
     endianness = DEVICE_LITTLE_ENDIAN, min_access_size = 1, max_access_size = 8\<rparr>"

text \<open>The regions realize registers: number, handlers, size, and whether 64-bit and prefetchable.\<close>

record pci_bar =
  bar_region :: nat
  bar_ops :: MemoryRegionOps
  bar_size :: u64
  bar_mem_64 :: bool
  bar_prefetch :: bool

definition gravity_gpu_bars :: "GravityGPUState \<Rightarrow> pci_bar list" where
  "gravity_gpu_bars s =
     [\<lparr>bar_region = 0, bar_ops = gravity_gpu_mmio_ops, bar_size = GRAVITY_GPU_BAR0_SIZE,
       bar_mem_64 = False, bar_prefetch = False\<rparr>,
      \<lparr>bar_region = 2, bar_ops = gravity_gpu_shmem_ops, bar_size = gs_shmem_size s,
       bar_mem_64 = True, bar_prefetch = True\<rparr>]"

text \<open>
  Every register lies in the first region; and an access of an admitted power of two inside the
  second is neither refused by the bounds check nor by the choice of the size: it reads the bytes
  that are there.
\<close>

lemma bar0_registers: "bar \<in> set (gravity_gpu_bars s) \<Longrightarrow> bar_region bar = 0 \<Longrightarrow> reg_addr r + 4 \<le> bar_size bar"
  by (cases r) (auto simp: gravity_gpu_bars_def GRAVITY_GPU_BAR0_SIZE_def)

lemma bar2_access:
  assumes "bar \<in> set (gravity_gpu_bars s)" "bar_region bar = 2" "sz \<in> {1, 2, 4, 8}"
    and "unat addr + unat sz \<le> unat (bar_size bar)"
  shows "mr_read (bar_ops bar) s addr sz =
     (let base = (nat (gs_shmem_ptr s) + unat addr) mod 2 ^ 64
      in if sz = 1 then ucast (gs_mem s base) else if sz = 2 then ucast (ld16 (gs_mem s) base)
         else if sz = 4 then ucast (ld32 (gs_mem s) base) else ld64 (gs_mem s) base)"
proof -
  have b: "bar_ops bar = gravity_gpu_shmem_ops" "bar_size bar = gs_shmem_size s"
    using assms(1,2) by (auto simp: gravity_gpu_bars_def)
  have "unat (gs_shmem_size s) < 2 ^ 64" by (rule order_less_le_trans [OF unsigned_less]) simp
  then have "unat addr + unat sz < 2 ^ 64" using assms(4) b(2) by simp
  then have "unat (addr + ucast sz) = unat addr + unat sz" by (simp add: unat_word_ariths)
  then have "\<not> gs_shmem_size s < addr + ucast sz" using assms(4) b(2) by (simp add: word_less_nat_alt)
  then show ?thesis using assms(3) by (auto simp: b gravity_gpu_shmem_ops_def gravity_gpu_shmem_read_def Let_def)
qed

section \<open>The type\<close>

text \<open>Parent and interface are QEMU's; they are given by the macros' names.\<close>

record TypeInfo =
  ti_name :: string
  ti_parent :: string
  ti_instance_init :: "GravityGPUState \<Rightarrow> GravityGPUState"
  ti_class_init :: gravity_gpu_class
  ti_interfaces :: "string list"

definition gravity_gpu_info :: TypeInfo where
  "gravity_gpu_info = \<lparr>ti_name = ''gravity-gpu'', ti_parent = ''TYPE_PCI_DEVICE'',
     ti_instance_init = gravity_gpu_instance_init, ti_class_init = gravity_gpu_class_init,
     ti_interfaces = [''INTERFACE_CONVENTIONAL_PCI_DEVICE'']\<rparr>"

section \<open>From realize to a running driver\<close>

text \<open>A system on which opening, resizing and mapping the shared memory object succeed.\<close>

definition os_willing :: "os \<Rightarrow> bool" where
  "os_willing os \<longleftrightarrow> (\<forall>tr path c. 0 \<le> os tr (shm_open path c)) \<and> (\<forall>tr fd n. 0 \<le> os tr (ftruncate fd n)) \<and>
     (\<forall>tr fd n. 0 < os tr (mmap fd n))"

lemma os_willing_positive: "os_willing os \<Longrightarrow> maps_positive os"
  by (simp add: os_willing_def maps_positive_def)

lemma device_ring_init_size: "device_ring_init s = Some (r, s') \<Longrightarrow> gs_shmem_size s' = gs_shmem_size s"
  by (auto simp: device_ring_init_def split: option.splits)

text \<open>What is left of realize once the memory is mapped at \<open>ptr\<close>.\<close>

definition realize_mapped ::
  "bar_taken \<Rightarrow> int \<Rightarrow> int \<Rightarrow> GravityGPUState \<Rightarrow> os_call list \<Rightarrow>
     (realize_end \<times> GravityGPUState \<times> os_call list) option" where
  "realize_mapped taken fd ptr s tr =
     (case device_ring_init (s\<lparr>gs_shmem_fd := fd, gs_shmem_ptr := ptr\<rparr>) of
        None \<Rightarrow> None
      | Some (r, s') \<Rightarrow>
          if r < 0
          then Some (Failed Ring_Init_Failed, s'\<lparr>gs_shmem_ptr := 0, gs_shmem_fd := -1\<rparr>,
                     tr @ [munmap ptr (gs_shmem_size s), close_fd fd])
          else case register_bars taken [(0, GRAVITY_GPU_BAR0_SIZE), (2, gs_shmem_size s)] of
                 Some n \<Rightarrow> Some (Ends_Qemu n, s', tr)
               | None \<Rightarrow> Some (Realized, realized s', tr))"

lemma realize_willing:
  assumes "os_willing os"
  obtains ptr fd tr' where "0 < ptr"
    "realize_shmem taken os s tr = realize_mapped taken fd ptr s tr'"
proof -
  define path where "path = (case gs_shmem_path s of Some p \<Rightarrow> p | None \<Rightarrow> GRAVITY_GPU_DEFAULT_SHMEM_PATH)"
  define fd where "fd = os tr (shm_open path True)"
  define tr2 where "tr2 = tr @ [shm_open path True, fchmod fd, ftruncate fd (gs_shmem_size s)]"
  define ptr where "ptr = os tr2 (mmap fd (gs_shmem_size s))"
  have ok: "\<not> fd < 0" "\<not> os t (ftruncate f n) < 0" "0 < ptr" "ptr \<noteq> MAP_FAILED" for t f n
    using assms unfolding os_willing_def fd_def ptr_def MAP_FAILED_def
    by (metis not_less, metis not_less, metis, smt (verit))
  show thesis
    by (rule that [of ptr fd "tr2 @ [mmap fd (gs_shmem_size s)]", OF ok(3)])
      (use ok in \<open>simp add: realize_mapped_def realize_shmem_def Let_def path_def [symmetric] fd_def [symmetric] ptr_def tr2_def
        device_ring_init_size split: option.split\<close>)
qed

text \<open>The size in bytes of \<open>mb\<close> megabytes, as realize computes it, and what is left of it in 32 bits.\<close>

lemma room_megabytes: "room_for_rings (1048576 * ucast (mb :: u32)) \<longleftrightarrow> 5 \<le> unat mb mod 4096"
proof -
  have "unat (ucast (1048576 * ucast mb :: u64) :: u32) = (1048576 * unat mb) mod 2 ^ 32"
    using nat_mod_wrap [of 32 64 "1048576 * unat mb"]
    by (simp add: unsigned_ucast_eq unat_word_ariths take_bit_eq_mod mod_simps mult.assoc)
  also have "\<dots> = (unat mb mod 4096) * 1048576"
    using mod_mult_mult1 [of 1048576 "unat mb" 4096] by simp
  finally show ?thesis by (auto simp: room_for_rings_def)
qed

lemma unat_megabytes: "unat (1048576 * ucast (mb :: u32) :: u64) = unat mb * 2 ^ 20"
proof -
  have "unat mb < 2 ^ 32" by (rule order_less_le_trans [OF unsigned_less]) simp
  then have "1048576 * unat mb < 2 ^ 64" by simp
  then show ?thesis by (simp add: unat_word_ariths unsigned_ucast_eq take_bit_eq_mod)
qed

text \<open>The megabytes a device gets: its property's, 512 for 0.\<close>

definition effective_megabytes :: "GravityGPUState \<Rightarrow> u32" where
  "effective_megabytes s = (if gs_hostmem_mb s = 0 then 512 else gs_hostmem_mb s)"

definition sized :: "GravityGPUState \<Rightarrow> GravityGPUState" where
  "sized s = s\<lparr>gs_hostmem_mb := effective_megabytes s, gs_shmem_size := 1048576 * ucast (effective_megabytes s)\<rparr>"

lemma sized_sel [simp]: "gs_shmem_size (sized s) = 1048576 * ucast (effective_megabytes s)"
  by (simp add: sized_def)

lemma realize_sized: "gravity_gpu_realize taken os s tr = realize_shmem taken os (sized s) tr"
  by (simp add: gravity_gpu_realize_def Let_def effective_megabytes_def sized_def GRAVITY_GPU_DEFAULT_SHMEM_SIZE_def)

text \<open>QEMU takes exactly the regions whose size is a power of two, as it documents.\<close>

definition bars_documented :: "bar_taken \<Rightarrow> bool" where
  "bars_documented taken \<longleftrightarrow> (\<forall>n sz. taken n sz \<longleftrightarrow> power_of_two sz)"

text \<open>The sizes a device can have: 8, 16 and so on up to 2048 megabytes.\<close>

definition device_megabytes :: "nat set" where
  "device_megabytes = (\<lambda>k. 2 ^ k) ` {3..11}"

lemma bar0_taken: "power_of_two GRAVITY_GPU_BAR0_SIZE"
  by (auto simp: power_of_two_def GRAVITY_GPU_BAR0_SIZE_def intro: exI [of _ 12])

lemma power_of_two_megabytes: "power_of_two (1048576 * ucast (mb :: u32)) \<longleftrightarrow> (\<exists>k. unat mb = 2 ^ k)"
proof -
  have "unat mb < 2 ^ 32" by (rule order_less_le_trans [OF unsigned_less]) simp
  have "\<exists>k. unat mb = 2 ^ k" if "unat mb * 2 ^ 20 = 2 ^ k" for k
  proof -
    have "20 \<le> k"
    proof (rule ccontr)
      assume "\<not> 20 \<le> k"
      then have "(2 :: nat) ^ k < 2 ^ 20" by (intro power_strict_increasing) simp_all
      moreover have "2 ^ 20 \<le> unat mb * 2 ^ 20" using that by (cases "unat mb") simp_all
      ultimately show False using that by simp
    qed
    then have "(2 :: nat) ^ k = 2 ^ (k - 20) * 2 ^ 20" using power_add [of "2 :: nat" "k - 20" 20] by simp
    then show ?thesis using that by auto
  qed
  moreover have "\<exists>k<64. unat mb * 2 ^ 20 = 2 ^ k" if "unat mb = 2 ^ k" for k
  proof -
    have "(2 :: nat) ^ k < 2 ^ 32" using \<open>unat mb < 2 ^ 32\<close> that by simp
    then have "k < 32" using power_less_imp_less_exp [of "2 :: nat" k 32] by simp
    then show ?thesis using that by (intro exI [of _ "k + 20"]) (simp add: power_add)
  qed
  ultimately show ?thesis by (auto simp: power_of_two_def unat_megabytes)
qed

lemma device_megabytes_iff: "n \<in> device_megabytes \<longleftrightarrow> 5 \<le> n mod 4096 \<and> (\<exists>k. n = 2 ^ k)"
proof
  assume "n \<in> device_megabytes"
  then obtain k where k: "n = 2 ^ k" "3 \<le> k" "k \<le> 11" by (auto simp: device_megabytes_def)
  have "(2 :: nat) ^ 3 \<le> 2 ^ k" "(2 :: nat) ^ k \<le> 2 ^ 11" using k(2,3) by (intro power_increasing; simp)+
  then show "5 \<le> n mod 4096 \<and> (\<exists>k. n = 2 ^ k)" using k(1) by auto
next
  assume a: "5 \<le> n mod 4096 \<and> (\<exists>k. n = 2 ^ k)"
  then obtain k where k: "n = 2 ^ k" by blast
  have "k \<le> 11"
  proof (rule ccontr)
    assume "\<not> k \<le> 11"
    then have "n = 4096 * 2 ^ (k - 12)" using k power_add [of "2 :: nat" 12 "k - 12"] by simp
    then show False using a by simp
  qed
  moreover have "3 \<le> k"
  proof (rule ccontr)
    assume "\<not> 3 \<le> k"
    then have "k = 0 \<or> k = 1 \<or> k = 2" by auto
    then show False using a k by auto
  qed
  ultimately show "n \<in> device_megabytes" using k by (auto simp: device_megabytes_def)
qed

lemma bars_registered:
  assumes "bars_documented taken"
  shows "register_bars taken [(0, GRAVITY_GPU_BAR0_SIZE), (2, 1048576 * ucast (mb :: u32))] =
     (if \<exists>k. unat mb = 2 ^ k then None else Some 2)"
  using assms bar0_taken by (simp add: bars_documented_def power_of_two_megabytes)

text \<open>Realize on such a system, for the sizes that pass every check and for the others.\<close>

lemma realize_passes:
  assumes "os_willing os" "bars_documented taken" "unat (effective_megabytes s) \<in> device_megabytes"
  obtains dev tr' m ptr fd where "gravity_gpu_realize taken os s tr = Some (Realized, dev, tr')"
    "dev = realized ((sized s)\<lparr>gs_shmem_fd := fd, gs_shmem_ptr := ptr, gs_mem := m\<rparr>)" "0 < ptr"
    "gravity_ring_attach m (nat ptr) = Some (default_ring dev)" "cmd_contents (default_ring dev) m = []"
proof -
  note n = assms(3) [unfolded device_megabytes_iff]
  obtain ptr fd tr' where ptr: "0 < ptr" and eq: "realize_shmem taken os (sized s) tr = realize_mapped taken fd ptr (sized s) tr'"
    by (rule realize_willing [OF assms(1)])
  let ?s = "(sized s)\<lparr>gs_shmem_fd := fd, gs_shmem_ptr := ptr\<rparr>"
  have "room_for_rings (gs_shmem_size ?s)" using n by (simp add: room_megabytes)
  then obtain m where m: "device_ring_init ?s = Some (0, ?s\<lparr>gs_mem := m\<rparr>)"
    "gravity_ring_attach m (nat (gs_shmem_ptr ?s)) = Some (default_ring ?s)"
    "cmd_contents (default_ring ?s) m = []"
    by (rule device_ring_made)
  have "default_ring (realized (?s\<lparr>gs_mem := m\<rparr>)) = default_ring ?s" by (simp add: default_ring_def)
  moreover have "gravity_gpu_realize taken os s tr = Some (Realized, realized (?s\<lparr>gs_mem := m\<rparr>), tr')"
    using n m(1) by (simp add: realize_sized eq realize_mapped_def bars_registered [OF assms(2)] del: register_bars.simps)
  ultimately show thesis
    using m(2,3) ptr by (intro that [of "realized (?s\<lparr>gs_mem := m\<rparr>)" tr' m ptr fd]) simp_all
qed

lemma realize_stopped:
  assumes "os_willing os" "bars_documented taken" "unat (effective_megabytes s) \<notin> device_megabytes"
  shows "\<exists>r dev tr'. gravity_gpu_realize taken os s tr = Some (r, dev, tr') \<and>
    (if unat (effective_megabytes s) mod 4096 < 5 then
       r = Failed Ring_Init_Failed \<and> gs_shmem_ptr dev = 0 \<and> gs_shmem_fd dev = -1
     else r = Ends_Qemu 2)"
proof -
  let ?n = "unat (effective_megabytes s)"
  obtain ptr fd tr' where eq: "realize_shmem taken os (sized s) tr = realize_mapped taken fd ptr (sized s) tr'"
    by (rule realize_willing [OF assms(1)])
  let ?s = "(sized s)\<lparr>gs_shmem_fd := fd, gs_shmem_ptr := ptr\<rparr>"
  have room: "room_for_rings (gs_shmem_size ?s) \<longleftrightarrow> 5 \<le> ?n mod 4096" by (simp add: room_megabytes)
  show ?thesis
  proof (cases "5 \<le> ?n mod 4096")
    case True
    then have "room_for_rings (gs_shmem_size ?s)" "\<nexists>k. ?n = 2 ^ k" using room assms(3) by (auto simp: device_megabytes_iff)
    moreover obtain m where "device_ring_init ?s = Some (0, ?s\<lparr>gs_mem := m\<rparr>)"
      using device_ring_made [OF calculation(1)] by metis
    ultimately show ?thesis
      using True by (simp add: realize_sized eq realize_mapped_def bars_registered [OF assms(2)] del: register_bars.simps)
  next
    case False
    then have "\<not> room_for_rings (gs_shmem_size ?s)" using room by simp
    then show ?thesis using False by (simp add: realize_sized eq realize_mapped_def device_ring_refused)
  qed
qed

text \<open>
  C17: on a system that grants the shared memory and in a QEMU that takes regions of a power of
  two (\<open>bars_documented\<close>), realize succeeds exactly if the device has 8, 16, and so on up to 2048
  megabytes, the property's default among them.  Otherwise it fails at the ring, whose size is cut
  to 32 bits, if its megabytes modulo 4096 are less than 5, and QEMU ends at BAR2 in all other
  cases.  When it succeeds, the guest's probe accepts the identity of the class, and the driver's
  start maps the device, attaches to the ring realize made, and ends with the guest ready.
\<close>

theorem device_comes_up:
  assumes "os_willing os" "bars_documented taken"
  shows "\<exists>r dev tr'. pc_realize gravity_gpu_class_init taken os s tr = Some (r, dev, tr') \<and>
    (if unat (effective_megabytes s) \<in> device_megabytes then
       r = Realized \<and> unat (gs_shmem_size dev) = unat (effective_megabytes s) * 2 ^ 20 \<and>
       acc_probe (Some (pc_vendor_id gravity_gpu_class_init, pc_device_id gravity_gpu_class_init)) score =
         (True, map_option (\<lambda>_. 10000) score) \<and>
       (let (ok, a') = acc_start True True True (Some (nat (gs_shmem_ptr dev), gs_shmem_size dev)) host buf
          (a\<lparr>fDevice := dev\<rparr>)
        in ok \<and> fRing a' = default_ring dev \<and> gs_guest_status (fDevice a') = GRAVITY_GUEST_READY)
     else if unat (effective_megabytes s) mod 4096 < 5 then
       r = Failed Ring_Init_Failed \<and> gs_shmem_ptr dev = 0 \<and> gs_shmem_fd dev = -1
     else r = Ends_Qemu 2) \<and>
    {unat mb | mb. DEFINE_PROP_UINT32 ''hostmem'' mb \<in> set (dc_props gravity_gpu_class_init)} \<subseteq> device_megabytes"
proof -
  have real: "pc_realize gravity_gpu_class_init = gravity_gpu_realize" by (simp add: gravity_gpu_class_init_def)
  have "512 \<in> device_megabytes" by (auto simp: device_megabytes_def intro: image_eqI [of _ _ 9])
  then have dflt: "{unat mb | mb. DEFINE_PROP_UINT32 ''hostmem'' mb \<in> set (dc_props gravity_gpu_class_init)} \<subseteq> device_megabytes"
    by (auto simp: gravity_gpu_class_init_def gravity_gpu_properties_def GRAVITY_GPU_DEFAULT_SHMEM_SIZE_def)
  show ?thesis
  proof (cases "unat (effective_megabytes s) \<in> device_megabytes")
    case True
    obtain fd ptr m dev tr' where dev: "gravity_gpu_realize taken os s tr = Some (Realized, dev, tr')"
      "dev = realized ((sized s)\<lparr>gs_shmem_fd := fd, gs_shmem_ptr := ptr, gs_mem := m\<rparr>)" "0 < ptr"
      "gravity_ring_attach m (nat ptr) = Some (default_ring dev)" "cmd_contents (default_ring dev) m = []"
      by (rule realize_passes [OF assms True])
    then have "accepts ((a\<lparr>fDevice := dev\<rparr>)\<lparr>fRing := default_ring dev\<rparr>) 44"
      by (simp add: accepts_def pending_commands_def) (simp add: default_ring_def init_ring_def)
    then have "let (ok, a') = acc_start True True True (Some (nat ptr, gs_shmem_size dev)) host buf (a\<lparr>fDevice := dev\<rparr>)
        in ok \<and> fRing a' = default_ring dev \<and> gs_guest_status (fDevice a') = GRAVITY_GUEST_READY"
      using start_accepted [of "a\<lparr>fDevice := dev\<rparr>" "nat ptr" "default_ring dev" "gs_shmem_size dev" host buf]
        dev(2-4) default_ring_ok by (auto simp: GRAVITY_STATUS_READY_def split: prod.splits)
    moreover have "acc_probe (Some (pc_vendor_id gravity_gpu_class_init, pc_device_id gravity_gpu_class_init)) score =
         (True, map_option (\<lambda>_. 10000) score)"
      by (simp add: acc_probe_def gravity_gpu_class_init_def GRAVITY_GPU_PCI_VENDOR_ID_def GRAVITY_GPU_PCI_DEVICE_ID_def)
    moreover have "gs_shmem_ptr dev = ptr" "unat (gs_shmem_size dev) = unat (effective_megabytes s) * 2 ^ 20"
      using dev(2) unat_megabytes [of "effective_megabytes s"] True by (simp_all add: device_megabytes_iff)
    ultimately show ?thesis using True dflt dev(1) unfolding real by simp
  qed (use realize_stopped [OF assms] dflt in \<open>auto simp: real\<close>)
qed

text \<open>On the demonstration system, with the default properties, with 4 GiB and with 100 MiB.\<close>

lemma demo_os_willing: "os_willing demo_os"
  by (simp add: demo_os_def os_willing_def)

lemma demo_bars_documented: "bars_documented demo_bars"
  by (simp add: bars_documented_def demo_bars_def)

lemma demo_megabytes: "512 \<in> device_megabytes" "4096 \<notin> device_megabytes" "100 \<notin> device_megabytes"
  by (simp_all add: device_megabytes_def atLeastAtMost_upt)

theorem device_comes_up_witness:
  "(\<exists>dev tr. gravity_gpu_realize demo_bars demo_os (demo_unrealized 0) [] = Some (Realized, dev, tr)) \<and>
   (\<exists>dev tr. gravity_gpu_realize demo_bars demo_os (demo_unrealized 4096) [] = Some (Failed Ring_Init_Failed, dev, tr)) \<and>
   (\<exists>dev tr. gravity_gpu_realize demo_bars demo_os (demo_unrealized 100) [] = Some (Ends_Qemu 2, dev, tr))"
proof -
  have c: "pc_realize gravity_gpu_class_init = gravity_gpu_realize" by (simp add: gravity_gpu_class_init_def)
  note up = device_comes_up [OF demo_os_willing demo_bars_documented, where score = None and host = "\<lambda>_ d. d"
      and buf = "\<lambda>_. 0" and a = demo_guest and tr = "[]", unfolded c]
  show ?thesis
    using up [of "demo_unrealized 0"] up [of "demo_unrealized 4096"] up [of "demo_unrealized 100"] demo_megabytes
    by (auto simp: effective_megabytes_def demo_unrealized_def)
qed

section \<open>Migration\<close>

text \<open>
  What is used of QEMU's transfer of a state from one process to another, which is a parameter:
  if it succeeds, the destination has the source's values in the fields the description lists,
  and is otherwise as it was.
\<close>

fun copy_field :: "vmstate_field \<Rightarrow> GravityGPUState \<Rightarrow> GravityGPUState \<Rightarrow> GravityGPUState" where
  "copy_field VMSTATE_PCI_DEVICE src dst = dst\<lparr>gs_irq_line := gs_irq_line src\<rparr>"
| "copy_field (VMSTATE_UINT32 f) src dst = field_set f (field_get f src) dst"

definition copies_fields ::
  "(VMStateDescription \<Rightarrow> GravityGPUState \<Rightarrow> GravityGPUState \<Rightarrow> GravityGPUState option) \<Rightarrow> bool" where
  "copies_fields transfer \<longleftrightarrow>
     (\<forall>d src dst dst'. transfer d src dst = Some dst' \<longrightarrow> dst' = fold (\<lambda>f. copy_field f src) (vmsd_fields d) dst)"

text \<open>What can happen to the device while it runs, and its effect.\<close>

datatype device_event = Register_Write u64 u64 u32 | Interrupt u32

fun device_event_effect :: "device_event \<Rightarrow> GravityGPUState \<Rightarrow> GravityGPUState" where
  "device_event_effect (Register_Write addr val sz) s = gravity_gpu_mmio_write s addr val sz"
| "device_event_effect (Interrupt bits) s = gravity_gpu_raise_irq s bits"

text \<open>Two devices that agree on all that BAR0 shows, the command count apart.\<close>

definition same_device :: "GravityGPUState \<Rightarrow> GravityGPUState \<Rightarrow> bool" where
  "same_device s t \<longleftrightarrow> (\<forall>f. field_get f s = field_get f t) \<and> gs_device_features s = gs_device_features t \<and>
     gs_shmem_size s = gs_shmem_size t \<and> gs_irq_line s = gs_irq_line t"

lemma same_deviceD:
  assumes "same_device s t"
  shows "gs_device_status s = gs_device_status t" "gs_guest_features s = gs_guest_features t"
    "gs_guest_status s = gs_guest_status t" "gs_irq_status s = gs_irq_status t" "gs_irq_mask s = gs_irq_mask t"
    "gs_display_width s = gs_display_width t" "gs_display_height s = gs_display_height t"
    "gs_display_format s = gs_display_format t" "gs_debug_reg s = gs_debug_reg t" "gs_last_error s = gs_last_error t"
    "gs_device_features s = gs_device_features t" "gs_shmem_size s = gs_shmem_size t" "gs_irq_line s = gs_irq_line t"
  using assms unfolding same_device_def by (metis field_get.simps)+

lemma same_deviceI:
  "gs_device_status s = gs_device_status t \<Longrightarrow> gs_guest_features s = gs_guest_features t \<Longrightarrow>
    gs_guest_status s = gs_guest_status t \<Longrightarrow> gs_irq_status s = gs_irq_status t \<Longrightarrow> gs_irq_mask s = gs_irq_mask t \<Longrightarrow>
    gs_display_width s = gs_display_width t \<Longrightarrow> gs_display_height s = gs_display_height t \<Longrightarrow>
    gs_display_format s = gs_display_format t \<Longrightarrow> gs_debug_reg s = gs_debug_reg t \<Longrightarrow> gs_last_error s = gs_last_error t \<Longrightarrow>
    gs_device_features s = gs_device_features t \<Longrightarrow> gs_shmem_size s = gs_shmem_size t \<Longrightarrow>
    gs_irq_line s = gs_irq_line t \<Longrightarrow> same_device s t"
  unfolding same_device_def by (intro conjI allI) (case_tac f, simp_all)

lemma same_device_event: "same_device s t \<Longrightarrow> same_device (device_event_effect e s) (device_event_effect e t)"
  by (cases e; frule same_deviceD)
    (auto intro!: same_deviceI simp: gravity_gpu_mmio_write_def gravity_gpu_raise_irq_def Let_def same_deviceD
      simp del: reg_addr.simps)

lemma same_device_run:
  "same_device s t \<Longrightarrow> same_device (fold device_event_effect es s) (fold device_event_effect es t)"
  by (induction es arbitrary: s t) (simp_all add: same_device_event)

lemma same_device_read:
  "same_device s t \<Longrightarrow> addr \<noteq> reg_addr REG_CMD_COUNT \<Longrightarrow> gravity_gpu_mmio_read s addr sz = gravity_gpu_mmio_read t addr sz"
  by (auto simp: gravity_gpu_mmio_read_def Let_def same_deviceD simp del: reg_addr.simps)

text \<open>What a successful realize fixes for the device's life.\<close>

definition realized_features :: u32 where
  "realized_features = GRAVITY_FEAT_RING_BUFFER OR GRAVITY_FEAT_SHADER_MSL OR GRAVITY_FEAT_COMPUTE OR
     GRAVITY_FEAT_BLIT OR GRAVITY_FEAT_DISPLAY"

lemma realize_success:
  assumes "gravity_gpu_realize taken os s tr = Some (Realized, dev, tr')"
  shows "gs_device_features dev = realized_features" "gs_cmd_count dev = 0"
    "gs_shmem_size dev = 1048576 * ucast (effective_megabytes s)"
proof -
  have "\<exists>s'. dev = realized s' \<and> gs_shmem_size s' = gs_shmem_size (sized s)"
    using assms device_ring_init_size
    by (auto simp: realize_sized realize_shmem_def Let_def split: if_splits option.splits prod.splits)
  then show "gs_device_features dev = realized_features" "gs_cmd_count dev = 0"
    "gs_shmem_size dev = 1048576 * ucast (effective_megabytes s)"
    by (auto simp: realized_features_def realized_def)
qed

lemma realize_rings:
  assumes "maps_positive os" "gravity_gpu_realize taken os s tr = Some (Realized, dev, tr')"
  shows "gravity_ring_attach (gs_mem dev) (nat (gs_shmem_ptr dev)) = Some (default_ring dev)"
    "cmd_contents (default_ring dev) (gs_mem dev) = []" "comp_contents (default_ring dev) (gs_mem dev) = []"
proof -
  have "realize_outcome taken os tr (Realized, dev, tr')"
    using realize_shmem_outcome [OF assms(1), of taken "sized s" tr] assms(2) by (simp add: realize_sized)
  then show "gravity_ring_attach (gs_mem dev) (nat (gs_shmem_ptr dev)) = Some (default_ring dev)"
    "cmd_contents (default_ring dev) (gs_mem dev) = []" "comp_contents (default_ring dev) (gs_mem dev) = []"
    by (simp_all add: realize_outcome_def)
qed

text \<open>The life of a device: its run-time steps, and resets.\<close>

inductive device_life :: "GravityGPUState \<Rightarrow> GravityGPUState \<Rightarrow> bool" where
  runs: "device_step s s' \<Longrightarrow> device_life s s'"
| resets: "gravity_gpu_reset s = Some s' \<Longrightarrow> device_life s s'"

lemma device_life_frame:
  assumes "device_life\<^sup>*\<^sup>* s s'"
  shows "gs_device_features s' = gs_device_features s \<and> gs_shmem_size s' = gs_shmem_size s"
  using assms
proof (induction rule: rtranclp_induct)
  case (step s' s'')
  from step.hyps(2) have "gs_device_features s'' = gs_device_features s' \<and> gs_shmem_size s'' = gs_shmem_size s'"
  proof cases
    case runs
    then show ?thesis using device_step_frame by (auto simp: device_frame_def)
  next
    case resets
    then show ?thesis by (auto simp: gravity_gpu_reset_def device_ring_init_def Let_def split: if_splits option.splits)
  qed
  then show ?case using step.IH by simp
qed simp

text \<open>
  C18: a device that has lived any life on one machine and is migrated to one realized with the
  same amount of memory answers, whatever happens from then on, at every register as the original
  would have, and drives the interrupt line as it would have, except that the command count
  starts again; but of the rings nothing is carried: the commands and completions on their way
  are lost, and the driver and the destination's daemon meet two empty rings.
\<close>

theorem migration_keeps_registers:
  assumes "copies_fields transfer" "maps_positive os2"
    and "gravity_gpu_realize taken1 os1 s1 tr1 = Some (Realized, src0, tr1')" "device_life\<^sup>*\<^sup>* src0 src"
    and "gravity_gpu_realize taken2 os2 s2 tr2 = Some (Realized, dst, tr2')" "gs_hostmem_mb s1 = gs_hostmem_mb s2"
    and "transfer (dc_vmsd gravity_gpu_class_init) src dst = Some dst'"
  shows "(\<forall>r es. r \<noteq> REG_CMD_COUNT \<longrightarrow>
       gravity_gpu_mmio_read (fold device_event_effect es dst') (reg_addr r) 4 =
       gravity_gpu_mmio_read (fold device_event_effect es src) (reg_addr r) 4 \<and>
       gs_irq_line (fold device_event_effect es dst') = gs_irq_line (fold device_event_effect es src)) \<and>
     gravity_gpu_mmio_read dst' (reg_addr REG_CMD_COUNT) 4 = 0 \<and>
     gravity_ring_attach (gs_mem dst') (nat (gs_shmem_ptr dst')) = Some (default_ring dst') \<and>
     cmd_contents (default_ring dst') (gs_mem dst') = [] \<and> comp_contents (default_ring dst') (gs_mem dst') = []"
proof -
  have d: "dst' = fold (\<lambda>f. copy_field f src) (vmsd_fields vmstate_gravity_gpu) dst"
    using assms(1,7) unfolding copies_fields_def by (simp add: gravity_gpu_class_init_def)
  have keep: "gs_shmem_size dst' = gs_shmem_size dst" "gs_device_features dst' = gs_device_features dst"
    "gs_cmd_count dst' = gs_cmd_count dst" "gs_mem dst' = gs_mem dst" "gs_shmem_ptr dst' = gs_shmem_ptr dst"
    by (simp_all add: d vmstate_gravity_gpu_def)
  then have ring: "default_ring dst' = default_ring dst" by (simp add: default_ring_def)
  have "same_device dst' src"
  proof (rule same_deviceI)
    show "gs_device_features dst' = gs_device_features src" "gs_shmem_size dst' = gs_shmem_size src"
      using device_life_frame [OF assms(4)] realize_success [OF assms(3)] realize_success [OF assms(5)] assms(6) keep
      by (simp_all add: effective_megabytes_def)
  qed (simp_all add: d vmstate_gravity_gpu_def)
  then have "same_device (fold device_event_effect es dst') (fold device_event_effect es src)" for es
    by (rule same_device_run)
  then have "gravity_gpu_mmio_read (fold device_event_effect es dst') (reg_addr r) 4 =
       gravity_gpu_mmio_read (fold device_event_effect es src) (reg_addr r) 4 \<and>
     gs_irq_line (fold device_event_effect es dst') = gs_irq_line (fold device_event_effect es src)"
    if "r \<noteq> REG_CMD_COUNT" for r es
    using that same_device_read same_deviceD(13) reg_addr_inj by blast
  moreover have "gravity_gpu_mmio_read dst' (reg_addr REG_CMD_COUNT) 4 = 0"
    using realize_success(2) [OF assms(5)] keep by (simp add: gravity_gpu_mmio_read_def)
  ultimately show ?thesis using realize_rings [OF assms(2,5)] ring keep by simp
qed

text \<open>A transfer that copies the listed fields and never fails.\<close>

definition demo_transfer :: "VMStateDescription \<Rightarrow> GravityGPUState \<Rightarrow> GravityGPUState \<Rightarrow> GravityGPUState option" where
  "demo_transfer d src dst = Some (fold (\<lambda>f. copy_field f src) (vmsd_fields d) dst)"

theorem migration_keeps_registers_witness:
  "\<exists>dev tr dst'. gravity_gpu_realize demo_bars demo_os (demo_unrealized 512) [] = Some (Realized, dev, tr) \<and>
     demo_transfer vmstate_gravity_gpu (gravity_gpu_mmio_write dev (reg_addr REG_DISPLAY_WIDTH) 800 4) dev = Some dst' \<and>
     gravity_gpu_mmio_read dst' (reg_addr REG_DISPLAY_STRIDE) 4 = 3328"
proof -
  obtain dev tr where dev: "gravity_gpu_realize demo_bars demo_os (demo_unrealized 512) [] = Some (Realized, dev, tr)"
    by (rule realize_passes [OF demo_os_willing demo_bars_documented, of "demo_unrealized 512" "[]"])
      (use demo_megabytes(1) in \<open>auto simp: effective_megabytes_def demo_unrealized_def\<close>)
  let ?src = "gravity_gpu_mmio_write dev (reg_addr REG_DISPLAY_WIDTH) 800 4"
  obtain dst' where dst': "demo_transfer vmstate_gravity_gpu ?src dev = Some dst'" by (simp add: demo_transfer_def)
  have "device_life\<^sup>*\<^sup>* dev ?src"
    using device_life.runs [OF device_step.mmio] by (rule r_into_rtranclp)
  moreover have "copies_fields demo_transfer" by (simp add: copies_fields_def demo_transfer_def)
  moreover have "demo_transfer (dc_vmsd gravity_gpu_class_init) ?src dev = Some dst'"
    using dst' by (simp add: gravity_gpu_class_init_def)
  ultimately have "\<forall>r es. r \<noteq> REG_CMD_COUNT \<longrightarrow>
       gravity_gpu_mmio_read (fold device_event_effect es dst') (reg_addr r) 4 =
       gravity_gpu_mmio_read (fold device_event_effect es ?src) (reg_addr r) 4"
    using migration_keeps_registers [OF _ demo_os_positive dev _ dev refl, of demo_transfer ?src dst'] by blast
  from this [rule_format, of REG_DISPLAY_STRIDE "[]"]
  have "gravity_gpu_mmio_read dst' (reg_addr REG_DISPLAY_STRIDE) 4 = 3328"
    by (simp add: gravity_gpu_mmio_read_def gravity_gpu_mmio_write_def)
  then show ?thesis using dev dst' by blast
qed

end
