(* ===== verification/Client_Session.thy ===== *)
theory Client_Session
  imports Guest_Props Concurrent_Daemon
begin

text \<open>
  The life of the user clients (\<^verbatim>\<open>guest-driver/GravityGPU/GravityGPUUserClient.cpp\<close>): several
  applications each hold a client of one accelerator and call its methods.  The first part refines
  a door of connected clients before a queue of bytes; the second lets two clients submit at the
  same time, which nothing in the driver prevents.
\<close>

section \<open>A client and its methods\<close>

text \<open>
  \<open>fProvider\<close>: whether the pointer to the accelerator is set.  \<open>uc_calls\<close> are the calls made to
  IOKit, the last one first; what IOKit does then is its own.
\<close>

datatype iokit_call = IOUserClient_stop | IOService_terminate

record GravityGPUUserClient =
  fTask :: nat
  fProvider :: bool
  uc_calls :: "iokit_call list"

text \<open>\<open>super\<close> is the answer of the inherited method.\<close>

definition uc_initWithTask :: "bool \<Rightarrow> nat \<Rightarrow> GravityGPUUserClient \<Rightarrow> bool \<times> GravityGPUUserClient" where
  "uc_initWithTask super owningTask c =
     (if \<not> super then (False, c) else (True, c\<lparr>fTask := owningTask, fProvider := False\<rparr>))"

text \<open>\<open>provider\<close>: the cast to the accelerator's class succeeds.\<close>

definition uc_start :: "bool \<Rightarrow> bool \<Rightarrow> GravityGPUUserClient \<Rightarrow> bool \<times> GravityGPUUserClient" where
  "uc_start super provider c =
     (if \<not> super then (False, c)
      else
        let c = c\<lparr>fProvider := provider\<rparr>
        in if \<not> fProvider c then (False, c) else (True, c))"

definition uc_stop :: "GravityGPUUserClient \<Rightarrow> GravityGPUUserClient" where
  "uc_stop c = c\<lparr>uc_calls := IOUserClient_stop # uc_calls c\<rparr>"

definition uc_clientClose :: "GravityGPUUserClient \<Rightarrow> IOReturn \<times> GravityGPUUserClient" where
  "uc_clientClose c = (kIOReturnSuccess, c\<lparr>uc_calls := IOService_terminate # uc_calls c\<rparr>)"

section \<open>Sessions\<close>

text \<open>The clients, by number, and the accelerator they share.\<close>

record session =
  se_client :: "nat \<Rightarrow> GravityGPUUserClient"
  se_acc :: GravityGPUAccelerator

datatype client_call =
    Init_With_Task nat bool nat
  | Start nat bool bool
  | External_Method nat u32 "u8 list option"
  | Memory_For_Type nat u32
  | Stop nat
  | Client_Close nat

datatype reply = Answer bool | Status IOReturn | No_Reply

text \<open>The external method works on the shared accelerator; an input comes with its own size.\<close>

fun session_call :: "client_call \<Rightarrow> session \<Rightarrow> reply \<times> session" where
  "session_call (Init_With_Task c super task) s =
     (let (ok, u) = uc_initWithTask super task (se_client s c)
      in (Answer ok, s\<lparr>se_client := (se_client s)(c := u)\<rparr>))"
| "session_call (Start c super provider) s =
     (let (ok, u) = uc_start super provider (se_client s c)
      in (Answer ok, s\<lparr>se_client := (se_client s)(c := u)\<rparr>))"
| "session_call (External_Method c selector input) s =
     (let (r, p) = externalMethod selector (if fProvider (se_client s c) then Some (se_acc s) else None) input
        (case input of None \<Rightarrow> 0 | Some bs \<Rightarrow> of_nat (length bs))
      in (Status r, case p of None \<Rightarrow> s | Some a \<Rightarrow> s\<lparr>se_acc := a\<rparr>))"
| "session_call (Memory_For_Type c ty) s = (Status (clientMemoryForType ty), s)"
| "session_call (Stop c) s = (No_Reply, s\<lparr>se_client := (se_client s)(c := uc_stop (se_client s c))\<rparr>)"
| "session_call (Client_Close c) s =
     (let (r, u) = uc_clientClose (se_client s c)
      in (Status r, s\<lparr>se_client := (se_client s)(c := u)\<rparr>))"

fun session_run :: "client_call list \<Rightarrow> session \<Rightarrow> reply list \<times> session" where
  "session_run [] s = ([], s)"
| "session_run (c # cs) s =
     (let (r, s) = session_call c s; (rs, s) = session_run cs s in (r # rs, s))"

section \<open>The abstract door\<close>

text \<open>
  Who may submit, the bytes on their way to the host, and how often the bell rang.  The queue of
  a ring of \<open>cap\<close> bytes takes messages of at most half its size and is never filled completely.
\<close>

record door =
  dr_open :: "nat set"
  dr_queue :: "u8 list"
  dr_bell :: u64

definition door_submit :: "nat \<Rightarrow> u8 list \<Rightarrow> door \<Rightarrow> reply \<times> door" where
  "door_submit cap bs d =
     (if bs = [] then (Status kIOReturnBadArgument, d)
      else if length bs \<le> cap div 2 \<and> length (dr_queue d) + length bs < cap
      then (Status kIOReturnSuccess, d\<lparr>dr_queue := dr_queue d @ bs, dr_bell := dr_bell d + 1\<rparr>)
      else (Status kIOReturnError, d))"

fun door_call :: "nat \<Rightarrow> client_call \<Rightarrow> door \<Rightarrow> reply \<times> door" where
  "door_call cap (Init_With_Task c super task) d =
     (Answer super, if super then d\<lparr>dr_open := dr_open d - {c}\<rparr> else d)"
| "door_call cap (Start c super provider) d =
     (Answer (super \<and> provider),
      if super then d\<lparr>dr_open := (if provider then insert c (dr_open d) else dr_open d - {c})\<rparr> else d)"
| "door_call cap (External_Method c selector input) d =
     (if selector \<noteq> 0 then (Status kIOReturnBadArgument, d)
      else if c \<notin> dr_open d then (Status kIOReturnNotReady, d)
      else case input of None \<Rightarrow> (Status kIOReturnBadArgument, d) | Some bs \<Rightarrow> door_submit cap bs d)"
| "door_call cap (Memory_For_Type c ty) d = (Status kIOReturnUnsupported, d)"
| "door_call cap (Stop c) d = (No_Reply, d)"
| "door_call cap (Client_Close c) d = (Status kIOReturnSuccess, d)"

fun door_run :: "nat \<Rightarrow> client_call list \<Rightarrow> door \<Rightarrow> reply list \<times> door" where
  "door_run cap [] d = ([], d)"
| "door_run cap (c # cs) d = (let (r, d) = door_call cap c d; (rs, d) = door_run cap cs d in (r # rs, d))"

definition door_of :: "session \<Rightarrow> door" where
  "door_of s = \<lparr>dr_open = {c. fProvider (se_client s c)}, dr_queue = pending_commands (se_acc s),
     dr_bell = gs_cmd_count (fDevice (se_acc s))\<rparr>"

text \<open>What every call keeps: the driver is attached to a well-formed ring.\<close>

definition session_ok :: "gravity_ring \<Rightarrow> session \<Rightarrow> bool" where
  "session_ok ring s \<longleftrightarrow> ring_ok ring \<and> fRing (se_acc s) = ring \<and> fMMIO (se_acc s)"

definition fits_size :: "client_call \<Rightarrow> bool" where
  "fits_size call = (case call of External_Method c selector (Some bs) \<Rightarrow> length bs < 2 ^ 32 | _ \<Rightarrow> True)"

text \<open>One submission.\<close>

lemma submit_door:
  assumes "ring_ok (fRing a)" "fMMIO a" "length bs < 2 ^ 32" "bs \<noteq> []"
  shows "fRing (snd (submitCommand a bs (of_nat (length bs)))) = fRing a"
    "fMMIO (snd (submitCommand a bs (of_nat (length bs))))"
    "if accepts a (length bs)
     then fst (submitCommand a bs (of_nat (length bs))) = 0 \<and>
       pending_commands (snd (submitCommand a bs (of_nat (length bs)))) = pending_commands a @ bs \<and>
       gs_cmd_count (fDevice (snd (submitCommand a bs (of_nat (length bs))))) = gs_cmd_count (fDevice a) + 1
     else submitCommand a bs (of_nat (length bs)) = (-1, a)"
proof -
  have u: "unat (of_nat (length bs) :: u32) = length bs"
    using assms(3) by (simp add: unat_of_nat take_bit_eq_mod)
  show "fRing (snd (submitCommand a bs (of_nat (length bs)))) = fRing a"
    "fMMIO (snd (submitCommand a bs (of_nat (length bs))))"
    using assms(2) by (simp_all add: submitCommand_def Let_def split_def)
  show "if accepts a (length bs)
     then fst (submitCommand a bs (of_nat (length bs))) = 0 \<and>
       pending_commands (snd (submitCommand a bs (of_nat (length bs)))) = pending_commands a @ bs \<and>
       gs_cmd_count (fDevice (snd (submitCommand a bs (of_nat (length bs))))) = gs_cmd_count (fDevice a) + 1
     else submitCommand a bs (of_nat (length bs)) = (-1, a)"
  proof (cases "accepts a (length bs)")
    case True
    then have "accepts a (unat (of_nat (length bs) :: u32))" by (simp add: u)
    then obtain m where "submitCommand a bs (of_nat (length bs)) =
        (0, a\<lparr>fDevice := (fDevice a)\<lparr>gs_mem := m, gs_cmd_count := gs_cmd_count (fDevice a) + 1\<rparr>\<rparr>)"
      "cmd_contents (fRing a) m = pending_commands a @ bs"
      by (rule submit_accepted [OF assms(1,2)]) (simp add: u)
    then show ?thesis using True by (simp add: pending_commands_def)
  qed (use submit_refused [OF assms(1)] u in simp)
qed

lemma accepts_door:
  "bs \<noteq> [] \<Longrightarrow> accepts a (length bs) \<longleftrightarrow> length bs \<le> unat (rg_cmd_ring_size (fRing a)) div 2 \<and>
     length (pending_commands a) + length bs < unat (rg_cmd_ring_size (fRing a))"
  by (auto simp: accepts_def)

lemma external_door:
  assumes "session_ok ring s" "fits_size (External_Method c selector input)"
  shows "let (r, s') = session_call (External_Method c selector input) s
     in session_ok ring s' \<and>
        (r, door_of s') = door_call (unat (rg_cmd_ring_size ring)) (External_Method c selector input) (door_of s)"
proof (cases "selector = 0 \<and> fProvider (se_client s c) \<and> (\<exists>bs. input = Some bs \<and> bs \<noteq> [])")
  case True
  then obtain bs where bs: "input = Some bs" "bs \<noteq> []" "length bs < 2 ^ 32"
    using assms(2) by (auto simp: fits_size_def)
  let ?a = "se_acc s" and ?sub = "submitCommand (se_acc s) bs (of_nat (length bs))"
  have ok: "ring_ok (fRing ?a)" "fMMIO ?a" and ring: "ring_ok ring" "fRing ?a = ring" using assms(1) by (auto simp: session_ok_def)
  have pos: "0 < (of_nat (length bs) :: u32)"
    using bs(2,3) by (simp add: word_less_nat_alt unat_of_nat take_bit_eq_mod)
  have call: "session_call (External_Method c selector input) s =
      (Status (if fst ?sub = 0 then kIOReturnSuccess else kIOReturnError), s\<lparr>se_acc := snd ?sub\<rparr>)"
    using True pos by (simp add: bs(1) externalMethod_def sSubmitCommand_def split_def Let_def)
  show ?thesis
  proof (cases "accepts ?a (length bs)")
    case acc: True
    then show ?thesis
      unfolding call using submit_door [OF ok bs(3,2)] ring True accepts_door [OF bs(2), of ?a]
      by (simp add: bs(1,2) session_ok_def door_of_def door_submit_def)
  next
    case False
    then show ?thesis
      unfolding call using submit_door(3) [OF ok bs(3,2)] ring ok True accepts_door [OF bs(2), of ?a]
      by (auto simp: bs(1,2) session_ok_def door_of_def door_submit_def)
  qed
next
  case False
  then consider "selector \<noteq> 0" | "\<not> fProvider (se_client s c)" | "input = None" | "input = Some []" by blast
  then have "session_call (External_Method c selector input) s =
      (Status (if selector \<noteq> 0 then kIOReturnBadArgument
               else if \<not> fProvider (se_client s c) then kIOReturnNotReady else kIOReturnBadArgument), s)"
    by cases (simp_all add: externalMethod_def sSubmitCommand_def)
  moreover have "door_call (unat (rg_cmd_ring_size ring)) (External_Method c selector input) (door_of s) =
      (Status (if selector \<noteq> 0 then kIOReturnBadArgument
               else if \<not> fProvider (se_client s c) then kIOReturnNotReady else kIOReturnBadArgument), door_of s)"
    using False by (auto simp: door_of_def door_submit_def split: option.split)
  ultimately show ?thesis using assms(1) by simp
qed

lemma session_call_door:
  assumes "session_ok ring s" "fits_size call"
  shows "let (r, s') = session_call call s
     in session_ok ring s' \<and> (r, door_of s') = door_call (unat (rg_cmd_ring_size ring)) call (door_of s)"
proof (cases call)
  case (External_Method c selector input)
  then show ?thesis using external_door assms by blast
qed (use assms(1) in \<open>auto simp: session_ok_def door_of_def uc_initWithTask_def uc_start_def uc_stop_def
  uc_clientClose_def clientMemoryForType_def\<close>)

lemma session_run_door:
  assumes "session_ok ring s" "\<forall>call\<in>set calls. fits_size call"
  shows "let (rs, s') = session_run calls s
     in session_ok ring s' \<and> (rs, door_of s') = door_run (unat (rg_cmd_ring_size ring)) calls (door_of s)"
  using assms
proof (induction calls arbitrary: s)
  case (Cons call calls)
  obtain r s1 where call: "session_call call s = (r, s1)" by fastforce
  have s1: "session_ok ring s1" "door_call (unat (rg_cmd_ring_size ring)) call (door_of s) = (r, door_of s1)"
    using session_call_door [OF Cons.prems(1), of call] Cons.prems(2) by (auto simp: call)
  show ?case using Cons.IH [OF s1(1)] Cons.prems(2) by (auto simp: call s1(2) split_def Let_def prod_eq_iff)
qed simp

text \<open>
  C10: any sequence of calls to any number of clients behaves as the door: the replies are the
  same, and a submission gets through exactly if its client was started on the accelerator after
  it was initialised and the queue takes it; then its bytes are appended unchanged and the bell
  rings once.  Everything else leaves the queue alone.  Neither stop nor close shuts the door: a
  client that was closed still submits.
\<close>

theorem sessions_refine_door:
  assumes "session_ok ring s" "\<forall>call\<in>set calls. fits_size call"
  shows "let (rs, s') = session_run calls s
     in session_ok ring s' \<and> (rs, door_of s') = door_run (unat (rg_cmd_ring_size ring)) calls (door_of s)"
  by (rule session_run_door [OF assms])

text \<open>
  On the demonstration ring: a ping is refused before the start, goes through after it, and again
  after the client was stopped and closed.
\<close>

definition demo_session :: session where
  "demo_session = \<lparr>se_client = (\<lambda>_. \<lparr>fTask = 0, fProvider = False, uc_calls = []\<rparr>), se_acc = demo_guest\<rparr>"

definition demo_calls :: "client_call list" where
  "demo_calls = [Init_With_Task 1 True 7, External_Method 1 0 (Some (demo_ping 1)), Start 1 True True,
     External_Method 1 0 (Some (demo_ping 1)), Stop 1, Client_Close 1, External_Method 1 0 (Some (demo_ping 2))]"

lemma demo_session_ok: "session_ok demo_ring demo_session"
  by (simp add: session_ok_def demo_session_def)

lemma demo_door:
  "\<forall>call\<in>set demo_calls. fits_size call"
  "\<exists>bell. door_run (unat (rg_cmd_ring_size demo_ring)) demo_calls (door_of demo_session) =
     ([Answer True, Status kIOReturnNotReady, Answer True, Status kIOReturnSuccess, No_Reply,
       Status kIOReturnSuccess, Status kIOReturnSuccess],
      \<lparr>dr_open = {1}, dr_queue = demo_ping 1 @ demo_ping 2, dr_bell = bell\<rparr>)"
proof -
  have l: "length (demo_ping n) = 16" for n by (simp add: demo_ping_def)
  then have l: "length (demo_ping n) = 16" "demo_ping n \<noteq> []" for n by (simp, metis list.size(3) zero_neq_numeral)
  show "\<forall>call\<in>set demo_calls. fits_size call" by (simp add: demo_calls_def fits_size_def l)
  have q: "door_of demo_session = \<lparr>dr_open = {}, dr_queue = [], dr_bell = gs_cmd_count (fDevice demo_guest)\<rparr>"
    by (simp add: door_of_def demo_session_def)
  have "unat (rg_cmd_ring_size demo_ring) = 256" by simp
  then show "\<exists>bell. door_run (unat (rg_cmd_ring_size demo_ring)) demo_calls (door_of demo_session) =
     ([Answer True, Status kIOReturnNotReady, Answer True, Status kIOReturnSuccess, No_Reply,
       Status kIOReturnSuccess, Status kIOReturnSuccess],
      \<lparr>dr_open = {1}, dr_queue = demo_ping 1 @ demo_ping 2, dr_bell = bell\<rparr>)"
    unfolding q by (simp add: demo_calls_def door_submit_def l)
qed

theorem sessions_refine_door_witness:
  "let (rs, s') = session_run demo_calls demo_session
   in rs = [Answer True, Status kIOReturnNotReady, Answer True, Status kIOReturnSuccess, No_Reply,
        Status kIOReturnSuccess, Status kIOReturnSuccess] \<and>
      pending_commands (se_acc s') = demo_ping 1 @ demo_ping 2"
  using sessions_refine_door [OF demo_session_ok demo_door(1)] demo_door(2)
  by (auto simp: door_of_def split_def Let_def simp del: session_run.simps)

section \<open>From the clients to the daemon\<close>

text \<open>The inputs of the submissions that were reported taken.\<close>

fun taken :: "client_call list \<Rightarrow> reply list \<Rightarrow> u8 list list" where
  "taken (External_Method c selector (Some bs) # calls) (r # rs) =
     (if r = Status kIOReturnSuccess then bs # taken calls rs else taken calls rs)"
| "taken (_ # calls) (_ # rs) = taken calls rs"
| "taken _ _ = []"

lemma taken_refused [simp]: "r \<noteq> Status kIOReturnSuccess \<Longrightarrow> taken [External_Method c selector input] [r] = []"
  by (cases input) simp_all

lemma door_call_queue:
  "door_call cap call d = (r, d') \<Longrightarrow> dr_queue d' = dr_queue d @ concat (taken [call] [r])"
  by (cases call) (auto simp: door_submit_def split: if_splits option.splits)

lemma taken_Cons: "taken (call # calls) (r # rs) = taken [call] [r] @ taken calls rs"
  by (cases "(call # calls, r # rs)" rule: taken.cases) auto

lemma door_run_queue:
  "door_run cap calls d = (rs, d') \<Longrightarrow> dr_queue d' = dr_queue d @ concat (taken calls rs)"
proof (induction calls arbitrary: d rs)
  case (Cons call calls)
  obtain r d1 rs1 where "door_call cap call d = (r, d1)" "door_run cap calls d1 = (rs1, d')" "rs = r # rs1"
    using Cons.prems by (auto simp: Let_def split: prod.splits)
  then show ?case using Cons.IH door_call_queue taken_Cons by (metis append.assoc concat_append)
qed simp

lemma taken_inputs: "c \<in> set (taken calls rs) \<Longrightarrow> \<exists>i sel. External_Method i sel (Some c) \<in> set calls"
  by (induction calls rs rule: taken.induct) (auto split: if_splits)

text \<open>
  An input the daemon's loop takes as it is: a proper command, and if it creates a buffer, a whole
  one under a driver that maps no memory over the rings.
\<close>

definition serviceable :: "vulkan \<Rightarrow> gravity_ring \<Rightarrow> u8 list \<Rightarrow> bool" where
  "serviceable V ring c \<longleftrightarrow> proper_command c \<and>
     (hdr_opcode (header_of c) = gravity_cmd_op_val GRAVITY_CMD_CREATE_BUFFER \<longrightarrow>
        whole_command c \<and> maps_apart V ring)"

lemma serviceable_keeps_queue:
  assumes ok: "ring_ok ring" and c: "serviceable V ring c"
  shows "keeps_queue V ring c"
proof (cases "hdr_opcode (header_of c) = gravity_cmd_op_val GRAVITY_CMD_CREATE_BUFFER")
  case True
  then have w: "whole_command c" "maps_apart V ring" using c by (simp_all add: serviceable_def)
  show ?thesis
    unfolding keeps_queue_def
  proof (intro allI impI)
    fix buf d d'
    assume "dm_ring d = ring" "process_command V (header_of c) (wr buf 0 c) d = Some d'"
    from process_keeps_ring [OF ok this(1) w(2) whole_in_buffer(2) [OF w(1) rd_wr_same True] this(2)]
    show "dm_ring d' = ring \<and> cmd_contents ring (dm_mem d') = cmd_contents ring (dm_mem d)"
      by (simp add: same_cmd_contents)
  qed
qed (rule keeps_queueI [OF ok])

text \<open>
  C9: clients, driver and daemon together, when every input handed to a client is a proper command,
  and a command that creates a buffer is whole and the driver maps memory outside the rings: then,
  however the calls of the clients are mixed, the submissions reported as taken are exactly the
  commands the daemon processes, one each iteration, in the order of the calls, and the ring is
  empty again.  The driver itself checks no input: \<open>app_ping_lost\<close> has one that is reported as
  taken and is no proper command, and it is discarded unprocessed.
\<close>

theorem submissions_are_processed:
  assumes "session_ok ring s" "pending_commands (se_acc s) = []"
    and "\<forall>i sel bs. External_Method i sel (Some bs) \<in> set calls \<longrightarrow> serviceable V ring bs"
    and "session_run calls s = (rs, s')" "dm_ring (lp_daemon host) = ring"
    and "host' = guest_acts (\<lambda>_. gs_mem (fDevice (se_acc s'))) host"
    and "process_all V (taken calls rs) (lp_buf host') (lp_daemon host') = Some (buf, d)"
  shows "command_loop V (replicate (length (taken calls rs)) (\<lambda>m. m)) host' =
      Some (host'\<lparr>lp_buf := buf, lp_daemon := d, lp_total := lp_total host + of_nat (length (taken calls rs))\<rparr>) \<and>
    cmd_contents (dm_ring d) (dm_mem d) = []"
proof -
  have "\<forall>call\<in>set calls. fits_size call"
    using assms(3) by (fastforce simp: serviceable_def fits_size_def proper_command_def framed_def CMD_BUF_SIZE_def
        split: client_call.splits option.splits)
  then have s': "session_ok ring s'" "door_run (unat (rg_cmd_ring_size ring)) calls (door_of s) = (rs, door_of s')"
    using session_run_door [OF assms(1), of calls] assms(4) by (simp_all add: split_def Let_def)
  then have q: "cmd_contents ring (gs_mem (fDevice (se_acc s'))) = concat (taken calls rs)" and ok: "ring_ok ring"
    using door_run_queue [OF s'(2)] assms(2) by (simp_all add: door_of_def pending_commands_def session_ok_def)
  have taken: "\<forall>c\<in>set (taken calls rs). serviceable V ring c" using assms(3) taken_inputs by blast
  then have "list_all proper_command (taken calls rs)" by (simp add: list_all_iff serviceable_def)
  moreover have "list_all (keeps_queue V ring) (taken calls rs)"
    using taken serviceable_keeps_queue [OF ok] by (simp add: list_all_iff)
  moreover have "dm_ring (lp_daemon host') = ring" "dm_mem (lp_daemon host') = gs_mem (fDevice (se_acc s'))"
    "lp_total host' = lp_total host"
    by (simp_all add: assms(5,6) guest_acts_def)
  ultimately show ?thesis
    using loop_processes_if [of host' "taken calls rs" V "[]"] ok q assms(7) by simp
qed

theorem submissions_are_processed_witness:
  "\<exists>s' d. snd (session_run demo_calls demo_session) = s' \<and>
     map_option lp_total (command_loop demo_vulkan (replicate 2 (\<lambda>m. m))
       (guest_acts (\<lambda>_. gs_mem (fDevice (se_acc s'))) (demo_loop demo_mem))) = Some 2"
proof -
  obtain rs s' where run: "session_run demo_calls demo_session = (rs, s')" by fastforce
  have "rs = [Answer True, Status kIOReturnNotReady, Answer True, Status kIOReturnSuccess, No_Reply,
        Status kIOReturnSuccess, Status kIOReturnSuccess]"
    using session_run_door [OF demo_session_ok demo_door(1)] demo_door(2) run by (auto simp del: session_run.simps)
  then have t: "taken demo_calls rs = [demo_ping 1, demo_ping 2]" by (simp add: demo_calls_def)
  define host' where "host' = guest_acts (\<lambda>_. gs_mem (fDevice (se_acc s'))) (demo_loop demo_mem)"
  obtain buf d where "process_all demo_vulkan (taken demo_calls rs) (lp_buf host') (lp_daemon host') = Some (buf, d)"
    by (simp add: t process_ping gravity_cmd_init_def)
  moreover have "pending_commands (se_acc demo_session) = []" by (simp add: demo_session_def)
  moreover have "\<forall>i sel bs. External_Method i sel (Some bs) \<in> set demo_calls \<longrightarrow> serviceable demo_vulkan demo_ring bs"
    by (auto simp: demo_calls_def serviceable_def gravity_cmd_init_def)
  ultimately show ?thesis
    using submissions_are_processed [OF demo_session_ok _ _ run _ host'_def] run
    by (simp add: t host'_def [symmetric] del: command_loop.simps) (simp add: host'_def guest_acts_def numeral_2_eq_2)
qed

section \<open>Two clients at the same time\<close>

text \<open>
  IOKit runs an external method on the thread that called it, and the driver takes no lock: two
  submissions can be inside \<^verbatim>\<open>gravity_ring_cmd_write\<close> at once.  Each has its own program point, the
  first one's in the state, the second one's beside it; the consumer runs along.
\<close>

inductive clients_step :: "gravity_ring \<Rightarrow> u32 \<Rightarrow> spsc \<times> producer \<Rightarrow> spsc \<times> producer \<Rightarrow> bool"
  for ring :: gravity_ring and n :: u32 where
  first: "spsc_step ring n s s' \<Longrightarrow> clients_step ring n (s, q) (s', q)"
| second: "spsc_step ring n (s\<lparr>sp_prod := q\<rparr>) s' \<Longrightarrow>
     clients_step ring n (s, q) (s'\<lparr>sp_prod := sp_prod s\<rparr>, sp_prod s')"

lemma first_runs:
  "(spsc_step ring n)\<^sup>*\<^sup>* s s' \<Longrightarrow> (clients_step ring n)\<^sup>*\<^sup>* (s, q) (s', q)"
  by (induction rule: rtranclp_induct) (auto intro: rtranclp.rtrancl_into_rtrancl first)

lemma second_runs:
  assumes "(spsc_step ring n)\<^sup>*\<^sup>* (s\<lparr>sp_prod := q\<rparr>) s'"
  shows "(clients_step ring n)\<^sup>*\<^sup>* (s, q) (s'\<lparr>sp_prod := sp_prod s\<rparr>, sp_prod s')"
  using assms
proof (induction rule: rtranclp_induct)
  case base
  then show ?case by (simp add: same_point)
next
  case (step t t')
  have "clients_step ring n (t\<lparr>sp_prod := sp_prod s\<rparr>, sp_prod t) (t'\<lparr>sp_prod := sp_prod s\<rparr>, sp_prod t')"
    using second [where s = "t\<lparr>sp_prod := sp_prod s\<rparr>" and q = "sp_prod t" and s' = t'] step.hyps(2) by (simp add: same_point)
  then show ?case using step.IH by (rule rtranclp.rtrancl_into_rtrancl [rotated])
qed

text \<open>A copy behind the tail is not seen, and a tail stored twice is the last one.\<close>

lemma copy_unseen:
  assumes "ring_ok ring" "length (cmd_contents ring m) + j + length src < unat (rg_cmd_ring_size ring) + 1"
  shows "cmd_contents ring (ring_put m (rg_cmd_ring ring) (rg_cmd_ring_mask ring)
      (get_hdr m (rg_header ring) rh_cmd_tail + of_nat j) src) = cmd_contents ring m"
  using assms(2)
proof (induction src arbitrary: m j)
  case (Cons b src)
  let ?m = "m(ring_byte ring (get_hdr m (rg_header ring) rh_cmd_tail) j := b)"
  have same: "cmd_contents ring ?m = cmd_contents ring m"
    by (rule write_byte_contents [OF assms(1)]) (use Cons.prems in simp)
  then have "length (cmd_contents ring ?m) + Suc j + length src < unat (rg_cmd_ring_size ring) + 1"
    using Cons.prems by simp
  from Cons.IH [OF this] show ?case
    unfolding write_byte_hdr [OF assms(1)] same
    by (simp add: ring_byte_def fun_upd_def add.assoc add.commute [of 1])
qed simp

lemma put_hdr_twice: "put_hdr (put_hdr m h f v) h f w = put_hdr m h f w"
  by (rule ext) (simp add: put_hdr_def st32_def wr_def)

text \<open>Both copy to the same place, the second one last, and store its tail last.\<close>

lemma both_copied:
  assumes "ring_ok ring" "length (cmd_contents ring m) + length src < unat (rg_cmd_ring_size ring)"
    and "src' \<noteq> []" "length src' \<le> unat (rg_cmd_ring_size ring) div 2"
      "length (cmd_contents ring m) + length src' < unat (rg_cmd_ring_size ring)"
  shows "cmd_contents ring
     (put_hdr (put_hdr
        (ring_put
          (ring_put m (rg_cmd_ring ring) (rg_cmd_ring_mask ring) (get_hdr m (rg_header ring) rh_cmd_tail) src)
          (rg_cmd_ring ring) (rg_cmd_ring_mask ring) (get_hdr m (rg_header ring) rh_cmd_tail) src')
        (rg_header ring) rh_cmd_tail v)
      (rg_header ring) rh_cmd_tail
      ((get_hdr m (rg_header ring) rh_cmd_tail + of_nat (length src')) AND rg_cmd_ring_mask ring)) =
     cmd_contents ring m @ src'"
proof -
  define t where "t = get_hdr m (rg_header ring) rh_cmd_tail"
  define m1 where "m1 = ring_put m (rg_cmd_ring ring) (rg_cmd_ring_mask ring) t src"
  have "length src' < 2 ^ 32" using assms(5) unsigned_less [of "rg_cmd_ring_size ring", where 'a = nat] by simp
  then have u: "unat (of_nat (length src') :: u32) = length src'" by (simp add: unat_of_nat)
  have same: "cmd_contents ring m1 = cmd_contents ring m"
    using copy_unseen [OF assms(1), of m 0 src] assms(2) by (simp add: m1_def t_def)
  have tail: "get_hdr m1 (rg_header ring) rh_cmd_tail = t"
    unfolding m1_def t_def
    by (rule ring_byte_cases [OF assms(1)]) (use ring_okD(3) [OF assms(1)] in \<open>simp add: get_hdr_ring_put\<close>)
  have z: "fst (gravity_ring_cmd_write ring m1 src' (of_nat (length src'))) = 0"
    using assms(3-5) by (simp add: cmd_write_zero_iff [OF assms(1)] u same)
  show ?thesis
    unfolding put_hdr_twice t_def [symmetric] m1_def [symmetric]
    using cmd_write_mem [OF z] cmd_write_contents [OF assms(1) z] by (simp add: Let_def tail u same)
qed

text \<open>
  C30: two clients that submit at the same time can both be told that their command was taken
  while only the second one's reaches the host: with room for either command there is an
  interleaving at whose end both are done and the ring has gained the second command only.
\<close>

theorem concurrent_submissions_collide:
  assumes "ring_ok ring" "sp_prod s = P_Idle"
    and "src \<noteq> []" "length src \<le> unat (rg_cmd_ring_size ring) div 2"
      "length (cmd_contents ring (sp_mem s)) + length src < unat (rg_cmd_ring_size ring)"
    and "src' \<noteq> []" "length src' \<le> unat (rg_cmd_ring_size ring) div 2"
      "length (cmd_contents ring (sp_mem s)) + length src' < unat (rg_cmd_ring_size ring)"
  shows "\<exists>s'. (clients_step ring n)\<^sup>*\<^sup>* (s, P_Idle) (s', P_Idle) \<and> sp_prod s' = P_Idle \<and>
     sp_sent s' = sp_sent s @ src @ src' \<and> sp_got s' = sp_got s \<and>
     cmd_contents ring (sp_mem s') = cmd_contents ring (sp_mem s) @ src'"
proof -
  let ?h = "rg_header ring" and ?put = "\<lambda>m. ring_put m (rg_cmd_ring ring) (rg_cmd_ring_mask ring)"
  define t where "t = get_hdr (sp_mem s) ?h rh_cmd_tail"
  define m1 where "m1 = ?put (sp_mem s) t src"
  define m2 where "m2 = ?put m1 t src'"
  define m3 where "m3 = put_hdr m2 ?h rh_cmd_tail ((t + of_nat (length src)) AND rg_cmd_ring_mask ring)"
  define m4 where "m4 = put_hdr m3 ?h rh_cmd_tail ((t + of_nat (length src')) AND rg_cmd_ring_mask ring)"
  define s1 where "s1 = s\<lparr>sp_prod := P_Copy src t 0\<rparr>"
  define s2 where "s2 = s\<lparr>sp_mem := m1, sp_prod := P_Copy src t (length src)\<rparr>"
  define s3 where "s3 = s\<lparr>sp_mem := m2, sp_prod := P_Copy src t (length src)\<rparr>"
  define s4 where "s4 = s\<lparr>sp_mem := m3, sp_prod := P_Idle, sp_sent := sp_sent s @ src\<rparr>"
  define s5 where "s5 = s\<lparr>sp_mem := m4, sp_prod := P_Idle, sp_sent := sp_sent s @ src @ src'\<rparr>"
  have idle: "s\<lparr>sp_prod := P_Idle\<rparr> = s" using assms(2) by (simp add: same_point)
  have half: "unat (rg_cmd_ring_size ring div 2) = unat (rg_cmd_ring_size ring) div 2" by (simp add: unat_div)
  have space: "unat (gravity_ring_cmd_space ring (sp_mem s)) =
      unat (rg_cmd_ring_size ring) - 1 - length (cmd_contents ring (sp_mem s))"
    by (rule cmd_space_eq [OF assms(1)])
  have starts: "spsc_step ring n s (s\<lparr>sp_prod := P_Copy xs t 0\<rparr>)"
    if "xs \<noteq> []" "length xs \<le> unat (rg_cmd_ring_size ring) div 2"
      "length (cmd_contents ring (sp_mem s)) + length xs < unat (rg_cmd_ring_size ring)" for xs
    unfolding t_def by (rule write_begin [OF assms(2) that(1)]) (use that space half in simp_all)
  have "clients_step ring n (s, P_Idle) (s1, P_Idle)"
    unfolding s1_def by (rule first [OF starts]) fact+
  moreover have "clients_step ring n (s1, P_Idle) (s1, P_Copy src' t 0)"
    using second [where s = s1 and q = P_Idle and s' = "s\<lparr>sp_prod := P_Copy src' t 0\<rparr>"] starts [OF assms(6-8)] idle
    by (simp add: s1_def)
  moreover have "(clients_step ring n)\<^sup>*\<^sup>* (s1, P_Copy src' t 0) (s2, P_Copy src' t 0)"
    using first_runs [OF write_bytes_steps [of s1 src t 0 ring n]] by (simp add: s1_def s2_def m1_def)
  moreover have "(clients_step ring n)\<^sup>*\<^sup>* (s2, P_Copy src' t 0) (s3, P_Copy src' t (length src'))"
    using second_runs [OF write_bytes_steps [of "s2\<lparr>sp_prod := P_Copy src' t 0\<rparr>" src' t 0 ring n]]
    by (simp add: s2_def s3_def m2_def)
  moreover have "clients_step ring n (s3, P_Copy src' t (length src')) (s4, P_Copy src' t (length src'))"
    using first [OF write_publish [of s3 src t ring n]] idle by (simp add: s2_def s3_def s4_def m3_def)
  moreover have "clients_step ring n (s4, P_Copy src' t (length src')) (s5, P_Idle)"
    using second [OF write_publish [of "s4\<lparr>sp_prod := P_Copy src' t (length src')\<rparr>" src' t ring n]] assms(2)
    by (simp add: s4_def s5_def m4_def same_point)
  ultimately have run: "(clients_step ring n)\<^sup>*\<^sup>* (s, P_Idle) (s5, P_Idle)"
    by (meson converse_rtranclp_into_rtranclp rtranclp.rtrancl_into_rtrancl rtranclp_trans)
  have "cmd_contents ring m4 = cmd_contents ring (sp_mem s) @ src'"
    unfolding m4_def m3_def m2_def m1_def t_def by (rule both_copied [OF assms(1,5-8)])
  then show ?thesis using run assms(2) by (intro exI [of _ s5]) (simp add: s5_def)
qed

theorem concurrent_submissions_collide_witness:
  "\<exists>s'. (clients_step demo_ring 64)\<^sup>*\<^sup>* (spsc_start demo_mem, P_Idle) (s', P_Idle) \<and>
     sp_sent s' = demo_ping 1 @ demo_ping 2 \<and> cmd_contents demo_ring (sp_mem s') = demo_ping 2"
proof -
  have "demo_ping i \<noteq> []" for i using length_demo_ping [of i] by (metis list.size(3) zero_neq_numeral)
  then show ?thesis
    using concurrent_submissions_collide [OF demo_ok, of "spsc_start demo_mem" "demo_ping 1" "demo_ping 2" 64] demo_attach
    by (auto simp: spsc_start_def)
qed

end
