(* ===== verification/Tools_And_Tests.thy ===== *)
theory Tools_And_Tests
  imports Ring_Fifo Gravity_Formats Vk_Device
begin

text \<open>
  The trace tool, the unit tests as boolean definitions (each the conjunction of its
  assertions), and the daemon's empty stubs for shaders and presentation.
\<close>

section \<open>The trace tool\<close>

text \<open>
  \<^verbatim>\<open>main\<close> of \<^verbatim>\<open>tools/gravity-trace.c\<close>: \<open>fd\<close>, \<open>sz\<close> and \<open>ptr\<close> are what \<^verbatim>\<open>open\<close>, \<^verbatim>\<open>lseek\<close> and \<^verbatim>\<open>mmap\<close>
  answer (a mapping failed for -1), \<open>m\<close> is the memory behind \<open>ptr\<close>.  The result is the exit
  status and the numbers printed, if any.
\<close>

definition trace_main :: "int \<Rightarrow> int \<Rightarrow> int \<Rightarrow> mem \<Rightarrow> int \<times> u32 list option" where
  "trace_main fd sz ptr m =
     (if fd < 0 then (1, None)
      else if sz \<le> 0 then (1, None)
      else if ptr = -1 then (1, None)
      else
        let hdr = get_hdr m (nat ptr)
        in if hdr rh_magic \<noteq> GRAVITY_PROTOCOL_MAGIC then (1, None)
           else (0, Some [drop_bit 16 (hdr rh_version), hdr rh_version AND 0xFFFF,
                          hdr rh_cmd_head, hdr rh_cmd_tail, hdr rh_cmd_ring_size,
                          hdr rh_comp_head, hdr rh_comp_tail, hdr rh_comp_ring_size]))"

text \<open>
  the trace tool refuses every ring the host initialises: it compares the ring header's magic
  number with the protocol's, so memory that attachment accepts ends it with status 1 and no
  output.
\<close>

lemma trace_refuses_rings:
  assumes "gravity_ring_attach m (nat ptr) = Some ring"
  shows "trace_main fd sz ptr m = (1, None)"
  using assms by (auto simp: gravity_ring_attach_def trace_main_def Let_def GRAVITY_RING_MAGIC_def
      GRAVITY_PROTOCOL_MAGIC_def split: if_splits)

lemma trace_refuses_rings_witness: "trace_main 3 1024 0 demo_mem = (1, None)"
  using trace_refuses_rings [of demo_mem 0 demo_ring 3 1024] demo_attach by simp

section \<open>Unit tests\<close>

definition test_command_init :: bool where
  "test_command_init \<longleftrightarrow>
     (let hdr = gravity_cmd_init (gravity_cmd_op_val GRAVITY_CMD_HELLO) 16 42
      in hdr_opcode hdr = gravity_cmd_op_val GRAVITY_CMD_HELLO \<and> hdr_size hdr = 16 \<and> hdr_sequence hdr = 42)"

definition test_command_validation :: bool where
  "test_command_validation \<longleftrightarrow>
     (let hdr = gravity_cmd_init (gravity_cmd_op_val GRAVITY_CMD_HELLO) 16 1;
          bad = hdr\<lparr>hdr_opcode := gravity_cmd_op_val GRAVITY_CMD_MAX\<rparr>
      in gravity_cmd_validate (Some hdr) 16 = 0 \<and>
         gravity_cmd_validate (Some hdr) (16 - 1) = -1 \<and>
         gravity_cmd_validate (Some hdr) (of_nat sizeof_cmd_header - 1) = -1 \<and>
         gravity_cmd_validate (Some bad) 16 = -1)"

definition test_format_mapping :: bool where
  "test_format_mapping \<longleftrightarrow>
     gravity_metal_to_vk_pixel_format (gravity_pixel_format_val GRAVITY_PIXEL_FORMAT_RGBA8_UNORM) = 37 \<and>
     gravity_metal_to_vk_vertex_format (gravity_vertex_format_val GRAVITY_VERTEX_FORMAT_FLOAT3) = 106 \<and>
     gravity_pixel_format_is_depth_stencil (gravity_pixel_format_val GRAVITY_PIXEL_FORMAT_DEPTH32_FLOAT) \<and>
     \<not> gravity_pixel_format_is_depth_stencil (gravity_pixel_format_val GRAVITY_PIXEL_FORMAT_RGBA8_UNORM)"

definition test_ring :: "mem \<Rightarrow> nat \<Rightarrow> (int \<times> mem) option" where
  "test_ring m shmem = gravity_ring_init_host m shmem (10 * 1024 * 1024) (4 * 1024 * 1024) (1 * 1024 * 1024)"

definition test_ring_init_attach :: "mem \<Rightarrow> nat \<Rightarrow> bool" where
  "test_ring_init_attach m shmem \<longleftrightarrow>
     (case test_ring m shmem of
        None \<Rightarrow> False
      | Some (ret, m) \<Rightarrow>
          ret = 0 \<and>
          (case gravity_ring_attach m shmem of
             None \<Rightarrow> False
           | Some ring \<Rightarrow>
               rg_cmd_ring_size ring = 4 * 1024 * 1024 \<and> rg_comp_ring_size ring = 1 * 1024 * 1024 \<and>
               rg_data_region_size ring = 10 * 1024 * 1024 - 64 - 4 * 1024 * 1024 - 1 * 1024 * 1024))"

definition test_data :: "u8 list" where
  "test_data = le_bytes 4 (0xDEADBEEF :: u32) @ le_bytes 4 (0xCAFEBABE :: u32) @ le_bytes 4 (0x12345678 :: u32)"

definition test_ring_read_write :: "mem \<Rightarrow> nat \<Rightarrow> mem \<Rightarrow> bool" where
  "test_ring_read_write m shmem read_buf \<longleftrightarrow>
     (case test_ring m shmem of
        None \<Rightarrow> False
      | Some (_, m) \<Rightarrow>
          (case gravity_ring_attach m shmem of
             None \<Rightarrow> False
           | Some ring \<Rightarrow>
               let (ret, m) = gravity_ring_cmd_write ring m test_data 12;
                   (peeked, read_buf) = gravity_ring_cmd_peek ring m read_buf 12;
                   m2 = gravity_ring_cmd_consume ring m 12;
                   (again, _) = gravity_ring_cmd_peek ring m2 read_buf 12
               in ret = 0 \<and> peeked \<and> rd read_buf 0 12 = test_data \<and> \<not> again))"

lemma test_ring_sizes: "round_pow2 (4 * 1024 * 1024) = Some 0x400000" "round_pow2 (1 * 1024 * 1024) = Some 0x100000"
  using round_pow2_exact [of 22] round_pow2_exact [of 20] by simp_all

text \<open>
  the protocol tests and the first ring test pass wherever the memory lies; the second ring
  test fails at its peek: it writes 12 bytes, fewer than a command header, which the ring
  takes and peek does not return.
\<close>

lemma unit_tests:
  "test_command_init \<and> test_command_validation \<and> test_format_mapping \<and>
   test_ring_init_attach m shmem \<and> \<not> test_ring_read_write m shmem read_buf"
proof (intro conjI)
  show test_command_init by (simp add: test_command_init_def gravity_cmd_init_def)
  show test_command_validation by code_simp
  show test_format_mapping by code_simp
  obtain m' where m': "test_ring m shmem = Some (0, m')"
    "gravity_ring_attach m' shmem = Some (init_ring shmem (10 * 1024 * 1024) 0x400000 0x100000)"
    "cmd_contents (init_ring shmem (10 * 1024 * 1024) 0x400000 0x100000) m' = []"
    using init_host_attach [OF test_ring_sizes, of "10 * 1024 * 1024" m shmem] by (auto simp: test_ring_def)
  let ?r = "init_ring shmem (10 * 1024 * 1024) 0x400000 0x100000"
  have ok: "ring_ok ?r" by (rule init_ring_ok [OF test_ring_sizes])
  show "test_ring_init_attach m shmem"
    by (simp add: test_ring_init_attach_def m'(1,2)) (simp add: init_ring_def)
  let ?w = "gravity_ring_cmd_write ?r m' test_data 12"
  have "length (cmd_contents ?r (snd ?w)) < 16"
  proof (cases "fst ?w = 0")
    case True
    then show ?thesis using cmd_write_contents [OF ok True] m'(3) by (simp add: test_data_def)
  next
    case False
    then show ?thesis using cmd_write_fail [OF False] m'(3) by simp
  qed
  then have "\<not> fst (gravity_ring_cmd_peek ?r (snd ?w) read_buf 12)"
    using length_cmd_contents [of ?r "snd ?w"]
    by (simp add: gravity_ring_cmd_peek_def Let_def sizeof_cmd_header_def word_less_nat_alt)
  then show "\<not> test_ring_read_write m shmem read_buf"
    by (simp add: test_ring_read_write_def m'(1,2) split: prod.split) auto
qed

section \<open>Stubs\<close>

definition gravity_fb_present :: "gravity_vk_state \<Rightarrow> u64 \<Rightarrow> gravity_vk_state" where
  "gravity_fb_present vk img = vk"

text \<open>The result pointer is null and the size 0, whatever the source.\<close>

definition gravity_compile_msl_to_spirv :: "string \<Rightarrow> u8 list option \<times> u64" where
  "gravity_compile_msl_to_spirv msl_source = (None, 0)"

end
