(* ===== verification/Spec2Isabelle.thy ===== *)
theory Spec2Isabelle
  imports Ring_Fifo Ring_Spsc Comp_Spsc Spsc_Messages Gpu_View Concurrent_Daemon Concurrent_Progress
    Concurrent_Answers Tracker_Contract Metal_To_Vulkan Vk_Device Vk_Lifecycle Soft_Float Protocol_Props Cmd_Props
    Gpu_Objects Render_Props Daemon_Props Daemon_Life Handle_Types Daemon_Safety Qemu_Props Guest_Props
    Protocol_Constants Device_Class Client_Session Tools_And_Tests
begin

text \<open>
  GravityGPU lets a macOS guest render on the host's GPU.  A driver in the guest writes Metal
  commands into a ring in shared memory; a virtual PCI device of QEMU provides that memory and a
  few registers; a daemon on the host reads the commands, translates them to Vulkan calls and
  writes completions into a second ring.  This library models that program and states what makes
  it correct, and where it is not.

  \<^bold>\<open>Parts and theories\<close>, in the order they build on each other (paths under \<^verbatim>\<open>src/\<close>):

  \<^item> \<open>Gravity_Prelude\<close>: C integers as words, byte memories, little-endian loads and stores, the
    collection \<open>mem_simps\<close>, arithmetic of masks.
  \<^item> \<open>Gravity_Protocol\<close>, \<open>Protocol_Props\<close>: \<^verbatim>\<open>protocol/include/gravity_protocol.h\<close> and
    \<^verbatim>\<open>protocol/src/gravity_protocol.c\<close>.  Enumerations are datatypes with their values, packed
    structures are records with a decoder from memory at the structure's offsets
    (\<open>gravity_cmd_..._at\<close>) and an encoder (\<open>gravity_cmd_..._bytes\<close>).
  \<^item> \<open>Packed_Layout\<close>, \<open>Protocol_Structs\<close>, \<open>Protocol_Layout\<close>, \<open>Protocol_Constants\<close>: the rest of that header.
    The locale \<open>packed\<close> is the contract of a packed structure (width, decoding, wire bytes); it is
    interpreted on every structure, which gives round trips and that decoding is local.
  \<^item> \<open>Ring_Core\<close>, \<open>Gravity_Ring\<close>, \<open>Ring_Fifo\<close>, \<open>Ring_Spsc\<close>, \<open>Comp_Spsc\<close>:
    \<^verbatim>\<open>protocol/include/gravity_ring.h\<close>.  The
    ring context is a record, the shared memory a function from addresses to bytes.
    \<open>cmd_contents\<close> and \<open>comp_contents\<close> are the bytes between the indices, \<open>ring_ok\<close> what attachment
    must leave behind.  The locale \<open>message_queue\<close> is the contract of both rings, interpreted on
    each; \<open>Ring_Spsc\<close> and \<open>Comp_Spsc\<close> cut the routines into single accesses and interleave both
    sides of each ring, and of both rings together; \<open>Spsc_Messages\<close> (behind the daemon) puts the
    daemon's loop in place of the consumer.
  \<^item> \<open>Resource_Tracker\<close>, \<open>Tracker_Contract\<close>: \<^verbatim>\<open>host-daemon/src/resource_tracker.c\<close>.  The union of
    an entry is its bytes.  \<open>trk_ok\<close> is the invariant every operation keeps, \<open>trk_strong\<close> the one
    under which the tracker refines a finite map (locale \<open>handle_map\<close>).
  \<^item> \<open>Gravity_Formats\<close>, \<open>Metal_To_Vulkan\<close>: the format tables and conversions
    (\<^verbatim>\<open>protocol/src/gravity_formats.c\<close>, \<^verbatim>\<open>host-daemon/src/metal_to_vulkan.c\<close>).
  \<^item> \<open>Vulkan_Api\<close>, \<open>Vk_Device\<close>, \<open>Vk_Lifecycle\<close>, \<open>Soft_Float\<close>: the Vulkan calls the daemon makes, device
    set-up and teardown (\<^verbatim>\<open>host-daemon/src/vk_device.c\<close>), the objects alive between them
    (\<open>setup_alive\<close>), and binary32 addition and negation on bit patterns.
  \<^item> \<open>Cmd_Processor\<close>, \<open>Cmd_Props\<close>, \<open>Gpu_Objects\<close>, \<open>Render_Props\<close>:
    \<^verbatim>\<open>host-daemon/src/cmd_processor.c\<close>, one definition per handler on the daemon's state
    \<open>gravity_daemon\<close>.  The locales \<open>handler_frame\<close> and \<open>handler_invariant\<close> say by which steps the
    handlers change that state; an invariant closed under these is kept by every handler.
  \<^item> \<open>Host_Os\<close>, \<open>Daemon\<close>, \<open>Daemon_Props\<close>, \<open>Daemon_Life\<close>: \<^verbatim>\<open>host-daemon/src/main.c\<close>: options, shared
    memory, dispatch, command loop, start and shutdown.
  \<^item> \<open>Handle_Types\<close>, \<open>Daemon_Safety\<close>: a type discipline for handles under which every Vulkan call is on
    live objects of the right kind, and what of the memory and of the command buffer the daemon's
    loop depends on and changes.
  \<^item> \<open>Gpu_View\<close>, \<open>Concurrent_Daemon\<close>, \<open>Concurrent_Progress\<close>, \<open>Concurrent_Answers\<close>: the daemon's loop
    (\<^verbatim>\<open>command_loop\<close>) at work while the guest uses both rings, every access to the command ring and
    every access of the guest to the completion ring a step of its own.  \<open>gpu_view\<close> is the daemon
    without the shared memory, \<open>process_all\<close> the sequential handling the runs are compared with,
    \<open>answer\<close> the completion a command calls for, \<open>moves_left\<close> the measure of progress.  The
    processing of one command is one step: it neither reads nor writes the command ring, and the
    completion it writes is published by a single store of the index (\<open>Comp_Spsc\<close> has its bytes
    as steps).
  \<^item> \<open>Qemu_Device\<close>, \<open>Qemu_Props\<close>: \<^verbatim>\<open>qemu-patches/hw/display/gravity-gpu.c\<close>: registers, memory window,
    interrupts, realize, exit, reset.
  \<^item> \<open>Device_Class\<close>: the same file's class, properties and migrated fields, and the empty function of
    \<^verbatim>\<open>gravity-gpu-pci.c\<close>.
  \<^item> \<open>Guest_Driver\<close>, \<open>Guest_Props\<close>: \<^verbatim>\<open>guest-driver/GravityGPU\<close> and \<^verbatim>\<open>guest-userspace/main.cpp\<close>, and the
    composition of driver, device and daemon.
  \<^item> \<open>Client_Session\<close>: the user clients (\<^verbatim>\<open>GravityGPUUserClient.cpp\<close>) as sessions over one accelerator,
    and two clients inside \<^verbatim>\<open>gravity_ring_cmd_write\<close> at the same time.
  \<^item> \<open>Tools_And_Tests\<close>: \<^verbatim>\<open>tools/gravity-trace.c\<close>, \<^verbatim>\<open>tests\<close>, and the daemon's stubs.

  \<^bold>\<open>Parameters.\<close>  The Vulkan driver is a function from the calls made so far and the present call to
  a reply, the operating system likewise; states carry the calls made.  Whether QEMU's
  \<^verbatim>\<open>pci_register_bar\<close> returns for a region is a parameter too (\<open>bar_taken\<close>).  What is assumed of them:
  \<^verbatim>\<open>mmap\<close> answers \<^verbatim>\<open>MAP_FAILED\<close> or a positive address (\<open>maps_positive\<close>); for the claim which
  devices come up, the calls succeed (\<open>os_willing\<close>) and QEMU takes the regions whose size is a
  power of two (\<open>bars_documented\<close>); for the claims about a daemon next to a
  working guest, \<^verbatim>\<open>vkMapMemory\<close> maps outside the rings (\<open>maps_apart\<close>); for the teardown, a
  creation yields a null handle exactly when it fails (\<open>driver_handles\<close>).  QEMU's transfer of a state
  is a parameter that copies the listed fields (\<open>copies_fields\<close>).  What the guest does to the
  memory between two iterations of the daemon's loop is an arbitrary function.  Where both sides
  interleave, the relations \<open>guest_move\<close>, \<open>concurrent_step\<close> and \<open>serve_step\<close> take as an argument the
  condition on the commands the guest hands to \<^verbatim>\<open>gravity_ring_cmd_write\<close>, which itself checks none;
  the theorems state theirs, \<open>whole_command\<close>: a valid header, the command's exact length, at most
  64 KiB, and as long as its structure.

  \<^bold>\<open>What the theorems show.\<close>
  Transport: initialisation and attachment agree; both rings are FIFOs of whole messages in any
  order of operations, and remain so when both sides of both interleave at every byte; data
  stored is read back; accesses stay inside.
  Tracker: its invariant holds after any operations; within the room of its hash table it refines
  a map of handles, and removal keeps the others findable exactly when no other probe path
  passes the freed slot.
  Handlers: creations are all or nothing in terms of the Vulkan objects alive; commit, completion,
  render pass state and image layouts on every branch.
  Daemon: runs keep the invariants whatever the guest writes; whole valid commands are
  processed in order, each independently of its predecessors; an iteration writes nothing of the
  shared memory but the head of the command ring and the completion ring, and for a
  \<^verbatim>\<open>CREATE_BUFFER\<close> the initial data, wherever the driver mapped the buffer; with handles of the
  right types every Vulkan call is on live objects; start and shutdown leave nothing open, and the
  teardown destroys what the initialisation created.
  Concurrency: next to a guest that writes whole commands only, and with memory mapped outside
  the rings, the Vulkan calls and resources are those
  of handling the consumed commands one after the other, whatever the interleaving; the command
  at the front is consumed after a bounded number of the loop's own steps; the guest reads the
  answers to its commands, whole and in order.
  Device and driver: register file, memory window, interrupt line, realize, exit and reset; the
  driver's start on every path, which of them leave a region mapped, and that it ends whatever the
  host does; the three parts together complete the
  handshake.  A device comes up for 8, 16, and so on up to 2048 megabytes and no other size, and
  after a migration its registers behave as before.  User clients refine a door before a queue;
  of proper commands, those reported as taken are what the daemon processes.
  Errors: commands larger than the loop's buffer stall the daemon, invalid headers lose the
  framing, truncated commands are completed with stale bytes, a handle of the wrong type is used
  as if it were right, simultaneous submissions lose a command, destroyed resources leave their
  Vulkan objects, render passes with more than eight attachments overrun an array, the test
  application's ping is never answered, the trace tool refuses every ring.

  \<^bold>\<open>Loops and bounds.\<close>  The copy loops, probe loops and table searches are terminating functions.
  The loop that rounds ring sizes up may not end and is a \<open>while_option\<close>: \<open>ring_size_rounding\<close>
  says for which sizes it returns.  The daemon's loop is a run over a list of iterations, one
  element each, the list ending when a signal clears \<^verbatim>\<open>g_running\<close>; no fuel is involved.  Next to a
  working guest a command of \<open>n\<close> bytes is consumed within \<open>n + 5\<close> steps of the loop.  The
  driver's wait is bounded by its own 1000 looks.  \<open>None\<close> as result of a handler is the
  overrun of the attachment array, which C leaves undefined.

  \<^bold>\<open>Not modelled.\<close>  Log output; the memory barriers, beyond the order of accesses they guarantee on
  x86; the call that registers the device's type with QEMU, QEMU's own work on the regions and
  IOKit's own work, whose answers are arguments; Vulkan's debug callback; the stubs of
  \<^verbatim>\<open>shader_cache.c\<close>, which have empty bodies; files generated by CMake under \<^verbatim>\<open>build\<close>.
\<close>

end
